(* ===== verification/Prelude.thy ===== *)
theory Prelude
  imports Main "HOL-Library.Word"
begin

text \<open>
  Generic facts shared by every component: machine words and their big-endian byte strings,
  Rust strings and their bytes, the decimal and hexadecimal printers used by \<open>format!\<close> and
  \<open>hex::encode\<close>, results (\<open>'e + 'a\<close>, where \<open>Inl\<close> is \<open>Err\<close>), and the first-match lookup of an
  association list.

  A Rust array \<open>[u8; N]\<close> is the word of \<open>8 * N\<close> bits whose big-endian bytes are the array.  The
  representation is exact (the byte string of such a word has exactly \<open>N\<close> entries and determines
  the word), the lexicographic order of two such arrays is the unsigned order of the words, and
  the byte-wise exclusive or is the exclusive or of the words.
\<close>

named_theorems enc_inject "cancellation of canonical encodings at the head of a byte string"
named_theorems enc_length "lengths of fixed-size encodings"
named_theorems result_simps "case analysis of fallible operations"

unbundle bit_operations_syntax

type_synonym byte = "8 word"
type_synonym u8 = "8 word"
type_synonym u16 = "16 word"
type_synonym u32 = "32 word"
type_synonym u64 = "64 word"
type_synonym bytes16 = "128 word"
type_synonym bytes32 = "256 word"

section \<open>Big-endian bytes of a word\<close>

definition be_bytes :: "nat \<Rightarrow> 'a::len word \<Rightarrow> byte list" where
  "be_bytes n w = map (\<lambda>i. ucast (drop_bit (8 * (n - 1 - i)) w)) [0..<n]"

abbreviation be16 :: "u16 \<Rightarrow> byte list" where "be16 \<equiv> be_bytes 2"
abbreviation be32 :: "u32 \<Rightarrow> byte list" where "be32 \<equiv> be_bytes 4"
abbreviation be64 :: "u64 \<Rightarrow> byte list" where "be64 \<equiv> be_bytes 8"
abbreviation arr16 :: "bytes16 \<Rightarrow> byte list" where "arr16 \<equiv> be_bytes 16"
abbreviation arr32 :: "bytes32 \<Rightarrow> byte list" where "arr32 \<equiv> be_bytes 32"

lemma length_be_bytes [simp, enc_length]: "length (be_bytes n w) = n"
  by (simp add: be_bytes_def)

lemma be_bytes_inject:
  fixes v w :: "'a::len word"
  assumes len: "LENGTH('a) = 8 * n" and eq: "be_bytes n v = be_bytes n w"
  shows "v = w"
proof (rule bit_word_eqI)
  fix k
  assume k: "k < LENGTH('a)"
  define i where "i = n - 1 - k div 8"
  have n: "k div 8 < n" using k len by simp
  then have i: "i < n" and ibk: "n - 1 - i = k div 8" by (auto simp: i_def)
  from eq i have "be_bytes n v ! i = be_bytes n w ! i" by simp
  then have "(ucast (drop_bit (8 * (k div 8)) v) :: byte) = ucast (drop_bit (8 * (k div 8)) w)"
    using i ibk by (simp add: be_bytes_def)
  then have "bit (ucast (drop_bit (8 * (k div 8)) v) :: byte) (k mod 8) =
    bit (ucast (drop_bit (8 * (k div 8)) w) :: byte) (k mod 8)"
    by simp
  then show "bit v k = bit w k"
    by (simp add: bit_ucast_iff bit_drop_bit_eq)
qed

lemma be_bytes_eq_iff [simp]:
  fixes v w :: "'a::len word"
  assumes "LENGTH('a) = 8 * n"
  shows "be_bytes n v = be_bytes n w \<longleftrightarrow> v = w"
  using be_bytes_inject assms by blast

lemma append_cancel_fixed:
  "length xs = length ys \<Longrightarrow> xs @ us = ys @ vs \<longleftrightarrow> xs = ys \<and> us = vs"
  by simp

lemma be_bytes_append_inject [enc_inject]:
  fixes v w :: "'a::len word"
  assumes "LENGTH('a) = 8 * n"
  shows "be_bytes n v @ xs = be_bytes n w @ ys \<longleftrightarrow> v = w \<and> xs = ys"
  using assms by (simp add: append_cancel_fixed)

text \<open>Reading a big-endian byte string back.\<close>

definition be_word :: "byte list \<Rightarrow> 'a::len word" where
  "be_word bs = fold (\<lambda>b w. push_bit 8 w OR ucast b) bs 0"

lemma be_bytes_Suc: "be_bytes (Suc n) w = ucast (drop_bit (8 * n) w) # be_bytes n w"
proof -
  have "map (\<lambda>i. ucast (drop_bit (8 * (n - i)) w) :: byte) [Suc 0..<Suc n] = be_bytes n w"
    by (simp add: be_bytes_def map_Suc_upt [symmetric] comp_def del: upt_Suc map_Suc_upt)
  then show ?thesis
    by (simp add: be_bytes_def upt_conv_Cons del: upt_Suc)
qed

lemma fold_be_bytes:
  fixes w acc :: "'a::len word"
  shows "fold (\<lambda>b w. push_bit 8 w OR ucast b) (be_bytes n w) acc =
    push_bit (8 * n) acc OR take_bit (8 * n) w"
proof (induction n arbitrary: acc)
  case (Suc n)
  have "push_bit (8 * n) (push_bit 8 acc OR ucast (ucast (drop_bit (8 * n) w) :: byte)) OR take_bit (8 * n) w =
      push_bit (8 * Suc n) acc OR take_bit (8 * Suc n) w"
    by (rule bit_word_eqI)
      (auto simp: bit_simps add.commute)
  then show ?case by (simp add: be_bytes_Suc Suc.IH)
qed (simp add: be_bytes_def)

lemma be_word_be_bytes:
  fixes w :: "'a::len word"
  assumes "LENGTH('a) = 8 * n"
  shows "be_word (be_bytes n w) = w"
proof -
  have "take_bit (8 * n) w = w" unfolding assms [symmetric] by simp
  then show ?thesis by (simp add: be_word_def fold_be_bytes)
qed

lemma be_word_snoc: "be_word (bs @ [b]) = push_bit 8 (be_word bs) OR ucast b"
  by (simp add: be_word_def)

lemma bit_be_word:
  assumes "i < length bs" "j < 8" "8 * length bs \<le> LENGTH('a)"
  shows "bit (be_word bs :: 'a::len word) (8 * (length bs - 1 - i) + j) = bit (bs ! i) j"
  using assms
proof (induction bs arbitrary: i rule: rev_induct)
  case (snoc b bs)
  have low: "\<not> bit b k" if "8 \<le> k" for k using that bit_imp_le_length[of b k] by auto
  show ?case
  proof (cases "i = length bs")
    case True
    with snoc.prems show ?thesis by (simp add: be_word_snoc bit_simps)
  next
    case False
    then have i: "i < length bs" using snoc.prems by simp
    define k where "k = 8 * (length bs - 1 - i) + j"
    have k: "8 * (length (bs @ [b]) - 1 - i) + j = k + 8" using i by (simp add: k_def)
    have "k + 8 < LENGTH('a)" using i snoc.prems by (simp add: k_def)
    then have "bit (be_word (bs @ [b]) :: 'a word) (k + 8) = bit (be_word bs :: 'a word) k"
      using low[of "k + 8"] by (simp add: be_word_snoc bit_simps)
    moreover have "bit (be_word bs :: 'a word) k = bit (bs ! i) j"
      unfolding k_def using snoc.IH[OF i] snoc.prems by simp
    ultimately show ?thesis unfolding k using i by (simp add: nth_append)
  qed
qed simp

lemma be_bytes_be_word:
  assumes "length bs = n" "LENGTH('a) = 8 * n"
  shows "be_bytes n (be_word bs :: 'a::len word) = bs"
proof (rule nth_equalityI)
  fix i assume "i < length (be_bytes n (be_word bs :: 'a word))"
  then have i: "i < n" by simp
  have "be_bytes n (be_word bs :: 'a word) ! i = ucast (drop_bit (8 * (n - 1 - i)) (be_word bs :: 'a word))"
    using i by (simp add: be_bytes_def)
  also have "\<dots> = bs ! i"
  proof (rule bit_word_eqI)
    fix j assume j: "j < LENGTH(8)"
    then have "8 * (n - 1 - i) + j < LENGTH('a)" using i assms by simp
    then show "bit (ucast (drop_bit (8 * (n - 1 - i)) (be_word bs :: 'a word)) :: byte) j = bit (bs ! i) j"
      using bit_be_word[of i bs j, where 'a = 'a] i j assms by (simp add: bit_simps)
  qed
  finally show "be_bytes n (be_word bs :: 'a word) ! i = bs ! i" .
qed (simp add: assms)

text \<open>The \<open>as u64\<close> cast of a length is exact below \<open>2 ^ 64\<close>.\<close>

lemma of_nat_u64_inject:
  "m < 2 ^ 64 \<Longrightarrow> n < 2 ^ 64 \<Longrightarrow> (of_nat m :: u64) = of_nat n \<longleftrightarrow> m = n"
  by (simp add: word_of_nat_eq_iff take_bit_nat_eq_self)

lemma of_nat_u32_inject:
  "m < 2 ^ 32 \<Longrightarrow> n < 2 ^ 32 \<Longrightarrow> (of_nat m :: u32) = of_nat n \<longleftrightarrow> m = n"
  by (simp add: word_of_nat_eq_iff take_bit_nat_eq_self)

section \<open>Length-prefixed and repeated fields\<close>

definition lp64 :: "byte list \<Rightarrow> byte list" where
  "lp64 d = be64 (of_nat (length d)) @ d"

lemma lp64_append_inject [enc_inject]:
  assumes "length a < 2 ^ 64" "length b < 2 ^ 64"
  shows "lp64 a @ xs = lp64 b @ ys \<longleftrightarrow> a = b \<and> xs = ys"
  using assms by (auto simp: lp64_def enc_inject of_nat_u64_inject)

lemma lp64_inject [enc_inject]:
  assumes "length a < 2 ^ 64" "length b < 2 ^ 64"
  shows "lp64 a = lp64 b \<longleftrightarrow> a = b"
  using lp64_append_inject[OF assms, of "[]" "[]"] by simp

definition lp32 :: "byte list \<Rightarrow> byte list" where
  "lp32 d = be32 (of_nat (length d)) @ d"

lemma lp32_append_inject [enc_inject]:
  assumes "length a < 2 ^ 32" "length b < 2 ^ 32"
  shows "lp32 a @ xs = lp32 b @ ys \<longleftrightarrow> a = b \<and> xs = ys"
  using assms by (auto simp: lp32_def enc_inject of_nat_u32_inject)

lemma concat_map_fixed_inject:
  assumes len: "\<And>x. length (f x) = n" and inj: "inj f"
    and "length as = length bs"
  shows "concat (map f as) @ xs = concat (map f bs) @ ys \<longleftrightarrow> as = bs \<and> xs = ys"
  using assms(3)
proof (induction as bs rule: list_induct2)
  case (Cons a as b bs)
  then show ?case using inj by (auto simp: append_cancel_fixed len dest: injD)
qed simp

text \<open>A counted vector of fixed-size fields: the count, then every field.\<close>

lemma counted_inject:
  assumes "\<And>x. length (f x) = n" "inj f" "length as < 2 ^ 64" "length bs < 2 ^ 64"
  shows "be64 (of_nat (length as)) @ concat (map f as) @ xs =
    be64 (of_nat (length bs)) @ concat (map f bs) @ ys \<longleftrightarrow> as = bs \<and> xs = ys"
  using assms(3,4) concat_map_fixed_inject[OF assms(1,2), of as bs xs ys]
  by (auto simp: enc_inject of_nat_u64_inject)

section \<open>Strings\<close>

text \<open>A Rust string is the list of its UTF-8 bytes, written as 8-bit characters.\<close>

definition str_bytes :: "string \<Rightarrow> byte list" where
  "str_bytes s = map (\<lambda>c. of_nat (of_char c)) s"

lemma length_str_bytes [simp]: "length (str_bytes s) = length s"
  by (simp add: str_bytes_def)

lemma of_char_byte_inject: "(of_nat (of_char c) :: byte) = of_nat (of_char d) \<longleftrightarrow> c = d"
proof -
  have "(of_char c :: nat) < 2 ^ 8" "(of_char d :: nat) < 2 ^ 8"
    using nat_of_char_less_256[of c] nat_of_char_less_256[of d] by simp_all
  then show ?thesis by (simp add: word_of_nat_eq_iff take_bit_nat_eq_self)
qed

lemma str_bytes_eq_iff [simp]: "str_bytes s = str_bytes t \<longleftrightarrow> s = t"
proof -
  have "inj (\<lambda>c. of_nat (of_char c) :: byte)" by (auto intro!: injI simp: of_char_byte_inject)
  then show ?thesis by (simp add: str_bytes_def)
qed

fun digit_char :: "nat \<Rightarrow> char" where
  "digit_char n = char_of (48 + n)"

text \<open>Decimal printing of an unsigned integer.\<close>

fun dec_str :: "nat \<Rightarrow> string" where
  "dec_str n = (if n < 10 then [digit_char n] else dec_str (n div 10) @ [digit_char (n mod 10)])"

declare dec_str.simps [simp del]

definition hex_digit :: "nat \<Rightarrow> char" where
  "hex_digit n = (if n < 10 then char_of (48 + n) else char_of (87 + n))"

definition hex_of_byte :: "byte \<Rightarrow> string" where
  "hex_of_byte b = [hex_digit (unat b div 16), hex_digit (unat b mod 16)]"

definition hex_encode :: "byte list \<Rightarrow> string" where
  "hex_encode bs = concat (map hex_of_byte bs)"

lemma hex_digit_inject: "m < 16 \<Longrightarrow> n < 16 \<Longrightarrow> hex_digit m = hex_digit n \<longleftrightarrow> m = n"
  by (auto simp: hex_digit_def char_of_eq_iff take_bit_nat_eq_self split: if_splits)

lemma inj_hex_of_byte: "inj hex_of_byte"
proof (rule injI)
  fix a b :: byte
  assume "hex_of_byte a = hex_of_byte b"
  moreover have "unat a < 256" "unat b < 256"
    using unsigned_less[of a, where ?'a = nat] unsigned_less[of b, where ?'a = nat] by simp_all
  moreover from this have "unat a div 16 < 16" "unat b div 16 < 16" by auto
  ultimately have "unat a div 16 = unat b div 16" "unat a mod 16 = unat b mod 16"
    by (auto simp: hex_of_byte_def hex_digit_inject)
  then have "unat a = unat b" by (metis div_mult_mod_eq)
  then show "a = b" by (simp add: word_unat_eq_iff)
qed

lemma length_hex_encode [simp]: "length (hex_encode bs) = 2 * length bs"
  by (induction bs) (auto simp: hex_encode_def hex_of_byte_def)

lemma hex_encode_eq_iff [simp]: "hex_encode a = hex_encode b \<longleftrightarrow> a = b"
proof
  assume eq: "hex_encode a = hex_encode b"
  then have "length a = length b" using length_hex_encode by (metis mult_cancel1 zero_neq_numeral)
  moreover have "\<And>x. length (hex_of_byte x) = 2" by (simp add: hex_of_byte_def)
  ultimately show "a = b"
    using concat_map_fixed_inject[OF _ inj_hex_of_byte, of 2 a b "[]" "[]"] eq
    by (simp add: hex_encode_def)
qed simp

section \<open>Results\<close>

type_synonym ('e, 'a) result = "'e + 'a"

definition is_ok :: "('e, 'a) result \<Rightarrow> bool" where
  "is_ok r = (case r of Inl _ \<Rightarrow> False | Inr _ \<Rightarrow> True)"

definition rbind :: "('e, 'a) result \<Rightarrow> ('a \<Rightarrow> ('e, 'b) result) \<Rightarrow> ('e, 'b) result" where
  "rbind r f = (case r of Inl e \<Rightarrow> Inl e | Inr a \<Rightarrow> f a)"

definition map_err :: "('e \<Rightarrow> 'f) \<Rightarrow> ('e, 'a) result \<Rightarrow> ('f, 'a) result" where
  "map_err g r = (case r of Inl e \<Rightarrow> Inl (g e) | Inr a \<Rightarrow> Inr a)"

definition guard :: "bool \<Rightarrow> 'e \<Rightarrow> ('e, unit) result" where
  "guard b e = (if b then Inr () else Inl e)"

lemma is_ok_simps [simp, result_simps]: "is_ok (Inl e) = False" "is_ok (Inr a) = True"
  by (simp_all add: is_ok_def)

lemma rbind_simps [simp, result_simps]: "rbind (Inl e) f = Inl e" "rbind (Inr a) f = f a"
  by (simp_all add: rbind_def)

lemma map_err_simps [simp, result_simps]: "map_err g (Inl e) = Inl (g e)" "map_err g (Inr a) = Inr a"
  by (simp_all add: map_err_def)

lemma rbind_eq_Inr [result_simps]: "rbind r f = Inr b \<longleftrightarrow> (\<exists>a. r = Inr a \<and> f a = Inr b)"
  by (cases r) auto

lemma rbind_eq_Inl [result_simps]:
  "rbind r f = Inl e \<longleftrightarrow> r = Inl e \<or> (\<exists>a. r = Inr a \<and> f a = Inl e)"
  by (cases r) auto

lemma map_err_eq_Inr [result_simps]: "map_err g r = Inr a \<longleftrightarrow> r = Inr a"
  by (cases r) auto

lemma guard_eq_Inr [result_simps]: "guard b e = Inr u \<longleftrightarrow> b"
  by (simp add: guard_def)

lemma guard_eq_Inl [result_simps]: "guard b e = Inl f \<longleftrightarrow> \<not> b \<and> f = e"
  by (auto simp: guard_def)

lemma is_ok_iff: "is_ok r \<longleftrightarrow> (\<exists>a. r = Inr a)"
  by (cases r) auto

text \<open>The sequential loop \<open>for x in xs { f(x)?; }\<close> and the collecting loop that pushes every
  \<open>f(x)?\<close> to a vector.\<close>

fun each_ok :: "('a \<Rightarrow> ('e, unit) result) \<Rightarrow> 'a list \<Rightarrow> ('e, unit) result" where
  "each_ok f [] = Inr ()"
| "each_ok f (x # xs) = rbind (f x) (\<lambda>_. each_ok f xs)"

fun collect_ok :: "('a \<Rightarrow> ('e, 'b) result) \<Rightarrow> 'a list \<Rightarrow> ('e, 'b list) result" where
  "collect_ok f [] = Inr []"
| "collect_ok f (x # xs) = rbind (f x) (\<lambda>y. rbind (collect_ok f xs) (\<lambda>ys. Inr (y # ys)))"

text \<open>The loop that threads a state through \<open>f(x, state)?\<close>.\<close>

fun fold_ok :: "('a \<Rightarrow> 's \<Rightarrow> ('e, 's) result) \<Rightarrow> 'a list \<Rightarrow> 's \<Rightarrow> ('e, 's) result" where
  "fold_ok f [] s = Inr s"
| "fold_ok f (x # xs) s = rbind (f x s) (fold_ok f xs)"

lemma rbind_cong [fundef_cong]:
  "r = r' \<Longrightarrow> (\<And>a. r' = Inr a \<Longrightarrow> f a = g a) \<Longrightarrow> rbind r f = rbind r' g"
  by (cases r') simp_all

lemma fold_ok_invariant:
  assumes "fold_ok f xs s = Inr t" "P s" "\<And>x s t. P s \<Longrightarrow> f x s = Inr t \<Longrightarrow> P t"
  shows "P t"
  using assms(1,2) by (induction xs arbitrary: s) (auto simp: rbind_eq_Inr dest: assms(3))

lemma each_ok_eq_Inr [result_simps]: "each_ok f xs = Inr u \<longleftrightarrow> (\<forall>x \<in> set xs. f x = Inr ())"
  by (induction xs) (auto simp: result_simps)

lemma collect_ok_eq_Inr:
  "collect_ok f xs = Inr ys \<longleftrightarrow> list_all2 (\<lambda>x y. f x = Inr y) xs ys"
  by (induction xs arbitrary: ys) (auto simp: result_simps list_all2_Cons1)

text \<open>A computation that succeeds with a value related to \<open>v\<close>, and its rules for the loops.\<close>

definition gets :: "('a \<Rightarrow> 'v \<Rightarrow> bool) \<Rightarrow> ('e, 'a) result \<Rightarrow> 'v \<Rightarrow> bool" where
  "gets R r v \<longleftrightarrow> (\<exists>x. r = Inr x \<and> R x v)"

lemma gets_Inr [simp]: "gets R (Inr x) v \<longleftrightarrow> R x v"
  by (auto simp: gets_def)

lemma gets_rbind: "gets R r v \<Longrightarrow> (\<And>x. R x v \<Longrightarrow> gets S (f x) w) \<Longrightarrow> gets S (rbind r f) w"
  by (auto simp: gets_def)

lemma gets_collect_ok:
  assumes "list_all2 R xs vs" "\<And>x v. R x v \<Longrightarrow> gets S (f x) (g v)"
  shows "gets (list_all2 S) (collect_ok f xs) (map g vs)"
  using assms(1) by induction (auto intro!: gets_rbind dest: assms(2))

lemma fold_ok_append: "fold_ok f (xs @ ys) s = rbind (fold_ok f xs s) (fold_ok f ys)"
proof (induction xs arbitrary: s)
  case (Cons x xs)
  then show ?case by (cases "f x s") simp_all
qed simp

lemma gets_fold_ok:
  assumes "R s v" "\<And>x s v. x \<in> set xs \<Longrightarrow> R s v \<Longrightarrow> gets R (f x s) (g x v)"
  shows "gets R (fold_ok f xs s) (fold g xs v)"
  using assms
proof (induction xs arbitrary: s v)
  case (Cons x xs)
  then show ?case by (auto intro!: gets_rbind[where R = R and v = "g x v"])
qed simp

section \<open>Collisions of a hash function\<close>

text \<open>
  The hash function is a parameter of the development.  No injectivity is assumed of it: a
  statement that a digest binds its fields has the explicit collision as its only alternative.
\<close>

definition collision :: "('a \<Rightarrow> 'b) \<Rightarrow> 'a \<Rightarrow> 'a \<Rightarrow> bool" where
  "collision H x y \<longleftrightarrow> x \<noteq> y \<and> H x = H y"

text \<open>A collision between corresponding byte strings of two lists.\<close>

definition collides :: "('a \<Rightarrow> 'b) \<Rightarrow> 'a list \<Rightarrow> 'a list \<Rightarrow> bool" where
  "collides H xs ys \<longleftrightarrow> list_ex (\<lambda>(x, y). collision H x y) (zip xs ys)"

lemma collides_simps [simp]:
  "collides H [] ys = False"
  "collides H (x # xs) (y # ys) \<longleftrightarrow> collision H x y \<or> collides H xs ys"
  by (simp_all add: collides_def)

lemma collides_append [simp]:
  "length xs = length xs' \<Longrightarrow>
     collides H (xs @ ys) (xs' @ ys') \<longleftrightarrow> collides H xs xs' \<or> collides H ys ys'"
  by (simp add: collides_def)

lemma not_collision: "\<not> collision H x y \<longleftrightarrow> (H x = H y \<longrightarrow> x = y)"
  by (auto simp: collision_def)

locale binding =
  fixes pre :: "'a \<Rightarrow> 'b" and wf :: "'a \<Rightarrow> bool"
  assumes pre_inject: "wf x \<Longrightarrow> wf y \<Longrightarrow> pre x = pre y \<Longrightarrow> x = y"
begin

lemma digest_binds:
  "wf x \<Longrightarrow> wf y \<Longrightarrow> H (pre x) = H (pre y) \<Longrightarrow> x = y \<or> collision H (pre x) (pre y)"
  using pre_inject by (auto simp: collision_def)

lemma digest_binds_collision_free:
  "wf x \<Longrightarrow> wf y \<Longrightarrow> \<not> collision H (pre x) (pre y) \<Longrightarrow> H (pre x) = H (pre y) \<longleftrightarrow> x = y"
  using digest_binds by blast

end

section \<open>Association lists\<close>

text \<open>\<open>Iterator::find\<close> on a vector.\<close>

lemma find_Some_iff2: "find P xs = Some x \<Longrightarrow> P x \<and> x \<in> set xs"
  by (induction xs) (auto split: if_splits)

lemma find_None_iff2: "find P xs = None \<longleftrightarrow> (\<forall>x \<in> set xs. \<not> P x)"
  by (auto simp: find_None_iff)

end
