(* ===== verification/Core_Types.thy ===== *)
theory Core_Types
  imports Prelude
begin

text \<open>
  The crate \<open>tls-attestation-core\<close>: digests and the canonical hasher (\<open>hash.rs\<close>), identifiers
  (\<open>ids.rs\<close>), nonces, epochs, timestamps and quorum specifications (\<open>types.rs\<close>), and the error type.

  SHA-256 (package \<open>sha2\<close>) is the parameter \<open>H\<close> of every definition that hashes: a function from
  the whole absorbed byte string to 32 bytes.  The streaming hasher is therefore its absorbed bytes.
\<close>

section \<open>Digests\<close>

datatype DigestBytes = DigestBytes (digest_bytes: bytes32)

type_synonym sha = "byte list \<Rightarrow> bytes32"

definition ZERO :: DigestBytes where
  "ZERO = DigestBytes 0"

definition digest_enc :: "DigestBytes \<Rightarrow> byte list" where
  "digest_enc d = arr32 (digest_bytes d)"

definition digest_to_hex :: "DigestBytes \<Rightarrow> string" where
  "digest_to_hex d = hex_encode (digest_enc d)"

definition xor_with :: "DigestBytes \<Rightarrow> DigestBytes \<Rightarrow> DigestBytes" where
  "xor_with a b = DigestBytes (digest_bytes a XOR digest_bytes b)"

definition sha256 :: "sha \<Rightarrow> byte list \<Rightarrow> DigestBytes" where
  "sha256 H data = DigestBytes (H data)"

definition sha256_tagged :: "sha \<Rightarrow> string \<Rightarrow> byte list \<Rightarrow> DigestBytes" where
  "sha256_tagged H domain data =
     DigestBytes (H (be32 (of_nat (length (str_bytes domain))) @ str_bytes domain @ data))"

section \<open>The canonical hasher\<close>

record CanonicalHasher =
  absorbed :: "byte list"

definition ch_new :: "string \<Rightarrow> CanonicalHasher" where
  "ch_new domain =
     \<lparr> absorbed = be32 (of_nat (length (str_bytes domain))) @ str_bytes domain \<rparr>"

definition update_raw :: "byte list \<Rightarrow> CanonicalHasher \<Rightarrow> CanonicalHasher" where
  "update_raw bs h = h \<lparr> absorbed := absorbed h @ bs \<rparr>"

definition update_bytes :: "byte list \<Rightarrow> CanonicalHasher \<Rightarrow> CanonicalHasher" where
  "update_bytes data h = update_raw data (update_raw (be64 (of_nat (length data))) h)"

definition update_u64 :: "u64 \<Rightarrow> CanonicalHasher \<Rightarrow> CanonicalHasher" where
  "update_u64 v = update_raw (be64 v)"

definition update_u32 :: "u32 \<Rightarrow> CanonicalHasher \<Rightarrow> CanonicalHasher" where
  "update_u32 v = update_raw (be32 v)"

definition update_bool :: "bool \<Rightarrow> CanonicalHasher \<Rightarrow> CanonicalHasher" where
  "update_bool v = update_raw [if v then 1 else 0]"

definition update_fixed :: "byte list \<Rightarrow> CanonicalHasher \<Rightarrow> CanonicalHasher" where
  "update_fixed data = update_raw data"

definition update_digest :: "DigestBytes \<Rightarrow> CanonicalHasher \<Rightarrow> CanonicalHasher" where
  "update_digest d = update_raw (digest_enc d)"

definition ch_finalize :: "sha \<Rightarrow> CanonicalHasher \<Rightarrow> DigestBytes" where
  "ch_finalize H h = DigestBytes (H (absorbed h))"

text \<open>What a chain of updates has absorbed, as one byte string.\<close>

lemma absorbed_simps [simp]:
  "absorbed (update_raw bs h) = absorbed h @ bs"
  "absorbed (update_bytes d h) = absorbed h @ lp64 d"
  "absorbed (update_u64 v h) = absorbed h @ be64 v"
  "absorbed (update_u32 w h) = absorbed h @ be32 w"
  "absorbed (update_bool b h) = absorbed h @ [if b then 1 else 0]"
  "absorbed (update_fixed bs h) = absorbed h @ bs"
  "absorbed (update_digest g h) = absorbed h @ digest_enc g"
  "absorbed (ch_new dm) = lp32 (str_bytes dm)"
  by (simp_all add: update_raw_def update_bytes_def update_u64_def update_u32_def update_bool_def
      update_fixed_def update_digest_def ch_new_def lp64_def lp32_def)

lemma absorbed_fold_fixed [simp]:
  "absorbed (fold (\<lambda>v. update_fixed (f v)) vs h) = absorbed h @ concat (map f vs)"
  by (induction vs arbitrary: h) auto

lemma length_digest_enc [simp, enc_length]: "length (digest_enc d) = 32"
  by (simp add: digest_enc_def)

lemma digest_enc_eq_iff [simp]: "digest_enc a = digest_enc b \<longleftrightarrow> a = b"
  by (auto simp: digest_enc_def intro: DigestBytes.expand)

lemma digest_enc_append_inject [enc_inject]:
  "digest_enc a @ xs = digest_enc b @ ys \<longleftrightarrow> a = b \<and> xs = ys"
  by (simp add: append_cancel_fixed)

lemma ch_finalize_eq_iff: "ch_finalize H g = ch_finalize H h \<longleftrightarrow> H (absorbed g) = H (absorbed h)"
  by (simp add: ch_finalize_def)

lemma sha256_tagged_absorbed:
  "sha256_tagged H dm data = ch_finalize H (update_raw data (ch_new dm))"
  by (simp add: sha256_tagged_def ch_finalize_def lp32_def)

text \<open>Two domain tags never share a prefix of the absorbed bytes.\<close>

lemma domain_inject [enc_inject]:
  assumes "length d1 < 2 ^ 32" "length d2 < 2 ^ 32"
  shows "lp32 (str_bytes d1) @ xs = lp32 (str_bytes d2) @ ys \<longleftrightarrow> d1 = d2 \<and> xs = ys"
  using assms by (simp add: lp32_append_inject)

lemma xor_with_assoc: "xor_with (xor_with a b) c = xor_with a (xor_with b c)"
  by (simp add: xor_with_def xor.assoc)

lemma xor_with_commute: "xor_with a b = xor_with b a"
  by (simp add: xor_with_def xor.commute)

lemma xor_with_right_commute: "xor_with (xor_with a b) c = xor_with (xor_with a c) b"
  by (metis xor_with_assoc xor_with_commute)

lemma xor_with_ZERO [simp]: "xor_with ZERO a = a" "xor_with a ZERO = a"
  by (simp_all add: xor_with_def ZERO_def)

lemma xor_with_cancel [simp]: "xor_with a b = xor_with a c \<longleftrightarrow> b = c"
proof
  assume "xor_with a b = xor_with a c"
  then have "xor_with a (xor_with a b) = xor_with a (xor_with a c)" by simp
  moreover have "xor_with a (xor_with a x) = x" for x
    by (simp add: xor_with_def flip: xor.assoc)
  ultimately show "b = c" by simp
qed simp

section \<open>Identifiers\<close>

datatype SessionId = SessionId (sid_bytes: bytes16)
datatype VerifierId = VerifierId (vid_bytes: bytes32)
datatype ProverId = ProverId (pid_bytes: bytes32)
datatype RandomnessId = RandomnessId (rid_bytes: bytes16)

definition sid_enc :: "SessionId \<Rightarrow> byte list" where "sid_enc s = arr16 (sid_bytes s)"
definition vid_enc :: "VerifierId \<Rightarrow> byte list" where "vid_enc v = arr32 (vid_bytes v)"
definition pid_enc :: "ProverId \<Rightarrow> byte list" where "pid_enc p = arr32 (pid_bytes p)"
definition rid_enc :: "RandomnessId \<Rightarrow> byte list" where "rid_enc r = arr16 (rid_bytes r)"

definition vid_from_public_key :: "sha \<Rightarrow> byte list \<Rightarrow> VerifierId" where
  "vid_from_public_key H pk = VerifierId (H pk)"

definition pid_from_public_key :: "sha \<Rightarrow> byte list \<Rightarrow> ProverId" where
  "pid_from_public_key H pk = ProverId (H pk)"

definition sid_display :: "SessionId \<Rightarrow> string" where
  "sid_display s = ''session:'' @ hex_encode (sid_enc s)"

definition vid_display :: "VerifierId \<Rightarrow> string" where
  "vid_display v = ''verifier:'' @ hex_encode (take 8 (vid_enc v))"

lemma id_enc_length [simp, enc_length]:
  "length (sid_enc s) = 16" "length (vid_enc v) = 32" "length (pid_enc p) = 32"
  "length (rid_enc r) = 16"
  by (simp_all add: sid_enc_def vid_enc_def pid_enc_def rid_enc_def)

lemma id_enc_eq_iff [simp]:
  "sid_enc s = sid_enc s' \<longleftrightarrow> s = s'" "vid_enc v = vid_enc v' \<longleftrightarrow> v = v'"
  "pid_enc p = pid_enc p' \<longleftrightarrow> p = p'" "rid_enc r = rid_enc r' \<longleftrightarrow> r = r'"
  by (auto simp: sid_enc_def vid_enc_def pid_enc_def rid_enc_def
      intro: SessionId.expand VerifierId.expand ProverId.expand RandomnessId.expand)

lemma id_enc_append_inject [enc_inject]:
  "sid_enc s @ xs = sid_enc s' @ ys \<longleftrightarrow> s = s' \<and> xs = ys"
  "vid_enc v @ xs = vid_enc v' @ ys \<longleftrightarrow> v = v' \<and> xs = ys"
  "pid_enc p @ xs = pid_enc p' @ ys \<longleftrightarrow> p = p' \<and> xs = ys"
  "rid_enc r @ xs = rid_enc r' @ ys \<longleftrightarrow> r = r' \<and> xs = ys"
  by (simp_all add: append_cancel_fixed)

lemma sid_display_eq_iff [simp]: "sid_display s = sid_display t \<longleftrightarrow> s = t"
  by (simp add: sid_display_def)

text \<open>The order of verifier identifiers is the lexicographic order of their bytes.\<close>

instantiation VerifierId :: linorder
begin

definition less_eq_VerifierId :: "VerifierId \<Rightarrow> VerifierId \<Rightarrow> bool" where
  "less_eq_VerifierId a b \<longleftrightarrow> vid_bytes a \<le> vid_bytes b"

definition less_VerifierId :: "VerifierId \<Rightarrow> VerifierId \<Rightarrow> bool" where
  "less_VerifierId a b \<longleftrightarrow> vid_bytes a < vid_bytes b"

instance
  by standard (auto simp: less_eq_VerifierId_def less_VerifierId_def VerifierId.expand)

end

section \<open>Nonces, epochs and timestamps\<close>

datatype Nonce = Nonce (nonce_bytes: bytes32)
datatype Epoch = Epoch (epoch_u64: u64)
datatype UnixTimestamp = UnixTimestamp (secs: u64)

definition nonce_enc :: "Nonce \<Rightarrow> byte list" where "nonce_enc n = arr32 (nonce_bytes n)"

definition GENESIS :: Epoch where "GENESIS = Epoch 0"

definition has_expired :: "UnixTimestamp \<Rightarrow> UnixTimestamp \<Rightarrow> bool" where
  "has_expired t now \<longleftrightarrow> secs now > secs t"

definition saturating_add :: "u64 \<Rightarrow> u64 \<Rightarrow> u64" where
  "saturating_add a b = (if unat a + unat b < 2 ^ 64 then a + b else - 1)"

lemma nonce_enc_length [simp, enc_length]: "length (nonce_enc n) = 32"
  by (simp add: nonce_enc_def)

lemma nonce_enc_eq_iff [simp]: "nonce_enc m = nonce_enc n \<longleftrightarrow> m = n"
  by (auto simp: nonce_enc_def intro: Nonce.expand)

lemma nonce_enc_append_inject [enc_inject]:
  "nonce_enc m @ xs = nonce_enc n @ ys \<longleftrightarrow> m = n \<and> xs = ys"
  by (simp add: append_cancel_fixed)

section \<open>Quorum specifications\<close>

datatype CoreError = InvalidQuorum string | Serialization string | InvalidIdentifier string

record QuorumSpec =
  verifiers :: "VerifierId list"
  threshold :: nat

definition quorum_new :: "VerifierId list \<Rightarrow> nat \<Rightarrow> (CoreError, QuorumSpec) result" where
  "quorum_new vs t =
     (if vs = [] then Inl (InvalidQuorum ''verifier set must not be empty'')
      else if t = 0 then Inl (InvalidQuorum ''threshold must be at least 1'')
      else if t > length vs then
        Inl (InvalidQuorum (''threshold '' @ dec_str t @ '' exceeds verifier count '' @
               dec_str (length vs)))
      else Inr \<lparr> verifiers = vs, threshold = t \<rparr>)"

definition is_satisfied_by :: "QuorumSpec \<Rightarrow> VerifierId list \<Rightarrow> bool" where
  "is_satisfied_by q approvers \<longleftrightarrow>
     length (filter (\<lambda>v. v \<in> set approvers) (verifiers q)) \<ge> threshold q"

definition verifier_count :: "QuorumSpec \<Rightarrow> nat" where
  "verifier_count q = length (verifiers q)"

text \<open>The sizes that fit the machine: \<open>usize\<close> is 64 bits wide, so both casts \<open>as u64\<close> are exact.\<close>

definition quorum_fits :: "QuorumSpec \<Rightarrow> bool" where
  "quorum_fits q \<longleftrightarrow> threshold q < 2 ^ 64 \<and> length (verifiers q) < 2 ^ 64"

definition quorum_valid :: "QuorumSpec \<Rightarrow> bool" where
  "quorum_valid q \<longleftrightarrow> verifiers q \<noteq> [] \<and> 0 < threshold q \<and> threshold q \<le> length (verifiers q)"

lemma quorum_new_eq_Inr [result_simps]:
  "quorum_new vs t = Inr q \<longleftrightarrow> q = \<lparr> verifiers = vs, threshold = t \<rparr> \<and> quorum_valid q"
  by (cases q) (auto simp: quorum_new_def quorum_valid_def)

lemma quorum_new_valid: "quorum_new vs t = Inr q \<Longrightarrow> quorum_valid q"
  using quorum_new_eq_Inr by blast

lemma is_satisfied_by_mono:
  assumes "set a \<subseteq> set b" and "is_satisfied_by q a"
  shows "is_satisfied_by q b"
proof -
  have "length (filter (\<lambda>v. v \<in> set a) vs) \<le> length (filter (\<lambda>v. v \<in> set b) vs)" for vs
    using assms(1) by (induction vs) auto
  then show ?thesis using assms(2) unfolding is_satisfied_by_def by (rule order_trans [rotated])
qed

lemma is_satisfied_by_set: "set a = set b \<Longrightarrow> is_satisfied_by q a = is_satisfied_by q b"
  by (simp add: is_satisfied_by_def)

lemma is_satisfied_by_card:
  assumes "distinct (verifiers q)"
  shows "is_satisfied_by q a \<longleftrightarrow> card (set (verifiers q) \<inter> set a) \<ge> threshold q"
proof -
  have "length (filter (\<lambda>v. v \<in> set a) (verifiers q)) =
    card (set (filter (\<lambda>v. v \<in> set a) (verifiers q)))"
    by (rule distinct_card [symmetric]) (simp add: assms)
  moreover have "set (filter (\<lambda>v. v \<in> set a) (verifiers q)) = set (verifiers q) \<inter> set a"
    by auto
  ultimately show ?thesis by (simp add: is_satisfied_by_def)
qed

text \<open>
  The canonical encoding of a quorum inside a digest: threshold, count, identifiers.  It is the
  tail of the session-context digest and a middle part of the envelope digest.
\<close>

definition quorum_enc :: "QuorumSpec \<Rightarrow> byte list" where
  "quorum_enc q = be64 (of_nat (threshold q)) @ be64 (of_nat (length (verifiers q))) @
     concat (map vid_enc (verifiers q))"

lemma inj_vid_enc: "inj vid_enc"
  by (rule injI) simp

lemma quorum_enc_append_inject [enc_inject]:
  assumes "quorum_fits q" "quorum_fits r"
  shows "quorum_enc q @ xs = quorum_enc r @ ys \<longleftrightarrow> q = r \<and> xs = ys"
proof -
  have "q = r \<longleftrightarrow> threshold q = threshold r \<and> verifiers q = verifiers r"
    by (metis QuorumSpec.equality old.unit.exhaust)
  then show ?thesis
    using assms counted_inject[of vid_enc 32, OF _ inj_vid_enc]
    by (auto simp: quorum_enc_def quorum_fits_def enc_inject of_nat_u64_inject)
qed

lemma quorum_enc_inject [enc_inject]:
  "quorum_fits q \<Longrightarrow> quorum_fits r \<Longrightarrow> quorum_enc q = quorum_enc r \<longleftrightarrow> q = r"
  using quorum_enc_append_inject[of q r "[]" "[]"] by simp

section \<open>Properties\<close>

text \<open>Quorum semantics.  \<open>QuorumSpec::new\<close> accepts exactly the non-empty verifier lists with a
  threshold between 1 and their length, and, when the list has no repeated entry,
  \<open>is_satisfied_by\<close> decides whether at least \<open>threshold\<close> different members of the list are among
  the approvers, however often and in whatever order these are listed.\<close>

theorem quorum_semantics:
  assumes "distinct vs"
  shows "(quorum_new vs t = Inr \<lparr> verifiers = vs, threshold = t \<rparr> \<longleftrightarrow>
            vs \<noteq> [] \<and> 1 \<le> t \<and> t \<le> length vs)
    \<and> (\<forall>q. quorum_new vs t = Inr q \<longrightarrow>
          (is_satisfied_by q approvers \<longleftrightarrow> t \<le> card (set vs \<inter> set approvers)))"
  using assms by (auto simp: quorum_new_eq_Inr quorum_valid_def is_satisfied_by_card)

theorem quorum_semantics_witness:
  "quorum_new [VerifierId 1, VerifierId 2, VerifierId 3] 2 =
     Inr \<lparr> verifiers = [VerifierId 1, VerifierId 2, VerifierId 3], threshold = 2 \<rparr>"
  using quorum_semantics[of "[VerifierId 1, VerifierId 2, VerifierId 3]" 2] by simp

text \<open>\<open>QuorumSpec::new\<close> does not reject a repeated verifier, and a repeated verifier counts once
  per entry: for every threshold \<open>t\<close>, the list of \<open>t\<close> copies of one verifier is accepted with
  threshold \<open>t\<close> and is satisfied by that single verifier.\<close>

theorem quorum_repeated_verifier_counts_repeatedly:
  assumes "1 \<le> t"
  shows "\<exists>q. quorum_new (replicate t v) t = Inr q \<and> is_satisfied_by q [v]"
  using assms by (auto simp: quorum_new_def is_satisfied_by_def)

theorem quorum_repeated_verifier_counts_repeatedly_witness:
  "\<exists>q. quorum_new (replicate 5 (VerifierId 9)) 5 = Inr q \<and> is_satisfied_by q [VerifierId 9]"
  using quorum_repeated_verifier_counts_repeatedly[of 5 "VerifierId 9"] by simp

end
