(* ===== verification/Session.thy ===== *)
theory Session
  imports Core_Types
begin

text \<open>
  Session contexts and the session state machine (\<open>crates/attestation/src/session.rs\<close>) with the
  error type of the attestation crate (\<open>error.rs\<close>).
\<close>

datatype AttestationError =
    CoreErr CoreError
  | InvalidTransition string string
  | SessionExpired
  | RandomnessBindingMismatch string
  | TranscriptMismatch string
  | StatementDigestMismatch
  | PackageDigestMismatch
  | EvidenceVerificationFailed string
  | AttQuorumNotSatisfied nat nat
  | UnknownSession
  | DuplicateSession
  | SessionAlreadyTerminal
  | DuplicateVerifierApproval string
  | TlsConnection string
  | AttCrypto string

section \<open>Session states\<close>

datatype SessionState =
  Pending | Active | Attesting | Collecting | Finalized | Expired | Failed string

fun is_terminal :: "SessionState \<Rightarrow> bool" where
  "is_terminal Finalized = True"
| "is_terminal Expired = True"
| "is_terminal (Failed _) = True"
| "is_terminal _ = False"

fun state_name :: "SessionState \<Rightarrow> string" where
  "state_name Pending = ''Pending''"
| "state_name Active = ''Active''"
| "state_name Attesting = ''Attesting''"
| "state_name Collecting = ''Collecting''"
| "state_name Finalized = ''Finalized''"
| "state_name Expired = ''Expired''"
| "state_name (Failed _) = ''Failed''"

definition can_transition_to :: "SessionState \<Rightarrow> SessionState \<Rightarrow> bool" where
  "can_transition_to s t =
     (if is_terminal s then False
      else (case (s, t) of
              (Pending, Active) \<Rightarrow> True
            | (Active, Attesting) \<Rightarrow> True
            | (Attesting, Collecting) \<Rightarrow> True
            | (Collecting, Finalized) \<Rightarrow> True
            | (_, Expired) \<Rightarrow> True
            | (_, Failed _) \<Rightarrow> True
            | _ \<Rightarrow> False))"

section \<open>Session contexts\<close>

record SessionContext =
  session_id :: SessionId
  prover_id :: ProverId
  coordinator_id :: VerifierId
  quorum :: QuorumSpec
  epoch :: Epoch
  created_at :: UnixTimestamp
  expires_at :: UnixTimestamp
  nonce :: Nonce
  session_digest :: DigestBytes

definition ctx_hasher ::
  "SessionId \<Rightarrow> ProverId \<Rightarrow> VerifierId \<Rightarrow> QuorumSpec \<Rightarrow> Epoch \<Rightarrow> UnixTimestamp \<Rightarrow>
   UnixTimestamp \<Rightarrow> Nonce \<Rightarrow> CanonicalHasher" where
  "ctx_hasher sid pid coord q ep created expires n =
     fold (\<lambda>v. update_fixed (vid_enc v)) (verifiers q)
      (update_u64 (of_nat (length (verifiers q)))
      (update_u64 (of_nat (threshold q))
      (update_fixed (nonce_enc n)
      (update_u64 (secs expires)
      (update_u64 (secs created)
      (update_u64 (epoch_u64 ep)
      (update_fixed (vid_enc coord)
      (update_fixed (pid_enc pid)
      (update_fixed (sid_enc sid)
      (ch_new ''tls-attestation/session-context/v1''))))))))))"

definition ctx_compute_digest ::
  "sha \<Rightarrow> SessionId \<Rightarrow> ProverId \<Rightarrow> VerifierId \<Rightarrow> QuorumSpec \<Rightarrow> Epoch \<Rightarrow> UnixTimestamp \<Rightarrow>
   UnixTimestamp \<Rightarrow> Nonce \<Rightarrow> DigestBytes" where
  "ctx_compute_digest H sid pid coord q ep created expires n =
     ch_finalize H (ctx_hasher sid pid coord q ep created expires n)"

definition ctx_new ::
  "sha \<Rightarrow> SessionId \<Rightarrow> ProverId \<Rightarrow> VerifierId \<Rightarrow> QuorumSpec \<Rightarrow> Epoch \<Rightarrow> UnixTimestamp \<Rightarrow>
   UnixTimestamp \<Rightarrow> Nonce \<Rightarrow> SessionContext" where
  "ctx_new H sid pid coord q ep created expires0 n =
     (let expires = (if secs expires0 \<le> secs created
                     then UnixTimestamp (saturating_add (secs created) 1)
                     else expires0)
      in \<lparr> session_id = sid, prover_id = pid, coordinator_id = coord, quorum = q, epoch = ep,
           created_at = created, expires_at = expires, nonce = n,
           session_digest = ctx_compute_digest H sid pid coord q ep created expires n \<rparr>)"

definition ctx_is_expired :: "SessionContext \<Rightarrow> UnixTimestamp \<Rightarrow> bool" where
  "ctx_is_expired c now = has_expired (expires_at c) now"

section \<open>Sessions\<close>

record Session =
  s_context :: SessionContext
  s_state :: SessionState

definition session_new :: "SessionContext \<Rightarrow> Session" where
  "session_new c = \<lparr> s_context = c, s_state = Pending \<rparr>"

definition transition :: "SessionState \<Rightarrow> Session \<Rightarrow> (AttestationError, Session) result" where
  "transition t s =
     (if \<not> can_transition_to (s_state s) t
      then Inl (InvalidTransition (state_name (s_state s)) (state_name t))
      else Inr (s \<lparr> s_state := t \<rparr>))"

definition expire :: "Session \<Rightarrow> Session" where
  "expire s = (if \<not> is_terminal (s_state s) then s \<lparr> s_state := Expired \<rparr> else s)"

definition fail :: "string \<Rightarrow> Session \<Rightarrow> Session" where
  "fail reason s = (if \<not> is_terminal (s_state s) then s \<lparr> s_state := Failed reason \<rparr> else s)"

section \<open>The state machine\<close>

text \<open>One mutation of a session by any of its three methods; a rejected transition leaves the
  session as it was.\<close>

inductive session_step :: "Session \<Rightarrow> Session \<Rightarrow> bool" where
  transition_ok: "transition t s = Inr s' \<Longrightarrow> session_step s s'"
| transition_err: "transition t s = Inl e \<Longrightarrow> session_step s s"
| expire_step: "session_step s (expire s)"
| fail_step: "session_step s (fail reason s)"

inductive session_run :: "Session \<Rightarrow> Session list \<Rightarrow> Session \<Rightarrow> bool" where
  run_nil: "session_run s [s] s"
| run_snoc: "session_run s tr s' \<Longrightarrow> session_step s' s'' \<Longrightarrow> session_run s (tr @ [s'']) s''"

inductive_cases session_stepE [elim]: "session_step s s'"

fun phase :: "SessionState \<Rightarrow> nat" where
  "phase Pending = 0"
| "phase Active = 1"
| "phase Attesting = 2"
| "phase Collecting = 3"
| "phase _ = 4"

lemma can_transition_cases:
  "can_transition_to s t \<longleftrightarrow>
     \<not> is_terminal s \<and> (t = Expired \<or> (\<exists>r. t = Failed r) \<or>
       (s = Pending \<and> t = Active) \<or> (s = Active \<and> t = Attesting) \<or>
       (s = Attesting \<and> t = Collecting) \<or> (s = Collecting \<and> t = Finalized))"
  by (cases s; cases t) (simp_all add: can_transition_to_def)

lemma terminal_phase: "is_terminal s \<longleftrightarrow> phase s = 4"
  by (cases s) simp_all

lemma nonterminal_phase: "\<not> is_terminal s \<Longrightarrow> phase s < 4"
  by (cases s) simp_all

lemma transition_eq_Inr [result_simps]:
  "transition t s = Inr s' \<longleftrightarrow> can_transition_to (s_state s) t \<and> s' = s \<lparr> s_state := t \<rparr>"
  by (auto simp: transition_def)

lemma step_context: "session_step s s' \<Longrightarrow> s_context s' = s_context s"
  by (erule session_stepE) (auto simp: transition_eq_Inr expire_def fail_def)

lemma step_state:
  "session_step s s' \<Longrightarrow> s' = s \<or> can_transition_to (s_state s) (s_state s')"
  by (erule session_stepE)
    (auto simp: transition_eq_Inr expire_def fail_def can_transition_cases)

lemma step_terminal: "session_step s s' \<Longrightarrow> is_terminal (s_state s) \<Longrightarrow> s' = s"
  using step_state can_transition_cases by blast

lemma step_phase: "session_step s s' \<Longrightarrow> s' \<noteq> s \<Longrightarrow> phase (s_state s) < phase (s_state s')"
  using step_state[of s s'] by (auto simp: can_transition_cases nonterminal_phase)

lemma run_context: "session_run s tr s' \<Longrightarrow> s_context s' = s_context s"
  by (induction rule: session_run.induct) (auto dest: step_context)

text \<open>The states visited, without repetitions: the only way to a state is through its
  predecessors.\<close>

definition visited :: "Session list \<Rightarrow> SessionState list" where
  "visited tr = remdups_adj (map s_state tr)"

fun path_to :: "SessionState \<Rightarrow> SessionState list" where
  "path_to Pending = [Pending]"
| "path_to Active = [Pending, Active]"
| "path_to Attesting = [Pending, Active, Attesting]"
| "path_to Collecting = [Pending, Active, Attesting, Collecting]"
| "path_to Finalized = [Pending, Active, Attesting, Collecting, Finalized]"
| "path_to _ = []"

lemma remdups_adj_snoc:
  "xs \<noteq> [] \<Longrightarrow> remdups_adj (xs @ [x]) = (if x = last xs then remdups_adj xs else remdups_adj xs @ [x])"
  by (simp add: remdups_adj_append'')

lemma run_nonempty: "session_run s tr s' \<Longrightarrow> tr \<noteq> [] \<and> last tr = s'"
  by (induction rule: session_run.induct) auto

lemma visited_snoc:
  "session_run s tr s' \<Longrightarrow> visited (tr @ [s'']) =
     (if s_state s'' = s_state s' then visited tr else visited tr @ [s_state s''])"
  using run_nonempty[of s tr s'] by (auto simp: visited_def remdups_adj_snoc last_map)

lemma run_path:
  assumes "session_run s tr s'" and "s_state s = Pending"
    and "s_state s' \<noteq> Expired" "\<And>r. s_state s' \<noteq> Failed r"
  shows "visited tr = path_to (s_state s')"
  using assms
proof (induction rule: session_run.induct)
  case (run_snoc s tr s' s'')
  note step = step_state[OF run_snoc.hyps(2)]
  show ?case
  proof (cases "s_state s'' = s_state s'")
    case True
    then show ?thesis using run_snoc by (simp add: visited_snoc)
  next
    case False
    then have "can_transition_to (s_state s') (s_state s'')" using step by auto
    then show ?thesis using run_snoc by (auto simp: visited_snoc can_transition_cases)
  qed
qed (simp add: visited_def)

section \<open>Binding\<close>

type_synonym ctx_fields =
  "SessionId \<times> ProverId \<times> VerifierId \<times> QuorumSpec \<times> Epoch \<times> UnixTimestamp \<times> UnixTimestamp \<times> Nonce"

definition ctx_fields :: "SessionContext \<Rightarrow> ctx_fields" where
  "ctx_fields c = (session_id c, prover_id c, coordinator_id c, quorum c, epoch c, created_at c,
     expires_at c, nonce c)"

definition ctx_fields_pre :: "ctx_fields \<Rightarrow> byte list" where
  "ctx_fields_pre = (\<lambda>(sid, pid, coord, q, ep, created, expires, n).
     absorbed (ctx_hasher sid pid coord q ep created expires n))"

definition ctx_fields_fit :: "ctx_fields \<Rightarrow> bool" where
  "ctx_fields_fit = (\<lambda>(sid, pid, coord, q, ep, created, expires, n). quorum_fits q)"

text \<open>The part of the encoding that session and envelope digests share.\<close>

definition ctx_enc :: "ctx_fields \<Rightarrow> byte list" where
  "ctx_enc = (\<lambda>(sid, pid, coord, q, ep, created, expires, n).
     sid_enc sid @ pid_enc pid @ vid_enc coord @ be64 (epoch_u64 ep) @ be64 (secs created) @
     be64 (secs expires) @ nonce_enc n @ quorum_enc q)"

lemma newtype_eq_iff:
  "epoch_u64 e = epoch_u64 e' \<longleftrightarrow> e = e'" "secs t = secs t' \<longleftrightarrow> t = t'"
  by (auto intro: Epoch.expand UnixTimestamp.expand)

lemma ctx_enc_append_inject [enc_inject]:
  "ctx_fields_fit x \<Longrightarrow> ctx_fields_fit y \<Longrightarrow> ctx_enc x @ xs = ctx_enc y @ ys \<longleftrightarrow> x = y \<and> xs = ys"
  by (cases x; cases y)
    (auto simp: ctx_enc_def ctx_fields_fit_def enc_inject newtype_eq_iff)

lemma ctx_enc_inject:
  "ctx_fields_fit x \<Longrightarrow> ctx_fields_fit y \<Longrightarrow> ctx_enc x = ctx_enc y \<longleftrightarrow> x = y"
  using ctx_enc_append_inject[of x y "[]" "[]"] by simp

lemma ctx_fields_pre_enc:
  "ctx_fields_pre x = lp32 (str_bytes ''tls-attestation/session-context/v1'') @ ctx_enc x"
  by (cases x) (simp add: ctx_fields_pre_def ctx_enc_def ctx_hasher_def quorum_enc_def
      split: prod.split)

interpretation ctxb: binding ctx_fields_pre ctx_fields_fit
  by standard (simp add: ctx_fields_pre_enc ctx_enc_inject)

text \<open>A context whose stored digest is the digest of its fields; every constructed one is.\<close>

definition ctx_consistent :: "sha \<Rightarrow> SessionContext \<Rightarrow> bool" where
  "ctx_consistent H c \<longleftrightarrow> session_digest c = DigestBytes (H (ctx_fields_pre (ctx_fields c)))"

lemma ctx_new_consistent: "ctx_consistent H (ctx_new H sid pid coord q ep created expires n)"
  by (simp add: ctx_consistent_def ctx_new_def ctx_fields_def ctx_fields_pre_def
      ctx_compute_digest_def ch_finalize_def Let_def)

lemma ctx_new_simps [simp]:
  "session_id (ctx_new H sid pid coord q ep created expires n) = sid"
  "prover_id (ctx_new H sid pid coord q ep created expires n) = pid"
  "coordinator_id (ctx_new H sid pid coord q ep created expires n) = coord"
  "quorum (ctx_new H sid pid coord q ep created expires n) = q"
  "epoch (ctx_new H sid pid coord q ep created expires n) = ep"
  "created_at (ctx_new H sid pid coord q ep created expires n) = created"
  "nonce (ctx_new H sid pid coord q ep created expires n) = n"
  by (simp_all add: ctx_new_def Let_def)

lemma ctx_consistent_binds:
  assumes "ctx_consistent H c" "ctx_consistent H d" "session_digest c = session_digest d"
    and "quorum_fits (quorum c)" "quorum_fits (quorum d)"
  shows "c = d \<or> collision H (ctx_fields_pre (ctx_fields c)) (ctx_fields_pre (ctx_fields d))"
proof -
  have fit: "ctx_fields_fit (ctx_fields c)" "ctx_fields_fit (ctx_fields d)"
    using assms(4,5) by (simp_all add: ctx_fields_fit_def ctx_fields_def)
  have "H (ctx_fields_pre (ctx_fields c)) = H (ctx_fields_pre (ctx_fields d))"
    using assms(1-3) by (simp add: ctx_consistent_def)
  from ctxb.digest_binds[OF fit this] show ?thesis
    using assms(3) by (cases c; cases d) (auto simp: ctx_fields_def)
qed

lemma saturating_add_one: "a < saturating_add a 1" if "a \<noteq> - 1" for a :: u64
proof -
  have "unat a \<noteq> unat (- 1 :: u64)" using that by (simp add: word_unat_eq_iff)
  moreover have "unat a < 2 ^ 64" using unsigned_less[of a, where ?'a = nat] by simp
  ultimately have "unat a + 1 < 2 ^ 64" by (simp add: unsigned_minus_1_eq_mask mask_eq_exp_minus_1)
  moreover from this have "a < a + 1"
    by (simp add: word_less_nat_alt unat_word_ariths)
  ultimately show ?thesis by (simp add: saturating_add_def)
qed

lemma saturating_add_max: "saturating_add (- 1) 1 = - 1"
  by (simp add: saturating_add_def unsigned_minus_1_eq_mask mask_eq_exp_minus_1)

section \<open>Properties\<close>

lemma run_terminal: "session_run s tr s' \<Longrightarrow> is_terminal (s_state s) \<Longrightarrow> s' = s \<and> set tr = {s}"
  by (induction rule: session_run.induct) (auto dest: step_terminal)

text \<open>C30. Lifecycle.  Whatever sequence of transitions (accepted or rejected), expirations and
  failures is applied to a new session, a session that ends \<open>Finalized\<close> went through \<open>Pending\<close>,
  \<open>Active\<close>, \<open>Attesting\<close> and \<open>Collecting\<close>, in this order and with nothing else in between, and its
  context is the one it was created with.\<close>

theorem finalized_through_all_phases:
  assumes "session_run (session_new c) tr s" and "s_state s = Finalized"
  shows "visited tr = [Pending, Active, Attesting, Collecting, Finalized] \<and> s_context s = c"
  using run_path[OF assms(1)] run_context[OF assms(1)] assms(2) by (simp add: session_new_def)

definition ctx_ex :: SessionContext where
  "ctx_ex = ctx_new (\<lambda>_. 7) (SessionId 1) (ProverId 2) (VerifierId 3)
     \<lparr> verifiers = [VerifierId 4, VerifierId 5], threshold = 2 \<rparr> GENESIS (UnixTimestamp 1000)
     (UnixTimestamp 2000) (Nonce 6)"

definition at_state :: "SessionState \<Rightarrow> Session" where
  "at_state st = \<lparr> s_context = ctx_ex, s_state = st \<rparr>"

lemma at_state_step: "can_transition_to a b \<Longrightarrow> session_step (at_state a) (at_state b)"
  by (rule session_step.transition_ok[of b]) (simp add: transition_eq_Inr at_state_def)

lemma run_ex:
  "session_run (session_new ctx_ex)
     [at_state Pending, at_state Active, at_state Attesting, at_state Collecting, at_state Finalized]
     (at_state Finalized)"
proof -
  have "session_run (session_new ctx_ex) [at_state Pending] (at_state Pending)"
    using session_run.run_nil[of "at_state Pending"] by (simp add: session_new_def at_state_def)
  from this[THEN run_snoc, OF at_state_step[of Pending Active]]
  have "session_run (session_new ctx_ex) [at_state Pending, at_state Active] (at_state Active)"
    by (simp add: can_transition_to_def)
  from this[THEN run_snoc, OF at_state_step[of Active Attesting]]
  have "session_run (session_new ctx_ex) [at_state Pending, at_state Active, at_state Attesting]
      (at_state Attesting)"
    by (simp add: can_transition_to_def)
  from this[THEN run_snoc, OF at_state_step[of Attesting Collecting]]
  have "session_run (session_new ctx_ex)
      [at_state Pending, at_state Active, at_state Attesting, at_state Collecting]
      (at_state Collecting)"
    by (simp add: can_transition_to_def)
  from this[THEN run_snoc, OF at_state_step[of Collecting Finalized]] show ?thesis
    by (simp add: can_transition_to_def)
qed

theorem finalized_through_all_phases_witness:
  "visited [at_state Pending, at_state Active, at_state Attesting, at_state Collecting,
     at_state Finalized] = [Pending, Active, Attesting, Collecting, Finalized] \<and>
   s_context (at_state Finalized) = ctx_ex"
  by (rule finalized_through_all_phases[OF run_ex]) (simp add: at_state_def)

text \<open>Terminal sessions are immutable: once a session is \<open>Finalized\<close>, \<open>Expired\<close> or \<open>Failed\<close>, no
  sequence of method calls changes its state or its context.\<close>

theorem terminal_session_unchanged:
  assumes "session_run s tr s'" and "is_terminal (s_state s)"
  shows "s' = s \<and> set tr = {s}"
  using assms by (rule run_terminal)

theorem terminal_session_unchanged_witness:
  "fail ''late'' (at_state Expired) = at_state Expired \<and>
   set [at_state Expired, fail ''late'' (at_state Expired)] = {at_state Expired}"
proof (rule terminal_session_unchanged)
  show "session_run (at_state Expired) [at_state Expired, fail ''late'' (at_state Expired)]
      (fail ''late'' (at_state Expired))"
    using session_run.run_snoc[OF session_run.run_nil session_step.fail_step] by simp
qed (simp add: at_state_def)

text \<open>The session digest binds the whole context: two contexts built by \<open>SessionContext::new\<close>
  with the same digest have the same identifier, prover, coordinator, quorum (threshold and
  verifiers, in order), epoch, timestamps and nonce, unless the two hashed byte strings are an
  explicit collision of SHA-256.\<close>

theorem session_digest_binds_context:
  assumes "c = ctx_new H sid pid coord q ep created expires n"
    and "d = ctx_new H sid' pid' coord' q' ep' created' expires' n'"
    and "quorum_fits q" "quorum_fits q'"
    and "session_digest c = session_digest d"
  shows "c = d \<or> collision H (ctx_fields_pre (ctx_fields c)) (ctx_fields_pre (ctx_fields d))"
proof (rule ctx_consistent_binds)
  show "ctx_consistent H c" "ctx_consistent H d" by (simp_all only: assms(1,2) ctx_new_consistent)
  show "quorum_fits (quorum c)" "quorum_fits (quorum d)" using assms(1-4) by simp_all
qed (rule assms(5))

theorem session_digest_binds_context_witness:
  "let q = \<lparr> verifiers = [VerifierId 4], threshold = 1 \<rparr>;
       c = ctx_new (\<lambda>_. 7) (SessionId 1) (ProverId 2) (VerifierId 3) q GENESIS
             (UnixTimestamp 10) (UnixTimestamp 20) (Nonce 6);
       d = ctx_new (\<lambda>_. 7) (SessionId 8) (ProverId 2) (VerifierId 3) q GENESIS
             (UnixTimestamp 10) (UnixTimestamp 20) (Nonce 6)
   in c \<noteq> d \<and> collision (\<lambda>_. 7 :: bytes32) (ctx_fields_pre (ctx_fields c)) (ctx_fields_pre (ctx_fields d))"
  using session_digest_binds_context[OF refl refl, where
      H = "\<lambda>_. 7" and sid = "SessionId 1" and pid = "ProverId 2" and coord = "VerifierId 3"
      and q = "\<lparr> verifiers = [VerifierId 4], threshold = 1 \<rparr>" and ep = GENESIS
      and created = "UnixTimestamp 10" and expires = "UnixTimestamp 20" and n = "Nonce 6"
      and sid' = "SessionId 8" and pid' = "ProverId 2" and coord' = "VerifierId 3"
      and q' = "\<lparr> verifiers = [VerifierId 4], threshold = 1 \<rparr>" and ep' = GENESIS
      and created' = "UnixTimestamp 10" and expires' = "UnixTimestamp 20" and n' = "Nonce 6"]
  by (simp add: quorum_fits_def ctx_new_def ctx_compute_digest_def ch_finalize_def Let_def)

text \<open>A new context is never already expired: unless the creation time is the last
  representable second, the expiry is after the creation and the context is not expired at its
  creation; at the last representable second the saturating clamp leaves expiry and creation
  equal.\<close>

theorem ctx_new_expiry:
  fixes c :: SessionContext
  assumes "c = ctx_new H sid pid coord q ep created expires n"
  shows "(if secs created = - 1 then secs (expires_at c) = secs created
          else secs created < secs (expires_at c))
    \<and> \<not> ctx_is_expired c created
    \<and> (secs created < secs expires \<longrightarrow> expires_at c = expires)"
proof -
  have "secs created = - 1 \<Longrightarrow> secs expires \<le> secs created" by simp
  moreover have "\<not> secs expires \<le> secs created \<Longrightarrow> secs created < secs expires" by simp
  ultimately show ?thesis
    using assms saturating_add_one[of "secs created"]
    by (auto simp: ctx_new_def Let_def ctx_is_expired_def has_expired_def saturating_add_max)
qed

theorem ctx_new_expiry_witness:
  "let c = ctx_new (\<lambda>_. 7) (SessionId 1) (ProverId 2) (VerifierId 3)
         \<lparr> verifiers = [VerifierId 4], threshold = 1 \<rparr> GENESIS
         (UnixTimestamp 10) (UnixTimestamp 5) (Nonce 6)
   in secs (UnixTimestamp 10) < secs (expires_at c) \<and> \<not> ctx_is_expired c (UnixTimestamp 10)"
  using ctx_new_expiry[OF refl, where H = "\<lambda>_. 7" and sid = "SessionId 1" and pid = "ProverId 2"
      and coord = "VerifierId 3" and q = "\<lparr> verifiers = [VerifierId 4], threshold = 1 \<rparr>"
      and ep = GENESIS and created = "UnixTimestamp 10" and expires = "UnixTimestamp 5"
      and n = "Nonce 6"]
  by (simp add: Let_def)

end
