(* ===== verification/Session_Store.thy ===== *)
theory Session_Store
  imports Session
begin

text \<open>
  The session store contract (\<open>crates/storage/src/traits.rs\<close>) and the in-memory store that
  implements it (\<open>memory.rs\<close>).  Every mutating operation returns its result together with the
  store after the call.  The contract is an abstract store (a partial map from session identifiers
  to a session and the set of verifiers that approved it) with one abstract operation per trait
  method; the locale \<open>session_store\<close> says that the operations of a concrete store simulate them.
\<close>

datatype StorageError =
  NotFound | AlreadyExists | SessionTerminated | DuplicateApproval string | StoreIo string

section \<open>The abstract store\<close>

type_synonym astore = "SessionId \<Rightarrow> (Session \<times> VerifierId set) option"
type_synonym 's store_action = "'s \<Rightarrow> (StorageError, unit) result \<times> 's"

definition sid_of :: "Session \<Rightarrow> SessionId" where
  "sid_of s = session_id (s_context s)"

definition a_insert :: "Session \<Rightarrow> astore store_action" where
  "a_insert s m =
     (case m (sid_of s) of Some _ \<Rightarrow> (Inl AlreadyExists, m)
      | None \<Rightarrow> (Inr (), m(sid_of s \<mapsto> (s, {}))))"

definition a_get :: "SessionId \<Rightarrow> astore \<Rightarrow> (StorageError, Session) result" where
  "a_get i m = (case m i of None \<Rightarrow> Inl NotFound | Some (s, _) \<Rightarrow> Inr s)"

definition a_update_state :: "SessionId \<Rightarrow> SessionState \<Rightarrow> astore store_action" where
  "a_update_state i st m =
     (case m i of None \<Rightarrow> (Inl NotFound, m)
      | Some (s, ap) \<Rightarrow>
          if is_terminal (s_state s) then (Inl SessionTerminated, m)
          else (Inr (), m(i \<mapsto> (s \<lparr> s_state := st \<rparr>, ap))))"

definition a_record_approval :: "SessionId \<Rightarrow> VerifierId \<Rightarrow> astore store_action" where
  "a_record_approval i v m =
     (case m i of None \<Rightarrow> (Inl NotFound, m)
      | Some (s, ap) \<Rightarrow>
          if is_terminal (s_state s) then (Inl SessionTerminated, m)
          else if v \<in> ap then (Inl (DuplicateApproval (vid_display v)), m)
          else (Inr (), m(i \<mapsto> (s, insert v ap))))"

definition a_has_approved :: "SessionId \<Rightarrow> VerifierId \<Rightarrow> astore \<Rightarrow> bool" where
  "a_has_approved i v m = (case m i of None \<Rightarrow> False | Some (_, ap) \<Rightarrow> v \<in> ap)"

definition a_remove :: "SessionId \<Rightarrow> astore store_action" where
  "a_remove i m = (Inr (), m(i := None))"

definition a_contains :: "SessionId \<Rightarrow> astore \<Rightarrow> bool" where
  "a_contains i m = (m i \<noteq> None)"

lemmas astore_defs = a_insert_def a_get_def a_update_state_def a_record_approval_def
  a_has_approved_def a_remove_def a_contains_def

section \<open>Sequences of operations\<close>

datatype store_op =
    Insert Session
  | UpdateState SessionId SessionState
  | RecordApproval SessionId VerifierId
  | Remove SessionId

definition exec_op ::
  "(Session \<Rightarrow> 's store_action) \<Rightarrow> (SessionId \<Rightarrow> SessionState \<Rightarrow> 's store_action) \<Rightarrow>
   (SessionId \<Rightarrow> VerifierId \<Rightarrow> 's store_action) \<Rightarrow> (SessionId \<Rightarrow> 's store_action) \<Rightarrow>
   store_op \<Rightarrow> 's store_action" where
  "exec_op ins upd rec rm op =
     (case op of Insert s \<Rightarrow> ins s | UpdateState i st \<Rightarrow> upd i st
      | RecordApproval i v \<Rightarrow> rec i v | Remove i \<Rightarrow> rm i)"

fun exec_ops ::
  "(store_op \<Rightarrow> 's store_action) \<Rightarrow> store_op list \<Rightarrow> 's \<Rightarrow> (StorageError, unit) result list \<times> 's" where
  "exec_ops ex [] m = ([], m)"
| "exec_ops ex (x # xs) m =
     (let (r, m') = ex x m; (rs, m'') = exec_ops ex xs m' in (r # rs, m''))"

abbreviation a_exec :: "store_op \<Rightarrow> astore store_action" where
  "a_exec \<equiv> exec_op a_insert a_update_state a_record_approval a_remove"

definition removes :: "SessionId \<Rightarrow> store_op list \<Rightarrow> bool" where
  "removes i xs \<longleftrightarrow> Remove i \<in> set xs"

text \<open>How often an operation of a sequence succeeded.\<close>

definition successes :: "store_op \<Rightarrow> store_op list \<Rightarrow> (StorageError, unit) result list \<Rightarrow> nat" where
  "successes x xs rs = length (filter (\<lambda>(y, r). y = x \<and> is_ok r) (zip xs rs))"

lemma exec_op_simps [simp]:
  "exec_op ins upd rec rm (Insert s) = ins s"
  "exec_op ins upd rec rm (UpdateState i st) = upd i st"
  "exec_op ins upd rec rm (RecordApproval i v) = rec i v"
  "exec_op ins upd rec rm (Remove i) = rm i"
  by (simp_all add: exec_op_def)

lemma successes_Cons [simp]:
  "successes x (y # ys) (r # rs) = (if y = x \<and> is_ok r then 1 else 0) + successes x ys rs"
  by (simp add: successes_def)

lemma successes_Nil [simp]: "successes x [] rs = 0"
  by (simp add: successes_def)

text \<open>What one abstract step keeps of a session that is already present.\<close>

lemma a_exec_present:
  assumes "m i = Some (s, ap)" "op \<noteq> Remove i"
  shows "\<exists>s' ap'. snd (a_exec op m) i = Some (s', ap') \<and> s_context s' = s_context s \<and> ap \<subseteq> ap'
    \<and> (is_terminal (s_state s) \<longrightarrow> s' = s \<and> ap' = ap)"
  using assms by (cases op) (auto simp: astore_defs split: option.splits prod.splits)

lemma a_exec_ops_present:
  assumes "m i = Some (s, ap)" "\<not> removes i xs"
  shows "\<exists>s' ap'. snd (exec_ops a_exec xs m) i = Some (s', ap') \<and> s_context s' = s_context s
    \<and> ap \<subseteq> ap' \<and> (is_terminal (s_state s) \<longrightarrow> s' = s \<and> ap' = ap)"
  using assms
proof (induction xs arbitrary: m s ap)
  case (Cons x xs)
  obtain s1 ap1 where one: "snd (a_exec x m) i = Some (s1, ap1)" "s_context s1 = s_context s"
    "ap \<subseteq> ap1" "is_terminal (s_state s) \<longrightarrow> s1 = s \<and> ap1 = ap"
    using a_exec_present[of m i s ap x] Cons.prems by (auto simp: removes_def)
  have "\<not> removes i xs" using Cons.prems(2) by (simp add: removes_def)
  with Cons.IH[of "snd (a_exec x m)" s1 ap1] one show ?case
    by (fastforce simp: split_beta Let_def)
qed simp

lemma a_approval_once:
  assumes "\<not> removes i xs" "a_has_approved i v m"
  shows "successes (RecordApproval i v) xs (fst (exec_ops a_exec xs m)) = 0"
  using assms
proof (induction xs arbitrary: m)
  case (Cons x xs)
  obtain s ap where m: "m i = Some (s, ap)" "v \<in> ap"
    using Cons.prems(2) by (auto simp: a_has_approved_def split: option.splits)
  have x: "x \<noteq> Remove i" "\<not> removes i xs" using Cons.prems(1) by (auto simp: removes_def)
  have "a_has_approved i v (snd (a_exec x m))"
    using a_exec_present[of m i s ap x] m(1) x(1) m(2) by (auto simp: a_has_approved_def)
  then have "successes (RecordApproval i v) xs (fst (exec_ops a_exec xs (snd (a_exec x m)))) = 0"
    using Cons.IH x(2) by blast
  moreover have "x = RecordApproval i v \<Longrightarrow> \<not> is_ok (fst (a_exec x m))"
    using m by (auto simp: a_record_approval_def)
  ultimately show ?case by (auto simp: split_beta Let_def)
qed simp

lemma a_approval_at_most_once:
  assumes "\<not> removes i xs"
  shows "successes (RecordApproval i v) xs (fst (exec_ops a_exec xs m)) \<le> 1"
  using assms
proof (induction xs arbitrary: m)
  case (Cons x xs)
  have x: "\<not> removes i xs" using Cons.prems by (auto simp: removes_def)
  show ?case
  proof (cases "x = RecordApproval i v \<and> is_ok (fst (a_exec x m))")
    case True
    then have "a_has_approved i v (snd (a_exec x m))"
      by (auto simp: a_record_approval_def a_has_approved_def split: option.splits if_splits prod.splits)
    then show ?thesis using a_approval_once[OF x] by (auto simp: split_beta Let_def)
  next
    case False
    then show ?thesis using Cons.IH[OF x, of "snd (a_exec x m)"] by (auto simp: split_beta Let_def)
  qed
qed simp

section \<open>The contract\<close>

locale session_store =
  fixes insert_op :: "Session \<Rightarrow> 's store_action"
    and get :: "SessionId \<Rightarrow> 's \<Rightarrow> (StorageError, Session) result"
    and update_state :: "SessionId \<Rightarrow> SessionState \<Rightarrow> 's store_action"
    and record_approval :: "SessionId \<Rightarrow> VerifierId \<Rightarrow> 's store_action"
    and has_approved :: "SessionId \<Rightarrow> VerifierId \<Rightarrow> 's \<Rightarrow> bool"
    and remove_op :: "SessionId \<Rightarrow> 's store_action"
    and contains :: "SessionId \<Rightarrow> 's \<Rightarrow> bool"
    and inv :: "'s \<Rightarrow> bool"
    and abs :: "'s \<Rightarrow> astore"
  assumes insert_sim: "inv m \<Longrightarrow> inv (snd (insert_op s m)) \<and>
      a_insert s (abs m) = map_prod id abs (insert_op s m)"
    and update_sim: "inv m \<Longrightarrow> inv (snd (update_state i st m)) \<and>
      a_update_state i st (abs m) = map_prod id abs (update_state i st m)"
    and approval_sim: "inv m \<Longrightarrow> inv (snd (record_approval i v m)) \<and>
      a_record_approval i v (abs m) = map_prod id abs (record_approval i v m)"
    and remove_sim: "inv m \<Longrightarrow> inv (snd (remove_op i m)) \<and>
      a_remove i (abs m) = map_prod id abs (remove_op i m)"
    and get_sim: "inv m \<Longrightarrow> get i m = a_get i (abs m)"
    and has_approved_sim: "inv m \<Longrightarrow> has_approved i v m = a_has_approved i v (abs m)"
    and contains_sim: "inv m \<Longrightarrow> contains i m = a_contains i (abs m)"
begin

abbreviation exec :: "store_op \<Rightarrow> 's store_action" where
  "exec \<equiv> exec_op insert_op update_state record_approval remove_op"

lemma exec_sim:
  "inv m \<Longrightarrow> inv (snd (exec op m)) \<and> a_exec op (abs m) = map_prod id abs (exec op m)"
  using insert_sim update_sim approval_sim remove_sim by (cases op) simp_all

lemma exec_ops_sim:
  "inv m \<Longrightarrow> inv (snd (exec_ops exec xs m)) \<and>
     exec_ops a_exec xs (abs m) = map_prod id abs (exec_ops exec xs m)"
proof (induction xs arbitrary: m)
  case (Cons x xs)
  then have "inv (snd (exec x m))" "a_exec x (abs m) = map_prod id abs (exec x m)"
    using exec_sim by blast+
  with Cons.IH[of "snd (exec x m)"] show ?case by (simp add: split_beta Let_def)
qed simp

lemma present_kept:
  assumes "inv m" "get i m = Inr s" "\<not> removes i xs"
  shows "\<exists>s'. get i (snd (exec_ops exec xs m)) = Inr s' \<and> s_context s' = s_context s \<and>
    (is_terminal (s_state s) \<longrightarrow> s' = s)"
proof -
  obtain ap where m: "abs m i = Some (s, ap)"
    using assms(1,2) by (auto simp: get_sim a_get_def split: option.splits)
  note sim = exec_ops_sim[OF assms(1), of xs]
  obtain s' ap' where "snd (exec_ops a_exec xs (abs m)) i = Some (s', ap')"
    "s_context s' = s_context s" "is_terminal (s_state s) \<longrightarrow> s' = s \<and> ap' = ap"
    using a_exec_ops_present[of "abs m" i s ap xs] m assms(3) by blast
  with sim show ?thesis by (auto simp: get_sim a_get_def)
qed

lemma insert_rejected:
  assumes "inv m" "get (sid_of s) m = Inr s0" "\<not> removes (sid_of s) xs"
  shows "fst (insert_op s (snd (exec_ops exec xs m))) = Inl AlreadyExists"
proof -
  have inv: "inv (snd (exec_ops exec xs m))" using exec_ops_sim assms(1) by blast
  obtain s' where "get (sid_of s) (snd (exec_ops exec xs m)) = Inr s'"
    using present_kept[OF assms] by blast
  then have "abs (snd (exec_ops exec xs m)) (sid_of s) \<noteq> None"
    using get_sim[OF inv] by (auto simp: a_get_def split: option.splits)
  then have "fst (a_insert s (abs (snd (exec_ops exec xs m)))) = Inl AlreadyExists"
    by (auto simp: a_insert_def)
  then show ?thesis using insert_sim[OF inv, of s] by simp
qed

lemma approval_at_most_once:
  assumes "inv m" "\<not> removes i xs"
  shows "successes (RecordApproval i v) xs (fst (exec_ops exec xs m)) \<le> 1"
  using a_approval_at_most_once[OF assms(2), of v "abs m"] exec_ops_sim[OF assms(1), of xs] by simp

lemma insert_get:
  assumes "inv m" "fst (insert_op s m) = Inr ()"
  shows "get (sid_of s) (snd (insert_op s m)) = Inr s"
proof -
  note sim = insert_sim[OF assms(1), of s]
  then have "abs (snd (insert_op s m)) = snd (a_insert s (abs m))" "fst (a_insert s (abs m)) = Inr ()"
    using assms(2) by simp_all
  then have "abs (snd (insert_op s m)) (sid_of s) = Some (s, {})"
    by (auto simp: a_insert_def split: option.splits)
  then show ?thesis using sim get_sim by (simp add: a_get_def)
qed

end

section \<open>The in-memory store\<close>

record InMemorySessionStore =
  sessions :: "SessionId \<Rightarrow> Session option"
  approvals :: "SessionId \<Rightarrow> VerifierId set option"

definition mem_new :: InMemorySessionStore where
  "mem_new = \<lparr> sessions = Map.empty, approvals = Map.empty \<rparr>"

definition mem_insert :: "Session \<Rightarrow> InMemorySessionStore store_action" where
  "mem_insert s m =
     (if sessions m (sid_of s) \<noteq> None then (Inl AlreadyExists, m)
      else (Inr (), m \<lparr> approvals := (case approvals m (sid_of s) of
                          None \<Rightarrow> (approvals m)(sid_of s \<mapsto> {}) | Some _ \<Rightarrow> approvals m),
                        sessions := (sessions m)(sid_of s \<mapsto> s) \<rparr>))"

definition mem_get :: "SessionId \<Rightarrow> InMemorySessionStore \<Rightarrow> (StorageError, Session) result" where
  "mem_get i m = (case sessions m i of None \<Rightarrow> Inl NotFound | Some s \<Rightarrow> Inr s)"

definition mem_update_state :: "SessionId \<Rightarrow> SessionState \<Rightarrow> InMemorySessionStore store_action" where
  "mem_update_state i st m =
     (case sessions m i of None \<Rightarrow> (Inl NotFound, m)
      | Some s \<Rightarrow>
          if is_terminal (s_state s) then (Inl SessionTerminated, m)
          else (Inr (), m \<lparr> sessions := (sessions m)(i \<mapsto> s \<lparr> s_state := st \<rparr>) \<rparr>))"

text \<open>\<open>record_approval\<close> takes the two locks one after the other: the first critical section reads
  the session, the second one writes the approval.\<close>

definition mem_approval_check ::
  "SessionId \<Rightarrow> InMemorySessionStore \<Rightarrow> (StorageError, unit) result" where
  "mem_approval_check i m =
     (case sessions m i of None \<Rightarrow> Inl NotFound
      | Some s \<Rightarrow> if is_terminal (s_state s) then Inl SessionTerminated else Inr ())"

definition mem_approval_write :: "SessionId \<Rightarrow> VerifierId \<Rightarrow> InMemorySessionStore store_action" where
  "mem_approval_write i v m =
     (case approvals m i of None \<Rightarrow> (Inl NotFound, m)
      | Some vs \<Rightarrow>
          if v \<in> vs then (Inl (DuplicateApproval (vid_display v)), m)
          else (Inr (), m \<lparr> approvals := (approvals m)(i \<mapsto> insert v vs) \<rparr>))"

definition mem_record_approval :: "SessionId \<Rightarrow> VerifierId \<Rightarrow> InMemorySessionStore store_action" where
  "mem_record_approval i v m =
     (case mem_approval_check i m of Inl e \<Rightarrow> (Inl e, m) | Inr _ \<Rightarrow> mem_approval_write i v m)"

definition mem_has_approved :: "SessionId \<Rightarrow> VerifierId \<Rightarrow> InMemorySessionStore \<Rightarrow> bool" where
  "mem_has_approved i v m = (case approvals m i of None \<Rightarrow> False | Some vs \<Rightarrow> v \<in> vs)"

definition mem_remove :: "SessionId \<Rightarrow> InMemorySessionStore store_action" where
  "mem_remove i m =
     (Inr (), m \<lparr> sessions := (sessions m)(i := None), approvals := (approvals m)(i := None) \<rparr>)"

definition mem_contains :: "SessionId \<Rightarrow> InMemorySessionStore \<Rightarrow> bool" where
  "mem_contains i m = (sessions m i \<noteq> None)"

lemmas mem_defs = mem_new_def mem_insert_def mem_get_def mem_update_state_def
  mem_approval_check_def mem_approval_write_def mem_record_approval_def mem_has_approved_def
  mem_remove_def mem_contains_def

text \<open>The invariant: the two maps have the same domain, and a session is stored under its own
  identifier.\<close>

definition mem_inv :: "InMemorySessionStore \<Rightarrow> bool" where
  "mem_inv m \<longleftrightarrow> dom (sessions m) = dom (approvals m) \<and>
     (\<forall>i s. sessions m i = Some s \<longrightarrow> sid_of s = i)"

definition mem_abs :: "InMemorySessionStore \<Rightarrow> astore" where
  "mem_abs m = (\<lambda>i. case sessions m i of None \<Rightarrow> None
     | Some s \<Rightarrow> map_option (\<lambda>vs. (s, vs)) (approvals m i))"

lemma mem_inv_new: "mem_inv mem_new"
  by (simp add: mem_inv_def mem_new_def)

lemma mem_inv_both: "mem_inv m \<Longrightarrow> sessions m i = None \<longleftrightarrow> approvals m i = None"
  by (metis domIff mem_inv_def)

lemma mem_abs_None: "mem_inv m \<Longrightarrow> mem_abs m i = None \<longleftrightarrow> sessions m i = None"
  using mem_inv_both[of m i] by (auto simp: mem_abs_def split: option.splits)

lemma mem_abs_Some:
  "mem_inv m \<Longrightarrow> mem_abs m i = Some (s, vs) \<longleftrightarrow> sessions m i = Some s \<and> approvals m i = Some vs"
  by (auto simp: mem_abs_def split: option.splits)

lemma sid_of_update [simp]: "sid_of (s \<lparr> s_state := t \<rparr>) = sid_of s"
  by (simp add: sid_of_def)

interpretation mems: session_store mem_insert mem_get mem_update_state mem_record_approval
  mem_has_approved mem_remove mem_contains mem_inv mem_abs
proof
  fix m s i st v
  assume inv: "mem_inv m"
  note both = mem_inv_both[OF inv]
  show "mem_inv (snd (mem_insert s m)) \<and>
      a_insert s (mem_abs m) = map_prod id mem_abs (mem_insert s m)"
    using inv both[of "sid_of s"]
    by (auto simp: mem_insert_def a_insert_def mem_abs_def mem_inv_def fun_eq_iff
        split: option.splits)
  show "mem_inv (snd (mem_update_state i st m)) \<and>
      a_update_state i st (mem_abs m) = map_prod id mem_abs (mem_update_state i st m)"
    using inv both[of i]
    by (auto simp: mem_update_state_def a_update_state_def mem_abs_def mem_inv_def fun_eq_iff
        split: option.splits)
  show "mem_inv (snd (mem_record_approval i v m)) \<and>
      a_record_approval i v (mem_abs m) = map_prod id mem_abs (mem_record_approval i v m)"
    using inv both[of i]
    by (auto simp: mem_record_approval_def mem_approval_check_def mem_approval_write_def
        a_record_approval_def mem_abs_def mem_inv_def fun_eq_iff split: option.splits)
  show "mem_inv (snd (mem_remove i m)) \<and>
      a_remove i (mem_abs m) = map_prod id mem_abs (mem_remove i m)"
    using inv by (auto simp: mem_remove_def a_remove_def mem_abs_def mem_inv_def fun_eq_iff
        split: option.splits)
  show "mem_get i m = a_get i (mem_abs m)"
    using both[of i] by (auto simp: mem_get_def a_get_def mem_abs_def split: option.splits)
  show "mem_has_approved i v m = a_has_approved i v (mem_abs m)"
    using both[of i] by (auto simp: mem_has_approved_def a_has_approved_def mem_abs_def
        split: option.splits)
  show "mem_contains i m = a_contains i (mem_abs m)"
    using mem_abs_None[OF inv] by (simp add: mem_contains_def a_contains_def)
qed

section \<open>Properties\<close>

abbreviation mem_exec :: "store_op \<Rightarrow> InMemorySessionStore store_action" where
  "mem_exec \<equiv> exec_op mem_insert mem_update_state mem_record_approval mem_remove"

definition mem_reachable :: "InMemorySessionStore \<Rightarrow> bool" where
  "mem_reachable m \<longleftrightarrow> (\<exists>xs. m = snd (exec_ops mem_exec xs mem_new))"

lemma mem_reachable_inv: "mem_reachable m \<Longrightarrow> mem_inv m"
  using mems.exec_ops_sim mem_inv_new by (auto simp: mem_reachable_def)

text \<open>C31. Replay protection of the in-memory store.  From any store reached from an empty one, along
  any sequence of operations that does not remove the session \<open>i\<close>: a session identifier that is
  present can never be inserted again; a terminal session is still the same session at the end;
  and for every verifier at most one \<open>record_approval\<close> succeeds.\<close>

theorem mem_replay_protection:
  assumes "mem_reachable m" and "mem_get i m = Inr s" and "\<not> removes i xs"
  shows "(\<forall>s'. sid_of s' = i \<longrightarrow>
            fst (mem_insert s' (snd (exec_ops mem_exec xs m))) = Inl AlreadyExists)
    \<and> (\<exists>s'. mem_get i (snd (exec_ops mem_exec xs m)) = Inr s' \<and> s_context s' = s_context s \<and>
            (is_terminal (s_state s) \<longrightarrow> s' = s))
    \<and> (\<forall>v. successes (RecordApproval i v) xs (fst (exec_ops mem_exec xs m)) \<le> 1)"
  using mems.insert_rejected[OF mem_reachable_inv[OF assms(1)]]
    mems.present_kept[OF mem_reachable_inv[OF assms(1)] assms(2,3)]
    mems.approval_at_most_once[OF mem_reachable_inv[OF assms(1)] assms(3)] assms(2,3)
  by blast

definition mem_ex :: InMemorySessionStore where
  "mem_ex = snd (exec_ops mem_exec [Insert (at_state Collecting)] mem_new)"

lemma mem_ex_reachable: "mem_reachable mem_ex"
  unfolding mem_reachable_def mem_ex_def by (rule exI, rule refl)

theorem mem_replay_protection_witness:
  "successes (RecordApproval (SessionId 1) (VerifierId 4))
     [RecordApproval (SessionId 1) (VerifierId 4), RecordApproval (SessionId 1) (VerifierId 4)]
     (fst (exec_ops mem_exec [RecordApproval (SessionId 1) (VerifierId 4),
        RecordApproval (SessionId 1) (VerifierId 4)] mem_ex)) = 1
   \<and> successes (RecordApproval (SessionId 1) (VerifierId 4))
     [RecordApproval (SessionId 1) (VerifierId 4), RecordApproval (SessionId 1) (VerifierId 4)]
     (fst (exec_ops mem_exec [RecordApproval (SessionId 1) (VerifierId 4),
        RecordApproval (SessionId 1) (VerifierId 4)] mem_ex)) \<le> 1"
proof
  let ?x = "RecordApproval (SessionId 1) (VerifierId 4)"
  have "mem_get (SessionId 1) mem_ex = Inr (at_state Collecting)"
    by (simp add: mem_ex_def mem_defs sid_of_def at_state_def ctx_ex_def)
  then show "successes ?x [?x, ?x] (fst (exec_ops mem_exec [?x, ?x] mem_ex)) \<le> 1"
    using mem_replay_protection[OF mem_ex_reachable, of "SessionId 1" "at_state Collecting" "[?x, ?x]"]
    by (simp add: removes_def)
  show "successes ?x [?x, ?x] (fst (exec_ops mem_exec [?x, ?x] mem_ex)) = 1"
    by (simp add: mem_ex_def mem_defs sid_of_def at_state_def ctx_ex_def)
qed

text \<open>C33. The in-memory store keeps its invariant and implements the contract of the trait: after
  every sequence of operations from the empty store the two maps have the same domain, every session
  is stored under its own identifier, and the results are those of the abstract store.\<close>

theorem mem_refines_contract:
  "mem_inv (snd (exec_ops mem_exec xs mem_new)) \<and>
   exec_ops a_exec xs Map.empty = map_prod id mem_abs (exec_ops mem_exec xs mem_new)"
proof -
  have "mem_abs mem_new = Map.empty" by (simp add: mem_abs_def mem_new_def fun_eq_iff)
  then show ?thesis using mems.exec_ops_sim[OF mem_inv_new, of xs] by simp
qed

text \<open>The two critical sections of \<open>record_approval\<close> are not one: when the session becomes
  terminal between the check and the write, the approval is recorded for the terminal session all
  the same, although the check alone would now reject it.\<close>

theorem mem_approval_interleaving:
  assumes "mem_inv m" and "mem_approval_check i m = Inr ()" and "\<not> mem_has_approved i v m"
    and "is_terminal st"
  shows "let m1 = snd (mem_update_state i st m); (r, m2) = mem_approval_write i v m1
         in r = Inr () \<and> mem_has_approved i v m2 \<and>
            fst (mem_record_approval i v m1) = Inl SessionTerminated"
proof -
  obtain s where s: "sessions m i = Some s" "\<not> is_terminal (s_state s)"
    using assms(2) by (auto simp: mem_approval_check_def split: option.splits if_splits)
  moreover obtain vs where "approvals m i = Some vs" using mem_inv_both[OF assms(1), of i] s by auto
  ultimately show ?thesis using assms(3,4)
    by (simp add: mem_defs)
qed

theorem mem_approval_interleaving_witness:
  "let m1 = snd (mem_update_state (SessionId 1) Finalized mem_ex);
       (r, m2) = mem_approval_write (SessionId 1) (VerifierId 4) m1
   in r = Inr () \<and> mem_has_approved (SessionId 1) (VerifierId 4) m2 \<and>
      fst (mem_record_approval (SessionId 1) (VerifierId 4) m1) = Inl SessionTerminated"
proof (rule mem_approval_interleaving)
  show "mem_inv mem_ex" by (rule mem_reachable_inv[OF mem_ex_reachable])
qed (simp_all add: mem_ex_def mem_defs sid_of_def at_state_def ctx_ex_def)

end
