(* ===== verification/Sqlite_Store.thy ===== *)
theory Sqlite_Store
  imports Session_Store
begin

text \<open>
  The SQLite session store (\<open>crates/storage/src/sqlite.rs\<close>).  The two tables are lists of rows; the
  statements of the source (insert, select, update, delete, with the primary key, the unique
  constraint and the foreign key) are the list operations below.  The connection mutex is held for
  the whole of every operation, so an operation is one step.

  The JSON codec (package \<open>serde_json\<close>) is the parameter \<open>js\<close>, over a type \<open>'j\<close> of JSON texts.  A statement may fail with an I/O
  error of the database: \<open>flt n = Some e\<close> says that the \<open>n\<close>-th statement of the operation fails
  with the message \<open>e\<close> and does nothing.
\<close>

record 'j json =
  to_string :: "Session \<Rightarrow> (string, 'j) result"
  from_str :: "'j \<Rightarrow> (string, Session) result"

record 'j session_row =
  r_session_id :: string
  r_session_json :: 'j
  r_is_terminal :: int

record 'j db =
  t_sessions :: "'j session_row list"
  t_approvals :: "(string \<times> string) list"

type_synonym faults = "nat \<Rightarrow> string option"

datatype sql_error = ConstraintViolation | SqlFailure string

section \<open>Statements\<close>

definition sql :: "faults \<Rightarrow> nat \<Rightarrow> (sql_error, 'a) result \<Rightarrow> (sql_error, 'a) result" where
  "sql flt n r = (case flt n of Some e \<Rightarrow> Inl (SqlFailure e) | None \<Rightarrow> r)"

definition insert_session_row :: "'j session_row \<Rightarrow> 'j db \<Rightarrow> (sql_error, 'j db) result" where
  "insert_session_row r d =
     (if r_session_id r \<in> r_session_id ` set (t_sessions d) then Inl ConstraintViolation
      else Inr (d \<lparr> t_sessions := t_sessions d @ [r] \<rparr>))"

definition select_session :: "string \<Rightarrow> 'j db \<Rightarrow> 'j session_row option" where
  "select_session k d = find (\<lambda>r. r_session_id r = k) (t_sessions d)"

definition update_session_row :: "'j \<Rightarrow> int \<Rightarrow> string \<Rightarrow> 'j db \<Rightarrow> 'j db" where
  "update_session_row j t k d =
     d \<lparr> t_sessions := map (\<lambda>r. if r_session_id r = k
       then r \<lparr> r_session_json := j, r_is_terminal := t \<rparr> else r) (t_sessions d) \<rparr>"

definition insert_approval_row :: "string \<Rightarrow> string \<Rightarrow> 'j db \<Rightarrow> (sql_error, 'j db) result" where
  "insert_approval_row k v d =
     (if (k, v) \<in> set (t_approvals d) \<or> k \<notin> r_session_id ` set (t_sessions d)
      then Inl ConstraintViolation
      else Inr (d \<lparr> t_approvals := t_approvals d @ [(k, v)] \<rparr>))"

definition delete_approvals :: "string \<Rightarrow> 'j db \<Rightarrow> 'j db" where
  "delete_approvals k d = d \<lparr> t_approvals := filter (\<lambda>a. fst a \<noteq> k) (t_approvals d) \<rparr>"

definition delete_session :: "string \<Rightarrow> 'j db \<Rightarrow> (sql_error, 'j db) result" where
  "delete_session k d =
     (if k \<in> fst ` set (t_approvals d) \<and> k \<in> r_session_id ` set (t_sessions d)
      then Inl ConstraintViolation
      else Inr (d \<lparr> t_sessions := filter (\<lambda>r. r_session_id r \<noteq> k) (t_sessions d) \<rparr>))"

section \<open>Keys\<close>

definition encode_session_id :: "SessionId \<Rightarrow> string" where
  "encode_session_id i = concat (map hex_of_byte (sid_enc i))"

definition encode_verifier_id :: "VerifierId \<Rightarrow> string" where
  "encode_verifier_id v = concat (map hex_of_byte (vid_enc v))"

text \<open>\<open>u8::from_str_radix(s, 16)\<close> on a two-character string: an optional plus sign, then
  hexadecimal digits of either case.\<close>

definition hex_value :: "char \<Rightarrow> nat option" where
  "hex_value c = (let n = of_char c in
     if 48 \<le> n \<and> n \<le> 57 then Some (n - 48)
     else if 97 \<le> n \<and> n \<le> 102 then Some (n - 87)
     else if 65 \<le> n \<and> n \<le> 70 then Some (n - 55) else None)"

definition byte_from_str_radix16 :: "char \<Rightarrow> char \<Rightarrow> byte option" where
  "byte_from_str_radix16 a b =
     (if a = CHR ''+'' then map_option of_nat (hex_value b)
      else (case (hex_value a, hex_value b) of
              (Some x, Some y) \<Rightarrow> Some (of_nat (16 * x + y)) | _ \<Rightarrow> None))"

definition chunk_utf8 :: "char \<Rightarrow> char \<Rightarrow> bool" where
  "chunk_utf8 a b = (let m = of_char a :: nat; n = of_char b :: nat in
     (m < 128 \<and> n < 128) \<or> (194 \<le> m \<and> m \<le> 223 \<and> 128 \<le> n \<and> n \<le> 191))"

fun decode_chunks :: "string \<Rightarrow> (StorageError, byte list) result" where
  "decode_chunks (a # b # cs) =
     (if \<not> chunk_utf8 a b then Inl (StoreIo ''non-UTF8 in session_id hex'')
      else (case byte_from_str_radix16 a b of
              None \<Rightarrow> Inl (StoreIo (''invalid hex byte '' @ [CHR 0x27, a, b, CHR 0x27] @
                             '': invalid digit found in string''))
            | Some x \<Rightarrow> rbind (decode_chunks cs) (\<lambda>xs. Inr (x # xs))))"
| "decode_chunks _ = Inr []"

definition decode_session_id :: "string \<Rightarrow> (StorageError, SessionId) result" where
  "decode_session_id s =
     (if length s \<noteq> 32 then Inl (StoreIo (''session_id hex must be 32 chars, got '' @ dec_str (length s)))
      else rbind (decode_chunks s) (\<lambda>bs. Inr (SessionId (be_word bs))))"

section \<open>Operations\<close>

definition flag :: "bool \<Rightarrow> int" where
  "flag b = (if b then 1 else 0)"

definition sq_is_terminal_by_hex :: "faults \<Rightarrow> nat \<Rightarrow> string \<Rightarrow> 'j db \<Rightarrow> (StorageError, bool) result" where
  "sq_is_terminal_by_hex flt n k d =
     (case flt n of
        Some e \<Rightarrow> Inl (StoreIo e)
      | None \<Rightarrow>
          (case map_option r_is_terminal (select_session k d) of
             None \<Rightarrow> Inl NotFound
           | Some f \<Rightarrow> Inr (f \<noteq> 0)))"

definition sq_insert :: "'j json \<Rightarrow> faults \<Rightarrow> Session \<Rightarrow> 'j db store_action" where
  "sq_insert js flt s d =
     (case to_string js s of
        Inl e \<Rightarrow> (Inl (StoreIo e), d)
      | Inr j \<Rightarrow>
          (case sql flt 0 (insert_session_row
                  \<lparr> r_session_id = encode_session_id (sid_of s), r_session_json = j,
                    r_is_terminal = flag (is_terminal (s_state s)) \<rparr> d) of
             Inr d' \<Rightarrow> (Inr (), d')
           | Inl ConstraintViolation \<Rightarrow> (Inl AlreadyExists, d)
           | Inl (SqlFailure e) \<Rightarrow> (Inl (StoreIo e), d)))"

definition sq_get :: "'j json \<Rightarrow> faults \<Rightarrow> SessionId \<Rightarrow> 'j db \<Rightarrow> (StorageError, Session) result" where
  "sq_get js flt i d =
     (case flt 0 of
        Some e \<Rightarrow> Inl (StoreIo e)
      | None \<Rightarrow>
          (case select_session (encode_session_id i) d of
             None \<Rightarrow> Inl NotFound
           | Some r \<Rightarrow> map_err StoreIo (from_str js (r_session_json r))))"

definition sq_update_state :: "'j json \<Rightarrow> faults \<Rightarrow> SessionId \<Rightarrow> SessionState \<Rightarrow> 'j db store_action" where
  "sq_update_state js flt i st d =
     (let k = encode_session_id i in
      case sq_is_terminal_by_hex flt 0 k d of
        Inl e \<Rightarrow> (Inl e, d)
      | Inr True \<Rightarrow> (Inl SessionTerminated, d)
      | Inr False \<Rightarrow>
          (case flt 1 of
             Some e \<Rightarrow> (Inl (StoreIo e), d)
           | None \<Rightarrow>
               (case select_session k d of
                  None \<Rightarrow> (Inl (StoreIo ''Query returned no rows''), d)
                | Some r \<Rightarrow>
                    (case from_str js (r_session_json r) of
                       Inl e \<Rightarrow> (Inl (StoreIo e), d)
                     | Inr s \<Rightarrow>
                         (case to_string js (s \<lparr> s_state := st \<rparr>) of
                            Inl e \<Rightarrow> (Inl (StoreIo e), d)
                          | Inr j \<Rightarrow>
                              (case flt 2 of
                                 Some e \<Rightarrow> (Inl (StoreIo e), d)
                               | None \<Rightarrow>
                                   (Inr (), update_session_row j (flag (is_terminal st)) k d)))))))"

definition sq_record_approval :: "faults \<Rightarrow> SessionId \<Rightarrow> VerifierId \<Rightarrow> 'j db store_action" where
  "sq_record_approval flt i v d =
     (let k = encode_session_id i in
      case sq_is_terminal_by_hex flt 0 k d of
        Inl e \<Rightarrow> (Inl e, d)
      | Inr True \<Rightarrow> (Inl SessionTerminated, d)
      | Inr False \<Rightarrow>
          (case sql flt 1 (insert_approval_row k (encode_verifier_id v) d) of
             Inr d' \<Rightarrow> (Inr (), d')
           | Inl ConstraintViolation \<Rightarrow> (Inl (DuplicateApproval (vid_display v)), d)
           | Inl (SqlFailure e) \<Rightarrow> (Inl (StoreIo e), d)))"

definition sq_has_approved :: "faults \<Rightarrow> SessionId \<Rightarrow> VerifierId \<Rightarrow> 'j db \<Rightarrow> bool" where
  "sq_has_approved flt i v d =
     (case flt 0 of
        Some _ \<Rightarrow> False
      | None \<Rightarrow> length (filter (\<lambda>r. r = (encode_session_id i, encode_verifier_id v)) (t_approvals d)) > 0)"

definition sq_remove :: "faults \<Rightarrow> SessionId \<Rightarrow> 'j db store_action" where
  "sq_remove flt i d =
     (let k = encode_session_id i in
      case flt 0 of
        Some e \<Rightarrow> (Inl (StoreIo e), d)
      | None \<Rightarrow>
          (let d1 = delete_approvals k d in
           case sql flt 1 (delete_session k d1) of
             Inl (SqlFailure e) \<Rightarrow> (Inl (StoreIo e), d1)
           | Inl ConstraintViolation \<Rightarrow> (Inl (StoreIo ''FOREIGN KEY constraint failed''), d1)
           | Inr d2 \<Rightarrow> (Inr (), d2)))"

definition sq_contains :: "faults \<Rightarrow> SessionId \<Rightarrow> 'j db \<Rightarrow> bool" where
  "sq_contains flt i d =
     (case flt 0 of
        Some _ \<Rightarrow> False
      | None \<Rightarrow> length (filter (\<lambda>r. r_session_id r = encode_session_id i) (t_sessions d)) > 0)"

definition sq_all_session_ids :: "faults \<Rightarrow> 'j db \<Rightarrow> (StorageError, SessionId list) result" where
  "sq_all_session_ids flt d =
     (case flt 0 of
        Some e \<Rightarrow> Inl (StoreIo e)
      | None \<Rightarrow> Inr (List.map_filter (\<lambda>r. case decode_session_id (r_session_id r) of
                   Inl _ \<Rightarrow> None | Inr i \<Rightarrow> Some i) (t_sessions d)))"

section \<open>The invariant and the simulation of the contract\<close>

text \<open>Documented behaviour of the codec: serialisation of a session succeeds, and parsing what it
  wrote gives the session back.\<close>

definition json_ok :: "'j json \<Rightarrow> bool" where
  "json_ok js \<longleftrightarrow> (\<forall>s. \<exists>j. to_string js s = Inr j \<and> from_str js j = Inr s)"

definition row_ok :: "'j json \<Rightarrow> 'j session_row \<Rightarrow> bool" where
  "row_ok js r \<longleftrightarrow> (\<exists>s. from_str js (r_session_json r) = Inr s \<and>
     r_session_id r = encode_session_id (sid_of s) \<and>
     r_is_terminal r = flag (is_terminal (s_state s)))"

definition db_inv :: "'j json \<Rightarrow> 'j db \<Rightarrow> bool" where
  "db_inv js d \<longleftrightarrow> distinct (map r_session_id (t_sessions d)) \<and>
     (\<forall>r \<in> set (t_sessions d). row_ok js r) \<and>
     distinct (t_approvals d) \<and> (\<forall>a \<in> set (t_approvals d). fst a \<in> r_session_id ` set (t_sessions d))"

definition db_abs :: "'j json \<Rightarrow> 'j db \<Rightarrow> astore" where
  "db_abs js d = (\<lambda>i. case select_session (encode_session_id i) d of
     None \<Rightarrow> None
   | Some r \<Rightarrow> (case from_str js (r_session_json r) of
        Inl _ \<Rightarrow> None
      | Inr s \<Rightarrow> Some (s, {v. (encode_session_id i, encode_verifier_id v) \<in> set (t_approvals d)})))"

definition no_faults :: faults where
  "no_faults = (\<lambda>_. None)"

lemma encode_session_id_eq_iff [simp]: "encode_session_id i = encode_session_id k \<longleftrightarrow> i = k"
  using hex_encode_eq_iff[of "sid_enc i" "sid_enc k"]
  by (simp add: encode_session_id_def flip: hex_encode_def)

lemma encode_verifier_id_eq_iff [simp]: "encode_verifier_id i = encode_verifier_id k \<longleftrightarrow> i = k"
  using hex_encode_eq_iff[of "vid_enc i" "vid_enc k"]
  by (simp add: encode_verifier_id_def flip: hex_encode_def)

lemma sql_no_faults [simp]: "sql no_faults n r = r" "no_faults n = None"
  by (simp_all add: sql_def no_faults_def)

lemma flag_neq_0 [simp]: "flag b \<noteq> 0 \<longleftrightarrow> b" "flag b = 0 \<longleftrightarrow> \<not> b"
  by (simp_all add: flag_def)

lemma select_session_SomeD:
  "select_session k d = Some r \<Longrightarrow> r \<in> set (t_sessions d) \<and> r_session_id r = k"
  using find_Some_iff2 by (fastforce simp: select_session_def)

lemma select_session_None:
  "select_session k d = None \<longleftrightarrow> k \<notin> r_session_id ` set (t_sessions d)"
  by (auto simp: select_session_def find_None_iff2)

lemma find_distinct:
  assumes "distinct (map f xs)" "x \<in> set xs"
  shows "find (\<lambda>y. f y = f x) xs = Some x"
  using assms by (induction xs) (auto simp: rev_image_eqI)

lemma find_append: "find P (xs @ ys) = (case find P xs of None \<Rightarrow> find P ys | Some x \<Rightarrow> Some x)"
  by (induction xs) auto

lemma find_map_other:
  assumes "\<And>x. f (g x) = f x"
  shows "find (\<lambda>x. f x = k) (map g xs) = map_option g (find (\<lambda>x. f x = k) xs)"
  using assms by (induction xs) auto

lemma find_filter_key:
  "find (\<lambda>x. f x = k) (filter (\<lambda>x. f x \<noteq> l) xs) = (if k = l then None else find (\<lambda>x. f x = k) xs)"
  by (induction xs) auto

lemma select_rowE:
  assumes "db_inv js d" "select_session (encode_session_id i) d = Some r"
  obtains s where "from_str js (r_session_json r) = Inr s" "sid_of s = i"
    "r_is_terminal r = flag (is_terminal (s_state s))" "r_session_id r = encode_session_id i"
proof -
  have "r \<in> set (t_sessions d)" "r_session_id r = encode_session_id i"
    using select_session_SomeD assms(2) by blast+
  then show ?thesis using assms(1) that by (force simp: db_inv_def row_ok_def)
qed

lemma db_abs_None:
  "db_inv js d \<Longrightarrow> db_abs js d i = None \<longleftrightarrow> select_session (encode_session_id i) d = None"
  by (auto simp: db_abs_def elim: select_rowE split: option.splits sum.splits)

lemma db_abs_Some:
  "db_abs js d i = Some (s, ap) \<longleftrightarrow>
     (\<exists>r. select_session (encode_session_id i) d = Some r \<and> from_str js (r_session_json r) = Inr s \<and>
        ap = {v. (encode_session_id i, encode_verifier_id v) \<in> set (t_approvals d)})"
  by (auto simp: db_abs_def split: option.splits sum.splits)

lemma db_abs_cong:
  "select_session (encode_session_id k) d' = select_session (encode_session_id k) d \<Longrightarrow>
   (\<And>v. (encode_session_id k, v) \<in> set (t_approvals d') \<longleftrightarrow> (encode_session_id k, v) \<in> set (t_approvals d)) \<Longrightarrow>
   db_abs js d' k = db_abs js d k"
  by (simp add: db_abs_def split: option.split sum.split)

lemma json_okE:
  assumes "json_ok js"
  obtains j where "to_string js s = Inr j" "from_str js j = Inr s"
  using assms by (auto simp: json_ok_def)

lemma db_approvals_present:
  "db_inv js d \<Longrightarrow> (encode_session_id i, v) \<in> set (t_approvals d) \<Longrightarrow>
     select_session (encode_session_id i) d \<noteq> None"
  unfolding db_inv_def select_session_None by (metis fst_conv)

lemma sq_insert_sim:
  assumes js: "json_ok js" and inv: "db_inv js d"
  shows "db_inv js (snd (sq_insert js no_faults s d)) \<and>
    a_insert s (db_abs js d) = map_prod id (db_abs js) (sq_insert js no_faults s d)"
proof -
  obtain j where j: "to_string js s = Inr j" "from_str js j = Inr s" using js by (rule json_okE)
  define k where "k = encode_session_id (sid_of s)"
  show ?thesis
  proof (cases "select_session k d")
    case (Some r)
    moreover from this have "k \<in> r_session_id ` set (t_sessions d)"
      using select_session_SomeD by fastforce
    moreover have "db_abs js d (sid_of s) \<noteq> None" using Some db_abs_None[OF inv] k_def by simp
    ultimately show ?thesis using inv j
      by (auto simp: sq_insert_def insert_session_row_def a_insert_def k_def)
  next
    case None
    define row where "row = \<lparr> r_session_id = k, r_session_json = j,
      r_is_terminal = flag (is_terminal (s_state s)) \<rparr>"
    have new: "sq_insert js no_faults s d = (Inr (), d \<lparr> t_sessions := t_sessions d @ [row] \<rparr>)"
      using None j by (simp add: sq_insert_def insert_session_row_def select_session_None row_def k_def)
    have "row_ok js row" using j by (simp add: row_ok_def row_def k_def)
    then have "db_inv js (d \<lparr> t_sessions := t_sessions d @ [row] \<rparr>)"
      using inv None by (auto simp: db_inv_def select_session_None row_def)
    moreover have "db_abs js d (sid_of s) = None" using db_abs_None[OF inv] None k_def by simp
    moreover have "(db_abs js d)(sid_of s \<mapsto> (s, {})) =
        db_abs js (d \<lparr> t_sessions := t_sessions d @ [row] \<rparr>)"
    proof
      fix i
      have "v \<notin> set (t_approvals d)" if "fst v = k" for v
        using that inv None by (auto simp: db_inv_def select_session_None)
      then have "db_abs js (d \<lparr> t_sessions := t_sessions d @ [row] \<rparr>) (sid_of s) = Some (s, {})"
        using None j(2) by (auto simp: db_abs_Some select_session_def find_append row_def k_def)
      moreover have "db_abs js (d \<lparr> t_sessions := t_sessions d @ [row] \<rparr>) i = db_abs js d i"
        if "i \<noteq> sid_of s"
        using that by (intro db_abs_cong)
          (auto simp: select_session_def find_append row_def k_def split: option.splits)
      ultimately show "((db_abs js d)(sid_of s \<mapsto> (s, {}))) i =
          db_abs js (d \<lparr> t_sessions := t_sessions d @ [row] \<rparr>) i"
        by simp
    qed
    ultimately show ?thesis by (simp add: new a_insert_def)
  qed
qed

lemma sq_update_sim:
  fixes js :: "'a json"
  assumes js: "json_ok js" and inv: "db_inv js d"
  shows "db_inv js (snd (sq_update_state js no_faults i st d)) \<and>
    a_update_state i st (db_abs js d) = map_prod id (db_abs js) (sq_update_state js no_faults i st d)"
proof (cases "select_session (encode_session_id i) d")
  case None
  then have "db_abs js d i = None" using db_abs_None[OF inv] by simp
  then show ?thesis using inv None
    by (simp add: sq_update_state_def sq_is_terminal_by_hex_def a_update_state_def)
next
  case (Some r)
  then obtain s where s: "from_str js (r_session_json r) = Inr s" "sid_of s = i"
    "r_is_terminal r = flag (is_terminal (s_state s))" "r_session_id r = encode_session_id i"
    using select_rowE[OF inv] by blast
  obtain j where j: "to_string js (s \<lparr> s_state := st \<rparr>) = Inr j"
    "from_str js j = Inr (s \<lparr> s_state := st \<rparr>)" using js by (rule json_okE)
  define g :: "'a session_row \<Rightarrow> 'a session_row" where "g = (\<lambda>r. if r_session_id r = encode_session_id i
    then r \<lparr> r_session_json := j, r_is_terminal := flag (is_terminal st) \<rparr> else r)"
  have gid: "r_session_id (g r) = r_session_id r" for r by (simp add: g_def)
  have abs: "db_abs js d i = Some (s, {v. (encode_session_id i, encode_verifier_id v) \<in> set (t_approvals d)})"
    using Some s by (simp add: db_abs_def)
  have ok: "row_ok js (g r)" if "row_ok js r" for r
    using that j s(2) by (auto simp: row_ok_def g_def)
  have sel: "select_session k (d \<lparr> t_sessions := map g (t_sessions d) \<rparr>) = map_option g (select_session k d)" for k
    by (simp add: select_session_def find_map_other gid)
  have keys: "map r_session_id (map g (t_sessions d)) = map r_session_id (t_sessions d)"
    by (simp add: gid)
  have "db_inv js (d \<lparr> t_sessions := map g (t_sessions d) \<rparr>)"
    using inv ok keys by (auto simp: db_inv_def image_image gid simp del: map_map)
  moreover have "db_abs js (d \<lparr> t_sessions := map g (t_sessions d) \<rparr>) =
      (db_abs js d)(i \<mapsto> (s \<lparr> s_state := st \<rparr>,
        {v. (encode_session_id i, encode_verifier_id v) \<in> set (t_approvals d)}))"
    (is "?l = ?r")
  proof (rule ext)
    fix k
    show "?l k = ?r k"
    proof (cases "k = i")
    case True
    have "r_session_json (g r) = j" using s(4) by (simp add: g_def)
    moreover have "select_session (encode_session_id i) (d \<lparr> t_sessions := map g (t_sessions d) \<rparr>) =
        Some (g r)" by (simp add: sel Some)
    ultimately show ?thesis using True j(2) by (simp add: db_abs_def)
  next
    case False
    have "g x = x" if "select_session (encode_session_id k) d = Some x" for x
      using select_session_SomeD[OF that] False by (simp add: g_def)
    then have "select_session (encode_session_id k) (d \<lparr> t_sessions := map g (t_sessions d) \<rparr>) =
        select_session (encode_session_id k) d"
      by (cases "select_session (encode_session_id k) d") (simp_all add: sel)
    then have "db_abs js (d \<lparr> t_sessions := map g (t_sessions d) \<rparr>) k = db_abs js d k"
      by (intro db_abs_cong) simp_all
    then show ?thesis using False by simp
    qed
  qed
  moreover have "sq_update_state js no_faults i st d =
      (if is_terminal (s_state s) then (Inl SessionTerminated, d)
       else (Inr (), d \<lparr> t_sessions := map g (t_sessions d) \<rparr>))"
    using Some s j by (simp add: sq_update_state_def sq_is_terminal_by_hex_def
        update_session_row_def g_def)
  ultimately show ?thesis using inv abs by (simp add: a_update_state_def)
qed

lemma sq_approval_sim:
  assumes inv: "db_inv js d"
  shows "db_inv js (snd (sq_record_approval no_faults i v d)) \<and>
    a_record_approval i v (db_abs js d) = map_prod id (db_abs js) (sq_record_approval no_faults i v d)"
proof (cases "select_session (encode_session_id i) d")
  case None
  then have "db_abs js d i = None" using db_abs_None[OF inv] by simp
  then show ?thesis using inv None
    by (simp add: sq_record_approval_def sq_is_terminal_by_hex_def a_record_approval_def)
next
  case (Some r)
  then obtain s where s: "from_str js (r_session_json r) = Inr s" "sid_of s = i"
    "r_is_terminal r = flag (is_terminal (s_state s))" "r_session_id r = encode_session_id i"
    using select_rowE[OF inv] by blast
  define a where "a = (encode_session_id i, encode_verifier_id v)"
  have key: "encode_session_id i \<in> r_session_id ` set (t_sessions d)"
    using select_session_SomeD[OF Some] by force
  have abs: "db_abs js d i = Some (s, {v. (encode_session_id i, encode_verifier_id v) \<in> set (t_approvals d)})"
    using Some s by (simp add: db_abs_def)
  have "db_inv js (d \<lparr> t_approvals := t_approvals d @ [a] \<rparr>)" if "a \<notin> set (t_approvals d)"
    using inv key that by (auto simp: db_inv_def a_def)
  moreover have "db_abs js (d \<lparr> t_approvals := t_approvals d @ [a] \<rparr>) =
      (db_abs js d)(i \<mapsto> (s, insert v
        {v. (encode_session_id i, encode_verifier_id v) \<in> set (t_approvals d)}))"
  proof
    fix k
    show "db_abs js (d \<lparr> t_approvals := t_approvals d @ [a] \<rparr>) k = ((db_abs js d)(i \<mapsto> (s, insert v
        {v. (encode_session_id i, encode_verifier_id v) \<in> set (t_approvals d)}))) k"
    proof (cases "k = i")
      case True
      then show ?thesis using Some s(1) by (auto simp: db_abs_Some select_session_def a_def)
    next
      case False
      then have "db_abs js (d \<lparr> t_approvals := t_approvals d @ [a] \<rparr>) k = db_abs js d k"
        by (intro db_abs_cong) (simp_all add: select_session_def a_def)
      then show ?thesis using False by simp
    qed
  qed
  moreover have "sq_record_approval no_faults i v d =
      (if is_terminal (s_state s) then (Inl SessionTerminated, d)
       else if a \<in> set (t_approvals d) then (Inl (DuplicateApproval (vid_display v)), d)
       else (Inr (), d \<lparr> t_approvals := t_approvals d @ [a] \<rparr>))"
    using Some s key by (simp add: sq_record_approval_def sq_is_terminal_by_hex_def
        insert_approval_row_def a_def)
  ultimately show ?thesis using inv abs by (simp add: a_record_approval_def a_def)
qed

lemma sq_remove_sim:
  assumes inv: "db_inv js d"
  shows "db_inv js (snd (sq_remove no_faults i d)) \<and>
    a_remove i (db_abs js d) = map_prod id (db_abs js) (sq_remove no_faults i d)"
proof -
  define k where "k = encode_session_id i"
  define d' where "d' = d \<lparr> t_approvals := filter (\<lambda>a. fst a \<noteq> k) (t_approvals d),
    t_sessions := filter (\<lambda>r. r_session_id r \<noteq> k) (t_sessions d) \<rparr>"
  have eq: "sq_remove no_faults i d = (Inr (), d')"
    by (auto simp: sq_remove_def delete_approvals_def delete_session_def d'_def k_def Let_def)
  have "db_inv js d'"
    using inv by (auto simp: db_inv_def d'_def distinct_map_filter)
  moreover have "db_abs js d' = (db_abs js d)(i := None)"
  proof
    fix l
    show "db_abs js d' l = ((db_abs js d)(i := None)) l"
    proof (cases "l = i")
      case True
      then show ?thesis by (simp add: db_abs_def select_session_def d'_def k_def find_filter_key)
    next
      case False
      then have "db_abs js d' l = db_abs js d l"
        by (intro db_abs_cong) (simp_all add: select_session_def d'_def k_def find_filter_key)
      then show ?thesis using False by simp
    qed
  qed
  ultimately show ?thesis by (simp add: eq a_remove_def)
qed

lemma sqlite_session_store:
  assumes "json_ok js"
  shows "session_store (sq_insert js no_faults) (sq_get js no_faults) (sq_update_state js no_faults)
    (sq_record_approval no_faults) (sq_has_approved no_faults) (sq_remove no_faults)
    (sq_contains no_faults) (db_inv js) (db_abs js)"
proof
  fix d i v
  assume inv: "db_inv js d"
  show "sq_get js no_faults i d = a_get i (db_abs js d)"
  proof (cases "select_session (encode_session_id i) d")
    case (Some r)
    then obtain s where "from_str js (r_session_json r) = Inr s" using select_rowE[OF inv] by blast
    then show ?thesis using Some by (simp add: sq_get_def a_get_def db_abs_def)
  qed (simp add: sq_get_def a_get_def db_abs_def)
  show "sq_has_approved no_faults i v d = a_has_approved i v (db_abs js d)"
  proof (cases "select_session (encode_session_id i) d")
    case (Some r)
    then obtain s where "from_str js (r_session_json r) = Inr s" using select_rowE[OF inv] by blast
    then show ?thesis using Some
      by (auto simp: sq_has_approved_def a_has_approved_def db_abs_def filter_empty_conv)
  next
    case None
    then have "(encode_session_id i, encode_verifier_id v) \<notin> set (t_approvals d)"
      using db_approvals_present[OF inv] by blast
    then show ?thesis using None
      by (auto simp: sq_has_approved_def a_has_approved_def db_abs_def filter_empty_conv)
  qed
  show "sq_contains no_faults i d = a_contains i (db_abs js d)"
    using db_abs_None[OF inv, of i]
    by (force simp: sq_contains_def a_contains_def select_session_None filter_empty_conv)
qed (rule sq_insert_sim[OF assms] sq_update_sim[OF assms] sq_approval_sim sq_remove_sim, assumption)+

section \<open>Keys are read back\<close>

lemma hex_value_digit: "n < 16 \<Longrightarrow> hex_value (hex_digit n) = Some n"
  by (auto simp: hex_value_def hex_digit_def Let_def take_bit_nat_eq_self)

lemma hex_digit_plain:
  assumes "n < 16"
  shows "hex_digit n \<noteq> CHR ''+''" "(of_char (hex_digit n) :: nat) < 128"
  using assms by (auto simp: hex_digit_def char_of_eq_iff take_bit_nat_eq_self)

lemma decode_chunks_hex: "decode_chunks (concat (map hex_of_byte bs)) = Inr bs"
proof (induction bs)
  case (Cons b bs)
  have b: "unat b < 256" using unsigned_less[of b, where ?'a = nat] by simp
  then have d: "unat b div 16 < 16" "unat b mod 16 < 16" by auto
  have "word_of_nat (16 * (unat b div 16) + unat b mod 16) = b"
    by simp
  then have "byte_from_str_radix16 (hex_digit (unat b div 16)) (hex_digit (unat b mod 16)) = Some b"
    using d hex_digit_plain(1)[OF d(1)] by (simp add: byte_from_str_radix16_def hex_value_digit)
  moreover have "chunk_utf8 (hex_digit (unat b div 16)) (hex_digit (unat b mod 16))"
    using hex_digit_plain(2) d by (simp add: chunk_utf8_def Let_def)
  ultimately show ?case using Cons.IH by (simp add: hex_of_byte_def)
qed simp

lemma decode_encode_session_id: "decode_session_id (encode_session_id i) = Inr i"
proof -
  have "length (encode_session_id i) = 32"
    by (simp add: encode_session_id_def flip: hex_encode_def)
  then show ?thesis
    by (cases i) (simp add: decode_session_id_def encode_session_id_def decode_chunks_hex
        sid_enc_def be_word_be_bytes)
qed

lemma map_filter_all_Some:
  "\<forall>x \<in> set xs. f x = Some (g x) \<Longrightarrow> List.map_filter f xs = map g xs"
  by (induction xs) (auto simp: List.map_filter_simps)

lemma all_session_ids_sim:
  fixes js :: "'a json"
  assumes inv: "db_inv js d"
  shows "\<exists>is. sq_all_session_ids no_faults d = Inr is \<and> distinct is \<and> set is = dom (db_abs js d)"
proof -
  define g where "g = (\<lambda>r :: 'a session_row. projr (decode_session_id (r_session_id r)))"
  have row: "r_session_id r = encode_session_id (g r) \<and> decode_session_id (r_session_id r) = Inr (g r)"
    if "r \<in> set (t_sessions d)" for r
    using inv that by (auto simp: db_inv_def row_ok_def g_def decode_encode_session_id)
  then have ids: "sq_all_session_ids no_faults d = Inr (map g (t_sessions d))"
    unfolding sq_all_session_ids_def by (subst map_filter_all_Some[where g = g]) (auto simp: decode_encode_session_id)
  have "map r_session_id (t_sessions d) = map encode_session_id (map g (t_sessions d))"
    using row by simp
  then have "distinct (map g (t_sessions d))"
    using inv by (metis db_inv_def distinct_map)
  moreover have "i \<in> g ` set (t_sessions d) \<longleftrightarrow> i \<in> dom (db_abs js d)" for i
  proof -
    have "i \<in> g ` set (t_sessions d) \<longleftrightarrow> encode_session_id i \<in> r_session_id ` set (t_sessions d)"
      using row by force
    then show ?thesis using db_abs_None[OF inv, of i] by (simp add: select_session_None domIff)
  qed
  ultimately show ?thesis by (auto simp: ids)
qed

section \<open>Properties\<close>

definition db_empty :: "'j db" where
  "db_empty = \<lparr> t_sessions = [], t_approvals = [] \<rparr>"

abbreviation sq_exec :: "'j json \<Rightarrow> store_op \<Rightarrow> 'j db store_action" where
  "sq_exec js \<equiv> exec_op (sq_insert js no_faults) (sq_update_state js no_faults)
     (sq_record_approval no_faults) (sq_remove no_faults)"

lemma db_inv_empty: "db_inv js db_empty"
  by (simp add: db_inv_def db_empty_def)

lemma db_abs_empty: "db_abs js db_empty = Map.empty"
  by (simp add: db_abs_def db_empty_def select_session_def fun_eq_iff)

lemma mem_abs_new: "mem_abs mem_new = Map.empty"
  by (simp add: mem_abs_def mem_new_def fun_eq_iff)

lemma sqlite_memory_sim:
  assumes "json_ok js"
  defines "sq \<equiv> \<lambda>xs. exec_ops (sq_exec js) xs db_empty" and "me \<equiv> \<lambda>xs. exec_ops mem_exec xs mem_new"
  shows "fst (sq xs) = fst (me xs)" and "db_abs js (snd (sq xs)) = mem_abs (snd (me xs))"
    and "db_inv js (snd (sq xs))" and "mem_inv (snd (me xs))"
    and "sq_get js no_faults i (snd (sq xs)) = mem_get i (snd (me xs))"
    and "sq_has_approved no_faults i v (snd (sq xs)) = mem_has_approved i v (snd (me xs))"
    and "sq_contains no_faults i (snd (sq xs)) = mem_contains i (snd (me xs))"
proof -
  note st = sqlite_session_store[OF assms(1)]
  note sim1 = session_store.exec_ops_sim[OF st db_inv_empty, of xs]
  note sim2 = mems.exec_ops_sim[OF mem_inv_new, of xs]
  have eq: "map_prod id (db_abs js) (sq xs) = map_prod id mem_abs (me xs)"
    using sim1 sim2 by (simp add: db_abs_empty mem_abs_new sq_def me_def)
  then show "fst (sq xs) = fst (me xs)" "db_abs js (snd (sq xs)) = mem_abs (snd (me xs))"
    by (simp_all add: prod_eq_iff)
  note abs = this(2)
  show inv: "db_inv js (snd (sq xs))" "mem_inv (snd (me xs))"
    using sim1 sim2 by (simp_all add: sq_def me_def)
  show "sq_get js no_faults i (snd (sq xs)) = mem_get i (snd (me xs))"
    "sq_has_approved no_faults i v (snd (sq xs)) = mem_has_approved i v (snd (me xs))"
    "sq_contains no_faults i (snd (sq xs)) = mem_contains i (snd (me xs))"
    using inv abs
    by (simp_all add: session_store.get_sim[OF st] session_store.has_approved_sim[OF st]
        session_store.contains_sim[OF st] mems.get_sim mems.has_approved_sim mems.contains_sim)
qed

text \<open>C32. The SQLite store and the in-memory store are interchangeable: for every sequence of
  operations on two empty stores, without I/O errors and with a codec that reads back what it
  writes, every operation returns the same result, and afterwards \<open>get\<close>, \<open>has_approved\<close> and
  \<open>contains\<close> agree on every session and verifier.\<close>

theorem sqlite_memory_equivalent:
  assumes "json_ok js"
  shows "fst (exec_ops (sq_exec js) xs db_empty) = fst (exec_ops mem_exec xs mem_new)
    \<and> sq_get js no_faults i (snd (exec_ops (sq_exec js) xs db_empty)) =
        mem_get i (snd (exec_ops mem_exec xs mem_new))
    \<and> sq_has_approved no_faults i v (snd (exec_ops (sq_exec js) xs db_empty)) =
        mem_has_approved i v (snd (exec_ops mem_exec xs mem_new))
    \<and> sq_contains no_faults i (snd (exec_ops (sq_exec js) xs db_empty)) =
        mem_contains i (snd (exec_ops mem_exec xs mem_new))"
  using sqlite_memory_sim[OF assms] by blast

definition json_ex :: "Session json" where
  "json_ex = \<lparr> to_string = Inr, from_str = Inr \<rparr>"

lemma json_ex_ok: "json_ok json_ex"
  by (simp add: json_ok_def json_ex_def)

theorem sqlite_memory_equivalent_witness:
  "fst (exec_ops (sq_exec json_ex)
      [Insert (at_state Collecting), RecordApproval (SessionId 1) (VerifierId 4),
       RecordApproval (SessionId 1) (VerifierId 4)] db_empty) =
   [Inr (), Inr (), Inl (DuplicateApproval (vid_display (VerifierId 4)))]"
  unfolding sqlite_memory_equivalent[OF json_ex_ok, THEN conjunct1]
  by (simp add: mem_defs sid_of_def at_state_def ctx_ex_def)

text \<open>\<open>all_session_ids\<close> lists, without repetition, exactly the sessions of the store: every key
  written is read back to the identifier it encodes.\<close>

theorem sqlite_all_session_ids:
  assumes "json_ok js" and "d = snd (exec_ops (sq_exec js) xs db_empty)"
  shows "\<exists>is. sq_all_session_ids no_faults d = Inr is \<and> distinct is \<and>
    set is = {i. mem_contains i (snd (exec_ops mem_exec xs mem_new))}"
proof -
  have "dom (mem_abs (snd (exec_ops mem_exec xs mem_new))) =
      {i. mem_contains i (snd (exec_ops mem_exec xs mem_new))}"
    using sqlite_memory_sim(4)[OF assms(1)] by (auto simp: mems.contains_sim a_contains_def)
  then show ?thesis
    using all_session_ids_sim[of js d] sqlite_memory_sim(2,3)[OF assms(1)] by (simp add: assms(2))
qed

theorem sqlite_all_session_ids_witness:
  "\<exists>is. sq_all_session_ids no_faults
       (snd (exec_ops (sq_exec json_ex) [Insert (at_state Collecting)] db_empty)) = Inr is \<and>
     distinct is \<and> set is = {SessionId 1}"
proof -
  have "{i. mem_contains i (snd (exec_ops mem_exec [Insert (at_state Collecting)] mem_new))} = {SessionId 1}"
    by (auto simp: mem_defs sid_of_def at_state_def ctx_ex_def split: if_splits)
  then show ?thesis
    using sqlite_all_session_ids[OF json_ex_ok refl, of "[Insert (at_state Collecting)]"] by simp
qed

text \<open>The two statements of \<open>remove\<close> are not one transaction: when the second one fails, the call
  reports an I/O error, the session is still there, and all its approvals are gone, so that a
  verifier that had approved the session is accepted a second time.\<close>

theorem sqlite_remove_not_atomic:
  assumes "json_ok js" and "db_inv js d" and "sq_get js no_faults i d = Inr s"
    and "\<not> is_terminal (s_state s)"
    and "flt 0 = None" and "flt (Suc 0) = Some e"
  shows "let (r, d') = sq_remove flt i d
         in r = Inl (StoreIo e) \<and> sq_get js no_faults i d' = Inr s \<and>
            \<not> sq_has_approved no_faults i v d' \<and>
            fst (sq_record_approval no_faults i v d') = Inr ()"
proof -
  define k where "k = encode_session_id i"
  obtain r where r: "select_session k d = Some r" "from_str js (r_session_json r) = Inr s"
    using assms(3) by (auto simp: sq_get_def k_def map_err_eq_Inr split: option.splits)
  then have tm: "r_is_terminal r = flag (is_terminal (s_state s))"
    using select_rowE[OF assms(2)] by (metis k_def sum.inject(2))
  define d' where "d' = delete_approvals k d"
  have rm: "sq_remove flt i d = (Inl (StoreIo e), d')"
    using assms(5,6) by (simp add: sq_remove_def sql_def d'_def k_def Let_def)
  have sel: "select_session k d' = Some r" and "k \<in> r_session_id ` set (t_sessions d')"
    using r select_session_SomeD[OF r(1)]
    by (auto simp: d'_def delete_approvals_def select_session_def)
  moreover have "(k, w) \<notin> set (t_approvals d')" for w by (simp add: d'_def delete_approvals_def)
  ultimately show ?thesis using r tm assms(4)
    by (simp add: rm sq_get_def sq_has_approved_def sq_record_approval_def insert_approval_row_def
        sq_is_terminal_by_hex_def filter_empty_conv flip: k_def)
qed

definition db_ex :: "Session db" where
  "db_ex = snd (exec_ops (sq_exec json_ex) [Insert (at_state Collecting),
     RecordApproval (SessionId 1) (VerifierId 4)] db_empty)"

theorem sqlite_remove_not_atomic_witness:
  "sq_has_approved no_faults (SessionId 1) (VerifierId 4) db_ex \<and>
   (let (r, d') = sq_remove (\<lambda>n. if n = 1 then Some ''disk I/O error'' else None) (SessionId 1) db_ex
    in r = Inl (StoreIo ''disk I/O error'') \<and>
       sq_get json_ex no_faults (SessionId 1) d' = Inr (at_state Collecting) \<and>
       \<not> sq_has_approved no_faults (SessionId 1) (VerifierId 4) d' \<and>
       fst (sq_record_approval no_faults (SessionId 1) (VerifierId 4) d') = Inr ())"
proof
  note sim = sqlite_memory_sim[OF json_ex_ok, where xs = "[Insert (at_state Collecting),
     RecordApproval (SessionId 1) (VerifierId 4)]", folded db_ex_def]
  show "sq_has_approved no_faults (SessionId 1) (VerifierId 4) db_ex"
    unfolding sim(6) by (simp add: mem_defs sid_of_def at_state_def ctx_ex_def)
  have "sq_get json_ex no_faults (SessionId 1) db_ex = Inr (at_state Collecting)"
    unfolding sim(5) by (simp add: mem_defs sid_of_def at_state_def ctx_ex_def)
  then show "let (r, d') = sq_remove (\<lambda>n. if n = 1 then Some ''disk I/O error'' else None) (SessionId 1) db_ex
    in r = Inl (StoreIo ''disk I/O error'') \<and>
       sq_get json_ex no_faults (SessionId 1) d' = Inr (at_state Collecting) \<and>
       \<not> sq_has_approved no_faults (SessionId 1) (VerifierId 4) d' \<and>
       fst (sq_record_approval no_faults (SessionId 1) (VerifierId 4) d') = Inr ()"
    by (intro sqlite_remove_not_atomic[OF json_ex_ok sim(3)]) (simp_all add: at_state_def)
qed

end
