(* ===== verification/Threshold.thy ===== *)
theory Threshold
  imports Core_Types
begin

text \<open>
  Threshold approvals from individual ed25519 signatures (\<open>crates/crypto/src/threshold.rs\<close>), and the
  error type of the crypto crate (\<open>error.rs\<close>).  The signature scheme (package \<open>ed25519-dalek\<close>) is
  the parameter \<open>ed\<close>; a verifying key is its 32 bytes, a signature its bytes.
\<close>

datatype CryptoError =
    RandomnessVerificationFailed string
  | InsufficientContributions nat nat
  | SignatureVerificationFailed string
  | InsufficientSignatures nat nat
  | UnknownVerifier string
  | CryptoTranscriptMismatch
  | InvalidKeyMaterial string
  | SigningFailed string
  | AggregationFailed string
  | DkgAnnouncement string

record ed25519 =
  ed_public :: "bytes32 \<Rightarrow> bytes32"
  ed_sign :: "bytes32 \<Rightarrow> byte list \<Rightarrow> byte list"
  ed_from_slice :: "byte list \<Rightarrow> (string, byte list) result"
  ed_verify :: "bytes32 \<Rightarrow> byte list \<Rightarrow> byte list \<Rightarrow> bool"

section \<open>Keys and partial signatures\<close>

record VerifierKeyPair =
  kp_verifier_id :: VerifierId
  kp_signing_key :: bytes32

definition kp_from_seed :: "sha \<Rightarrow> ed25519 \<Rightarrow> bytes32 \<Rightarrow> VerifierKeyPair" where
  "kp_from_seed H ed seed =
     \<lparr> kp_verifier_id = vid_from_public_key H (arr32 (ed_public ed seed)), kp_signing_key = seed \<rparr>"

definition kp_verifying_key :: "ed25519 \<Rightarrow> VerifierKeyPair \<Rightarrow> bytes32" where
  "kp_verifying_key ed kp = ed_public ed (kp_signing_key kp)"

definition kp_sign_raw :: "ed25519 \<Rightarrow> VerifierKeyPair \<Rightarrow> byte list \<Rightarrow> byte list" where
  "kp_sign_raw ed kp data = ed_sign ed (kp_signing_key kp) data"

record PartialSignature =
  ps_verifier_id :: VerifierId
  ps_bytes :: "byte list"

definition sign_partial ::
  "ed25519 \<Rightarrow> VerifierKeyPair \<Rightarrow> byte list \<Rightarrow> (CryptoError, PartialSignature) result" where
  "sign_partial ed kp payload =
     Inr \<lparr> ps_verifier_id = kp_verifier_id kp, ps_bytes = ed_sign ed (kp_signing_key kp) payload \<rparr>"

section \<open>Approvals\<close>

record ThresholdApproval =
  ta_quorum :: QuorumSpec
  ta_signers :: "VerifierId list"
  ta_signatures :: "(VerifierId \<times> byte list) list"
  ta_signed_digest :: DigestBytes

definition approval_signed_digest :: "sha \<Rightarrow> DigestBytes \<Rightarrow> DigestBytes" where
  "approval_signed_digest H envelope_digest =
     sha256_tagged H ''tls-attestation/threshold-approval/v1'' (digest_enc envelope_digest)"

type_synonym key_list = "(VerifierId \<times> bytes32) list"

definition find_key :: "key_list \<Rightarrow> VerifierId \<Rightarrow> bytes32 option" where
  "find_key pks v = map_option snd (find (\<lambda>(i, _). i = v) pks)"

text \<open>The checks made of one signature of a quorum member: known key, well-formed bytes, valid.\<close>

definition check_signature ::
  "ed25519 \<Rightarrow> key_list \<Rightarrow> DigestBytes \<Rightarrow> VerifierId \<Rightarrow> byte list \<Rightarrow> (CryptoError, unit) result" where
  "check_signature ed pks signed_digest v sb =
     (case find_key pks v of
        None \<Rightarrow> Inl (UnknownVerifier (vid_display v))
      | Some vk \<Rightarrow>
          (case ed_from_slice ed sb of
             Inl e \<Rightarrow> Inl (SignatureVerificationFailed (''malformed signature: '' @ e))
           | Inr sg \<Rightarrow>
               if \<not> ed_verify ed vk (digest_enc signed_digest) sg
               then Inl (SignatureVerificationFailed
                      (''signature from '' @ vid_display v @ '' is invalid''))
               else Inr ()))"

fun aggregate_loop ::
  "ed25519 \<Rightarrow> QuorumSpec \<Rightarrow> key_list \<Rightarrow> DigestBytes \<Rightarrow> PartialSignature list \<Rightarrow>
   (VerifierId \<times> byte list) list \<Rightarrow> (CryptoError, (VerifierId \<times> byte list) list) result" where
  "aggregate_loop ed q pks sd [] valid = Inr valid"
| "aggregate_loop ed q pks sd (p # ps) valid =
     (if ps_verifier_id p \<notin> set (verifiers q) then aggregate_loop ed q pks sd ps valid
      else rbind (check_signature ed pks sd (ps_verifier_id p) (ps_bytes p))
             (\<lambda>_. aggregate_loop ed q pks sd ps
                (if ps_verifier_id p \<notin> fst ` set valid
                 then valid @ [(ps_verifier_id p, ps_bytes p)] else valid)))"

definition aggregate_signatures ::
  "sha \<Rightarrow> ed25519 \<Rightarrow> PartialSignature list \<Rightarrow> QuorumSpec \<Rightarrow> DigestBytes \<Rightarrow> key_list \<Rightarrow>
   (CryptoError, ThresholdApproval) result" where
  "aggregate_signatures H ed partials q envelope_digest pks =
     (let sd = approval_signed_digest H envelope_digest in
      rbind (aggregate_loop ed q pks sd partials [])
        (\<lambda>valid.
           let signers = map fst valid in
           if \<not> is_satisfied_by q signers
           then Inl (InsufficientSignatures (threshold q) (length signers))
           else Inr \<lparr> ta_quorum = q, ta_signers = signers, ta_signatures = valid,
                      ta_signed_digest = sd \<rparr>))"

fun verify_loop ::
  "ed25519 \<Rightarrow> QuorumSpec \<Rightarrow> key_list \<Rightarrow> DigestBytes \<Rightarrow> (VerifierId \<times> byte list) list \<Rightarrow> nat \<Rightarrow>
   (CryptoError, nat) result" where
  "verify_loop ed q pks sd [] n = Inr n"
| "verify_loop ed q pks sd ((v, sb) # rest) n =
     (if v \<notin> set (verifiers q) then verify_loop ed q pks sd rest n
      else rbind (check_signature ed pks sd v sb) (\<lambda>_. verify_loop ed q pks sd rest (n + 1)))"

definition verify_threshold_approval ::
  "sha \<Rightarrow> ed25519 \<Rightarrow> ThresholdApproval \<Rightarrow> DigestBytes \<Rightarrow> key_list \<Rightarrow> (CryptoError, unit) result" where
  "verify_threshold_approval H ed a envelope_digest pks =
     (if ta_signed_digest a \<noteq> approval_signed_digest H envelope_digest
      then Inl (SignatureVerificationFailed ''signed_digest does not match envelope_digest'')
      else rbind (verify_loop ed (ta_quorum a) pks (ta_signed_digest a) (ta_signatures a) 0)
        (\<lambda>valid_count.
           if \<not> is_satisfied_by (ta_quorum a) (ta_signers a) \<or> valid_count < threshold (ta_quorum a)
           then Inl (InsufficientSignatures (threshold (ta_quorum a)) valid_count)
           else Inr ()))"

section \<open>What the loops establish\<close>

definition signed_by :: "ed25519 \<Rightarrow> key_list \<Rightarrow> DigestBytes \<Rightarrow> VerifierId \<Rightarrow> byte list \<Rightarrow> bool" where
  "signed_by ed pks sd v sb \<longleftrightarrow>
     (\<exists>vk sg. find_key pks v = Some vk \<and> ed_from_slice ed sb = Inr sg \<and>
        ed_verify ed vk (digest_enc sd) sg)"

lemma check_signature_eq_Inr [result_simps]:
  "check_signature ed pks sd v sb = Inr u \<longleftrightarrow> signed_by ed pks sd v sb"
  by (auto simp: check_signature_def signed_by_def split: option.splits sum.splits if_splits)

definition valid_entries ::
  "ed25519 \<Rightarrow> QuorumSpec \<Rightarrow> key_list \<Rightarrow> DigestBytes \<Rightarrow> (VerifierId \<times> byte list) list \<Rightarrow> bool" where
  "valid_entries ed q pks sd es \<longleftrightarrow>
     distinct (map fst es) \<and>
     (\<forall>(v, sb) \<in> set es. v \<in> set (verifiers q) \<and> signed_by ed pks sd v sb)"

definition push_valid ::
  "PartialSignature \<Rightarrow> (VerifierId \<times> byte list) list \<Rightarrow> (VerifierId \<times> byte list) list" where
  "push_valid p valid = (if ps_verifier_id p \<notin> fst ` set valid
     then valid @ [(ps_verifier_id p, ps_bytes p)] else valid)"

lemma aggregate_loop_Cons:
  "aggregate_loop ed q pks sd (p # ps) valid = Inr es \<longleftrightarrow>
     (if ps_verifier_id p \<in> set (verifiers q)
      then signed_by ed pks sd (ps_verifier_id p) (ps_bytes p) \<and>
        aggregate_loop ed q pks sd ps (push_valid p valid) = Inr es
      else aggregate_loop ed q pks sd ps valid = Inr es)"
  by (simp add: result_simps push_valid_def)

lemma push_valid_entries:
  "valid_entries ed q pks sd valid \<Longrightarrow> ps_verifier_id p \<in> set (verifiers q) \<Longrightarrow>
     signed_by ed pks sd (ps_verifier_id p) (ps_bytes p) \<Longrightarrow>
     valid_entries ed q pks sd (push_valid p valid)"
  by (simp add: valid_entries_def push_valid_def)

lemma push_valid_ids: "fst ` set (push_valid p valid) = insert (ps_verifier_id p) (fst ` set valid)"
  by (auto simp: push_valid_def)

lemma aggregate_loop_valid:
  "aggregate_loop ed q pks sd ps valid = Inr es \<Longrightarrow> valid_entries ed q pks sd valid \<Longrightarrow>
     valid_entries ed q pks sd es"
proof (induction ps arbitrary: valid)
  case (Cons p ps)
  show ?case
  proof (cases "ps_verifier_id p \<in> set (verifiers q)")
    case True
    then have "signed_by ed pks sd (ps_verifier_id p) (ps_bytes p)"
      "aggregate_loop ed q pks sd ps (push_valid p valid) = Inr es"
      using Cons.prems(1) by (simp_all only: aggregate_loop_Cons if_True)
    then show ?thesis using Cons.IH push_valid_entries Cons.prems(2) True by blast
  next
    case False
    then show ?thesis using Cons.prems Cons.IH by (simp only: aggregate_loop_Cons if_False)
  qed
qed simp

lemma aggregate_loop_covers:
  "aggregate_loop ed q pks sd ps valid = Inr es \<Longrightarrow>
     fst ` set es = fst ` set valid \<union> (ps_verifier_id ` set ps \<inter> set (verifiers q))"
proof (induction ps arbitrary: valid)
  case (Cons p ps)
  show ?case
  proof (cases "ps_verifier_id p \<in> set (verifiers q)")
    case True
    then have "aggregate_loop ed q pks sd ps (push_valid p valid) = Inr es"
      using Cons.prems by (simp only: aggregate_loop_Cons if_True)
    from Cons.IH[OF this] True show ?thesis by (auto simp: push_valid_ids)
  next
    case False
    then have "aggregate_loop ed q pks sd ps valid = Inr es"
      using Cons.prems by (simp only: aggregate_loop_Cons if_False)
    from Cons.IH[OF this] False show ?thesis by auto
  qed
qed simp

lemma verify_loop_eq_Inr:
  "verify_loop ed q pks sd es n = Inr m \<longleftrightarrow>
     (\<forall>(v, sb) \<in> set es. v \<in> set (verifiers q) \<longrightarrow> signed_by ed pks sd v sb) \<and>
     m = n + length (filter (\<lambda>(v, _). v \<in> set (verifiers q)) es)"
  by (induction ed q pks sd es n rule: verify_loop.induct) (auto simp: result_simps)

lemma aggregate_eq_Inr:
  "aggregate_signatures H ed ps q e pks = Inr a \<longleftrightarrow>
     (\<exists>es. aggregate_loop ed q pks (approval_signed_digest H e) ps [] = Inr es \<and>
        is_satisfied_by q (map fst es) \<and>
        a = \<lparr> ta_quorum = q, ta_signers = map fst es, ta_signatures = es,
              ta_signed_digest = approval_signed_digest H e \<rparr>)"
  by (auto simp: aggregate_signatures_def Let_def result_simps split: if_splits)

lemma aggregate_entries:
  assumes "aggregate_signatures H ed ps q e pks = Inr a"
  shows "valid_entries ed q pks (approval_signed_digest H e) (ta_signatures a)"
    "ta_signers a = map fst (ta_signatures a)" "is_satisfied_by q (ta_signers a)"
    "ta_quorum a = q" "ta_signed_digest a = approval_signed_digest H e"
  using assms aggregate_loop_valid
  by (fastforce simp: aggregate_eq_Inr valid_entries_def)+

lemma verify_eq_Inr:
  "verify_threshold_approval H ed a e pks = Inr u \<longleftrightarrow>
     ta_signed_digest a = approval_signed_digest H e \<and>
     (\<forall>(v, sb) \<in> set (ta_signatures a).
        v \<in> set (verifiers (ta_quorum a)) \<longrightarrow> signed_by ed pks (ta_signed_digest a) v sb) \<and>
     is_satisfied_by (ta_quorum a) (ta_signers a) \<and>
     threshold (ta_quorum a) \<le>
       length (filter (\<lambda>(v, _). v \<in> set (verifiers (ta_quorum a))) (ta_signatures a))"
  by (auto simp: verify_threshold_approval_def result_simps verify_loop_eq_Inr split: if_splits)

lemma quorum_count:
  assumes "distinct (verifiers q)" "distinct vs" "set vs \<subseteq> set (verifiers q)"
  shows "is_satisfied_by q vs \<longleftrightarrow> threshold q \<le> length vs"
proof -
  have "set (verifiers q) \<inter> set vs = set vs" using assms(3) by auto
  then show ?thesis using assms by (simp add: is_satisfied_by_card distinct_card)
qed

section \<open>Properties\<close>

definition ed_ex :: ed25519 where
  "ed_ex = \<lparr> ed_public = (\<lambda>sk. sk), ed_sign = (\<lambda>sk m. arr32 sk @ m), ed_from_slice = Inr,
     ed_verify = (\<lambda>vk m sg. sg = arr32 vk @ m) \<rparr>"

lemma ed_ex_simps [simp]:
  "ed_public ed_ex sk = sk" "ed_sign ed_ex sk m = arr32 sk @ m" "ed_from_slice ed_ex b = Inr b"
  "ed_verify ed_ex vk m sg = (sg = arr32 vk @ m)"
  by (simp_all add: ed_ex_def)

definition q_ex :: QuorumSpec where
  "q_ex = \<lparr> verifiers = [VerifierId 1, VerifierId 2, VerifierId 3], threshold = 2 \<rparr>"

definition pks_ex :: key_list where
  "pks_ex = [(VerifierId 1, 11), (VerifierId 2, 12), (VerifierId 3, 13)]"

definition partial_ex :: "nat \<Rightarrow> PartialSignature" where
  "partial_ex i = \<lparr> ps_verifier_id = VerifierId (of_nat i),
     ps_bytes = arr32 (of_nat (i + 10)) @
       digest_enc (approval_signed_digest (\<lambda>_. 7) (DigestBytes 5)) \<rparr>"

definition ta_ex :: ThresholdApproval where
  "ta_ex = \<lparr> ta_quorum = q_ex, ta_signers = [VerifierId 1, VerifierId 2],
     ta_signatures = [(VerifierId 1, ps_bytes (partial_ex 1)), (VerifierId 2, ps_bytes (partial_ex 2))],
     ta_signed_digest = approval_signed_digest (\<lambda>_. 7) (DigestBytes 5) \<rparr>"

lemma aggregate_ex:
  "aggregate_signatures (\<lambda>_. 7) ed_ex [partial_ex 1, partial_ex 2, partial_ex 1] q_ex
     (DigestBytes 5) pks_ex = Inr ta_ex"
  by (simp add: aggregate_signatures_def check_signature_def find_key_def q_ex_def pks_ex_def
      partial_ex_def ta_ex_def is_satisfied_by_def Let_def)

text \<open>Soundness of aggregation.  When \<open>aggregate_signatures\<close> returns an approval, its signers are
  pairwise different members of the quorum, every one of them has a signature in the approval that
  is valid under its registered key over the digest derived from this envelope, the quorum is
  satisfied, and for a quorum without repeated entries at least \<open>threshold\<close> different verifiers
  signed.\<close>

theorem aggregate_signatures_sound:
  assumes "aggregate_signatures H ed partials q envelope_digest pks = Inr a"
  shows "distinct (ta_signers a) \<and> set (ta_signers a) \<subseteq> set (verifiers q) \<and>
    set (ta_signers a) = ps_verifier_id ` set partials \<inter> set (verifiers q) \<and>
    (\<forall>v \<in> set (ta_signers a). \<exists>sb. (v, sb) \<in> set (ta_signatures a) \<and>
        signed_by ed pks (approval_signed_digest H envelope_digest) v sb) \<and>
    is_satisfied_by q (ta_signers a) \<and>
    (distinct (verifiers q) \<longrightarrow> threshold q \<le> card (set (ta_signers a)))"
proof -
  note e = aggregate_entries[OF assms]
  have ids: "distinct (ta_signers a)" "set (ta_signers a) \<subseteq> set (verifiers q)"
    using e(1,2) by (auto simp: valid_entries_def)
  moreover have "set (ta_signers a) = ps_verifier_id ` set partials \<inter> set (verifiers q)"
    using assms aggregate_loop_covers by (force simp: aggregate_eq_Inr)
  moreover have "\<forall>v \<in> set (ta_signers a). \<exists>sb. (v, sb) \<in> set (ta_signatures a) \<and>
      signed_by ed pks (approval_signed_digest H envelope_digest) v sb"
    using e(1,2) by (fastforce simp: valid_entries_def)
  moreover have "distinct (verifiers q) \<longrightarrow> threshold q \<le> card (set (ta_signers a))"
    using quorum_count[of q "ta_signers a"] ids e(3) by (simp add: distinct_card)
  ultimately show ?thesis using e(3) by blast
qed

theorem aggregate_signatures_sound_witness:
  "threshold q_ex \<le> card (set (ta_signers ta_ex)) \<and> distinct (ta_signers ta_ex)"
proof -
  have "distinct (verifiers q_ex)" by (simp add: q_ex_def)
  then show ?thesis using aggregate_signatures_sound[OF aggregate_ex] by blast
qed

text \<open>An aggregated approval verifies: for a quorum without repeated entries, an approval that
  \<open>aggregate_signatures\<close> returned is accepted by \<open>verify_threshold_approval\<close> under the same keys
  and envelope digest.\<close>

theorem aggregate_then_verify:
  assumes "aggregate_signatures H ed partials q envelope_digest pks = Inr a"
    and "distinct (verifiers q)"
  shows "verify_threshold_approval H ed a envelope_digest pks = Inr ()"
proof -
  note e = aggregate_entries[OF assms(1)]
  have "filter (\<lambda>(v, _). v \<in> set (verifiers q)) (ta_signatures a) = ta_signatures a"
    using e(1) by (auto simp: valid_entries_def filter_id_conv)
  moreover have "threshold q \<le> length (ta_signers a)"
    using quorum_count[OF assms(2), of "ta_signers a"] e(1,2,3)
    by (fastforce simp: valid_entries_def)
  ultimately show ?thesis using e by (auto simp: verify_eq_Inr valid_entries_def)
qed

theorem aggregate_then_verify_witness:
  "verify_threshold_approval (\<lambda>_. 7) ed_ex ta_ex (DigestBytes 5) pks_ex = Inr ()"
  by (rule aggregate_then_verify[OF aggregate_ex]) (simp add: q_ex_def)

text \<open>Completeness: when every member of a set of quorum members, at least \<open>threshold\<close> many, signs
  the digest of the envelope with the key registered for it, aggregation succeeds with exactly
  these signers.\<close>

theorem aggregate_signatures_complete:
  assumes "distinct (map ps_verifier_id partials)"
    and "ps_verifier_id ` set partials \<subseteq> set (verifiers q)"
    and "\<forall>p \<in> set partials.
      signed_by ed pks (approval_signed_digest H envelope_digest) (ps_verifier_id p) (ps_bytes p)"
    and "distinct (verifiers q)" and "threshold q \<le> length partials"
  shows "\<exists>a. aggregate_signatures H ed partials q envelope_digest pks = Inr a \<and>
    ta_signers a = map ps_verifier_id partials"
proof -
  let ?sd = "approval_signed_digest H envelope_digest"
  have loop: "aggregate_loop ed q pks ?sd ps valid =
      Inr (valid @ map (\<lambda>p. (ps_verifier_id p, ps_bytes p)) ps)"
    if "distinct (map fst valid @ map ps_verifier_id ps)" "set ps \<subseteq> set partials" for ps valid
    using that
  proof (induction ps arbitrary: valid)
    case (Cons p ps)
    then have "p \<in> set partials" by simp
    then have "check_signature ed pks ?sd (ps_verifier_id p) (ps_bytes p) = Inr ()"
      "ps_verifier_id p \<in> set (verifiers q)"
      using assms(2,3) by (auto simp: check_signature_eq_Inr)
    then show ?case using Cons.IH[of "valid @ [(ps_verifier_id p, ps_bytes p)]"] Cons.prems by auto
  qed simp
  have "is_satisfied_by q (map ps_verifier_id partials)"
    using quorum_count[OF assms(4,1)] assms(2,5) by simp
  then show ?thesis using loop[of "[]" partials] assms(1)
    by (auto simp: aggregate_eq_Inr comp_def)
qed

theorem aggregate_signatures_complete_witness:
  "\<exists>a. aggregate_signatures (\<lambda>_. 7) ed_ex [partial_ex 2, partial_ex 3] q_ex (DigestBytes 5) pks_ex =
     Inr a \<and> ta_signers a = map ps_verifier_id [partial_ex 2, partial_ex 3]"
  by (rule aggregate_signatures_complete)
    (auto simp: partial_ex_def q_ex_def pks_ex_def signed_by_def find_key_def)

text \<open>What \<open>verify_threshold_approval\<close> establishes: if it accepts an approval whose signature list
  names every verifier at most once, then at least \<open>threshold\<close> different members of the quorum
  written in the approval hold a valid signature over the digest of this envelope.\<close>

theorem verify_threshold_approval_sound:
  assumes "verify_threshold_approval H ed a envelope_digest pks = Inr ()"
    and "distinct (map fst (ta_signatures a))"
  shows "threshold (ta_quorum a) \<le> card {v \<in> set (verifiers (ta_quorum a)).
    \<exists>sb. (v, sb) \<in> set (ta_signatures a) \<and>
      signed_by ed pks (approval_signed_digest H envelope_digest) v sb}" (is "_ \<le> card ?S")
proof -
  let ?f = "filter (\<lambda>(v, _). v \<in> set (verifiers (ta_quorum a))) (ta_signatures a)"
  have "distinct (map fst ?f)" using assms(2) by (rule distinct_map_filter)
  then have "length ?f = card (fst ` set ?f)"
    using distinct_card[of "map fst ?f"] by (simp only: length_map list.set_map)
  also have "\<dots> \<le> card ?S"
  proof (rule card_mono)
    have "signed_by ed pks (approval_signed_digest H envelope_digest) v sb"
      if "(v, sb) \<in> set ?f" for v sb
      using assms(1) that unfolding verify_eq_Inr by auto
    then show "fst ` set ?f \<subseteq> ?S" by auto
  qed simp
  finally show ?thesis using assms(1) by (simp add: verify_eq_Inr)
qed

theorem verify_threshold_approval_sound_witness:
  "threshold (ta_quorum ta_ex) \<le> card {v \<in> set (verifiers (ta_quorum ta_ex)).
    \<exists>sb. (v, sb) \<in> set (ta_signatures ta_ex) \<and>
      signed_by ed_ex pks_ex (approval_signed_digest (\<lambda>_. 7) (DigestBytes 5)) v sb}"
proof (rule verify_threshold_approval_sound)
  show "verify_threshold_approval (\<lambda>_. 7) ed_ex ta_ex (DigestBytes 5) pks_ex = Inr ()"
    by (simp add: verify_threshold_approval_def check_signature_def ta_ex_def q_ex_def pks_ex_def
        partial_ex_def is_satisfied_by_def find_key_def)
qed (simp add: ta_ex_def)

text \<open>C34. Repeated signatures are counted repeatedly: for any quorum with members \<open>vs\<close>, a single valid
  signature of one member, listed \<open>threshold\<close> times next to a \<open>signers\<close> list that names all members,
  is accepted as a threshold approval.\<close>

theorem single_signature_accepted_as_quorum:
  assumes "v \<in> set (verifiers q)" and "threshold q \<le> length (verifiers q)"
    and "signed_by ed pks (approval_signed_digest H envelope_digest) v sb"
  shows "verify_threshold_approval H ed
    \<lparr> ta_quorum = q, ta_signers = verifiers q, ta_signatures = replicate (threshold q) (v, sb),
      ta_signed_digest = approval_signed_digest H envelope_digest \<rparr> envelope_digest pks = Inr ()"
proof -
  have "is_satisfied_by q (verifiers q)" using assms(2) by (simp add: is_satisfied_by_def)
  then show ?thesis using assms(1,3) by (auto simp: verify_eq_Inr)
qed

theorem single_signature_accepted_as_quorum_witness:
  "verify_threshold_approval (\<lambda>_. 7) ed_ex
    \<lparr> ta_quorum = q_ex, ta_signers = verifiers q_ex,
      ta_signatures = replicate (threshold q_ex) (VerifierId 1, ps_bytes (partial_ex 1)),
      ta_signed_digest = approval_signed_digest (\<lambda>_. 7) (DigestBytes 5) \<rparr> (DigestBytes 5) pks_ex = Inr ()"
  by (rule single_signature_accepted_as_quorum)
    (auto simp: q_ex_def signed_by_def find_key_def pks_ex_def partial_ex_def)

end
