(* ===== verification/Randomness.thy ===== *)
theory Randomness
  imports Threshold "HOL-Library.Multiset"
begin

text \<open>
  Distributed session randomness (\<open>crates/crypto/src/randomness.rs\<close>): the contract of a randomness
  engine, the hash-based engine \<open>PrototypeDvrf\<close> and the engine \<open>Secp256k1DvrfEngine\<close>.  The fresh
  round identifier that \<open>generate\<close> draws from the operating system is its argument \<open>rid\<close>; the
  threshold evaluation of the secp256k1 engine (\<open>partial_eval\<close> and \<open>combine\<close> over the selected
  participants) is its argument \<open>dvrf\<close>.
\<close>

record PartialRandomness =
  pr_verifier_id :: VerifierId
  contribution :: DigestBytes

record RandomnessOutput =
  ro_id :: RandomnessId
  ro_session_id :: SessionId
  ro_epoch :: Epoch
  ro_value :: DigestBytes
  ro_partials :: "PartialRandomness list"
  ro_session_binding :: DigestBytes

definition sb_hasher :: "SessionId \<Rightarrow> Nonce \<Rightarrow> CanonicalHasher" where
  "sb_hasher sid n =
     update_fixed (nonce_enc n) (update_fixed (sid_enc sid)
       (ch_new ''tls-attestation/session-binding/v1''))"

definition session_binding :: "sha \<Rightarrow> SessionId \<Rightarrow> Nonce \<Rightarrow> DigestBytes" where
  "session_binding H sid n = ch_finalize H (sb_hasher sid n)"

section \<open>The hash-based engine\<close>

record PrototypeDvrf =
  secrets :: "VerifierId \<Rightarrow> bytes32 option"

definition contribution_hasher ::
  "SessionId \<Rightarrow> Nonce \<Rightarrow> VerifierId \<Rightarrow> bytes32 \<Rightarrow> CanonicalHasher" where
  "contribution_hasher sid n v secret =
     update_fixed (arr32 secret) (update_fixed (vid_enc v) (update_fixed (nonce_enc n)
       (update_fixed (sid_enc sid) (ch_new ''tls-attestation/dvrf-contribution/v1''))))"

definition compute_contribution ::
  "sha \<Rightarrow> SessionId \<Rightarrow> Nonce \<Rightarrow> VerifierId \<Rightarrow> bytes32 \<Rightarrow> DigestBytes" where
  "compute_contribution H sid n v secret = ch_finalize H (contribution_hasher sid n v secret)"

definition xor_sorted :: "PartialRandomness list \<Rightarrow> DigestBytes" where
  "xor_sorted ps = fold (\<lambda>p acc. xor_with acc (contribution p)) (sort_key pr_verifier_id ps) ZERO"

definition combine :: "sha \<Rightarrow> PartialRandomness list \<Rightarrow> DigestBytes" where
  "combine H ps = sha256_tagged H ''tls-attestation/dvrf-combine/v1'' (digest_enc (xor_sorted ps))"

definition partial_for ::
  "sha \<Rightarrow> PrototypeDvrf \<Rightarrow> SessionId \<Rightarrow> Nonce \<Rightarrow> VerifierId \<Rightarrow> (CryptoError, PartialRandomness) result" where
  "partial_for H eng sid n v =
     (case secrets eng v of
        None \<Rightarrow> Inl (UnknownVerifier (vid_display v))
      | Some secret \<Rightarrow> Inr \<lparr> pr_verifier_id = v,
                             contribution = compute_contribution H sid n v secret \<rparr>)"

definition proto_generate ::
  "sha \<Rightarrow> PrototypeDvrf \<Rightarrow> RandomnessId \<Rightarrow> SessionId \<Rightarrow> Nonce \<Rightarrow> Epoch \<Rightarrow> VerifierId list \<Rightarrow>
   (CryptoError, RandomnessOutput) result" where
  "proto_generate H eng rid sid n ep participants =
     (if participants = [] then Inl (InsufficientContributions 1 0)
      else rbind (collect_ok (partial_for H eng sid n) participants)
        (\<lambda>partials. Inr \<lparr> ro_id = rid, ro_session_id = sid, ro_epoch = ep,
           ro_value = combine H partials, ro_partials = partials,
           ro_session_binding = session_binding H sid n \<rparr>))"

definition recheck_partial ::
  "sha \<Rightarrow> PrototypeDvrf \<Rightarrow> SessionId \<Rightarrow> Nonce \<Rightarrow> PartialRandomness \<Rightarrow> (CryptoError, PartialRandomness) result" where
  "recheck_partial H eng sid n p =
     (case secrets eng (pr_verifier_id p) of
        None \<Rightarrow> Inl (UnknownVerifier (vid_display (pr_verifier_id p)))
      | Some secret \<Rightarrow>
          (let expected = compute_contribution H sid n (pr_verifier_id p) secret in
           if contribution p \<noteq> expected
           then Inl (RandomnessVerificationFailed
                  (''contribution from '' @ vid_display (pr_verifier_id p) @ '' is incorrect''))
           else Inr \<lparr> pr_verifier_id = pr_verifier_id p, contribution = expected \<rparr>))"

definition proto_verify ::
  "sha \<Rightarrow> PrototypeDvrf \<Rightarrow> RandomnessOutput \<Rightarrow> Nonce \<Rightarrow> (CryptoError, unit) result" where
  "proto_verify H eng out n =
     (if ro_session_binding out \<noteq> session_binding H (ro_session_id out) n
      then Inl (RandomnessVerificationFailed ''session binding mismatch'')
      else rbind (collect_ok (recheck_partial H eng (ro_session_id out) n) (ro_partials out))
        (\<lambda>ps. if ro_value out \<noteq> combine H ps
              then Inl (RandomnessVerificationFailed ''combined randomness value is incorrect'')
              else Inr ()))"

section \<open>The secp256k1 engine\<close>

record 'p Secp256k1DvrfEngine =
  eng_threshold :: nat
  eng_participants :: "(VerifierId \<times> 'p) list"

definition secp_new ::
  "nat \<Rightarrow> (VerifierId \<times> 'p) list \<Rightarrow> (CryptoError, 'p Secp256k1DvrfEngine) result" where
  "secp_new t ps =
     (if length ps < t then Inl (InsufficientContributions t (length ps))
      else Inr \<lparr> eng_threshold = t, eng_participants = ps \<rparr>)"

definition derive_alpha :: "sha \<Rightarrow> SessionId \<Rightarrow> Nonce \<Rightarrow> DigestBytes" where
  "derive_alpha H sid n =
     ch_finalize H (update_fixed (nonce_enc n) (update_fixed (sid_enc sid)
       (ch_new ''secp256k1-dvrf/alpha/v1'')))"

definition secp_generate ::
  "sha \<Rightarrow> ((VerifierId \<times> 'p) list \<Rightarrow> DigestBytes \<Rightarrow> (CryptoError, DigestBytes) result) \<Rightarrow>
   'p Secp256k1DvrfEngine \<Rightarrow> RandomnessId \<Rightarrow> SessionId \<Rightarrow> Nonce \<Rightarrow> Epoch \<Rightarrow> VerifierId list \<Rightarrow>
   (CryptoError, RandomnessOutput) result" where
  "secp_generate H dvrf eng rid sid n ep participants =
     (let selected = take (eng_threshold eng)
            (filter (\<lambda>p. fst p \<in> set participants) (eng_participants eng)) in
      if length selected < eng_threshold eng
      then Inl (InsufficientContributions (eng_threshold eng) (length selected))
      else rbind (dvrf selected (derive_alpha H sid n))
        (\<lambda>v. Inr \<lparr> ro_id = rid, ro_session_id = sid, ro_epoch = ep, ro_value = v, ro_partials = [],
                   ro_session_binding = session_binding H sid n \<rparr>))"

definition secp_verify :: "sha \<Rightarrow> RandomnessOutput \<Rightarrow> Nonce \<Rightarrow> (CryptoError, unit) result" where
  "secp_verify H out n =
     (if ro_session_binding out \<noteq> session_binding H (ro_session_id out) n
      then Inl (RandomnessVerificationFailed ''session binding mismatch'')
      else Inr ())"

section \<open>The combination does not depend on the order of collection\<close>

lemma fold_xor_perm:
  assumes "mset ps = mset qs"
  shows "fold (\<lambda>p acc. xor_with acc (f p)) ps = fold (\<lambda>p acc. xor_with acc (f p)) qs"
proof (rule fold_multiset_equiv)
  fix x y
  show "(\<lambda>acc. xor_with acc (f x)) \<circ> (\<lambda>acc. xor_with acc (f y)) =
      (\<lambda>acc. xor_with acc (f y)) \<circ> (\<lambda>acc. xor_with acc (f x))"
    by (rule ext) (simp add: xor_with_right_commute)
qed (rule assms)

lemma xor_sorted_unsorted: "xor_sorted ps = fold (\<lambda>p acc. xor_with acc (contribution p)) ps ZERO"
  unfolding xor_sorted_def by (subst fold_xor_perm[of _ ps]) simp_all

lemma combine_perm: "mset ps = mset qs \<Longrightarrow> combine H ps = combine H qs"
  unfolding combine_def xor_sorted_unsorted by (simp only: fold_xor_perm[of ps qs])

section \<open>Binding of the session\<close>

definition sb_pre :: "SessionId \<times> Nonce \<Rightarrow> byte list" where
  "sb_pre = (\<lambda>(sid, n). absorbed (sb_hasher sid n))"

interpretation sbb: binding sb_pre "\<lambda>_. True"
  by standard (auto simp: sb_pre_def sb_hasher_def enc_inject)

lemma session_binding_pre: "session_binding H sid n = DigestBytes (H (sb_pre (sid, n)))"
  by (simp add: session_binding_def sb_pre_def ch_finalize_def)

lemma session_binding_binds:
  "session_binding H s n = session_binding H s' n' \<Longrightarrow>
     s = s' \<and> n = n' \<or> collision H (sb_pre (s, n)) (sb_pre (s', n'))"
  using sbb.digest_binds[where H = H, of "(s, n)" "(s', n')"] by (auto simp: session_binding_pre)

section \<open>The contract of a randomness engine\<close>

locale randomness_engine =
  fixes H :: sha
    and generate :: "RandomnessId \<Rightarrow> SessionId \<Rightarrow> Nonce \<Rightarrow> Epoch \<Rightarrow> VerifierId list \<Rightarrow>
      (CryptoError, RandomnessOutput) result"
    and verify :: "RandomnessOutput \<Rightarrow> Nonce \<Rightarrow> (CryptoError, unit) result"
  assumes generate_fields: "generate rid sid n ep ps = Inr out \<Longrightarrow>
      ro_id out = rid \<and> ro_session_id out = sid \<and> ro_epoch out = ep \<and>
      ro_session_binding out = session_binding H sid n"
    and generate_verifies: "generate rid sid n ep ps = Inr out \<Longrightarrow> verify out n = Inr ()"
    and verify_binding: "verify out n = Inr () \<Longrightarrow>
      ro_session_binding out = session_binding H (ro_session_id out) n"
begin

text \<open>An output accepted under a nonce was not generated under another one.\<close>

lemma no_replay:
  assumes "generate rid sid n ep ps = Inr out" "verify (out \<lparr> ro_session_id := sid' \<rparr>) n' = Inr ()"
  shows "sid' = sid \<and> n' = n \<or> collision H (sb_pre (sid, n)) (sb_pre (sid', n'))"
proof -
  have "session_binding H sid n = session_binding H sid' n'"
    using generate_fields[OF assms(1)] verify_binding[OF assms(2)] by simp
  from session_binding_binds[OF this] show ?thesis by auto
qed

end

lemma partial_for_eq_Inr:
  "partial_for H eng sid n v = Inr p \<longleftrightarrow>
     (\<exists>s. secrets eng v = Some s \<and>
        p = \<lparr> pr_verifier_id = v, contribution = compute_contribution H sid n v s \<rparr>)"
  by (auto simp: partial_for_def split: option.splits)

lemma recheck_partial_eq_Inr:
  "recheck_partial H eng sid n p = Inr p' \<longleftrightarrow> partial_for H eng sid n (pr_verifier_id p) = Inr p \<and> p' = p"
  by (cases p) (auto simp: partial_for_def recheck_partial_def Let_def split: option.splits)

lemma recheck_all_eq_Inr:
  "collect_ok (recheck_partial H eng sid n) ps = Inr qs \<longleftrightarrow>
     qs = ps \<and> (\<forall>p \<in> set ps. partial_for H eng sid n (pr_verifier_id p) = Inr p)"
  by (induction ps arbitrary: qs) (auto simp: result_simps recheck_partial_eq_Inr)

lemma proto_generate_eq_Inr:
  "proto_generate H eng rid sid n ep vs = Inr out \<longleftrightarrow>
     vs \<noteq> [] \<and> (\<exists>ps. list_all2 (\<lambda>v p. partial_for H eng sid n v = Inr p) vs ps \<and>
       out = \<lparr> ro_id = rid, ro_session_id = sid, ro_epoch = ep, ro_value = combine H ps,
               ro_partials = ps, ro_session_binding = session_binding H sid n \<rparr>)"
  by (auto simp: proto_generate_def result_simps collect_ok_eq_Inr)

lemma proto_verify_eq_Inr:
  "proto_verify H eng out n = Inr u \<longleftrightarrow>
     ro_session_binding out = session_binding H (ro_session_id out) n \<and>
     (\<forall>p \<in> set (ro_partials out).
        partial_for H eng (ro_session_id out) n (pr_verifier_id p) = Inr p) \<and>
     ro_value out = combine H (ro_partials out)"
  by (auto simp: proto_verify_def result_simps recheck_all_eq_Inr split: if_splits)

lemma partials_recheck:
  "list_all2 (\<lambda>v p. partial_for H eng sid n v = Inr p) vs ps \<Longrightarrow>
     \<forall>p \<in> set ps. partial_for H eng sid n (pr_verifier_id p) = Inr p"
  by (induction rule: list_all2_induct) (auto simp: partial_for_eq_Inr)

interpretation pdvrf: randomness_engine H "proto_generate H eng" "proto_verify H eng"
  for H :: sha and eng :: PrototypeDvrf
  by standard (auto simp: proto_generate_eq_Inr proto_verify_eq_Inr dest: partials_recheck)

interpretation sdvrf: randomness_engine H "secp_generate H dvrf eng" "secp_verify H"
  for H :: sha and dvrf and eng :: "'p Secp256k1DvrfEngine"
  by standard (auto simp: secp_generate_def secp_verify_def Let_def result_simps split: if_splits)

section \<open>Properties\<close>

definition dvrf_ex :: PrototypeDvrf where
  "dvrf_ex = \<lparr> secrets = [VerifierId 1 \<mapsto> 21, VerifierId 2 \<mapsto> 22, VerifierId 3 \<mapsto> 23] \<rparr>"

lemma dvrf_ex_generate:
  "\<exists>out. proto_generate (\<lambda>_. 7) dvrf_ex (RandomnessId 1) (SessionId 1) (Nonce 1) GENESIS
     [VerifierId 2, VerifierId 1] = Inr out"
  by (simp add: proto_generate_def partial_for_def dvrf_ex_def)

text \<open>Generated randomness verifies, is bound to the session and nonce it was generated for, and
  cannot be replayed: the output of \<open>PrototypeDvrf::generate\<close> is accepted by \<open>verify\<close> under its
  nonce, and if it is also accepted for a session identifier and nonce that differ, then the two
  session bindings are an explicit collision of SHA-256.\<close>

theorem proto_randomness_bound_to_session:
  assumes "proto_generate H eng rid sid n ep participants = Inr out"
  shows "proto_verify H eng out n = Inr () \<and> ro_session_id out = sid \<and> ro_epoch out = ep \<and>
    map pr_verifier_id (ro_partials out) = participants \<and>
    (\<forall>sid' n'. proto_verify H eng (out \<lparr> ro_session_id := sid' \<rparr>) n' = Inr () \<longrightarrow>
       sid' = sid \<and> n' = n \<or> collision H (sb_pre (sid, n)) (sb_pre (sid', n')))"
proof -
  have "map pr_verifier_id ps = vs"
    if "list_all2 (\<lambda>v p. partial_for H eng sid n v = Inr p) vs ps" for vs ps
    using that by (induction rule: list_all2_induct) (auto simp: partial_for_eq_Inr)
  then have "map pr_verifier_id (ro_partials out) = participants"
    using assms by (auto simp: proto_generate_eq_Inr)
  then show ?thesis
    using pdvrf.generate_verifies[OF assms] pdvrf.generate_fields[OF assms]
      pdvrf.no_replay[OF assms] by blast
qed

theorem proto_randomness_bound_to_session_witness:
  "\<exists>out. proto_generate (\<lambda>_. 7) dvrf_ex (RandomnessId 1) (SessionId 1) (Nonce 1) GENESIS
     [VerifierId 2, VerifierId 1] = Inr out \<and> proto_verify (\<lambda>_. 7) dvrf_ex out (Nonce 1) = Inr ()"
  using dvrf_ex_generate proto_randomness_bound_to_session by blast

text \<open>The combined value does not depend on the order in which the contributions are collected:
  two participant lists that are permutations of each other generate the same value for the same
  session and nonce.\<close>

theorem proto_value_order_independent:
  assumes "proto_generate H eng rid sid n ep vs = Inr out"
    and "proto_generate H eng rid' sid n ep' vs' = Inr out'"
    and "mset vs = mset vs'"
  shows "ro_value out = ro_value out'"
proof -
  define f where "f = (\<lambda>v. projr (partial_for H eng sid n v))"
  have partials: "ps = map f vs" if "list_all2 (\<lambda>v p. partial_for H eng sid n v = Inr p) vs ps" for vs ps
    using that by (induction rule: list_all2_induct) (auto simp: f_def)
  obtain ps ps' where "ro_value out = combine H ps" "ps = map f vs" "ro_value out' = combine H ps'"
    "ps' = map f vs'"
    using assms(1,2) partials by (auto simp: proto_generate_eq_Inr)
  then show ?thesis using assms(3) combine_perm[of ps ps' H] by simp
qed

theorem proto_value_order_independent_witness:
  "\<exists>a b. proto_generate (\<lambda>_. 7) dvrf_ex (RandomnessId 1) (SessionId 1) (Nonce 1) GENESIS
       [VerifierId 2, VerifierId 1] = Inr a
     \<and> proto_generate (\<lambda>_. 7) dvrf_ex (RandomnessId 2) (SessionId 1) (Nonce 1) GENESIS
       [VerifierId 1, VerifierId 2] = Inr b
     \<and> ro_value a = ro_value b"
proof -
  obtain a where a: "proto_generate (\<lambda>_. 7) dvrf_ex (RandomnessId 1) (SessionId 1) (Nonce 1) GENESIS
       [VerifierId 2, VerifierId 1] = Inr a" using dvrf_ex_generate by blast
  obtain b where b: "proto_generate (\<lambda>_. 7) dvrf_ex (RandomnessId 2) (SessionId 1) (Nonce 1) GENESIS
       [VerifierId 1, VerifierId 2] = Inr b"
    by (simp add: proto_generate_def partial_for_def dvrf_ex_def)
  from proto_value_order_independent[OF a b] a b show ?thesis by (auto simp: add_mset_commute)
qed

text \<open>\<open>verify\<close> does not compare the contributions with any participant list: for every session
  and nonce it accepts an output without a single contribution, whose value is the same constant
  for all sessions.\<close>

theorem proto_verify_accepts_no_contributions:
  "proto_verify H eng
     \<lparr> ro_id = rid, ro_session_id = sid, ro_epoch = ep,
       ro_value = sha256_tagged H ''tls-attestation/dvrf-combine/v1'' (digest_enc ZERO),
       ro_partials = [], ro_session_binding = session_binding H sid n \<rparr> n = Inr ()"
  by (simp add: proto_verify_eq_Inr combine_def xor_sorted_def)

text \<open>The check made by \<open>Secp256k1DvrfEngine::verify\<close> does not look at the value: an accepted
  output stays accepted whatever value is put into it.\<close>

theorem secp_verify_ignores_value:
  "secp_verify H (out \<lparr> ro_value := v \<rparr>) n = secp_verify H out n"
  by (simp add: secp_verify_def)

end
