(* ===== verification/Registry.thy ===== *)
theory Registry
  imports Threshold
begin

text \<open>
  The versioned participant registry (\<open>crates/crypto/src/participant_registry.rs\<close>).  The hash map of
  entries is an association list in some order with pairwise different keys: the iteration order of
  the code is unspecified, and no property below depends on it.
\<close>

datatype RegistryEpoch = RegistryEpoch (re_u64: u64)

definition registry_GENESIS :: RegistryEpoch where
  "registry_GENESIS = RegistryEpoch 0"

definition re_next :: "RegistryEpoch \<Rightarrow> RegistryEpoch" where
  "re_next e = RegistryEpoch (re_u64 e + 1)"

definition re_le :: "RegistryEpoch \<Rightarrow> RegistryEpoch \<Rightarrow> bool" where
  "re_le a b \<longleftrightarrow> re_u64 a \<le> re_u64 b"

datatype ParticipantStatus = PActive | Revoked | Retired

definition status_is_active :: "ParticipantStatus \<Rightarrow> bool" where
  "status_is_active s = (case s of PActive \<Rightarrow> True | _ \<Rightarrow> False)"

record RegisteredParticipant =
  rp_verifier_id :: VerifierId
  rp_signing_key :: bytes32
  rp_status :: ParticipantStatus
  rp_added_at_epoch :: RegistryEpoch

datatype RegistryError =
    UnknownParticipant VerifierId
  | RevokedParticipant VerifierId
  | RetiredParticipant VerifierId
  | EpochMismatch RegistryEpoch RegistryEpoch
  | DuplicateParticipant VerifierId
  | EmptyRegistry
  | StaleRotationEpoch RegistryEpoch RegistryEpoch
  | RevocationTargetUnknown VerifierId
  | AlreadyRevoked VerifierId
  | RotationTargetUnknown VerifierId
  | VerifierIdMismatch VerifierId VerifierId

section \<open>Entries\<close>

definition rp_active :: "VerifierId \<Rightarrow> bytes32 \<Rightarrow> RegistryEpoch \<Rightarrow> RegisteredParticipant" where
  "rp_active v k e = \<lparr> rp_verifier_id = v, rp_signing_key = k, rp_status = PActive,
     rp_added_at_epoch = e \<rparr>"

definition rp_from_signing_key :: "sha \<Rightarrow> bytes32 \<Rightarrow> RegistryEpoch \<Rightarrow> RegisteredParticipant" where
  "rp_from_signing_key H k e = rp_active (vid_from_public_key H (arr32 k)) k e"

definition validate_key_consistency ::
  "sha \<Rightarrow> RegisteredParticipant \<Rightarrow> (RegistryError, unit) result" where
  "validate_key_consistency H p =
     (let derived = vid_from_public_key H (arr32 (rp_signing_key p)) in
      if derived \<noteq> rp_verifier_id p then Inl (VerifierIdMismatch (rp_verifier_id p) derived)
      else Inr ())"

definition rp_is_active :: "RegisteredParticipant \<Rightarrow> bool" where
  "rp_is_active p = status_is_active (rp_status p)"

section \<open>The registry\<close>

record ParticipantRegistry =
  reg_epoch :: RegistryEpoch
  reg_participants :: "(VerifierId \<times> RegisteredParticipant) list"

fun reg_fill ::
  "RegisteredParticipant list \<Rightarrow> (VerifierId \<times> RegisteredParticipant) list \<Rightarrow>
   (RegistryError, (VerifierId \<times> RegisteredParticipant) list) result" where
  "reg_fill [] ps = Inr ps"
| "reg_fill (e # es) ps =
     (if map_of ps (rp_verifier_id e) \<noteq> None then Inl (DuplicateParticipant (rp_verifier_id e))
      else reg_fill es ((rp_verifier_id e, e) # ps))"

definition registry_new ::
  "RegistryEpoch \<Rightarrow> RegisteredParticipant list \<Rightarrow> (RegistryError, ParticipantRegistry) result" where
  "registry_new ep entries =
     rbind (reg_fill entries [])
       (\<lambda>ps. if ps = [] then Inl EmptyRegistry
             else Inr \<lparr> reg_epoch = ep, reg_participants = ps \<rparr>)"

definition registry_new_validated ::
  "sha \<Rightarrow> RegistryEpoch \<Rightarrow> RegisteredParticipant list \<Rightarrow> (RegistryError, ParticipantRegistry) result" where
  "registry_new_validated H ep entries =
     rbind (each_ok (validate_key_consistency H) entries) (\<lambda>_. registry_new ep entries)"

definition registry_from_key_pairs ::
  "ed25519 \<Rightarrow> RegistryEpoch \<Rightarrow> VerifierKeyPair list \<Rightarrow> (RegistryError, ParticipantRegistry) result" where
  "registry_from_key_pairs ed ep kps =
     registry_new ep (map (\<lambda>kp. \<lparr> rp_verifier_id = kp_verifier_id kp,
       rp_signing_key = kp_verifying_key ed kp, rp_status = PActive, rp_added_at_epoch = ep \<rparr>) kps)"

definition participant_count :: "ParticipantRegistry \<Rightarrow> nat" where
  "participant_count r = length (reg_participants r)"

definition active_entries :: "ParticipantRegistry \<Rightarrow> RegisteredParticipant list" where
  "active_entries r = filter rp_is_active (map snd (reg_participants r))"

definition active_count :: "ParticipantRegistry \<Rightarrow> nat" where
  "active_count r = length (active_entries r)"

definition reg_get :: "ParticipantRegistry \<Rightarrow> VerifierId \<Rightarrow> RegisteredParticipant option" where
  "reg_get r v = map_of (reg_participants r) v"

definition get_active :: "ParticipantRegistry \<Rightarrow> VerifierId \<Rightarrow> (RegistryError, RegisteredParticipant) result" where
  "get_active r v =
     (case reg_get r v of
        None \<Rightarrow> Inl (UnknownParticipant v)
      | Some p \<Rightarrow> (case rp_status p of
                      PActive \<Rightarrow> Inr p
                    | Revoked \<Rightarrow> Inl (RevokedParticipant v)
                    | Retired \<Rightarrow> Inl (RetiredParticipant v)))"

definition active_participant_ids :: "ParticipantRegistry \<Rightarrow> VerifierId list" where
  "active_participant_ids r = map rp_verifier_id (active_entries r)"

definition check_ceremony_admission ::
  "ParticipantRegistry \<Rightarrow> RegistryEpoch \<Rightarrow> VerifierId list \<Rightarrow> (RegistryError, unit) result" where
  "check_ceremony_admission r expected ps =
     (if expected \<noteq> reg_epoch r then Inl (EpochMismatch expected (reg_epoch r))
      else each_ok (\<lambda>v. map_err id (rbind (get_active r v) (\<lambda>_. Inr ()))) ps)"

definition active_verifier_keys :: "ParticipantRegistry \<Rightarrow> key_list" where
  "active_verifier_keys r = map (\<lambda>p. (rp_verifier_id p, rp_signing_key p)) (active_entries r)"

definition to_dkg_registry :: "ParticipantRegistry \<Rightarrow> VerifierId \<Rightarrow> bytes32 option" where
  "to_dkg_registry r =
     fold (\<lambda>p m. m(rp_verifier_id p \<mapsto> rp_signing_key p)) (active_entries r) Map.empty"

definition reg_modify ::
  "VerifierId \<Rightarrow> (RegisteredParticipant \<Rightarrow> RegisteredParticipant) \<Rightarrow> RegistryEpoch \<Rightarrow>
   ParticipantRegistry \<Rightarrow> ParticipantRegistry" where
  "reg_modify v f ep r =
     \<lparr> reg_epoch = ep,
       reg_participants = map (\<lambda>(k, p). (k, if k = v then f p else p)) (reg_participants r) \<rparr>"

definition with_revocation ::
  "VerifierId \<Rightarrow> RegistryEpoch \<Rightarrow> ParticipantRegistry \<Rightarrow> (RegistryError, ParticipantRegistry) result" where
  "with_revocation v ep r =
     (if re_le ep (reg_epoch r) then Inl (StaleRotationEpoch (reg_epoch r) ep)
      else (case reg_get r v of
              None \<Rightarrow> Inl (RevocationTargetUnknown v)
            | Some p \<Rightarrow>
                if rp_status p = Revoked then Inl (AlreadyRevoked v)
                else Inr (reg_modify v
                       (\<lambda>p. p \<lparr> rp_status := Revoked, rp_added_at_epoch := ep \<rparr>) ep r)))"

definition with_retirement ::
  "VerifierId \<Rightarrow> RegistryEpoch \<Rightarrow> ParticipantRegistry \<Rightarrow> (RegistryError, ParticipantRegistry) result" where
  "with_retirement v ep r =
     (if re_le ep (reg_epoch r) then Inl (StaleRotationEpoch (reg_epoch r) ep)
      else if reg_get r v = None then Inl (RevocationTargetUnknown v)
      else Inr (reg_modify v (\<lambda>p. p \<lparr> rp_status := Retired, rp_added_at_epoch := ep \<rparr>) ep r))"

definition with_key_rotation ::
  "VerifierId \<Rightarrow> bytes32 \<Rightarrow> RegistryEpoch \<Rightarrow> ParticipantRegistry \<Rightarrow> (RegistryError, ParticipantRegistry) result" where
  "with_key_rotation v key ep r =
     (if re_le ep (reg_epoch r) then Inl (StaleRotationEpoch (reg_epoch r) ep)
      else if reg_get r v = None then Inl (RotationTargetUnknown v)
      else Inr (reg_modify v
             (\<lambda>p. p \<lparr> rp_signing_key := key, rp_status := PActive, rp_added_at_epoch := ep \<rparr>) ep r))"

section \<open>The invariant\<close>

definition registry_inv :: "ParticipantRegistry \<Rightarrow> bool" where
  "registry_inv r \<longleftrightarrow> reg_participants r \<noteq> [] \<and> distinct (map fst (reg_participants r)) \<and>
     (\<forall>(v, p) \<in> set (reg_participants r). rp_verifier_id p = v)"

definition is_admitted :: "ParticipantRegistry \<Rightarrow> VerifierId \<Rightarrow> bool" where
  "is_admitted r v \<longleftrightarrow> (\<exists>p. reg_get r v = Some p \<and> rp_status p = PActive)"

lemma reg_fill_inv:
  "reg_fill es ps = Inr qs \<Longrightarrow>
     distinct (map fst ps) \<and> (\<forall>(v, p) \<in> set ps. rp_verifier_id p = v) \<Longrightarrow>
     distinct (map fst qs) \<and> (\<forall>(v, p) \<in> set qs. rp_verifier_id p = v) \<and>
     set qs = set ps \<union> (\<lambda>e. (rp_verifier_id e, e)) ` set es"
proof (induction es arbitrary: ps)
  case (Cons e es)
  from Cons.prems(1) have new: "map_of ps (rp_verifier_id e) = None"
    and rec: "reg_fill es ((rp_verifier_id e, e) # ps) = Inr qs"
    by (simp_all split: if_splits)
  have "rp_verifier_id e \<notin> fst ` set ps" using new by (simp add: map_of_eq_None_iff)
  then have "distinct (map fst ((rp_verifier_id e, e) # ps)) \<and>
      (\<forall>(v, p) \<in> set ((rp_verifier_id e, e) # ps). rp_verifier_id p = v)"
    using Cons.prems(2) by simp
  from Cons.IH[OF rec this] show ?case by simp
qed simp

lemma registry_new_inv:
  assumes "registry_new ep es = Inr r"
  shows "registry_inv r" "reg_epoch r = ep"
    "set (reg_participants r) = (\<lambda>e. (rp_verifier_id e, e)) ` set es"
proof -
  obtain ps where ps: "reg_fill es [] = Inr ps" "ps \<noteq> []"
    and r: "r = \<lparr> reg_epoch = ep, reg_participants = ps \<rparr>"
    using assms by (auto simp: registry_new_def result_simps split: if_splits)
  from reg_fill_inv[OF ps(1)] ps(2) show "registry_inv r" "reg_epoch r = ep"
    "set (reg_participants r) = (\<lambda>e. (rp_verifier_id e, e)) ` set es"
    by (simp_all add: r registry_inv_def)
qed

lemma reg_get_modify:
  "reg_get (reg_modify v f ep r) w = (if w = v then map_option f (reg_get r v) else reg_get r w)"
proof -
  have "map_of (map (\<lambda>(k, p). (k, if k = v then f p else p)) xs) w =
      (if w = v then map_option f (map_of xs v) else map_of xs w)" for xs
    by (induction xs) auto
  then show ?thesis by (simp add: reg_get_def reg_modify_def)
qed

lemma reg_modify_inv:
  "registry_inv r \<Longrightarrow> (\<And>p. rp_verifier_id (f p) = rp_verifier_id p) \<Longrightarrow> registry_inv (reg_modify v f ep r)"
  by (auto simp: registry_inv_def reg_modify_def comp_def case_prod_beta)

lemma get_active_eq_Inr [result_simps]:
  "get_active r v = Inr p \<longleftrightarrow> reg_get r v = Some p \<and> rp_status p = PActive"
  by (auto simp: get_active_def split: option.splits ParticipantStatus.splits)

lemma check_admission_eq_Inr [result_simps]:
  "check_ceremony_admission r ep ps = Inr u \<longleftrightarrow> ep = reg_epoch r \<and> (\<forall>v \<in> set ps. is_admitted r v)"
  by (auto simp: check_ceremony_admission_def result_simps is_admitted_def split: if_splits)

lemma reg_get_in: "registry_inv r \<Longrightarrow> reg_get r v = Some p \<longleftrightarrow> (v, p) \<in> set (reg_participants r)"
  by (auto simp: registry_inv_def reg_get_def)

lemma reg_get_id: "registry_inv r \<Longrightarrow> reg_get r v = Some p \<Longrightarrow> rp_verifier_id p = v"
  by (auto simp: reg_get_in registry_inv_def)

lemma active_entries_iff:
  "registry_inv r \<Longrightarrow> p \<in> set (active_entries r) \<longleftrightarrow> reg_get r (rp_verifier_id p) = Some p \<and> rp_status p = PActive"
proof -
  assume inv: "registry_inv r"
  have "p \<in> snd ` set (reg_participants r) \<longleftrightarrow> (rp_verifier_id p, p) \<in> set (reg_participants r)"
    using inv by (force simp: registry_inv_def)
  then show ?thesis
    by (auto simp: active_entries_def rp_is_active_def status_is_active_def reg_get_in[OF inv]
        split: ParticipantStatus.splits)
qed

section \<open>Evolution\<close>

inductive registry_step :: "ParticipantRegistry \<Rightarrow> ParticipantRegistry \<Rightarrow> bool" where
  revocation: "with_revocation v ep r = Inr r' \<Longrightarrow> registry_step r r'"
| retirement: "with_retirement v ep r = Inr r' \<Longrightarrow> registry_step r r'"
| key_rotation: "with_key_rotation v k ep r = Inr r' \<Longrightarrow> registry_step r r'"

lemma with_revocation_eq_Inr [result_simps]:
  "with_revocation v ep r = Inr r' \<longleftrightarrow> \<not> re_le ep (reg_epoch r) \<and>
     (\<exists>p. reg_get r v = Some p \<and> rp_status p \<noteq> Revoked) \<and>
     r' = reg_modify v (\<lambda>p. p \<lparr> rp_status := Revoked, rp_added_at_epoch := ep \<rparr>) ep r"
  by (auto simp: with_revocation_def split: option.splits if_splits)

lemma with_retirement_eq_Inr [result_simps]:
  "with_retirement v ep r = Inr r' \<longleftrightarrow> \<not> re_le ep (reg_epoch r) \<and> reg_get r v \<noteq> None \<and>
     r' = reg_modify v (\<lambda>p. p \<lparr> rp_status := Retired, rp_added_at_epoch := ep \<rparr>) ep r"
  by (auto simp: with_retirement_def)

lemma with_key_rotation_eq_Inr [result_simps]:
  "with_key_rotation v k ep r = Inr r' \<longleftrightarrow> \<not> re_le ep (reg_epoch r) \<and> reg_get r v \<noteq> None \<and>
     r' = reg_modify v
       (\<lambda>p. p \<lparr> rp_signing_key := k, rp_status := PActive, rp_added_at_epoch := ep \<rparr>) ep r"
  by (auto simp: with_key_rotation_def)

lemma reg_modify_epoch [simp]: "reg_epoch (reg_modify v f ep r) = ep"
  by (simp add: reg_modify_def)

lemma step_inv: "registry_step r r' \<Longrightarrow> registry_inv r \<Longrightarrow> registry_inv r'"
  by (erule registry_step.cases) (auto simp: result_simps intro: reg_modify_inv)

lemma step_epoch: "registry_step r r' \<Longrightarrow> re_u64 (reg_epoch r) < re_u64 (reg_epoch r')"
  by (erule registry_step.cases) (auto simp: result_simps re_le_def)

lemma step_ids: "registry_step r r' \<Longrightarrow> reg_get r' v = None \<longleftrightarrow> reg_get r v = None"
  by (erule registry_step.cases) (auto simp: result_simps reg_get_modify)

lemma steps_epoch: "registry_step\<^sup>+\<^sup>+ r r' \<Longrightarrow> re_u64 (reg_epoch r) < re_u64 (reg_epoch r')"
  by (induction rule: tranclp_induct) (auto dest: step_epoch)

lemma steps_inv: "registry_step\<^sup>*\<^sup>* r r' \<Longrightarrow> registry_inv r \<Longrightarrow> registry_inv r'"
  by (induction rule: rtranclp_induct) (auto dest: step_inv)

lemma steps_ids: "registry_step\<^sup>*\<^sup>* r r' \<Longrightarrow> reg_get r' v = None \<longleftrightarrow> reg_get r v = None"
  by (induction rule: rtranclp_induct) (auto simp: step_ids)

section \<open>Bridges\<close>

lemma distinct_active_ids:
  assumes "registry_inv r"
  shows "distinct (map rp_verifier_id (active_entries r))"
proof -
  have "map rp_verifier_id (map snd (reg_participants r)) = map fst (reg_participants r)"
    using assms by (auto simp: registry_inv_def)
  then have "distinct (map rp_verifier_id (map snd (reg_participants r)))"
    using assms by (simp only: registry_inv_def)
  then show ?thesis unfolding active_entries_def by (rule distinct_map_filter)
qed

lemma find_key_map_of: "find_key pks v = map_of pks v"
  by (induction pks) (auto simp: find_key_def)

lemma active_keys_map_of:
  assumes "registry_inv r"
  shows "map_of (active_verifier_keys r) v =
    (case reg_get r v of Some p \<Rightarrow> if rp_status p = PActive then Some (rp_signing_key p) else None
     | None \<Rightarrow> None)"
proof -
  have d: "distinct (map fst (active_verifier_keys r))"
    using distinct_active_ids[OF assms] by (simp add: active_verifier_keys_def comp_def)
  have "map_of (active_verifier_keys r) v = Some k \<longleftrightarrow>
      (\<exists>p. reg_get r v = Some p \<and> rp_status p = PActive \<and> rp_signing_key p = k)" for k
  proof -
    have "map_of (active_verifier_keys r) v = Some k \<longleftrightarrow> (v, k) \<in> set (active_verifier_keys r)"
      by (rule map_of_eq_Some_iff[OF d])
    also have "\<dots> \<longleftrightarrow> (\<exists>p \<in> set (active_entries r). rp_verifier_id p = v \<and> rp_signing_key p = k)"
      by (auto simp: active_verifier_keys_def)
    also have "\<dots> \<longleftrightarrow> (\<exists>p. reg_get r v = Some p \<and> rp_status p = PActive \<and> rp_signing_key p = k)"
      using active_entries_iff[OF assms] reg_get_id[OF assms] by metis
    finally show ?thesis .
  qed
  note iff = this
  show ?thesis
  proof (cases "\<exists>p. reg_get r v = Some p \<and> rp_status p = PActive")
    case True
    then show ?thesis using iff by auto
  next
    case False
    then have "map_of (active_verifier_keys r) v = None"
      using iff by (cases "map_of (active_verifier_keys r) v") auto
    then show ?thesis using False by (auto split: option.split)
  qed
qed

lemma fold_upd_distinct:
  "distinct (map f xs) \<Longrightarrow> fold (\<lambda>x m. m(f x \<mapsto> g x)) xs m v =
     (case map_of (map (\<lambda>x. (f x, g x)) xs) v of Some y \<Rightarrow> Some y | None \<Rightarrow> m v)"
proof (induction xs arbitrary: m)
  case (Cons x xs)
  then have "map_of (map (\<lambda>x. (f x, g x)) xs) (f x) = None"
    by (auto simp: map_of_eq_None_iff)
  then show ?case using Cons by (auto split: option.splits)
qed simp

lemma to_dkg_registry_map_of:
  assumes "registry_inv r"
  shows "to_dkg_registry r = map_of (active_verifier_keys r)"
  by (rule ext) (simp add: to_dkg_registry_def active_verifier_keys_def
      fold_upd_distinct[OF distinct_active_ids[OF assms]] split: option.split)

section \<open>Properties\<close>

definition reg_ex :: ParticipantRegistry where
  "reg_ex = \<lparr> reg_epoch = RegistryEpoch 1, reg_participants =
     [(VerifierId 1, rp_active (VerifierId 1) 11 (RegistryEpoch 1)),
      (VerifierId 2, rp_active (VerifierId 2) 12 (RegistryEpoch 1))] \<rparr>"

lemma reg_ex_inv: "registry_inv reg_ex"
  by (simp add: registry_inv_def reg_ex_def rp_active_def)

text \<open>C35. The registry invariant.  A registry built by \<open>ParticipantRegistry::new\<close> has at least one
  entry, no identifier twice, and every entry under its own identifier; every sequence of
  revocations, retirements and key rotations keeps this and the set of known identifiers, and
  strictly increases the epoch.\<close>

theorem registry_invariant:
  assumes "registry_new ep entries = Inr r" and "registry_step\<^sup>*\<^sup>* r r'"
  shows "registry_inv r' \<and> (\<forall>v. reg_get r' v = None \<longleftrightarrow> v \<notin> rp_verifier_id ` set entries) \<and>
    (r' = r \<or> re_u64 ep < re_u64 (reg_epoch r'))"
proof -
  note new = registry_new_inv[OF assms(1)]
  have "reg_get r v = None \<longleftrightarrow> v \<notin> rp_verifier_id ` set entries" for v
    by (simp add: reg_get_def map_of_eq_None_iff new(3) image_image)
  moreover have "r' = r \<or> re_u64 ep < re_u64 (reg_epoch r')"
    using steps_epoch[of r r'] rtranclpD[OF assms(2)] new(2) by auto
  ultimately show ?thesis using steps_inv[OF assms(2) new(1)] steps_ids[OF assms(2)] by simp
qed

theorem registry_invariant_witness:
  "\<exists>r r'. registry_new (RegistryEpoch 1) [rp_active (VerifierId 1) 11 (RegistryEpoch 1)] = Inr r \<and>
     with_revocation (VerifierId 1) (RegistryEpoch 2) r = Inr r' \<and> registry_inv r'"
proof -
  define r where "r = \<lparr> reg_epoch = RegistryEpoch 1, reg_participants =
     [(VerifierId 1, rp_active (VerifierId 1) 11 (RegistryEpoch 1))] \<rparr>"
  define r' where "r' = reg_modify (VerifierId 1)
    (\<lambda>p. p \<lparr> rp_status := Revoked, rp_added_at_epoch := RegistryEpoch 2 \<rparr>) (RegistryEpoch 2) r"
  have "registry_new (RegistryEpoch 1) [rp_active (VerifierId 1) 11 (RegistryEpoch 1)] = Inr r"
    by (simp add: registry_new_def r_def rp_active_def)
  moreover have rv: "with_revocation (VerifierId 1) (RegistryEpoch 2) r = Inr r'"
    by (simp add: result_simps r'_def re_le_def word_le_nat_alt reg_get_def r_def rp_active_def)
  moreover have "registry_step\<^sup>*\<^sup>* r r'" using registry_step.revocation[OF rv] by blast
  ultimately show ?thesis using registry_invariant by blast
qed

text \<open>Admission.  \<open>check_ceremony_admission\<close> accepts exactly when the ceremony is bound to the
  epoch of the snapshot and every participant is registered and active; and after any further
  registry change a ceremony bound to the old epoch is rejected with an epoch mismatch.\<close>

theorem admission_exact_and_fresh:
  "(check_ceremony_admission r ep ps = Inr () \<longleftrightarrow>
      ep = reg_epoch r \<and> (\<forall>v \<in> set ps. \<exists>p. reg_get r v = Some p \<and> rp_status p = PActive))
   \<and> (registry_step\<^sup>+\<^sup>+ r r' \<longrightarrow>
        check_ceremony_admission r' (reg_epoch r) ps = Inl (EpochMismatch (reg_epoch r) (reg_epoch r')))"
proof
  show "registry_step\<^sup>+\<^sup>+ r r' \<longrightarrow>
      check_ceremony_admission r' (reg_epoch r) ps = Inl (EpochMismatch (reg_epoch r) (reg_epoch r'))"
    using steps_epoch[of r r'] by (auto simp: check_ceremony_admission_def)
qed (simp add: check_admission_eq_Inr is_admitted_def)

theorem admission_exact_and_fresh_witness:
  "check_ceremony_admission reg_ex (RegistryEpoch 1) [VerifierId 1, VerifierId 2] = Inr ()"
  using admission_exact_and_fresh[of reg_ex "RegistryEpoch 1" "[VerifierId 1, VerifierId 2]" reg_ex]
  by (simp add: reg_ex_def reg_get_def rp_active_def)

text \<open>Revocation takes effect everywhere: in the registry returned by \<open>with_revocation\<close> no
  ceremony with the revoked participant is admitted, its key is in neither the list of active keys
  nor the registry used to verify announcements, and nothing changes for any other participant.\<close>

theorem revocation_excludes:
  assumes "registry_inv r" and "with_revocation v ep r = Inr r'"
  shows "(v \<in> set ps \<longrightarrow> check_ceremony_admission r' ep' ps \<noteq> Inr ())
    \<and> find_key (active_verifier_keys r') v = None \<and> to_dkg_registry r' v = None
    \<and> (\<forall>w. w \<noteq> v \<longrightarrow> reg_get r' w = reg_get r w \<and>
          find_key (active_verifier_keys r') w = find_key (active_verifier_keys r) w)"
proof -
  have inv': "registry_inv r'"
    using step_inv[OF registry_step.revocation[OF assms(2)] assms(1)] .
  have get: "reg_get r' w = (if w = v
      then map_option (\<lambda>p. p \<lparr> rp_status := Revoked, rp_added_at_epoch := ep \<rparr>) (reg_get r v)
      else reg_get r w)" for w
    using assms(2) by (simp add: result_simps reg_get_modify)
  then show ?thesis
    by (auto simp: check_admission_eq_Inr is_admitted_def find_key_map_of active_keys_map_of[OF inv']
        active_keys_map_of[OF assms(1)] to_dkg_registry_map_of[OF inv'] split: option.splits)
qed

theorem revocation_excludes_witness:
  "\<exists>r'. with_revocation (VerifierId 1) (RegistryEpoch 2) reg_ex = Inr r' \<and>
     check_ceremony_admission r' (RegistryEpoch 2) [VerifierId 2, VerifierId 1] \<noteq> Inr () \<and>
     find_key (active_verifier_keys r') (VerifierId 1) = None"
proof -
  obtain r' where "with_revocation (VerifierId 1) (RegistryEpoch 2) reg_ex = Inr r'"
    by (simp add: with_revocation_def re_le_def word_le_nat_alt reg_get_def reg_ex_def rp_active_def)
  from revocation_excludes[OF reg_ex_inv this, of "[VerifierId 2, VerifierId 1]" "RegistryEpoch 2"] this
  show ?thesis by simp
qed

text \<open>The keys handed to the coordinator are exactly those of the active participants: looking up
  an identifier among \<open>active_verifier_keys\<close> gives the key of the participant if it is active and
  nothing otherwise, and the registry for announcements is the same map.\<close>

theorem active_keys_exact:
  assumes "registry_inv r"
  shows "(find_key (active_verifier_keys r) v = Some k \<longleftrightarrow>
      (\<exists>p. reg_get r v = Some p \<and> rp_status p = PActive \<and> rp_signing_key p = k))
    \<and> to_dkg_registry r v = find_key (active_verifier_keys r) v
    \<and> set (active_participant_ids r) = {v. is_admitted r v} \<and> distinct (active_participant_ids r)"
proof -
  have "v \<in> set (active_participant_ids r) \<longleftrightarrow> is_admitted r v" for v
  proof -
    have "v \<in> set (active_participant_ids r) \<longleftrightarrow> (\<exists>p \<in> set (active_entries r). rp_verifier_id p = v)"
      by (auto simp: active_participant_ids_def)
    also have "\<dots> \<longleftrightarrow> is_admitted r v"
      unfolding is_admitted_def using active_entries_iff[OF assms] reg_get_id[OF assms] by metis
    finally show ?thesis .
  qed
  moreover have "distinct (active_participant_ids r)"
    using distinct_active_ids[OF assms] by (simp add: active_participant_ids_def)
  ultimately show ?thesis
    by (auto simp: find_key_map_of active_keys_map_of[OF assms] to_dkg_registry_map_of[OF assms]
        split: option.splits)
qed

theorem active_keys_exact_witness:
  "find_key (active_verifier_keys reg_ex) (VerifierId 2) = Some 12"
  using active_keys_exact[OF reg_ex_inv, of "VerifierId 2" 12]
  by (simp add: reg_ex_def reg_get_def rp_active_def)

text \<open>C36. Key rotation undoes the validation of the registry: in a registry whose identifiers are the
  hashes of their keys, rotating a participant (a revoked one too, which becomes active again) to
  a different key leaves an entry that \<open>validate_key_consistency\<close> rejects, unless the two keys are
  an explicit collision of SHA-256.\<close>

theorem key_rotation_breaks_consistency:
  assumes "reg_get r v = Some p" and "validate_key_consistency H p = Inr ()"
    and "rp_verifier_id p = v" and "with_key_rotation v key ep r = Inr r'" and "key \<noteq> rp_signing_key p"
  shows "\<exists>p'. reg_get r' v = Some p' \<and> rp_status p' = PActive \<and>
    (validate_key_consistency H p' \<noteq> Inr () \<or> collision H (arr32 key) (arr32 (rp_signing_key p)))"
proof -
  define p' where "p' = p \<lparr> rp_signing_key := key, rp_status := PActive, rp_added_at_epoch := ep \<rparr>"
  have "reg_get r' v = Some p'" using assms(1,4) by (simp add: result_simps reg_get_modify p'_def)
  moreover have "collision H (arr32 key) (arr32 (rp_signing_key p))"
    if "validate_key_consistency H p' = Inr ()"
  proof -
    have "VerifierId (H (arr32 key)) = rp_verifier_id p"
      "VerifierId (H (arr32 (rp_signing_key p))) = rp_verifier_id p"
      using that assms(2) by (simp_all add: validate_key_consistency_def Let_def p'_def
          vid_from_public_key_def split: if_splits)
    from this(1)[folded this(2)] have "H (arr32 key) = H (arr32 (rp_signing_key p))" by simp
    then show ?thesis using assms(5) by (simp add: collision_def)
  qed
  ultimately show ?thesis by (auto simp: p'_def)
qed

theorem key_rotation_breaks_consistency_witness:
  "let r = \<lparr> reg_epoch = RegistryEpoch 1, reg_participants =
       [(VerifierId 7, \<lparr> rp_verifier_id = VerifierId 7, rp_signing_key = 11, rp_status = Revoked,
          rp_added_at_epoch = RegistryEpoch 1 \<rparr>)] \<rparr>
   in \<exists>r' p'. with_key_rotation (VerifierId 7) 12 (RegistryEpoch 2) r = Inr r' \<and>
        reg_get r' (VerifierId 7) = Some p' \<and> rp_status p' = PActive"
proof -
  define p where "p = \<lparr> rp_verifier_id = VerifierId 7, rp_signing_key = 11, rp_status = Revoked,
    rp_added_at_epoch = RegistryEpoch 1 \<rparr>"
  define r where "r = \<lparr> reg_epoch = RegistryEpoch 1, reg_participants = [(VerifierId 7, p)] \<rparr>"
  have "reg_get r (VerifierId 7) = Some p" by (simp add: r_def reg_get_def)
  moreover obtain r' where "with_key_rotation (VerifierId 7) 12 (RegistryEpoch 2) r = Inr r'"
    by (simp add: with_key_rotation_def re_le_def word_le_nat_alt reg_get_def r_def)
  moreover have "validate_key_consistency (\<lambda>_. 7) p = Inr ()"
    by (simp add: validate_key_consistency_def p_def vid_from_public_key_def)
  ultimately show ?thesis
    using key_rotation_breaks_consistency[of r "VerifierId 7" p "\<lambda>_. 7" 12 "RegistryEpoch 2" r']
    by (auto simp: p_def r_def Let_def)
qed

end
