(* ===== verification/Transcript.thy ===== *)
theory Transcript
  imports Core_Types
begin

text \<open>
  Transcript commitments (\<open>crates/crypto/src/transcript.rs\<close>): the query and the response of a
  session are hashed under their role, the session identifier and the session randomness, and the
  two digests are combined into one session transcript digest.
\<close>

record TranscriptCommitment =
  tc_role :: string
  tc_digest :: DigestBytes

definition tc_hasher ::
  "string \<Rightarrow> SessionId \<Rightarrow> DigestBytes \<Rightarrow> byte list \<Rightarrow> CanonicalHasher" where
  "tc_hasher role sid rnd data =
     update_bytes data (update_digest rnd (update_fixed (sid_enc sid)
       (ch_new (''tls-attestation/transcript/'' @ role @ ''/v1''))))"

definition tc_compute ::
  "sha \<Rightarrow> string \<Rightarrow> SessionId \<Rightarrow> DigestBytes \<Rightarrow> byte list \<Rightarrow> TranscriptCommitment" where
  "tc_compute H role sid rnd data =
     \<lparr> tc_role = role, tc_digest = ch_finalize H (tc_hasher role sid rnd data) \<rparr>"

definition tc_verify ::
  "sha \<Rightarrow> TranscriptCommitment \<Rightarrow> SessionId \<Rightarrow> DigestBytes \<Rightarrow> byte list \<Rightarrow> bool" where
  "tc_verify H c sid rnd data \<longleftrightarrow> tc_digest c = tc_digest (tc_compute H (tc_role c) sid rnd data)"

record TranscriptCommitments =
  tcs_query :: TranscriptCommitment
  tcs_response :: TranscriptCommitment
  session_transcript_digest :: DigestBytes

definition std_hasher :: "SessionId \<Rightarrow> DigestBytes \<Rightarrow> DigestBytes \<Rightarrow> CanonicalHasher" where
  "std_hasher sid qd rd =
     update_digest rd (update_digest qd (update_fixed (sid_enc sid)
       (ch_new ''tls-attestation/session-transcript/v1'')))"

definition tcs_build ::
  "sha \<Rightarrow> SessionId \<Rightarrow> DigestBytes \<Rightarrow> byte list \<Rightarrow> byte list \<Rightarrow> TranscriptCommitments" where
  "tcs_build H sid rnd query response =
     (let qc = tc_compute H ''query'' sid rnd query;
          rc = tc_compute H ''response'' sid rnd response
      in \<lparr> tcs_query = qc, tcs_response = rc,
           session_transcript_digest =
             ch_finalize H (std_hasher sid (tc_digest qc) (tc_digest rc)) \<rparr>)"

section \<open>Binding\<close>

text \<open>The fields of a commitment, with the sizes that fit the machine.\<close>

type_synonym tc_fields = "string \<times> SessionId \<times> DigestBytes \<times> byte list"

definition tc_pre :: "tc_fields \<Rightarrow> byte list" where
  "tc_pre = (\<lambda>(role, sid, rnd, data). absorbed (tc_hasher role sid rnd data))"

definition tc_fits :: "tc_fields \<Rightarrow> bool" where
  "tc_fits = (\<lambda>(role, sid, rnd, data). length role < 2 ^ 31 \<and> length data < 2 ^ 64)"

interpretation tcb: binding tc_pre tc_fits
  by standard (auto simp: tc_pre_def tc_fits_def tc_hasher_def enc_inject)

definition std_pre :: "SessionId \<times> DigestBytes \<times> DigestBytes \<Rightarrow> byte list" where
  "std_pre = (\<lambda>(sid, qd, rd). absorbed (std_hasher sid qd rd))"

interpretation stdb: binding std_pre "\<lambda>_. True"
  by standard (auto simp: std_pre_def std_hasher_def enc_inject)

lemma tc_digest_pre: "tc_digest (tc_compute H r s v d) = DigestBytes (H (tc_pre (r, s, v, d)))"
  by (simp add: tc_compute_def tc_pre_def ch_finalize_def)

lemma std_digest_pre:
  "session_transcript_digest (tcs_build H sid rnd q r) =
     DigestBytes (H (std_pre (sid, tc_digest (tc_compute H ''query'' sid rnd q),
       tc_digest (tc_compute H ''response'' sid rnd r))))"
  by (simp add: tcs_build_def Let_def std_pre_def ch_finalize_def)

lemma tcs_build_simps [simp]:
  "tcs_query (tcs_build H sid rnd q r) = tc_compute H ''query'' sid rnd q"
  "tcs_response (tcs_build H sid rnd q r) = tc_compute H ''response'' sid rnd r"
  by (simp_all add: tcs_build_def Let_def)

lemma tc_compute_role [simp]: "tc_role (tc_compute H r s v d) = r"
  by (simp add: tc_compute_def)

lemma tc_verify_compute [simp]: "tc_verify H (tc_compute H r s v d) s v d"
  by (simp add: tc_verify_def)

text \<open>Two commitments that agree name the same role, session, randomness and data.\<close>

lemma tc_compute_binds:
  assumes "tc_digest (tc_compute H r s v d) = tc_digest (tc_compute H r' s' v' d')"
    and "tc_fits (r, s, v, d)" "tc_fits (r', s', v', d')"
  shows "(r, s, v, d) = (r', s', v', d') \<or>
    collision H (tc_pre (r, s, v, d)) (tc_pre (r', s', v', d'))"
  using tcb.digest_binds[OF assms(2,3), of H] assms(1) by (simp add: tc_digest_pre)

lemma std_binds:
  assumes "session_transcript_digest (tcs_build H s v q r) =
      session_transcript_digest (tcs_build H s' v' q' r')"
  shows "s = s' \<and> tc_digest (tc_compute H ''query'' s v q) = tc_digest (tc_compute H ''query'' s' v' q')
      \<and> tc_digest (tc_compute H ''response'' s v r) = tc_digest (tc_compute H ''response'' s' v' r')
    \<or> collision H (std_pre (s, tc_digest (tc_compute H ''query'' s v q),
          tc_digest (tc_compute H ''response'' s v r)))
        (std_pre (s', tc_digest (tc_compute H ''query'' s' v' q'),
          tc_digest (tc_compute H ''response'' s' v' r')))"
  using stdb.digest_binds[where H = H] assms by (fastforce simp: std_digest_pre)

end
