(* ===== verification/Evidence.thy ===== *)
theory Evidence
  imports Transcript Session
begin

text \<open>
  Statements (\<open>crates/attestation/src/statement.rs\<close>) and the artifacts of an attestation engine
  (\<open>engine.rs\<close>): evidence, attestation packages and the prototype engine, with the contract of an
  engine as the locale \<open>attestation_engine\<close>.
\<close>

section \<open>Statements\<close>

record StatementPayload =
  st_content :: "byte list"
  st_derivation_tag :: string
  st_statement_digest :: DigestBytes

definition statement_hasher :: "string \<Rightarrow> DigestBytes \<Rightarrow> byte list \<Rightarrow> CanonicalHasher" where
  "statement_hasher tag std content =
     update_bytes content (update_digest std (update_bytes (str_bytes tag)
       (ch_new ''tls-attestation/statement/v1'')))"

definition derive_statement_digest :: "sha \<Rightarrow> string \<Rightarrow> DigestBytes \<Rightarrow> byte list \<Rightarrow> DigestBytes" where
  "derive_statement_digest H tag std content = ch_finalize H (statement_hasher tag std content)"

definition statement_new :: "sha \<Rightarrow> byte list \<Rightarrow> string \<Rightarrow> DigestBytes \<Rightarrow> StatementPayload" where
  "statement_new H content tag std =
     \<lparr> st_content = content, st_derivation_tag = tag,
       st_statement_digest = derive_statement_digest H tag std content \<rparr>"

definition statement_verify_digest :: "sha \<Rightarrow> StatementPayload \<Rightarrow> DigestBytes \<Rightarrow> bool" where
  "statement_verify_digest H s std \<longleftrightarrow>
     st_statement_digest s = derive_statement_digest H (st_derivation_tag s) std (st_content s)"

section \<open>Evidence and packages\<close>

definition PROTOTYPE_ENGINE_TAG :: string where
  "PROTOTYPE_ENGINE_TAG = ''prototype-attestation/v1''"

record ExportableEvidence =
  ev_engine_tag :: string
  ev_bytes :: "byte list"
  ev_evidence_digest :: DigestBytes

definition evidence_hasher :: "string \<Rightarrow> byte list \<Rightarrow> CanonicalHasher" where
  "evidence_hasher tag bs =
     update_bytes bs (update_bytes (str_bytes tag) (ch_new ''tls-attestation/evidence/v1''))"

definition evidence_new :: "sha \<Rightarrow> string \<Rightarrow> byte list \<Rightarrow> ExportableEvidence" where
  "evidence_new H tag bs =
     \<lparr> ev_engine_tag = tag, ev_bytes = bs, ev_evidence_digest = ch_finalize H (evidence_hasher tag bs) \<rparr>"

record CoordinatorEvidence =
  ce_engine_tag :: string
  ce_evidence_digest :: DigestBytes
  ce_package_digest :: DigestBytes

record AttestationPackage =
  pk_session_context :: SessionContext
  pk_randomness_value :: DigestBytes
  pk_transcript_commitments :: TranscriptCommitments
  pk_evidence :: ExportableEvidence
  pk_package_digest :: DigestBytes

definition package_hasher ::
  "DigestBytes \<Rightarrow> DigestBytes \<Rightarrow> DigestBytes \<Rightarrow> DigestBytes \<Rightarrow> CanonicalHasher" where
  "package_hasher sd rv std ed =
     update_digest ed (update_digest std (update_digest rv (update_digest sd
       (ch_new ''tls-attestation/attestation-package/v1''))))"

definition package_compute_digest ::
  "sha \<Rightarrow> DigestBytes \<Rightarrow> DigestBytes \<Rightarrow> DigestBytes \<Rightarrow> DigestBytes \<Rightarrow> DigestBytes" where
  "package_compute_digest H sd rv std ed = ch_finalize H (package_hasher sd rv std ed)"

definition package_build ::
  "sha \<Rightarrow> SessionContext \<Rightarrow> DigestBytes \<Rightarrow> TranscriptCommitments \<Rightarrow> ExportableEvidence \<Rightarrow> AttestationPackage" where
  "package_build H c rv tcs ev =
     \<lparr> pk_session_context = c, pk_randomness_value = rv, pk_transcript_commitments = tcs,
       pk_evidence = ev,
       pk_package_digest = package_compute_digest H (session_digest c) rv
         (session_transcript_digest tcs) (ev_evidence_digest ev) \<rparr>"

section \<open>The prototype engine\<close>

definition prototype_json :: "nat \<Rightarrow> nat \<Rightarrow> SessionId \<Rightarrow> string" where
  "prototype_json qlen rlen sid =
     ''{'' @ [CHR 0x22] @ ''engine'' @ [CHR 0x22] @ '':'' @ [CHR 0x22] @ ''prototype'' @ [CHR 0x22] @
     '','' @ [CHR 0x22] @ ''query_len'' @ [CHR 0x22] @ '':'' @ dec_str qlen @
     '','' @ [CHR 0x22] @ ''response_len'' @ [CHR 0x22] @ '':'' @ dec_str rlen @
     '','' @ [CHR 0x22] @ ''session_id'' @ [CHR 0x22] @ '':'' @ [CHR 0x22] @ sid_display sid @
     [CHR 0x22] @ ''}''"

definition prototype_execute ::
  "sha \<Rightarrow> SessionContext \<Rightarrow> DigestBytes \<Rightarrow> byte list \<Rightarrow> byte list \<Rightarrow>
   (AttestationError, TranscriptCommitments \<times> ExportableEvidence) result" where
  "prototype_execute H session rnd query response =
     Inr (tcs_build H (session_id session) rnd query response,
          evidence_new H PROTOTYPE_ENGINE_TAG
            (str_bytes (prototype_json (length query) (length response) (session_id session))))"

section \<open>Binding\<close>

type_synonym st_fields = "string \<times> DigestBytes \<times> byte list"

definition st_pre :: "st_fields \<Rightarrow> byte list" where
  "st_pre = (\<lambda>(tag, std, content). absorbed (statement_hasher tag std content))"

definition st_fits :: "st_fields \<Rightarrow> bool" where
  "st_fits = (\<lambda>(tag, std, content). length tag < 2 ^ 64 \<and> length content < 2 ^ 64)"

interpretation stb: binding st_pre st_fits
  by standard (auto simp: st_pre_def st_fits_def statement_hasher_def enc_inject)

definition ev_pre :: "string \<times> byte list \<Rightarrow> byte list" where
  "ev_pre = (\<lambda>(tag, bs). absorbed (evidence_hasher tag bs))"

definition ev_fits :: "string \<times> byte list \<Rightarrow> bool" where
  "ev_fits = (\<lambda>(tag, bs). length tag < 2 ^ 64 \<and> length bs < 2 ^ 64)"

interpretation evb: binding ev_pre ev_fits
  by standard (auto simp: ev_pre_def ev_fits_def evidence_hasher_def enc_inject)

definition pk_pre :: "DigestBytes \<times> DigestBytes \<times> DigestBytes \<times> DigestBytes \<Rightarrow> byte list" where
  "pk_pre = (\<lambda>(sd, rv, std, ed). absorbed (package_hasher sd rv std ed))"

interpretation pkb: binding pk_pre "\<lambda>_. True"
  by standard (auto simp: pk_pre_def package_hasher_def enc_inject)

lemma statement_digest_pre:
  "derive_statement_digest H tag std content = DigestBytes (H (st_pre (tag, std, content)))"
  by (simp add: derive_statement_digest_def st_pre_def ch_finalize_def)

lemma evidence_digest_pre:
  "ev_evidence_digest (evidence_new H tag bs) = DigestBytes (H (ev_pre (tag, bs)))"
  by (simp add: evidence_new_def ev_pre_def ch_finalize_def)

lemma package_digest_pre:
  "package_compute_digest H sd rv std ed = DigestBytes (H (pk_pre (sd, rv, std, ed)))"
  by (simp add: package_compute_digest_def pk_pre_def ch_finalize_def)

lemma statement_verify_new [simp]:
  "statement_verify_digest H (statement_new H content tag std) std"
  by (simp add: statement_verify_digest_def statement_new_def)

section \<open>The contract of an attestation engine\<close>

text \<open>What the coordinator relies on: the engine's commitments are those of the query and response
  under the session and the randomness, and its evidence carries the digest of its own bytes.\<close>

definition evidence_consistent :: "sha \<Rightarrow> ExportableEvidence \<Rightarrow> bool" where
  "evidence_consistent H ev \<longleftrightarrow>
     ev_evidence_digest ev = ch_finalize H (evidence_hasher (ev_engine_tag ev) (ev_bytes ev))"

lemma evidence_new_consistent [simp]: "evidence_consistent H (evidence_new H tag bs)"
  by (simp add: evidence_consistent_def evidence_new_def)

locale attestation_engine =
  fixes H :: sha
    and execute :: "SessionContext \<Rightarrow> DigestBytes \<Rightarrow> byte list \<Rightarrow> byte list \<Rightarrow>
      (AttestationError, TranscriptCommitments \<times> ExportableEvidence) result"
    and engine_tag :: string
  assumes execute_ok: "execute c rnd q r = Inr (tcs, ev) \<Longrightarrow>
      tcs = tcs_build H (session_id c) rnd q r \<and> evidence_consistent H ev \<and>
      ev_engine_tag ev = engine_tag"
    and execute_total: "\<exists>tcs ev. execute c rnd q r = Inr (tcs, ev)"
begin

text \<open>The package built from an execution commits to this context, randomness and transcript.\<close>

lemma package_of_execution:
  assumes "execute c rnd q r = Inr (tcs, ev)"
  shows "pk_package_digest (package_build H c rnd tcs ev) =
    DigestBytes (H (pk_pre (session_digest c, rnd,
      session_transcript_digest (tcs_build H (session_id c) rnd q r), ev_evidence_digest ev)))"
  using execute_ok[OF assms] by (simp add: package_build_def package_digest_pre)

end

interpretation proto: attestation_engine H "prototype_execute H" PROTOTYPE_ENGINE_TAG for H :: sha
  by standard (auto simp: prototype_execute_def evidence_new_def evidence_consistent_def)

end
