(* ===== verification/Envelope.thy ===== *)
theory Envelope
  imports Evidence Threshold
begin

text \<open>
  The attestation envelope (\<open>crates/attestation/src/envelope.rs\<close>): the canonical digest over the 22
  fields of the final artifact, its assembly and its check.
\<close>

record RandomnessBinding =
  rb_id :: RandomnessId
  rb_value :: DigestBytes
  rb_epoch :: Epoch
  rb_session_binding :: DigestBytes

record AttestationEnvelope =
  env_session :: SessionContext
  env_randomness :: RandomnessBinding
  env_transcript :: TranscriptCommitments
  env_statement :: StatementPayload
  env_coordinator_evidence :: CoordinatorEvidence
  env_threshold_approval :: ThresholdApproval
  env_envelope_digest :: DigestBytes

definition envelope_hasher ::
  "SessionContext \<Rightarrow> RandomnessBinding \<Rightarrow> TranscriptCommitments \<Rightarrow> StatementPayload \<Rightarrow>
   CoordinatorEvidence \<Rightarrow> CanonicalHasher" where
  "envelope_hasher s rb tcs st ce =
     (let h0 = ch_new ''tls-attestation/envelope/v1'';
          h1 = update_fixed (sid_enc (session_id s)) h0;
          h2 = update_fixed (pid_enc (prover_id s)) h1;
          h3 = update_fixed (vid_enc (coordinator_id s)) h2;
          h4 = update_u64 (epoch_u64 (epoch s)) h3;
          h5 = update_u64 (secs (created_at s)) h4;
          h6 = update_u64 (secs (expires_at s)) h5;
          h7 = update_fixed (nonce_enc (nonce s)) h6;
          h8 = update_u64 (of_nat (threshold (quorum s))) h7;
          h9 = update_u64 (of_nat (length (verifiers (quorum s)))) h8;
          h10 = fold (\<lambda>v. update_fixed (vid_enc v)) (verifiers (quorum s)) h9;
          h11 = update_fixed (rid_enc (rb_id rb)) h10;
          h12 = update_digest (rb_value rb) h11;
          h13 = update_u64 (epoch_u64 (rb_epoch rb)) h12;
          h14 = update_digest (rb_session_binding rb) h13;
          h15 = update_digest (tc_digest (tcs_query tcs)) h14;
          h16 = update_digest (tc_digest (tcs_response tcs)) h15;
          h17 = update_digest (session_transcript_digest tcs) h16;
          h18 = update_bytes (str_bytes (st_derivation_tag st)) h17;
          h19 = update_digest (st_statement_digest st) h18;
          h20 = update_bytes (str_bytes (ce_engine_tag ce)) h19;
          h21 = update_digest (ce_evidence_digest ce) h20
      in update_digest (ce_package_digest ce) h21)"

definition envelope_compute_digest ::
  "sha \<Rightarrow> SessionContext \<Rightarrow> RandomnessBinding \<Rightarrow> TranscriptCommitments \<Rightarrow> StatementPayload \<Rightarrow>
   CoordinatorEvidence \<Rightarrow> DigestBytes" where
  "envelope_compute_digest H s rb tcs st ce = ch_finalize H (envelope_hasher s rb tcs st ce)"

definition envelope_assemble ::
  "sha \<Rightarrow> SessionContext \<Rightarrow> RandomnessBinding \<Rightarrow> TranscriptCommitments \<Rightarrow> StatementPayload \<Rightarrow>
   CoordinatorEvidence \<Rightarrow> ThresholdApproval \<Rightarrow> AttestationEnvelope" where
  "envelope_assemble H s rb tcs st ce ta =
     \<lparr> env_session = s, env_randomness = rb, env_transcript = tcs, env_statement = st,
       env_coordinator_evidence = ce, env_threshold_approval = ta,
       env_envelope_digest = envelope_compute_digest H s rb tcs st ce \<rparr>"

definition envelope_verify_digest :: "sha \<Rightarrow> AttestationEnvelope \<Rightarrow> bool" where
  "envelope_verify_digest H e \<longleftrightarrow>
     env_envelope_digest e = envelope_compute_digest H (env_session e) (env_randomness e)
       (env_transcript e) (env_statement e) (env_coordinator_evidence e)"

section \<open>Binding\<close>

text \<open>The committed fields of an envelope: all of the session context but its stored digest, the
  randomness binding, the three transcript digests, tag and digest of the statement, and the
  coordinator evidence.\<close>

type_synonym env_fields =
  "ctx_fields \<times> RandomnessBinding \<times> DigestBytes \<times> DigestBytes \<times> DigestBytes \<times>
   string \<times> DigestBytes \<times> CoordinatorEvidence"

definition env_fields :: "AttestationEnvelope \<Rightarrow> env_fields" where
  "env_fields e = (ctx_fields (env_session e), env_randomness e,
     tc_digest (tcs_query (env_transcript e)), tc_digest (tcs_response (env_transcript e)),
     session_transcript_digest (env_transcript e), st_derivation_tag (env_statement e),
     st_statement_digest (env_statement e), env_coordinator_evidence e)"

definition rb_enc :: "RandomnessBinding \<Rightarrow> byte list" where
  "rb_enc rb = rid_enc (rb_id rb) @ digest_enc (rb_value rb) @ be64 (epoch_u64 (rb_epoch rb)) @
     digest_enc (rb_session_binding rb)"

definition ce_enc :: "CoordinatorEvidence \<Rightarrow> byte list" where
  "ce_enc ce = lp64 (str_bytes (ce_engine_tag ce)) @ digest_enc (ce_evidence_digest ce) @
     digest_enc (ce_package_digest ce)"

definition env_pre :: "env_fields \<Rightarrow> byte list" where
  "env_pre = (\<lambda>(c, rb, qd, rd, std, tag, sd, ce).
     lp32 (str_bytes ''tls-attestation/envelope/v1'') @ ctx_enc c @ rb_enc rb @ digest_enc qd @
     digest_enc rd @ digest_enc std @ lp64 (str_bytes tag) @ digest_enc sd @ ce_enc ce)"

definition env_fits :: "env_fields \<Rightarrow> bool" where
  "env_fits = (\<lambda>(c, rb, qd, rd, std, tag, sd, ce).
     ctx_fields_fit c \<and> length tag < 2 ^ 64 \<and> length (ce_engine_tag ce) < 2 ^ 64)"

lemma rb_enc_append_inject [enc_inject]: "rb_enc a @ xs = rb_enc b @ ys \<longleftrightarrow> a = b \<and> xs = ys"
  by (cases a; cases b) (auto simp: rb_enc_def enc_inject newtype_eq_iff)

lemma ce_enc_inject:
  "length (ce_engine_tag a) < 2 ^ 64 \<Longrightarrow> length (ce_engine_tag b) < 2 ^ 64 \<Longrightarrow>
     ce_enc a = ce_enc b \<longleftrightarrow> a = b"
  by (cases a; cases b) (auto simp: ce_enc_def enc_inject)

interpretation envb: binding env_pre env_fits
proof
  fix x y :: env_fields
  assume "env_fits x" "env_fits y" "env_pre x = env_pre y"
  then show "x = y"
    by (cases x; cases y) (auto simp: env_pre_def env_fits_def enc_inject ce_enc_inject)
qed

lemma envelope_hasher_pre:
  "absorbed (envelope_hasher (env_session e) (env_randomness e) (env_transcript e) (env_statement e)
     (env_coordinator_evidence e)) = env_pre (env_fields e)"
  by (simp add: envelope_hasher_def Let_def env_pre_def env_fields_def ctx_fields_def ctx_enc_def
      quorum_enc_def rb_enc_def ce_enc_def)

lemma envelope_verify_pre:
  "envelope_verify_digest H e \<longleftrightarrow> env_envelope_digest e = DigestBytes (H (env_pre (env_fields e)))"
  by (simp add: envelope_verify_digest_def envelope_compute_digest_def ch_finalize_def
      envelope_hasher_pre)

lemma envelope_assemble_verifies: "envelope_verify_digest H (envelope_assemble H s rb tcs st ce ta)"
  by (simp add: envelope_verify_digest_def envelope_assemble_def)

section \<open>Properties\<close>

definition rb_ex :: RandomnessBinding where
  "rb_ex = \<lparr> rb_id = RandomnessId 4, rb_value = DigestBytes 9, rb_epoch = Epoch 1,
     rb_session_binding = DigestBytes 8 \<rparr>"

definition ce_ex :: CoordinatorEvidence where
  "ce_ex = \<lparr> ce_engine_tag = ''e'', ce_evidence_digest = DigestBytes 2,
     ce_package_digest = DigestBytes 3 \<rparr>"

definition env_ex :: "ThresholdApproval \<Rightarrow> AttestationEnvelope" where
  "env_ex ta = envelope_assemble (\<lambda>_. 7) ctx_ex rb_ex
     (tcs_build (\<lambda>_. 7) (SessionId 1) (DigestBytes 9) [1, 2] [3])
     (statement_new (\<lambda>_. 7) [3] ''t'' (DigestBytes 7)) ce_ex ta"

lemma env_ex_fits: "env_fits (env_fields (env_ex ta))"
  by (simp add: env_fits_def env_fields_def env_ex_def envelope_assemble_def ctx_fields_fit_def
      ctx_fields_def ctx_ex_def quorum_fits_def ce_ex_def statement_new_def)

text \<open>The envelope digest binds the whole attestation.  Two envelopes that pass
  \<open>verify_digest\<close> with the same digest agree on every field of the session context, the randomness
  binding, the three transcript digests, tag and digest of the statement and the coordinator
  evidence, unless their encodings are an explicit collision of the hash; an assembled envelope
  passes the check.\<close>

theorem envelope_digest_binds:
  assumes "envelope_verify_digest H e" "envelope_verify_digest H f"
    and "env_envelope_digest e = env_envelope_digest f"
    and "env_fits (env_fields e)" "env_fits (env_fields f)"
  shows "ctx_fields (env_session e) = ctx_fields (env_session f) \<and>
      env_randomness e = env_randomness f \<and>
      tc_digest (tcs_query (env_transcript e)) = tc_digest (tcs_query (env_transcript f)) \<and>
      tc_digest (tcs_response (env_transcript e)) = tc_digest (tcs_response (env_transcript f)) \<and>
      session_transcript_digest (env_transcript e) = session_transcript_digest (env_transcript f) \<and>
      st_derivation_tag (env_statement e) = st_derivation_tag (env_statement f) \<and>
      st_statement_digest (env_statement e) = st_statement_digest (env_statement f) \<and>
      env_coordinator_evidence e = env_coordinator_evidence f
    \<or> collision H (env_pre (env_fields e)) (env_pre (env_fields f))"
proof -
  have "H (env_pre (env_fields e)) = H (env_pre (env_fields f))"
    using assms(1-3) by (simp add: envelope_verify_pre)
  then have "env_fields e = env_fields f \<or> collision H (env_pre (env_fields e)) (env_pre (env_fields f))"
    by (rule envb.digest_binds[OF assms(4,5)])
  then show ?thesis by (auto simp: env_fields_def)
qed

theorem envelope_digest_binds_witness:
  "env_randomness (env_ex ta_ex) = env_randomness (env_ex (ta_ex \<lparr> ta_signers := [] \<rparr>)) \<or>
     collision (\<lambda>_. 7 :: bytes32) (env_pre (env_fields (env_ex ta_ex)))
       (env_pre (env_fields (env_ex (ta_ex \<lparr> ta_signers := [] \<rparr>))))"
proof -
  have v: "envelope_verify_digest (\<lambda>_. 7) (env_ex t)" for t
    by (simp add: env_ex_def envelope_assemble_verifies)
  have d: "env_envelope_digest (env_ex s) = env_envelope_digest (env_ex t)" for s t
    by (simp add: env_ex_def envelope_assemble_def)
  show ?thesis using envelope_digest_binds[OF v v d env_ex_fits env_ex_fits, of ta_ex "ta_ex \<lparr> ta_signers := [] \<rparr>"]
    by (elim disjE conjE) simp_all
qed

end
