(* ===== verification/Frost.thy ===== *)
theory Frost
  imports Threshold "HOL-Library.AList"
begin

text \<open>
  Threshold Schnorr signatures (\<open>crates/crypto/src/frost_adapter.rs\<close>).  The packages
  \<open>frost-ed25519\<close>, \<open>serde_json\<close> and \<open>hex\<close> are the record parameter \<open>frost\<close>: its types of key
  packages, nonces, commitments, shares, signing packages and public key packages are type
  variables, an identifier and a verifying key are their 32 bytes and a signature its 64 bytes.  A
  random source is the stream of bytes it yields.  The documented behaviour that statements rely on
  is named in \<open>frost_ok\<close>.
\<close>

type_synonym bytes64 = "512 word"
type_synonym FrostIdentifier = bytes32
type_synonym rng = "nat \<Rightarrow> byte"

record ('kp, 'n, 'c, 's, 'sp, 'pk) frost =
  fr_id_try_from :: "u16 \<Rightarrow> FrostIdentifier option"
  fr_id_deserialize :: "bytes32 \<Rightarrow> (string, FrostIdentifier) result"
  fr_dealer :: "u16 \<Rightarrow> u16 \<Rightarrow> FrostIdentifier list \<Rightarrow> rng \<Rightarrow>
    (string, (FrostIdentifier \<rightharpoonup> (string, 'kp) result) \<times> 'pk) result"
  fr_std_rng :: "bytes32 \<Rightarrow> rng"
  fr_commit :: "'kp \<Rightarrow> rng \<Rightarrow> 'n \<times> 'c"
  fr_package_new :: "(FrostIdentifier \<rightharpoonup> 'c) \<Rightarrow> byte list \<Rightarrow> 'sp"
  fr_message :: "'sp \<Rightarrow> byte list"
  fr_sign :: "'sp \<Rightarrow> 'n \<Rightarrow> 'kp \<Rightarrow> (string, 's) result"
  fr_aggregate :: "'sp \<Rightarrow> (FrostIdentifier \<rightharpoonup> 's) \<Rightarrow> 'pk \<Rightarrow> (string, bytes64) result"
  fr_pk_key :: "'pk \<Rightarrow> bytes32"
  fr_vk_deserialize :: "bytes32 \<Rightarrow> (string, bytes32) result"
  fr_sig_deserialize :: "bytes64 \<Rightarrow> (string, bytes64) result"
  fr_verify :: "bytes32 \<Rightarrow> byte list \<Rightarrow> bytes64 \<Rightarrow> (string, unit) result"
  fr_min_signers :: "'kp \<Rightarrow> nat"
  fj_commitments_to :: "'c \<Rightarrow> (string, byte list) result"
  fj_commitments_from :: "byte list \<Rightarrow> (string, 'c) result"
  fj_share_to :: "'s \<Rightarrow> (string, byte list) result"
  fj_share_from :: "byte list \<Rightarrow> (string, 's) result"
  fj_package_to :: "'sp \<Rightarrow> (string, byte list) result"
  fj_package_from :: "byte list \<Rightarrow> (string, 'sp) result"
  fj_key_package_to :: "'kp \<Rightarrow> byte list"
  fj_participant_to :: "'kp \<times> string \<times> string \<Rightarrow> (string, byte list) result"
  fj_participant_from :: "byte list \<Rightarrow> (string, 'kp \<times> string \<times> string) result"
  fj_group_to :: "'pk \<times> (string \<times> string) list \<Rightarrow> (string, byte list) result"
  fj_group_from :: "byte list \<Rightarrow> (string, 'pk \<times> (string \<times> string) list) result"
  fr_hex_decode :: "string \<Rightarrow> (string, byte list) result"

text \<open>Conversion of a byte vector to an array of fixed size.\<close>

definition try_into_array :: "nat \<Rightarrow> byte list \<Rightarrow> 'a::len word option" where
  "try_into_array n bs = (if length bs = n then Some (be_word bs) else None)"

definition ok_or :: "'e \<Rightarrow> 'a option \<Rightarrow> ('e, 'a) result" where
  "ok_or e x = (case x of None \<Rightarrow> Inl e | Some a \<Rightarrow> Inr a)"

lemma ok_or_simps [simp, result_simps]: "ok_or e None = Inl e" "ok_or e (Some a) = Inr a"
  by (simp_all add: ok_or_def)

lemma ok_or_eq_Inr [result_simps]: "ok_or e x = Inr a \<longleftrightarrow> x = Some a"
  by (cases x) simp_all

lemma try_into_array_be_bytes [simp]:
  fixes w :: "'a::len word"
  shows "LENGTH('a) = 8 * n \<Longrightarrow> try_into_array n (be_bytes n w) = Some w"
  by (simp add: try_into_array_def be_word_be_bytes)

section \<open>Errors as text\<close>

definition crypto_error_display :: "CryptoError \<Rightarrow> string" where
  "crypto_error_display e =
     (case e of
        RandomnessVerificationFailed r \<Rightarrow> ''randomness verification failed: '' @ r
      | InsufficientContributions need got \<Rightarrow>
          ''insufficient contributions: need '' @ dec_str need @ '', got '' @ dec_str got
      | SignatureVerificationFailed r \<Rightarrow> ''signature verification failed: '' @ r
      | InsufficientSignatures need got \<Rightarrow>
          ''insufficient partial signatures: need '' @ dec_str need @ '', got '' @ dec_str got
      | UnknownVerifier v \<Rightarrow> ''unknown verifier: '' @ v
      | CryptoTranscriptMismatch \<Rightarrow> ''transcript commitment mismatch''
      | InvalidKeyMaterial m \<Rightarrow> ''invalid key material: '' @ m
      | SigningFailed m \<Rightarrow> ''signing failed: '' @ m
      | AggregationFailed m \<Rightarrow> ''threshold aggregation failed: '' @ m
      | DkgAnnouncement m \<Rightarrow> ''DKG key-announcement error: '' @ m)"

section \<open>Round artifacts\<close>

record 'c FrostCommitment =
  fc_identifier :: FrostIdentifier
  fc_inner :: 'c

record 's FrostSignatureShare =
  fs_identifier :: FrostIdentifier
  fs_inner :: 's

record 'pk FrostGroupKey =
  gk_pub_key_package :: 'pk
  gk_verifier_to_id :: "(VerifierId \<times> FrostIdentifier) list"

record 'kp FrostParticipant =
  fp_key_package :: 'kp
  fp_identifier :: FrostIdentifier
  fp_verifier_id :: VerifierId

definition verifier_to_identifier :: "'pk FrostGroupKey \<Rightarrow> VerifierId \<Rightarrow> FrostIdentifier option" where
  "verifier_to_identifier gk v = map_of (gk_verifier_to_id gk) v"

definition verifying_key_bytes ::
  "('kp, 'n, 'c, 's, 'sp, 'pk) frost \<Rightarrow> 'pk FrostGroupKey \<Rightarrow> bytes32" where
  "verifying_key_bytes F gk = fr_pk_key F (gk_pub_key_package gk)"

section \<open>Key files\<close>

definition gk_to_json_bytes ::
  "('kp, 'n, 'c, 's, 'sp, 'pk) frost \<Rightarrow> 'pk FrostGroupKey \<Rightarrow> (CryptoError, byte list) result" where
  "gk_to_json_bytes F gk =
     map_err (\<lambda>e. InvalidKeyMaterial (''serialize group key: '' @ e))
       (fj_group_to F (gk_pub_key_package gk,
          map (\<lambda>(v, i). (hex_encode (vid_enc v), hex_encode (arr32 i))) (gk_verifier_to_id gk)))"

definition decode_entry ::
  "('kp, 'n, 'c, 's, 'sp, 'pk) frost \<Rightarrow> string \<times> string \<Rightarrow> (CryptoError, VerifierId \<times> FrostIdentifier) result" where
  "decode_entry F = (\<lambda>(vid_hex, id_hex).
     rbind (map_err (\<lambda>e. InvalidKeyMaterial (''decode vid hex: '' @ e)) (fr_hex_decode F vid_hex))
      (\<lambda>vid_bytes. rbind (ok_or (InvalidKeyMaterial ''verifier_id must be 32 bytes'') (try_into_array 32 vid_bytes))
      (\<lambda>vid_arr. rbind (map_err (\<lambda>e. InvalidKeyMaterial (''decode id hex: '' @ e)) (fr_hex_decode F id_hex))
      (\<lambda>id_bytes. rbind (ok_or (InvalidKeyMaterial ''identifier must be 32 bytes'') (try_into_array 32 id_bytes))
      (\<lambda>id_arr. rbind (map_err (\<lambda>e. InvalidKeyMaterial (''deserialize identifier: '' @ e))
                        (fr_id_deserialize F id_arr))
      (\<lambda>i. Inr (VerifierId vid_arr, i)))))))"

definition gk_from_json_bytes ::
  "('kp, 'n, 'c, 's, 'sp, 'pk) frost \<Rightarrow> byte list \<Rightarrow> (CryptoError, 'pk FrostGroupKey) result" where
  "gk_from_json_bytes F bytes =
     rbind (map_err (\<lambda>e. InvalidKeyMaterial (''deserialize group key: '' @ e)) (fj_group_from F bytes))
       (\<lambda>(pkg, vmap). rbind (collect_ok (decode_entry F) vmap)
         (\<lambda>es. Inr \<lparr> gk_pub_key_package = pkg,
                     gk_verifier_to_id = fold (\<lambda>(v, i). AList.update v i) es [] \<rparr>))"

definition fp_to_json_bytes ::
  "('kp, 'n, 'c, 's, 'sp, 'pk) frost \<Rightarrow> 'kp FrostParticipant \<Rightarrow> (CryptoError, byte list) result" where
  "fp_to_json_bytes F p =
     map_err (\<lambda>e. InvalidKeyMaterial (''serialize participant: '' @ e))
       (fj_participant_to F (fp_key_package p, hex_encode (arr32 (fp_identifier p)),
          hex_encode (vid_enc (fp_verifier_id p))))"

definition fp_from_json_bytes ::
  "('kp, 'n, 'c, 's, 'sp, 'pk) frost \<Rightarrow> byte list \<Rightarrow> (CryptoError, 'kp FrostParticipant) result" where
  "fp_from_json_bytes F bytes =
     rbind (map_err (\<lambda>e. InvalidKeyMaterial (''deserialize participant: '' @ e)) (fj_participant_from F bytes))
      (\<lambda>(kp, id_hex, vid_hex).
        rbind (map_err (\<lambda>e. InvalidKeyMaterial (''decode identifier hex: '' @ e)) (fr_hex_decode F id_hex))
      (\<lambda>id_bytes. rbind (ok_or (InvalidKeyMaterial ''identifier must be 32 bytes'') (try_into_array 32 id_bytes))
      (\<lambda>id_arr. rbind (map_err (\<lambda>e. InvalidKeyMaterial (''deserialize identifier: '' @ e))
                        (fr_id_deserialize F id_arr))
      (\<lambda>i. rbind (map_err (\<lambda>e. InvalidKeyMaterial (''decode verifier_id hex: '' @ e)) (fr_hex_decode F vid_hex))
      (\<lambda>vid_bytes. rbind (ok_or (InvalidKeyMaterial ''verifier_id must be 32 bytes'') (try_into_array 32 vid_bytes))
      (\<lambda>vid_arr. Inr \<lparr> fp_key_package = kp, fp_identifier = i, fp_verifier_id = VerifierId vid_arr \<rparr>))))))"

section \<open>The two rounds of a participant\<close>

definition round1 ::
  "('kp, 'n, 'c, 's, 'sp, 'pk) frost \<Rightarrow> 'kp FrostParticipant \<Rightarrow> rng \<Rightarrow> 'n \<times> 'c FrostCommitment" where
  "round1 F p g = (let (n, c) = fr_commit F (fp_key_package p) g
     in (n, \<lparr> fc_identifier = fp_identifier p, fc_inner = c \<rparr>))"

definition dvrf_nonce_seed ::
  "sha \<Rightarrow> ('kp, 'n, 'c, 's, 'sp, 'pk) frost \<Rightarrow> 'kp FrostParticipant \<Rightarrow> byte list \<Rightarrow> bytes32" where
  "dvrf_nonce_seed H F p alpha =
     (let key_bytes = fj_key_package_to F (fp_key_package p)
      in H (str_bytes ''tls-attestation/dvrf-nonce-seed/v1'' @ [0] @ lp64 key_bytes @ lp64 alpha))"

definition round1_dvrf ::
  "sha \<Rightarrow> ('kp, 'n, 'c, 's, 'sp, 'pk) frost \<Rightarrow> 'kp FrostParticipant \<Rightarrow> byte list \<Rightarrow> 'n \<times> 'c FrostCommitment" where
  "round1_dvrf H F p alpha = round1 F p (fr_std_rng F (dvrf_nonce_seed H F p alpha))"

definition round2 ::
  "('kp, 'n, 'c, 's, 'sp, 'pk) frost \<Rightarrow> 'kp FrostParticipant \<Rightarrow> 'sp \<Rightarrow> 'n \<Rightarrow>
   (CryptoError, 's FrostSignatureShare) result" where
  "round2 F p sp nonces =
     (case fr_sign F sp nonces (fp_key_package p) of
        Inl e \<Rightarrow> Inl (SigningFailed e)
      | Inr s \<Rightarrow> Inr \<lparr> fs_identifier = fp_identifier p, fs_inner = s \<rparr>)"

section \<open>Trusted-dealer key generation\<close>

record ('kp, 'pk) TrustedDealerKeygenOutput =
  td_participants :: "'kp FrostParticipant list"
  td_group_key :: "'pk FrostGroupKey"

definition keygen_identifiers :: "('kp, 'n, 'c, 's, 'sp, 'pk) frost \<Rightarrow> u16 \<Rightarrow> FrostIdentifier list option" where
  "keygen_identifiers F n = those (map (fr_id_try_from F \<circ> of_nat) [1..<Suc (unat n)])"

text \<open>The loop over the verifiers; \<open>None\<close> is the panic of an index that is out of bounds.\<close>

fun keygen_loop ::
  "(FrostIdentifier \<rightharpoonup> (string, 'kp) result) \<Rightarrow> FrostIdentifier list \<Rightarrow> nat \<Rightarrow> VerifierId list \<Rightarrow>
   (VerifierId \<times> FrostIdentifier) list \<Rightarrow> 'kp FrostParticipant list \<Rightarrow>
   (CryptoError, (VerifierId \<times> FrostIdentifier) list \<times> 'kp FrostParticipant list) result option" where
  "keygen_loop shares ids idx [] vmap ps = Some (Inr (vmap, ps))"
| "keygen_loop shares ids idx (v # vs) vmap ps =
     (if idx \<ge> length ids then None
      else let i = ids ! idx in
        (case shares i of
           None \<Rightarrow> Some (Inl (InvalidKeyMaterial (''missing share for FROST identifier '' @ dec_str idx)))
         | Some (Inl e) \<Rightarrow> Some (Inl (InvalidKeyMaterial e))
         | Some (Inr kp) \<Rightarrow>
             keygen_loop shares ids (Suc idx) vs (AList.update v i vmap)
               (ps @ [\<lparr> fp_key_package = kp, fp_identifier = i, fp_verifier_id = v \<rparr>])))"

definition frost_trusted_dealer_keygen ::
  "('kp, 'n, 'c, 's, 'sp, 'pk) frost \<Rightarrow> rng \<Rightarrow> VerifierId list \<Rightarrow> nat \<Rightarrow>
   (CryptoError, ('kp, 'pk) TrustedDealerKeygenOutput) result option" where
  "frost_trusted_dealer_keygen F g vids t =
     (let n = length vids in
      if n < 2 then Some (Inl (InvalidKeyMaterial
        (''FROST requires at least 2 participants (got '' @ dec_str n @ '')'')))
      else if t < 2 then Some (Inl (InvalidKeyMaterial
        (''FROST requires threshold >= 2 (got '' @ dec_str t @ '')'')))
      else if t > n then Some (Inl (InvalidKeyMaterial
        (''threshold '' @ dec_str t @ '' exceeds participant count '' @ dec_str n)))
      else if n \<noteq> card (set vids) then Some (Inl (InvalidKeyMaterial
        ''verifier_ids must not contain duplicates''))
      else (case keygen_identifiers F (of_nat n) of
        None \<Rightarrow> None
      | Some ids \<Rightarrow>
          (case fr_dealer F (of_nat n) (of_nat t) ids g of
             Inl e \<Rightarrow> Some (Inl (InvalidKeyMaterial e))
           | Inr (shares, pkg) \<Rightarrow>
               map_option (\<lambda>r. rbind r (\<lambda>(vmap, ps).
                   Inr \<lparr> td_participants = ps,
                         td_group_key = \<lparr> gk_pub_key_package = pkg, gk_verifier_to_id = vmap \<rparr> \<rparr>))
                 (keygen_loop shares ids 0 vids [] []))))"

section \<open>Approvals\<close>

record FrostThresholdApproval =
  fta_signed_digest :: DigestBytes
  fta_aggregate_signature_bytes :: bytes64
  fta_group_verifying_key_bytes :: bytes32

type_synonym fta_raw = "DigestBytes \<times> string \<times> string"

definition fta_serialize :: "FrostThresholdApproval \<Rightarrow> fta_raw" where
  "fta_serialize a = (fta_signed_digest a, hex_encode (be_bytes 64 (fta_aggregate_signature_bytes a)),
     hex_encode (arr32 (fta_group_verifying_key_bytes a)))"

definition fta_deserialize ::
  "('kp, 'n, 'c, 's, 'sp, 'pk) frost \<Rightarrow> fta_raw \<Rightarrow> (string, FrostThresholdApproval) result" where
  "fta_deserialize F = (\<lambda>(sd, sig_hex, key_hex).
     rbind (fr_hex_decode F sig_hex)
      (\<lambda>sig_bytes. rbind (ok_or ''signature must be 64 bytes'' (try_into_array 64 sig_bytes))
      (\<lambda>sig_arr. rbind (fr_hex_decode F key_hex)
      (\<lambda>key_bytes. rbind (ok_or ''verifying key must be 32 bytes'' (try_into_array 32 key_bytes))
      (\<lambda>key_arr. Inr \<lparr> fta_signed_digest = sd, fta_aggregate_signature_bytes = sig_arr,
                       fta_group_verifying_key_bytes = key_arr \<rparr>)))))"

definition verify_signature ::
  "('kp, 'n, 'c, 's, 'sp, 'pk) frost \<Rightarrow> FrostThresholdApproval \<Rightarrow> (CryptoError, unit) result" where
  "verify_signature F a =
     rbind (map_err (\<lambda>e. SignatureVerificationFailed (''invalid group verifying key: '' @ e))
              (fr_vk_deserialize F (fta_group_verifying_key_bytes a)))
      (\<lambda>vk. rbind (map_err (\<lambda>e. SignatureVerificationFailed (''malformed aggregate signature: '' @ e))
                     (fr_sig_deserialize F (fta_aggregate_signature_bytes a)))
      (\<lambda>sg. map_err (\<lambda>_. SignatureVerificationFailed ''FROST aggregate signature is invalid'')
                (fr_verify F vk (digest_enc (fta_signed_digest a)) sg)))"

definition verify_binding :: "sha \<Rightarrow> FrostThresholdApproval \<Rightarrow> DigestBytes \<Rightarrow> (CryptoError, unit) result" where
  "verify_binding H a envelope_digest =
     (if fta_signed_digest a \<noteq> approval_signed_digest H envelope_digest
      then Inl (SignatureVerificationFailed
        ''FrostThresholdApproval: signed_digest does not match envelope_digest'')
      else Inr ())"

section \<open>Wire form of the artifacts\<close>

definition fc_to_bytes ::
  "('kp, 'n, 'c, 's, 'sp, 'pk) frost \<Rightarrow> 'c FrostCommitment \<Rightarrow> (CryptoError, byte list) result" where
  "fc_to_bytes F c = map_err (\<lambda>e. AggregationFailed (''SigningCommitments serialization failed: '' @ e))
     (fj_commitments_to F (fc_inner c))"

definition fc_from_bytes ::
  "('kp, 'n, 'c, 's, 'sp, 'pk) frost \<Rightarrow> byte list \<Rightarrow> VerifierId \<Rightarrow> 'pk FrostGroupKey \<Rightarrow>
   (CryptoError, 'c FrostCommitment) result" where
  "fc_from_bytes F bytes v gk =
     rbind (ok_or (UnknownVerifier (vid_display v)) (verifier_to_identifier gk v))
      (\<lambda>i. rbind (map_err (\<lambda>e. AggregationFailed (''commitment deserialization failed: '' @ e))
                   (fj_commitments_from F bytes))
      (\<lambda>c. Inr \<lparr> fc_identifier = i, fc_inner = c \<rparr>))"

definition fs_to_bytes ::
  "('kp, 'n, 'c, 's, 'sp, 'pk) frost \<Rightarrow> 's FrostSignatureShare \<Rightarrow> (CryptoError, byte list) result" where
  "fs_to_bytes F s = map_err (\<lambda>e. AggregationFailed (''SignatureShare serialization failed: '' @ e))
     (fj_share_to F (fs_inner s))"

definition fs_from_bytes ::
  "('kp, 'n, 'c, 's, 'sp, 'pk) frost \<Rightarrow> byte list \<Rightarrow> VerifierId \<Rightarrow> 'pk FrostGroupKey \<Rightarrow>
   (CryptoError, 's FrostSignatureShare) result" where
  "fs_from_bytes F bytes v gk =
     rbind (ok_or (UnknownVerifier (vid_display v)) (verifier_to_identifier gk v))
      (\<lambda>i. rbind (map_err (\<lambda>e. AggregationFailed (''signature share deserialization failed: '' @ e))
                   (fj_share_from F bytes))
      (\<lambda>s. Inr \<lparr> fs_identifier = i, fs_inner = s \<rparr>))"

definition sp_to_bytes ::
  "('kp, 'n, 'c, 's, 'sp, 'pk) frost \<Rightarrow> 'sp \<Rightarrow> (CryptoError, byte list) result" where
  "sp_to_bytes F sp = map_err (\<lambda>e. AggregationFailed (''SigningPackage serialization failed: '' @ e))
     (fj_package_to F sp)"

definition sp_from_bytes ::
  "('kp, 'n, 'c, 's, 'sp, 'pk) frost \<Rightarrow> byte list \<Rightarrow> (CryptoError, 'sp) result" where
  "sp_from_bytes F bytes = map_err (\<lambda>e. AggregationFailed (''signing package deserialization failed: '' @ e))
     (fj_package_from F bytes)"

definition message_bytes :: "('kp, 'n, 'c, 's, 'sp, 'pk) frost \<Rightarrow> 'sp \<Rightarrow> byte list" where
  "message_bytes F sp = fr_message F sp"

section \<open>The coordinator's side\<close>

fun commitments_loop ::
  "('kp, 'n, 'c, 's, 'sp, 'pk) frost \<Rightarrow> 'pk FrostGroupKey \<Rightarrow> (VerifierId \<times> byte list) list \<Rightarrow>
   (FrostIdentifier \<rightharpoonup> 'c) \<Rightarrow> (CryptoError, FrostIdentifier \<rightharpoonup> 'c) result" where
  "commitments_loop F gk [] cm = Inr cm"
| "commitments_loop F gk ((v, bytes) # rest) cm =
     rbind (fc_from_bytes F bytes v gk)
       (\<lambda>c. commitments_loop F gk rest (cm(fc_identifier c \<mapsto> fc_inner c)))"

definition build_signing_package ::
  "('kp, 'n, 'c, 's, 'sp, 'pk) frost \<Rightarrow> (VerifierId \<times> byte list) list \<Rightarrow> DigestBytes \<Rightarrow>
   'pk FrostGroupKey \<Rightarrow> (CryptoError, 'sp \<times> byte list) result" where
  "build_signing_package F collected signed_digest gk =
     rbind (commitments_loop F gk collected Map.empty)
       (\<lambda>cm. let sp = fr_package_new F cm (digest_enc signed_digest) in
             rbind (sp_to_bytes F sp) (\<lambda>bytes. Inr (sp, bytes)))"

fun shares_loop ::
  "('kp, 'n, 'c, 's, 'sp, 'pk) frost \<Rightarrow> 'pk FrostGroupKey \<Rightarrow> (VerifierId \<times> byte list) list \<Rightarrow>
   (FrostIdentifier \<rightharpoonup> 's) \<Rightarrow> (CryptoError, FrostIdentifier \<rightharpoonup> 's) result" where
  "shares_loop F gk [] sm = Inr sm"
| "shares_loop F gk ((v, bytes) # rest) sm =
     rbind (fs_from_bytes F bytes v gk)
       (\<lambda>s. shares_loop F gk rest (sm(fs_identifier s \<mapsto> fs_inner s)))"

definition aggregate_signature_shares ::
  "('kp, 'n, 'c, 's, 'sp, 'pk) frost \<Rightarrow> 'sp \<Rightarrow> (VerifierId \<times> byte list) list \<Rightarrow> 'pk FrostGroupKey \<Rightarrow>
   DigestBytes \<Rightarrow> (CryptoError, FrostThresholdApproval) result" where
  "aggregate_signature_shares F sp shares gk signed_digest =
     rbind (shares_loop F gk shares Map.empty)
       (\<lambda>sm. rbind (map_err AggregationFailed (fr_aggregate F sp sm (gk_pub_key_package gk)))
         (\<lambda>sg. Inr \<lparr> fta_signed_digest = signed_digest, fta_aggregate_signature_bytes = sg,
                      fta_group_verifying_key_bytes = verifying_key_bytes F gk \<rparr>))"

fun collect_round1 ::
  "('kp, 'n, 'c, 's, 'sp, 'pk) frost \<Rightarrow> 'pk FrostGroupKey \<Rightarrow> (nat \<Rightarrow> rng) \<Rightarrow> nat \<Rightarrow> 'kp FrostParticipant list \<Rightarrow>
   (FrostIdentifier \<rightharpoonup> 'c) \<Rightarrow> 'n list \<Rightarrow> (CryptoError, (FrostIdentifier \<rightharpoonup> 'c) \<times> 'n list) result" where
  "collect_round1 F gk g idx [] cm ns = Inr (cm, ns)"
| "collect_round1 F gk g idx (p # ps) cm ns =
     rbind (ok_or (UnknownVerifier (vid_display (fp_verifier_id p)))
              (verifier_to_identifier gk (fp_verifier_id p)))
       (\<lambda>i. let (n, c) = round1 F p (g idx)
            in collect_round1 F gk g (Suc idx) ps (cm(i \<mapsto> fc_inner c)) (ns @ [n]))"

fun collect_round2 ::
  "('kp, 'n, 'c, 's, 'sp, 'pk) frost \<Rightarrow> 'pk FrostGroupKey \<Rightarrow> 'sp \<Rightarrow> ('kp FrostParticipant \<times> 'n) list \<Rightarrow>
   (FrostIdentifier \<rightharpoonup> 's) \<Rightarrow> (CryptoError, FrostIdentifier \<rightharpoonup> 's) result" where
  "collect_round2 F gk sp [] sm = Inr sm"
| "collect_round2 F gk sp ((p, n) # rest) sm =
     rbind (round2 F p sp n)
       (\<lambda>s. collect_round2 F gk sp rest
              (sm(the (verifier_to_identifier gk (fp_verifier_id p)) \<mapsto> fs_inner s)))"

definition frost_collect_approval ::
  "('kp, 'n, 'c, 's, 'sp, 'pk) frost \<Rightarrow> (nat \<Rightarrow> rng) \<Rightarrow> 'kp FrostParticipant list \<Rightarrow> DigestBytes \<Rightarrow>
   'pk FrostGroupKey \<Rightarrow> QuorumSpec \<Rightarrow> (CryptoError, FrostThresholdApproval) result" where
  "frost_collect_approval F g signers signed_digest gk q =
     (if length signers < threshold q
      then Inl (InsufficientSignatures (threshold q) (length signers))
      else rbind (collect_round1 F gk g 0 signers Map.empty [])
        (\<lambda>(cm, ns). let sp = fr_package_new F cm (digest_enc signed_digest) in
          rbind (collect_round2 F gk sp (zip signers ns) Map.empty)
            (\<lambda>sm. rbind (map_err AggregationFailed (fr_aggregate F sp sm (gk_pub_key_package gk)))
              (\<lambda>sg. Inr \<lparr> fta_signed_digest = signed_digest, fta_aggregate_signature_bytes = sg,
                           fta_group_verifying_key_bytes = verifying_key_bytes F gk \<rparr>))))"

section \<open>Documented behaviour of the library\<close>

text \<open>What the documentation of \<open>frost-ed25519\<close>, \<open>serde_json\<close> and \<open>hex\<close> promises: aggregation returns
  only a signature that verifies under the group key over the message of the signing package; a
  signing package keeps its message; signing refuses a package with fewer commitments than the
  minimum of the key package; decoders invert encoders.\<close>

definition frost_ok :: "('kp, 'n, 'c, 's, 'sp, 'pk) frost \<Rightarrow> bool" where
  "frost_ok F \<longleftrightarrow>
     (\<forall>sp sm pk sg. fr_aggregate F sp sm pk = Inr sg \<longrightarrow>
        fr_vk_deserialize F (fr_pk_key F pk) = Inr (fr_pk_key F pk) \<and>
        fr_sig_deserialize F sg = Inr sg \<and> fr_verify F (fr_pk_key F pk) (fr_message F sp) sg = Inr ()) \<and>
     (\<forall>cm m. fr_message F (fr_package_new F cm m) = m) \<and>
     (\<forall>cm m n kp s. fr_sign F (fr_package_new F cm m) n kp = Inr s \<longrightarrow>
        fr_min_signers F kp \<le> card (dom cm)) \<and>
     (\<forall>c b. fj_commitments_to F c = Inr b \<longrightarrow> fj_commitments_from F b = Inr c) \<and>
     (\<forall>s b. fj_share_to F s = Inr b \<longrightarrow> fj_share_from F b = Inr s) \<and>
     (\<forall>sp b. fj_package_to F sp = Inr b \<longrightarrow> fj_package_from F b = Inr sp) \<and>
     (\<forall>x b. fj_group_to F x = Inr b \<longrightarrow> fj_group_from F b = Inr x) \<and>
     (\<forall>x b. fj_participant_to F x = Inr b \<longrightarrow> fj_participant_from F b = Inr x) \<and>
     (\<forall>bs. fr_hex_decode F (hex_encode bs) = Inr bs)"

lemma frost_okD:
  assumes "frost_ok F"
  shows "fr_aggregate F sp sm pk = Inr sg \<Longrightarrow>
      fr_vk_deserialize F (fr_pk_key F pk) = Inr (fr_pk_key F pk) \<and>
      fr_sig_deserialize F sg = Inr sg \<and> fr_verify F (fr_pk_key F pk) (fr_message F sp) sg = Inr ()"
    and "fr_message F (fr_package_new F cm m) = m"
    and "fr_sign F (fr_package_new F cm m) n kp = Inr s \<Longrightarrow> fr_min_signers F kp \<le> card (dom cm)"
  using assms unfolding frost_ok_def by simp_all blast

lemma frost_codecD:
  assumes "frost_ok F"
  shows "fj_commitments_to F c = Inr b \<Longrightarrow> fj_commitments_from F b = Inr c"
    and "fj_share_to F s = Inr b \<Longrightarrow> fj_share_from F b = Inr s"
    and "fj_package_to F sp = Inr b \<Longrightarrow> fj_package_from F b = Inr sp"
    and "fj_group_to F (pk, vm) = Inr b \<Longrightarrow> fj_group_from F b = Inr (pk, vm)"
    and "fj_participant_to F (kp, i, v) = Inr b \<Longrightarrow> fj_participant_from F b = Inr (kp, i, v)"
    and "fr_hex_decode F (hex_encode bs) = Inr bs"
  using assms unfolding frost_ok_def by simp_all

section \<open>The signing rounds\<close>

text \<open>The identifiers of a list of verifiers in the group key.\<close>

definition group_ids :: "'pk FrostGroupKey \<Rightarrow> VerifierId list \<Rightarrow> FrostIdentifier set" where
  "group_ids gk vs = {i. \<exists>v \<in> set vs. verifier_to_identifier gk v = Some i}"

lemma group_ids_simps [simp]:
  "group_ids gk [] = {}"
  "verifier_to_identifier gk v = Some i \<Longrightarrow> group_ids gk (v # vs) = insert i (group_ids gk vs)"
  by (auto simp: group_ids_def)

lemma finite_group_ids [simp]: "finite (group_ids gk vs)"
proof -
  have "group_ids gk vs \<subseteq> (\<lambda>v. the (verifier_to_identifier gk v)) ` set vs"
    unfolding group_ids_def by force
  then show ?thesis using finite_surj by blast
qed

lemma fc_from_bytes_eq_Inr [result_simps]:
  "fc_from_bytes F bytes v gk = Inr c \<longleftrightarrow> verifier_to_identifier gk v = Some (fc_identifier c) \<and>
     fj_commitments_from F bytes = Inr (fc_inner c)"
  by (cases c) (auto simp: fc_from_bytes_def result_simps)

lemma fs_from_bytes_eq_Inr [result_simps]:
  "fs_from_bytes F bytes v gk = Inr s \<longleftrightarrow> verifier_to_identifier gk v = Some (fs_identifier s) \<and>
     fj_share_from F bytes = Inr (fs_inner s)"
  by (cases s) (auto simp: fs_from_bytes_def result_simps)

lemma commitments_loop_dom:
  "commitments_loop F gk cs cm = Inr cm' \<Longrightarrow>
     dom cm' = dom cm \<union> group_ids gk (map fst cs) \<and>
     (\<forall>v \<in> fst ` set cs. verifier_to_identifier gk v \<noteq> None)"
proof (induction cs arbitrary: cm)
  case (Cons x cs)
  obtain v bytes where x: "x = (v, bytes)" by (cases x)
  with Cons.prems obtain c where c: "fc_from_bytes F bytes v gk = Inr c"
    and rec: "commitments_loop F gk cs (cm(fc_identifier c \<mapsto> fc_inner c)) = Inr cm'"
    by (auto simp: rbind_eq_Inr)
  have "verifier_to_identifier gk v = Some (fc_identifier c)" using c fc_from_bytes_eq_Inr by blast
  with Cons.IH[OF rec] show ?case by (auto simp: x)
qed simp

lemma shares_loop_dom:
  "shares_loop F gk ss sm = Inr sm' \<Longrightarrow>
     dom sm' = dom sm \<union> group_ids gk (map fst ss) \<and>
     (\<forall>v \<in> fst ` set ss. verifier_to_identifier gk v \<noteq> None)"
proof (induction ss arbitrary: sm)
  case (Cons x ss)
  obtain v bytes where x: "x = (v, bytes)" by (cases x)
  with Cons.prems obtain s where c: "fs_from_bytes F bytes v gk = Inr s"
    and rec: "shares_loop F gk ss (sm(fs_identifier s \<mapsto> fs_inner s)) = Inr sm'"
    by (auto simp: rbind_eq_Inr)
  have "verifier_to_identifier gk v = Some (fs_identifier s)" using c fs_from_bytes_eq_Inr by blast
  with Cons.IH[OF rec] show ?case by (auto simp: x)
qed simp

lemma collect_round1_dom:
  "collect_round1 F gk g idx ps cm ns = Inr (cm', ns') \<Longrightarrow>
     dom cm' = dom cm \<union> group_ids gk (map fp_verifier_id ps) \<and> length ns' = length ns + length ps \<and>
     (\<forall>p \<in> set ps. verifier_to_identifier gk (fp_verifier_id p) \<noteq> None)"
proof (induction ps arbitrary: idx cm ns)
  case (Cons p ps)
  from Cons.prems obtain i n c where i: "verifier_to_identifier gk (fp_verifier_id p) = Some i"
    and rec: "collect_round1 F gk g (Suc idx) ps (cm(i \<mapsto> c)) (ns @ [n]) = Inr (cm', ns')"
    by (cases "round1 F p (g idx)") (auto simp: result_simps)
  from Cons.IH[OF rec] i show ?case by auto
qed simp

lemma collect_round2_signs:
  "collect_round2 F gk sp ps sm = Inr sm' \<Longrightarrow>
     \<forall>(p, n) \<in> set ps. \<exists>s. fr_sign F sp n (fp_key_package p) = Inr s"
proof (induction ps arbitrary: sm)
  case (Cons x ps)
  obtain p n where x: "x = (p, n)" by (cases x)
  with Cons.prems obtain s sm1 where r: "round2 F p sp n = Inr s"
    and rec: "collect_round2 F gk sp ps sm1 = Inr sm'"
    by (auto simp: rbind_eq_Inr)
  have "\<exists>s. fr_sign F sp n (fp_key_package p) = Inr s" using r by (auto simp: round2_def split: sum.splits)
  with Cons.IH[OF rec] show ?case by (auto simp: x)
qed simp

lemma verify_signature_eq_Inr [result_simps]:
  "verify_signature F a = Inr u \<longleftrightarrow>
     (\<exists>vk sg. fr_vk_deserialize F (fta_group_verifying_key_bytes a) = Inr vk \<and>
        fr_sig_deserialize F (fta_aggregate_signature_bytes a) = Inr sg \<and>
        fr_verify F vk (digest_enc (fta_signed_digest a)) sg = Inr ())"
  by (auto simp: verify_signature_def result_simps)

lemma verify_binding_eq_Inr [result_simps]:
  "verify_binding H a e = Inr u \<longleftrightarrow> fta_signed_digest a = approval_signed_digest H e"
  by (auto simp: verify_binding_def)

lemma aggregated_verifies:
  assumes "frost_ok F" "fr_aggregate F sp sm (gk_pub_key_package gk) = Inr sg"
    and "fr_message F sp = digest_enc sd"
  shows "verify_signature F \<lparr> fta_signed_digest = sd, fta_aggregate_signature_bytes = sg,
    fta_group_verifying_key_bytes = verifying_key_bytes F gk \<rparr> = Inr ()"
  using frost_okD(1)[OF assms(1,2)] assms(3) by (auto simp: result_simps verifying_key_bytes_def)

lemma build_signing_package_eq_Inr:
  "build_signing_package F cs sd gk = Inr (sp, bytes) \<longleftrightarrow>
     (\<exists>cm. commitments_loop F gk cs Map.empty = Inr cm \<and> sp = fr_package_new F cm (digest_enc sd) \<and>
        sp_to_bytes F sp = Inr bytes)"
  by (auto simp: build_signing_package_def result_simps Let_def)

lemma aggregate_signature_shares_eq_Inr:
  "aggregate_signature_shares F sp ss gk sd = Inr a \<longleftrightarrow>
     (\<exists>sm sg. shares_loop F gk ss Map.empty = Inr sm \<and>
        fr_aggregate F sp sm (gk_pub_key_package gk) = Inr sg \<and>
        a = \<lparr> fta_signed_digest = sd, fta_aggregate_signature_bytes = sg,
              fta_group_verifying_key_bytes = verifying_key_bytes F gk \<rparr>)"
  by (auto simp: aggregate_signature_shares_def result_simps)

lemma distributed_approval_verifies:
  assumes "frost_ok F" "build_signing_package F cs sd gk = Inr (sp, bytes)"
    and "aggregate_signature_shares F sp ss gk sd = Inr a"
  shows "verify_signature F a = Inr ()" "fta_signed_digest a = sd"
    "fta_group_verifying_key_bytes a = verifying_key_bytes F gk"
    "\<forall>v \<in> fst ` set ss. verifier_to_identifier gk v \<noteq> None"
proof -
  obtain cm where sp: "sp = fr_package_new F cm (digest_enc sd)"
    using assms(2) by (auto simp: build_signing_package_eq_Inr)
  obtain sm sg where sm: "shares_loop F gk ss Map.empty = Inr sm"
      and sg: "fr_aggregate F sp sm (gk_pub_key_package gk) = Inr sg"
      and a: "a = \<lparr> fta_signed_digest = sd, fta_aggregate_signature_bytes = sg,
              fta_group_verifying_key_bytes = verifying_key_bytes F gk \<rparr>"
    using assms(3) by (auto simp: aggregate_signature_shares_eq_Inr)
  show "verify_signature F a = Inr ()"
    unfolding a by (rule aggregated_verifies[OF assms(1) sg]) (simp add: sp frost_okD(2)[OF assms(1)])
  show "fta_signed_digest a = sd" "fta_group_verifying_key_bytes a = verifying_key_bytes F gk"
    by (simp_all add: a)
  show "\<forall>v \<in> fst ` set ss. verifier_to_identifier gk v \<noteq> None" using shares_loop_dom[OF sm] by blast
qed

lemma frost_collect_eq_Inr:
  assumes "frost_collect_approval F g signers sd gk q = Inr a"
  obtains cm ns sm sg where "threshold q \<le> length signers"
    "collect_round1 F gk g 0 signers Map.empty [] = Inr (cm, ns)"
    "collect_round2 F gk (fr_package_new F cm (digest_enc sd)) (zip signers ns) Map.empty = Inr sm"
    "fr_aggregate F (fr_package_new F cm (digest_enc sd)) sm (gk_pub_key_package gk) = Inr sg"
    "a = \<lparr> fta_signed_digest = sd, fta_aggregate_signature_bytes = sg,
           fta_group_verifying_key_bytes = verifying_key_bytes F gk \<rparr>"
  using assms by (auto simp: frost_collect_approval_def result_simps Let_def split: if_splits)

section \<open>Key files read back\<close>

lemma decode_entry_encoded:
  assumes "frost_ok F" "fr_id_deserialize F i = Inr i"
  shows "decode_entry F (hex_encode (vid_enc v), hex_encode (arr32 i)) = Inr (v, i)"
  using assms(2) by (simp add: decode_entry_def frost_codecD(6)[OF assms(1)] vid_enc_def)

lemma collect_decode_entries:
  assumes "frost_ok F" "\<forall>(v, i) \<in> set es. fr_id_deserialize F i = Inr i"
  shows "collect_ok (decode_entry F)
    (map (\<lambda>(v, i). (hex_encode (vid_enc v), hex_encode (arr32 i))) es) = Inr es"
  using assms(2) by (induction es) (auto simp: decode_entry_encoded[OF assms(1)])

lemma fold_update_distinct:
  "distinct (map fst es) \<Longrightarrow> fst ` set es \<inter> fst ` set al = {} \<Longrightarrow>
     fold (\<lambda>(v, i). AList.update v i) es al = al @ es"
proof (induction es arbitrary: al)
  case (Cons e es)
  obtain v i where e: "e = (v, i)" by (cases e)
  have new: "v \<notin> fst ` set al" using Cons.prems(2) e by auto
  have "AList.update v i al = al @ [(v, i)]" using new
    by (induction al) auto
  then show ?case using Cons.IH[of "al @ [(v, i)]"] Cons.prems e by auto
qed simp

lemma group_key_file_roundtrip:
  assumes "frost_ok F" "distinct (map fst (gk_verifier_to_id gk))"
    and "\<forall>(v, i) \<in> set (gk_verifier_to_id gk). fr_id_deserialize F i = Inr i"
    and "gk_to_json_bytes F gk = Inr b"
  shows "gk_from_json_bytes F b = Inr gk"
proof -
  have "fj_group_to F (gk_pub_key_package gk,
      map (\<lambda>(v, i). (hex_encode (vid_enc v), hex_encode (arr32 i))) (gk_verifier_to_id gk)) = Inr b"
    using assms(4) by (simp add: gk_to_json_bytes_def map_err_eq_Inr)
  from frost_codecD(4)[OF assms(1) this] show ?thesis
    using fold_update_distinct[OF assms(2), of "[]"]
    by (simp add: gk_from_json_bytes_def collect_decode_entries[OF assms(1,3)])
qed

lemma participant_file_roundtrip:
  assumes "frost_ok F" "fr_id_deserialize F (fp_identifier p) = Inr (fp_identifier p)"
    and "fp_to_json_bytes F p = Inr b"
  shows "fp_from_json_bytes F b = Inr p"
proof -
  have "fj_participant_to F (fp_key_package p, hex_encode (arr32 (fp_identifier p)),
      hex_encode (vid_enc (fp_verifier_id p))) = Inr b"
    using assms(3) by (simp add: fp_to_json_bytes_def map_err_eq_Inr)
  from frost_codecD(5)[OF assms(1) this] show ?thesis
    by (simp add: fp_from_json_bytes_def frost_codecD(6)[OF assms(1)] assms(2) vid_enc_def)
qed

lemma fta_roundtrip: "frost_ok F \<Longrightarrow> fta_deserialize F (fta_serialize a) = Inr a"
  by (simp add: fta_deserialize_def fta_serialize_def frost_codecD(6))

section \<open>Key generation\<close>

text \<open>What the documentation promises of identifiers and of the dealer: every non-zero number is an
  identifier, different numbers are different identifiers, and the dealer gives every listed
  identifier a share whose key package asks for the given minimum of signers.\<close>

definition dealer_ok :: "('kp, 'n, 'c, 's, 'sp, 'pk) frost \<Rightarrow> bool" where
  "dealer_ok F \<longleftrightarrow>
     (\<forall>i. i \<noteq> 0 \<longrightarrow> fr_id_try_from F i \<noteq> None) \<and>
     (\<forall>i j x. fr_id_try_from F i = Some x \<and> fr_id_try_from F j = Some x \<longrightarrow> i = j) \<and>
     (\<forall>n t ids g shares pk. fr_dealer F n t ids g = Inr (shares, pk) \<longrightarrow>
        (\<forall>i \<in> set ids. \<exists>kp. shares i = Some (Inr kp) \<and> fr_min_signers F kp = unat t))"

lemma those_Some_iff: "those xs = Some ys \<longleftrightarrow> xs = map Some ys"
proof (induction xs arbitrary: ys)
  case (Cons x xs)
  then show ?case by (cases x; cases ys) auto
qed auto

lemma those_ex: "(\<forall>x \<in> set xs. x \<noteq> None) \<Longrightarrow> \<exists>ys. those xs = Some ys"
  by (induction xs) auto

lemma keygen_identifiers_ok:
  assumes "dealer_ok F"
  obtains ids where "keygen_identifiers F n = Some ids" "length ids = unat n" "distinct ids"
proof -
  have nz: "(of_nat k :: u16) \<noteq> 0" if "k \<in> {1..<Suc (unat n)}" for k
    using that unsigned_less[of n, where ?'a = nat]
    by (simp add: word_of_nat_eq_0_iff) (auto dest!: dvd_imp_le)
  have "\<exists>ids. those (map (fr_id_try_from F \<circ> of_nat) [1..<Suc (unat n)]) = Some ids"
    using assms nz by (intro those_ex) (auto simp: dealer_ok_def simp del: upt_Suc)
  then obtain ids where ids: "map (fr_id_try_from F \<circ> of_nat) [1..<Suc (unat n)] = map Some ids"
    and k: "keygen_identifiers F n = Some ids"
    by (auto simp: keygen_identifiers_def those_Some_iff simp del: upt_Suc)
  have len: "length ids = unat n" using arg_cong[OF ids, of length] by (simp del: upt_Suc)
  have at: "fr_id_try_from F (of_nat (Suc k)) = Some (ids ! k)" if "k < unat n" for k
    using arg_cong[OF ids, of "\<lambda>xs. xs ! k"] that len by (simp del: upt_Suc)
  have "distinct ids"
  proof (intro distinct_conv_nth[THEN iffD2] allI impI)
    fix i j assume ij: "i < length ids" "j < length ids" "i \<noteq> j"
    show "ids ! i \<noteq> ids ! j"
    proof
      assume "ids ! i = ids ! j"
      then have "(of_nat (Suc i) :: u16) = of_nat (Suc j)"
        using at[of i] at[of j] ij len assms unfolding dealer_ok_def by metis
      then show False using ij len unsigned_less[of n, where ?'a = nat]
        by (simp add: word_of_nat_eq_iff take_bit_nat_eq_self del: of_nat_Suc)
    qed
  qed
  then show thesis using that k len by blast
qed

lemma keygen_loop_ok:
  assumes "\<forall>i \<in> set ids. \<exists>kp. shares i = Some (Inr kp) \<and> P kp"
    and "idx + length vs \<le> length ids" "distinct (map fst vmap @ vs)"
    and "vmap = map (\<lambda>p. (fp_verifier_id p, fp_identifier p)) ps"
    and "map fp_identifier ps = take idx ids" "\<forall>p \<in> set ps. P (fp_key_package p)"
  shows "\<exists>qs. keygen_loop shares ids idx vs vmap ps =
      Some (Inr (map (\<lambda>p. (fp_verifier_id p, fp_identifier p)) qs, qs)) \<and>
    map fp_verifier_id qs = map fp_verifier_id ps @ vs \<and>
    map fp_identifier qs = take (idx + length vs) ids \<and> (\<forall>p \<in> set qs. P (fp_key_package p))"
  using assms(2-6)
proof (induction vs arbitrary: idx vmap ps)
  case (Cons v vs)
  have idx: "idx < length ids" using Cons.prems(1) by simp
  then obtain kp where kp: "shares (ids ! idx) = Some (Inr kp)" "P kp" using assms(1) nth_mem by blast
  let ?p = "\<lparr> fp_key_package = kp, fp_identifier = ids ! idx, fp_verifier_id = v \<rparr>"
  have "v \<notin> fst ` set vmap" using Cons.prems(2) by auto
  then have up: "AList.update v (ids ! idx) vmap = vmap @ [(v, ids ! idx)]"
    by (induction vmap) auto
  have "map fp_identifier (ps @ [?p]) = take (Suc idx) ids"
    using Cons.prems(4) idx by (simp add: take_Suc_conv_app_nth)
  then have "\<exists>qs. keygen_loop shares ids (Suc idx) vs (vmap @ [(v, ids ! idx)]) (ps @ [?p]) =
      Some (Inr (map (\<lambda>p. (fp_verifier_id p, fp_identifier p)) qs, qs)) \<and>
    map fp_verifier_id qs = map fp_verifier_id (ps @ [?p]) @ vs \<and>
    map fp_identifier qs = take (Suc idx + length vs) ids \<and> (\<forall>p \<in> set qs. P (fp_key_package p))"
    using Cons.prems kp by (intro Cons.IH) auto
  then show ?case using idx kp(1) up by (auto simp: Let_def)
qed auto

section \<open>Properties\<close>

text \<open>An instance of the library for which the documented behaviour holds: a key package is its
  minimum of signers, a signing package the number of its commitments followed by the message, and
  a signature is determined by key and message.\<close>

definition unhex_digit :: "char \<Rightarrow> nat" where
  "unhex_digit c = (let n = of_char c in if n < 58 then n - 48 else n - 87)"

fun unhex :: "string \<Rightarrow> byte list" where
  "unhex (a # b # cs) = of_nat (16 * unhex_digit a + unhex_digit b) # unhex cs"
| "unhex _ = []"

lemma unhex_digit_hex [simp]: "n < 16 \<Longrightarrow> unhex_digit (hex_digit n) = n"
  by (auto simp: unhex_digit_def hex_digit_def of_char_of take_bit_nat_eq_self)

lemma unhex_hex_encode: "unhex (hex_encode bs) = bs"
proof (induction bs)
  case (Cons b bs)
  have "unat b < 256" using unsigned_less[of b, where ?'a = nat] by simp
  then have "unat b div 16 < 16" "unat b mod 16 < 16" by auto
  then show ?case using Cons.IH by (simp add: hex_encode_def hex_of_byte_def)
qed (simp add: hex_encode_def)

definition sig_ex :: "bytes32 \<Rightarrow> byte list \<Rightarrow> bytes64" where
  "sig_ex vk m = push_bit 256 (ucast vk) OR be_word m"

definition frost_ex :: "(nat, unit, unit, unit, byte list, bytes32) frost" where
  "frost_ex =
     \<lparr> fr_id_try_from = (\<lambda>i. if i = 0 then None else Some (ucast i)), fr_id_deserialize = Inr,
       fr_dealer = (\<lambda>n t ids g. if 2 \<le> t \<and> t \<le> n
          then Inr ((\<lambda>i. if i \<in> set ids then Some (Inr (unat t)) else None), 77) else Inl ''InvalidMinSigners''),
       fr_std_rng = (\<lambda>_ _. 0), fr_commit = (\<lambda>_ _. ((), ())),
       fr_package_new = (\<lambda>cm m. of_nat (min 255 (card (dom cm))) # m), fr_message = tl,
       fr_sign = (\<lambda>sp _ kp. if kp \<le> unat (hd sp) then Inr () else Inl ''IncorrectNumberOfCommitments''),
       fr_aggregate = (\<lambda>sp sm pk. if unat (hd sp) = card (dom sm) then Inr (sig_ex pk (tl sp))
          else Inl ''UnknownIdentifier''),
       fr_pk_key = (\<lambda>pk. pk), fr_vk_deserialize = Inr, fr_sig_deserialize = Inr,
       fr_verify = (\<lambda>vk m sg. if sg = sig_ex vk m then Inr () else Inl ''InvalidSignature''),
       fr_min_signers = (\<lambda>kp. kp),
       fj_commitments_to = (\<lambda>_. Inr []), fj_commitments_from = (\<lambda>_. Inr ()),
       fj_share_to = (\<lambda>_. Inr []), fj_share_from = (\<lambda>_. Inr ()),
       fj_package_to = Inr, fj_package_from = Inr, fj_key_package_to = (\<lambda>kp. [of_nat kp]),
       fj_participant_to = (\<lambda>_. Inl ''unsupported''), fj_participant_from = (\<lambda>_. Inl ''unsupported''),
       fj_group_to = (\<lambda>_. Inl ''unsupported''), fj_group_from = (\<lambda>_. Inl ''unsupported''),
       fr_hex_decode = (\<lambda>s. Inr (unhex s)) \<rparr>"

lemma frost_ex_simps [simp]:
  "fr_package_new frost_ex cm m = of_nat (min 255 (card (dom cm))) # m"
  "fr_message frost_ex sp = tl sp"
  "fr_commit frost_ex kp g = ((), ())"
  "fr_sign frost_ex sp n kp =
     (if kp \<le> unat (hd sp) then Inr () else Inl ''IncorrectNumberOfCommitments'')"
  "fr_aggregate frost_ex sp sm pk =
     (if unat (hd sp) = card (dom sm) then Inr (sig_ex pk (tl sp)) else Inl ''UnknownIdentifier'')"
  "fr_pk_key frost_ex pk = pk" "fr_vk_deserialize frost_ex vk = Inr vk"
  "fr_sig_deserialize frost_ex sg = Inr sg"
  "fr_verify frost_ex vk m sg = (if sg = sig_ex vk m then Inr () else Inl ''InvalidSignature'')"
  "fr_min_signers frost_ex kp = kp" "fj_commitments_to frost_ex c = Inr []"
  "fj_commitments_from frost_ex b = Inr ()" "fj_share_to frost_ex c = Inr []"
  "fj_share_from frost_ex b = Inr ()" "fj_package_to frost_ex sp = Inr sp"
  "fj_package_from frost_ex b = Inr b" "fr_hex_decode frost_ex x = Inr (unhex x)"
  "fj_group_to frost_ex y = Inl ''unsupported''" "fj_participant_to frost_ex z = Inl ''unsupported''"
  by (simp_all add: frost_ex_def)

lemma frost_ex_ok: "frost_ok frost_ex"
proof -
  have le: "kp \<le> k" if "kp \<le> unat (of_nat (min 255 k) :: byte)" for kp k
    using that by (simp add: unsigned_of_nat take_bit_nat_eq_self)
  have "fr_aggregate frost_ex sp sm pk = Inr sg \<Longrightarrow> sg = sig_ex pk (tl sp)" for sp sm pk sg
    by (simp split: if_split_asm)
  moreover have "fr_sign frost_ex (fr_package_new frost_ex cm m) n kp = Inr s \<Longrightarrow> kp \<le> card (dom cm)"
    for cm m n kp s using le[of kp "card (dom cm)"] by (simp split: if_split_asm)
  ultimately show ?thesis
    unfolding frost_ok_def
    by (intro conjI allI impI) (simp_all only: frost_ex_simps unhex_hex_encode list.sel if_True
        refl simp_thms sum.inject sum.distinct, simp_all)
qed

lemma dealer_ex_ok: "dealer_ok frost_ex"
proof -
  have "i = j" if "(ucast i :: bytes32) = ucast j" for i j :: u16
  proof (rule bit_word_eqI)
    fix n assume "n < LENGTH(16)"
    then show "bit i n = bit j n"
      using arg_cong[OF that, of "\<lambda>w. bit w n"] by (simp add: bit_ucast_iff)
  qed
  moreover have "fr_id_try_from frost_ex i = (if i = 0 then None else Some (ucast i))" for i
    by (simp add: frost_ex_def)
  moreover have "fr_dealer frost_ex n t ids g = (if 2 \<le> t \<and> t \<le> n
      then Inr ((\<lambda>i. if i \<in> set ids then Some (Inr (unat t)) else None), 77)
      else Inl ''InvalidMinSigners'')" for n t ids g
    by (simp add: frost_ex_def)
  ultimately show ?thesis
    unfolding dealer_ok_def by (simp split: if_split_asm)
qed

definition gk_ex :: "bytes32 FrostGroupKey" where
  "gk_ex = \<lparr> gk_pub_key_package = 77,
     gk_verifier_to_id = [(VerifierId 1, 1), (VerifierId 2, 2), (VerifierId 3, 3)] \<rparr>"

definition fp_ex :: "bytes32 \<Rightarrow> nat FrostParticipant" where
  "fp_ex i = \<lparr> fp_key_package = 2, fp_identifier = i, fp_verifier_id = VerifierId i \<rparr>"

definition fta_ex :: "DigestBytes \<Rightarrow> FrostThresholdApproval" where
  "fta_ex d = \<lparr> fta_signed_digest = d, fta_aggregate_signature_bytes = sig_ex 77 (digest_enc d),
     fta_group_verifying_key_bytes = 77 \<rparr>"

lemma gk_ex_ids [simp]:
  "verifier_to_identifier gk_ex (fp_verifier_id (fp_ex 1)) = Some 1"
  "verifier_to_identifier gk_ex (fp_verifier_id (fp_ex 2)) = Some 2"
  by (simp_all add: verifier_to_identifier_def gk_ex_def fp_ex_def)

lemma frost_collect_ex:
  "frost_collect_approval frost_ex g [fp_ex 1, fp_ex 2] d gk_ex q_ex = Inr (fta_ex d)"
proof -
  let ?cm = "[1 \<mapsto> (), 2 \<mapsto> ()] :: bytes32 \<rightharpoonup> unit"
  have two: "card (dom ?cm) = 2" by simp
  have r1: "collect_round1 frost_ex gk_ex g 0 [fp_ex 1, fp_ex 2] Map.empty [] = Inr (?cm, [(), ()])"
    by (simp add: round1_def)
  have r2: "collect_round2 frost_ex gk_ex (2 # digest_enc d) (zip [fp_ex 1, fp_ex 2] [(), ()]) Map.empty = Inr ?cm"
    by (simp add: round2_def) (simp add: fp_ex_def)
  have pk: "fr_package_new frost_ex ?cm (digest_enc d) = 2 # digest_enc d"
    unfolding frost_ex_simps two by simp
  have ag: "fr_aggregate frost_ex (2 # digest_enc d) ?cm (gk_pub_key_package gk_ex) = Inr (sig_ex 77 (digest_enc d))"
    unfolding frost_ex_simps two by (simp add: gk_ex_def)
  have "verifying_key_bytes frost_ex gk_ex = 77" by (simp add: verifying_key_bytes_def gk_ex_def)
  then show ?thesis
    by (simp only: frost_collect_approval_def r1 rbind_simps prod.case Let_def pk r2 ag map_err_simps fta_ex_def)
      (simp add: q_ex_def)
qed

text \<open>Soundness of in-process threshold signing.  When \<open>frost_collect_approval\<close> returns an
  approval, it is over the given digest and under the group's key, its aggregate signature passes
  \<open>verify_signature\<close>, every signer is known to the group key, there are at least \<open>threshold\<close>
  signers, and the number of different identifiers among them reaches the minimum of every signer's
  key package, so that repeating a signer in the list does not help.\<close>

theorem frost_collect_approval_sound:
  assumes "frost_ok F" and "frost_collect_approval F g signers sd gk q = Inr a"
  shows "verify_signature F a = Inr () \<and> fta_signed_digest a = sd \<and>
    fta_group_verifying_key_bytes a = verifying_key_bytes F gk \<and> threshold q \<le> length signers \<and>
    (\<forall>p \<in> set signers. verifier_to_identifier gk (fp_verifier_id p) \<noteq> None \<and>
       fr_min_signers F (fp_key_package p) \<le> card (group_ids gk (map fp_verifier_id signers)))"
proof -
  obtain cm ns sm sg where t: "threshold q \<le> length signers"
    and r1: "collect_round1 F gk g 0 signers Map.empty [] = Inr (cm, ns)"
    and r2: "collect_round2 F gk (fr_package_new F cm (digest_enc sd)) (zip signers ns) Map.empty = Inr sm"
    and sg: "fr_aggregate F (fr_package_new F cm (digest_enc sd)) sm (gk_pub_key_package gk) = Inr sg"
    and a: "a = \<lparr> fta_signed_digest = sd, fta_aggregate_signature_bytes = sg,
           fta_group_verifying_key_bytes = verifying_key_bytes F gk \<rparr>"
    using assms(2) by (rule frost_collect_eq_Inr)
  note d = collect_round1_dom[OF r1]
  have "fr_min_signers F (fp_key_package p) \<le> card (dom cm)" if "p \<in> set signers" for p
  proof -
    obtain n where "(p, n) \<in> set (zip signers ns)"
      using \<open>p \<in> set signers\<close> d by (metis add_0 in_set_impl_in_set_zip1 list.size(3))
    then obtain s where "fr_sign F (fr_package_new F cm (digest_enc sd)) n (fp_key_package p) = Inr s"
      using collect_round2_signs[OF r2] by auto
    then show ?thesis by (rule frost_okD(3)[OF assms(1)])
  qed
  moreover have "verify_signature F a = Inr ()"
    unfolding a by (rule aggregated_verifies[OF assms(1) sg]) (rule frost_okD(2)[OF assms(1)])
  ultimately show ?thesis using d t by (simp add: a)
qed

theorem frost_collect_approval_sound_witness:
  "verify_signature frost_ex (fta_ex (DigestBytes 5)) = Inr () \<and>
   fr_min_signers frost_ex (fp_key_package (fp_ex 1)) \<le>
     card (group_ids gk_ex (map fp_verifier_id [fp_ex 1, fp_ex 2]))"
  using frost_collect_approval_sound[OF frost_ex_ok frost_collect_ex] by simp

text \<open>Trusted-dealer key generation.  For between 2 and 65535 different verifiers and a threshold
  between 2 and their number the call never panics; when the dealer succeeds it returns one
  participant per verifier, in order, with pairwise different identifiers, the group key maps every
  verifier to the identifier of its participant, and every key package asks for \<open>threshold\<close>
  signers.\<close>

theorem trusted_dealer_keygen_correct:
  assumes "dealer_ok F" and "distinct vids" "2 \<le> t" "t \<le> length vids" "length vids \<le> 65535"
  shows "(\<exists>e. frost_trusted_dealer_keygen F g vids t = Some (Inl (InvalidKeyMaterial e))) \<or>
    (\<exists>out. frost_trusted_dealer_keygen F g vids t = Some (Inr out) \<and>
       map fp_verifier_id (td_participants out) = vids \<and>
       distinct (map fp_identifier (td_participants out)) \<and>
       (\<forall>p \<in> set (td_participants out).
          verifier_to_identifier (td_group_key out) (fp_verifier_id p) = Some (fp_identifier p) \<and>
          fr_min_signers F (fp_key_package p) = t))"
proof -
  let ?n = "of_nat (length vids) :: u16"
  have n: "unat ?n = length vids" "unat (of_nat t :: u16) = t"
    using assms(4,5) by (simp_all add: unsigned_of_nat take_bit_nat_eq_self)
  obtain ids where ids: "keygen_identifiers F ?n = Some ids" "length ids = length vids" "distinct ids"
    using keygen_identifiers_ok[OF assms(1), of ?n] n(1) by metis
  have guards: "\<not> length vids < 2" "\<not> t < 2" "\<not> t > length vids" "length vids = card (set vids)"
    using assms(2-4) by (simp_all add: distinct_card)
  show ?thesis
  proof (cases "fr_dealer F ?n (of_nat t) ids g")
    case (Inl e)
    then show ?thesis using guards ids(1) by (simp add: frost_trusted_dealer_keygen_def Let_def)
  next
    case (Inr sp)
    obtain shares pk where sp: "sp = (shares, pk)" by (cases sp)
    have sh: "\<forall>i \<in> set ids. \<exists>kp. shares i = Some (Inr kp) \<and> fr_min_signers F kp = t"
      using assms(1) Inr n(2) unfolding sp dealer_ok_def by metis
    obtain qs where qs: "keygen_loop shares ids 0 vids [] [] =
        Some (Inr (map (\<lambda>p. (fp_verifier_id p, fp_identifier p)) qs, qs))"
      "map fp_verifier_id qs = vids" "map fp_identifier qs = ids"
      "\<forall>p \<in> set qs. fr_min_signers F (fp_key_package p) = t"
      using keygen_loop_ok[OF sh, of 0 vids "[]" "[]"] ids(2) assms(2) by auto
    have "map_of (map (\<lambda>p. (fp_verifier_id p, fp_identifier p)) qs) (fp_verifier_id p) = Some (fp_identifier p)"
      if "p \<in> set qs" for p
      using that qs(2) assms(2) by (auto intro!: map_of_is_SomeI simp: comp_def)
    then show ?thesis using guards ids(1,3) Inr sp qs
      by (simp add: frost_trusted_dealer_keygen_def Let_def verifier_to_identifier_def)
  qed
qed

theorem trusted_dealer_keygen_correct_witness:
  "\<exists>r. frost_trusted_dealer_keygen frost_ex (\<lambda>_. 0) [VerifierId 1, VerifierId 2, VerifierId 3] 2 = Some r"
  using trusted_dealer_keygen_correct[OF dealer_ex_ok,
      of "[VerifierId 1, VerifierId 2, VerifierId 3]" 2 "\<lambda>_. 0"] by auto

text \<open>An approval cannot be replayed for another envelope: \<open>verify_binding\<close> accepts an approval for
  at most one envelope digest, up to an explicit collision of the hash.\<close>

theorem frost_approval_not_replayable:
  assumes "verify_binding H a e = Inr ()" "verify_binding H a e' = Inr ()"
  shows "e = e' \<or> collision H
    (lp32 (str_bytes ''tls-attestation/threshold-approval/v1'') @ digest_enc e)
    (lp32 (str_bytes ''tls-attestation/threshold-approval/v1'') @ digest_enc e')"
  using assms by (auto simp: result_simps approval_signed_digest_def sha256_tagged_absorbed
      ch_finalize_def collision_def)

theorem frost_approval_not_replayable_witness:
  "verify_binding (\<lambda>_. 7) (fta_ex (DigestBytes 7)) (DigestBytes 5) = Inr () \<and>
   collision (\<lambda>_. 7 :: bytes32)
    (lp32 (str_bytes ''tls-attestation/threshold-approval/v1'') @ digest_enc (DigestBytes 5))
    (lp32 (str_bytes ''tls-attestation/threshold-approval/v1'') @ digest_enc (DigestBytes 6))"
proof -
  have v: "verify_binding (\<lambda>_. 7) (fta_ex (DigestBytes 7)) d = Inr ()" for d
    by (simp add: result_simps approval_signed_digest_def sha256_tagged_def fta_ex_def)
  show ?thesis using v frost_approval_not_replayable[OF v v, of "DigestBytes 5" "DigestBytes 6"] by simp
qed

end
