(* ===== verification/Messages.thy ===== *)
theory Messages
  imports Envelope Registry Randomness Frost Session_Store
begin

text \<open>
  The wire messages of \<open>network/src/messages.rs\<close> and the errors of the network and node layers
  (\<open>network/src/error.rs\<close>, \<open>node/src/error.rs\<close>), with the texts that other errors embed.
\<close>

section \<open>Errors\<close>

datatype NetworkError =
    RecipientNotFound string
  | ChannelClosed
  | NetSerialization string
  | Timeout
  | AuthFailed string

datatype NodeError =
    Attestation AttestationError
  | Crypto CryptoError
  | Network NetworkError
  | Storage StorageError
  | QuorumNotMet nat nat
  | NoResponse string
  | SessionNotFound string
  | FrostProtocol string
  | DkgProtocol string
  | DkgKeyAnnouncement string
  | SigningAdmission string

definition network_error_display :: "NetworkError \<Rightarrow> string" where
  "network_error_display e = (case e of
     RecipientNotFound r \<Rightarrow> ''recipient not found: '' @ r
   | ChannelClosed \<Rightarrow> ''channel closed''
   | NetSerialization m \<Rightarrow> ''serialization error: '' @ m
   | Timeout \<Rightarrow> ''send timeout''
   | AuthFailed m \<Rightarrow> ''authentication failed: '' @ m)"

definition epoch_display :: "RegistryEpoch \<Rightarrow> string" where
  "epoch_display e = ''registry-epoch:'' @ dec_str (unat (re_u64 e))"

definition epoch_debug :: "RegistryEpoch \<Rightarrow> string" where
  "epoch_debug e = ''RegistryEpoch('' @ dec_str (unat (re_u64 e)) @ '')''"

definition em_dash :: string where
  "em_dash = [CHR 0xE2, CHR 0x80, CHR 0x94]"

definition registry_error_display :: "RegistryError \<Rightarrow> string" where
  "registry_error_display e = (case e of
     UnknownParticipant v \<Rightarrow> ''participant '' @ vid_display v @ '' is not in the registry''
   | RevokedParticipant v \<Rightarrow> ''participant '' @ vid_display v @
       '' has been revoked and is not eligible for new ceremonies''
   | RetiredParticipant v \<Rightarrow> ''participant '' @ vid_display v @
       '' has retired and is not eligible for new ceremonies''
   | EpochMismatch expected actual \<Rightarrow> ''registry epoch mismatch: expected '' @ epoch_display expected @
       '', got '' @ epoch_display actual
   | DuplicateParticipant v \<Rightarrow> ''participant '' @ vid_display v @ '' appears more than once '' @ em_dash @
       '' registry entries must be unique''
   | EmptyRegistry \<Rightarrow> ''registry must contain at least one participant''
   | StaleRotationEpoch current new \<Rightarrow> ''epoch '' @ epoch_display new @
       '' is not strictly greater than the current registry epoch '' @ epoch_display current @ '' '' @
       em_dash @ '' registry epochs must advance monotonically''
   | RevocationTargetUnknown v \<Rightarrow> ''cannot revoke participant '' @ vid_display v @ '': not in registry''
   | AlreadyRevoked v \<Rightarrow> ''participant '' @ vid_display v @ '' is already revoked''
   | RotationTargetUnknown v \<Rightarrow> ''cannot rotate key for participant '' @ vid_display v @
       '': not in registry''
   | VerifierIdMismatch claimed derived \<Rightarrow> ''VerifierId/VerifyingKey mismatch: claimed '' @
       vid_display claimed @ '', derived SHA-256(signing_key) = '' @ vid_display derived)"

section \<open>Session messages\<close>

record AttestationRequest =
  ar_prover_id :: ProverId
  ar_client_nonce :: Nonce
  ar_statement_tag :: string
  ar_query :: "byte list"
  ar_requested_ttl_secs :: u64

record SessionInitMsg =
  si_session_id :: SessionId
  si_prover_id :: ProverId
  si_coordinator_id :: VerifierId
  si_quorum :: QuorumSpec
  si_epoch :: Epoch
  si_created_at :: UnixTimestamp
  si_expires_at :: UnixTimestamp
  si_nonce :: Nonce

record PartialRandomnessMsg =
  prm_session_id :: SessionId
  prm_verifier_id :: VerifierId
  prm_partial :: PartialRandomness

record VerificationRequestMsg =
  vrm_session_id :: SessionId
  vrm_package :: AttestationPackage
  vrm_statement :: StatementPayload
  vrm_claimed_envelope_digest :: DigestBytes

record VerificationResponseMsg =
  vsm_session_id :: SessionId
  vsm_verifier_id :: VerifierId
  vsm_partial_signature :: "PartialSignature option"
  vsm_rejection_reason :: "string option"

datatype AttestationResponse =
    Success AttestationEnvelope
  | Failure SessionId string

section \<open>Signing messages\<close>

record FrostRound1Request =
  r1_session_id :: SessionId
  r1_coordinator_id :: VerifierId
  r1_signed_digest :: DigestBytes
  r1_envelope_digest :: DigestBytes
  r1_signer_set :: "VerifierId list"
  r1_round_expires_at :: UnixTimestamp
  r1_registry_epoch :: RegistryEpoch
  r1_hsp_proof_bytes :: "byte list"
  r1_hsp_pvk_bytes :: "byte list"
  r1_dctls_evidence_bytes :: "byte list"
  r1_rand_value_bytes :: "byte list"
  r1_server_cert_hash_bytes :: "byte list"

record FrostRound1Response =
  s1_session_id :: SessionId
  s1_verifier_id :: VerifierId
  s1_commitment_bytes :: "byte list"

record FrostRound2Request =
  r2_session_id :: SessionId
  r2_coordinator_id :: VerifierId
  r2_signing_package_bytes :: "byte list"
  r2_signer_set :: "VerifierId list"

record FrostRound2Response =
  s2_session_id :: SessionId
  s2_verifier_id :: VerifierId
  s2_signature_share_bytes :: "byte list"

record HandshakeBindingRound1Request =
  hb1_session_id :: SessionId
  hb1_coordinator_id :: VerifierId
  hb1_binding_input :: DigestBytes
  hb1_signer_set :: "VerifierId list"
  hb1_round_expires_at :: UnixTimestamp
  hb1_registry_epoch :: RegistryEpoch

record HandshakeBindingRound1Response =
  hs1_session_id :: SessionId
  hs1_verifier_id :: VerifierId
  hs1_commitment_bytes :: "byte list"

record HandshakeBindingRound2Request =
  hb2_session_id :: SessionId
  hb2_coordinator_id :: VerifierId
  hb2_signing_package_bytes :: "byte list"
  hb2_signer_set :: "VerifierId list"

record HandshakeBindingRound2Response =
  hs2_session_id :: SessionId
  hs2_verifier_id :: VerifierId
  hs2_signature_share_bytes :: "byte list"

section \<open>Key generation messages\<close>

record DkgCeremonyAnnouncement =
  dca_ceremony_id :: "byte list"
  dca_all_participant_ids :: "VerifierId list"
  dca_min_signers :: u16
  dca_encryption_public_keys :: "byte list list"

record DkgRound1Response =
  dr1_ceremony_id :: "byte list"
  dr1_participant_id :: VerifierId
  dr1_round1_package_bytes :: "byte list"

record DkgRound2Delivery =
  dr2_ceremony_id :: "byte list"
  dr2_recipient_id :: VerifierId
  dr2_encrypted_packages :: "(VerifierId \<times> byte list) list"

record DkgPart3Response =
  dp3_ceremony_id :: "byte list"
  dp3_participant_id :: VerifierId
  dp3_group_key_bytes :: "byte list"
  dp3_success :: bool
  dp3_error_message :: "string option"

end
