(* ===== verification/Sha256_Gadget.thy ===== *)
theory Sha256_Gadget
  imports Prelude
begin

text \<open>
  The SHA-256 gadget of \<open>zk/src/sha256_gadget.rs\<close>: the circuit variables it wires together, the
  message schedule, the 64 rounds, the padding loop, and the two hash entry points.

  The arkworks circuit variables (\<open>Boolean\<close>, \<open>UInt8\<close>, \<open>UInt32\<close>, \<open>FpVar\<close>) and the BN254 scalar
  field are not part of the repository: they are the record \<open>r1cs\<close>, a parameter of every
  gadget.  \<open>r1cs_ok\<close> says what the gadgets rely on, namely that a variable built by an operation is
  assigned the value of that operation on the values of its arguments.  A panic is a value of the
  error type, like a \<open>SynthesisError\<close>.

  The reference is the hash of FIPS 180-4, written over 32-bit words.  The lemmas show that every
  gadget computes the reference on the values assigned to its inputs.
\<close>

section \<open>Circuit variables\<close>

datatype SynthesisError = MissingCS | AssignmentMissing | DivisionByZero | Unsatisfiable
  | PolynomialDegreeTooLarge | UnexpectedIdentity | MalformedVerifyingKey | UnconstrainedVariable

datatype gadget_error = Synthesis SynthesisError | Panic

type_synonym 'a synth = "(gadget_error, 'a) result"

record ('b, 'u8, 'u32, 'f, 'fr) r1cs =
  b_value :: "'b \<Rightarrow> bool synth"
  b_constant :: "bool \<Rightarrow> 'b"
  b_and :: "'b \<Rightarrow> 'b \<Rightarrow> 'b synth"
  b_not :: "'b \<Rightarrow> 'b"
  u8_value :: "'u8 \<Rightarrow> u8 synth"
  u8_constant :: "u8 \<Rightarrow> 'u8"
  u8_new_witness :: "u8 \<Rightarrow> 'u8 synth"
  u8_to_bits_le :: "'u8 \<Rightarrow> 'b list synth"
  u8_from_bits_le :: "'b list \<Rightarrow> 'u8"
  u8_xor :: "'u8 \<Rightarrow> 'u8 \<Rightarrow> 'u8 synth"
  u32_value :: "'u32 \<Rightarrow> u32 synth"
  u32_constant :: "u32 \<Rightarrow> 'u32"
  u32_new_witness :: "u32 \<Rightarrow> 'u32 synth"
  u32_to_bits_le :: "'u32 \<Rightarrow> 'b list"
  u32_from_bits_le :: "'b list \<Rightarrow> 'u32"
  u32_xor :: "'u32 \<Rightarrow> 'u32 \<Rightarrow> 'u32 synth"
  u32_rotr :: "'u32 \<Rightarrow> nat \<Rightarrow> 'u32"
  u32_addmany :: "'u32 list \<Rightarrow> 'u32 synth"
  f_value :: "'f \<Rightarrow> 'fr synth"
  f_new_constant :: "'fr \<Rightarrow> 'f synth"
  f_new_input :: "'fr \<Rightarrow> 'f synth"
  f_from_bool :: "'b \<Rightarrow> 'f"
  f_add :: "'f \<Rightarrow> 'f \<Rightarrow> 'f"
  f_mul :: "'f \<Rightarrow> 'f \<Rightarrow> 'f"
  fr_zero :: "'fr"
  fr_one :: "'fr"
  fr_add :: "'fr \<Rightarrow> 'fr \<Rightarrow> 'fr"
  fr_mul :: "'fr \<Rightarrow> 'fr \<Rightarrow> 'fr"
  fr_from_le_bytes_mod_order :: "byte list \<Rightarrow> 'fr"
  fr_into_bigint :: "'fr \<Rightarrow> nat"

section \<open>The gadget, in source order\<close>

definition SHA256_H :: "u32 list" where
  "SHA256_H = [
    0x6A09E667, 0xBB67AE85, 0x3C6EF372, 0xA54FF53A,
    0x510E527F, 0x9B05688C, 0x1F83D9AB, 0x5BE0CD19]"

definition SHA256_K :: "u32 list" where
  "SHA256_K = [
    0x428A2F98, 0x71374491, 0xB5C0FBCF, 0xE9B5DBA5,
    0x3956C25B, 0x59F111F1, 0x923F82A4, 0xAB1C5ED5,
    0xD807AA98, 0x12835B01, 0x243185BE, 0x550C7DC3,
    0x72BE5D74, 0x80DEB1FE, 0x9BDC06A7, 0xC19BF174,
    0xE49B69C1, 0xEFBE4786, 0x0FC19DC6, 0x240CA1CC,
    0x2DE92C6F, 0x4A7484AA, 0x5CB0A9DC, 0x76F988DA,
    0x983E5152, 0xA831C66D, 0xB00327C8, 0xBF597FC7,
    0xC6E00BF3, 0xD5A79147, 0x06CA6351, 0x14292967,
    0x27B70A85, 0x2E1B2138, 0x4D2C6DFC, 0x53380D13,
    0x650A7354, 0x766A0ABB, 0x81C2C92E, 0x92722C85,
    0xA2BFE8A1, 0xA81A664B, 0xC24B8B70, 0xC76C51A3,
    0xD192E819, 0xD6990624, 0xF40E3585, 0x106AA070,
    0x19A4C116, 0x1E376C08, 0x2748774C, 0x34B0BCB5,
    0x391C0CB3, 0x4ED8AA4A, 0x5B9CCA4F, 0x682E6FF3,
    0x748F82EE, 0x78A5636F, 0x84C87814, 0x8CC70208,
    0x90BEFFFA, 0xA4506CEB, 0xBEF9A3F7, 0xC67178F2]"

definition shr32 :: "('b, 'u8, 'u32, 'f, 'fr) r1cs \<Rightarrow> 'u32 \<Rightarrow> nat \<Rightarrow> 'u32 synth" where
  "shr32 G x n = rbind (guard (n < 32) Panic) (\<lambda>_.
     let bits = u32_to_bits_le G x in
     Inr (u32_from_bits_le G
       (map (\<lambda>i. if i < 32 - n then bits ! (i + n) else b_constant G False) [0..<32])))"

definition and32 :: "('b, 'u8, 'u32, 'f, 'fr) r1cs \<Rightarrow> 'u32 \<Rightarrow> 'u32 \<Rightarrow> 'u32 synth" where
  "and32 G a b = (
     let a_bits = u32_to_bits_le G a; b_bits = u32_to_bits_le G b in
     rbind (collect_ok (\<lambda>(ai, bi). b_and G ai bi) (zip a_bits b_bits)) (\<lambda>result.
       Inr (u32_from_bits_le G result)))"

definition not32 :: "('b, 'u8, 'u32, 'f, 'fr) r1cs \<Rightarrow> 'u32 \<Rightarrow> 'u32" where
  "not32 G x = u32_from_bits_le G (map (b_not G) (u32_to_bits_le G x))"

definition ch :: "('b, 'u8, 'u32, 'f, 'fr) r1cs \<Rightarrow> 'u32 \<Rightarrow> 'u32 \<Rightarrow> 'u32 \<Rightarrow> 'u32 synth" where
  "ch G e f g = rbind (and32 G e f) (\<lambda>ef. rbind (and32 G (not32 G e) g) (\<lambda>ne_g.
     u32_xor G ef ne_g))"

definition maj :: "('b, 'u8, 'u32, 'f, 'fr) r1cs \<Rightarrow> 'u32 \<Rightarrow> 'u32 \<Rightarrow> 'u32 \<Rightarrow> 'u32 synth" where
  "maj G a b c = rbind (and32 G a b) (\<lambda>ab. rbind (and32 G a c) (\<lambda>ac. rbind (and32 G b c) (\<lambda>bc.
     rbind (u32_xor G ab ac) (\<lambda>x. u32_xor G x bc))))"

definition sigma_upper_0 :: "('b, 'u8, 'u32, 'f, 'fr) r1cs \<Rightarrow> 'u32 \<Rightarrow> 'u32 synth" where
  "sigma_upper_0 G a = rbind (u32_xor G (u32_rotr G a 2) (u32_rotr G a 13)) (\<lambda>x.
     u32_xor G x (u32_rotr G a 22))"

definition sigma_upper_1 :: "('b, 'u8, 'u32, 'f, 'fr) r1cs \<Rightarrow> 'u32 \<Rightarrow> 'u32 synth" where
  "sigma_upper_1 G e = rbind (u32_xor G (u32_rotr G e 6) (u32_rotr G e 11)) (\<lambda>x.
     u32_xor G x (u32_rotr G e 25))"

definition sigma_lower_0 :: "('b, 'u8, 'u32, 'f, 'fr) r1cs \<Rightarrow> 'u32 \<Rightarrow> 'u32 synth" where
  "sigma_lower_0 G x = rbind (u32_xor G (u32_rotr G x 7) (u32_rotr G x 18)) (\<lambda>y.
     rbind (shr32 G x 3) (\<lambda>z. u32_xor G y z))"

definition sigma_lower_1 :: "('b, 'u8, 'u32, 'f, 'fr) r1cs \<Rightarrow> 'u32 \<Rightarrow> 'u32 synth" where
  "sigma_lower_1 G x = rbind (u32_xor G (u32_rotr G x 17) (u32_rotr G x 19)) (\<lambda>y.
     rbind (shr32 G x 10) (\<lambda>z. u32_xor G y z))"

text \<open>The two loops of \<open>sha256_compress\<close>: one step of the message schedule, and one round over the
  working variables \<open>a\<close> to \<open>h\<close>.\<close>

definition schedule_step :: "('b, 'u8, 'u32, 'f, 'fr) r1cs \<Rightarrow> nat \<Rightarrow> 'u32 list \<Rightarrow> 'u32 list synth" where
  "schedule_step G i w = rbind (sigma_lower_1 G (w ! (i - 2))) (\<lambda>s1.
     rbind (sigma_lower_0 G (w ! (i - 15))) (\<lambda>s0.
     rbind (u32_addmany G [s1, w ! (i - 7), s0, w ! (i - 16)]) (\<lambda>wi.
       Inr (w @ [wi]))))"

type_synonym 'u sha_vars = "'u \<times> 'u \<times> 'u \<times> 'u \<times> 'u \<times> 'u \<times> 'u \<times> 'u"

definition sha_round :: "('b, 'u8, 'u32, 'f, 'fr) r1cs \<Rightarrow> 'u32 list \<Rightarrow> nat \<Rightarrow> 'u32 sha_vars \<Rightarrow>
    'u32 sha_vars synth" where
  "sha_round G w i = (\<lambda>(a, b, c, d, e, f, g, h).
     let ki = u32_constant G (SHA256_K ! i) in
     rbind (sigma_upper_1 G e) (\<lambda>s1.
     rbind (ch G e f g) (\<lambda>ch1.
     rbind (u32_addmany G [h, s1, ch1, ki, w ! i]) (\<lambda>t1.
     rbind (sigma_upper_0 G a) (\<lambda>s0.
     rbind (maj G a b c) (\<lambda>maj1.
     rbind (u32_addmany G [s0, maj1]) (\<lambda>t2.
     rbind (u32_addmany G [d, t1]) (\<lambda>e'.
     rbind (u32_addmany G [t1, t2]) (\<lambda>a'.
       Inr (a', a, b, c, e', e, f, g))))))))))"

definition sha256_compress :: "('b, 'u8, 'u32, 'f, 'fr) r1cs \<Rightarrow> 'u32 list \<Rightarrow> 'u32 list \<Rightarrow>
    'u32 list synth" where
  "sha256_compress G state block =
     rbind (fold_ok (schedule_step G) [16..<64] (map (\<lambda>i. block ! i) [0..<16])) (\<lambda>w.
     rbind (fold_ok (sha_round G w) [0..<64]
       (state ! 0, state ! 1, state ! 2, state ! 3, state ! 4, state ! 5, state ! 6, state ! 7))
       (\<lambda>(a, b, c, d, e, f, g, h).
       collect_ok (u32_addmany G)
         [[state ! 0, a], [state ! 1, b], [state ! 2, c], [state ! 3, d],
          [state ! 4, e], [state ! 5, f], [state ! 6, g], [state ! 7, h]]))"

text \<open>The number of zero bytes the padding loop still pushes.\<close>

definition zeros_left :: "nat \<Rightarrow> nat" where
  "zeros_left n = (if n mod 64 \<le> 56 then 56 - n mod 64 else 120 - n mod 64)"

lemma zeros_left_Suc: "n mod 64 \<noteq> 56 \<Longrightarrow> zeros_left n = Suc (zeros_left (Suc n))"
  using mod_less_divisor[of 64 n] by (auto simp: zeros_left_def mod_Suc)

function pad_zeros :: "byte list \<Rightarrow> byte list" where
  "pad_zeros padded = (if length padded mod 64 \<noteq> 56 then pad_zeros (padded @ [0x00]) else padded)"
  by pat_completeness auto

termination
  by (relation "measure (\<lambda>p. zeros_left (length p))") (simp_all add: zeros_left_Suc)

declare pad_zeros.simps [simp del]

definition sha256_pad :: "byte list \<Rightarrow> byte list" where
  "sha256_pad msg = (
     let bit_len = length msg * 8;
         padded = pad_zeros (msg @ [0x80])
     in padded @ be64 (of_nat bit_len))"

definition parse_block_native :: "byte list \<Rightarrow> u32 list" where
  "parse_block_native block = map (\<lambda>i. be_word (take 4 (drop (4 * i) block))) [0..<16]"

definition sha256_gadget :: "('b, 'u8, 'u32, 'f, 'fr) r1cs \<Rightarrow> byte list \<Rightarrow> 'u32 list synth" where
  "sha256_gadget G msg = (
     let padded = sha256_pad msg; num_blocks = length padded div 64 in
     fold_ok (\<lambda>b state.
       let native_words = parse_block_native (take 64 (drop (b * 64) padded)) in
       rbind (collect_ok (u32_new_witness G) native_words) (\<lambda>block_vars.
         sha256_compress G state block_vars))
       [0..<num_blocks] (map (u32_constant G) SHA256_H))"

definition state_to_bytes :: "('b, 'u8, 'u32, 'f, 'fr) r1cs \<Rightarrow> 'u32 list \<Rightarrow> byte list synth" where
  "state_to_bytes G state = rbind (collect_ok (u32_value G) state) (\<lambda>vals.
     Inr (concat (map be32 vals)))"

definition state_to_byte_vars :: "('b, 'u8, 'u32, 'f, 'fr) r1cs \<Rightarrow> 'u32 list \<Rightarrow> 'u8 list" where
  "state_to_byte_vars G state = concat (map (\<lambda>word.
     let bits = u32_to_bits_le G word in
     map (\<lambda>byte_idx. u8_from_bits_le G (map (\<lambda>bit. bits ! (byte_idx * 8 + bit)) [0..<8]))
       [3, 2, 1, 0]) state)"

definition value_or_zero :: "('b, 'u8, 'u32, 'f, 'fr) r1cs \<Rightarrow> 'u8 \<Rightarrow> byte" where
  "value_or_zero G b = (case u8_value G b of Inl _ \<Rightarrow> 0 | Inr v \<Rightarrow> v)"

definition word_from_byte_vars :: "('b, 'u8, 'u32, 'f, 'fr) r1cs \<Rightarrow> 'u8 list \<Rightarrow> nat \<Rightarrow> 'u32 synth" where
  "word_from_byte_vars G block_byte_vars w =
     rbind (u8_to_bits_le G (block_byte_vars ! (4 * w))) (\<lambda>b0.
     rbind (u8_to_bits_le G (block_byte_vars ! (4 * w + 1))) (\<lambda>b1.
     rbind (u8_to_bits_le G (block_byte_vars ! (4 * w + 2))) (\<lambda>b2.
     rbind (u8_to_bits_le G (block_byte_vars ! (4 * w + 3))) (\<lambda>b3.
       Inr (u32_from_bits_le G (b3 @ b2 @ b1 @ b0))))))"

definition sha256_from_byte_vars :: "('b, 'u8, 'u32, 'f, 'fr) r1cs \<Rightarrow> 'u8 list \<Rightarrow> 'u8 list synth" where
  "sha256_from_byte_vars G input_vars = (
     let native_bytes = map (value_or_zero G) input_vars;
         padded = sha256_pad native_bytes;
         num_blocks = length padded div 64;
         n_real = length input_vars;
         padded_vars = input_vars @ map (\<lambda>i. u8_constant G (padded ! i)) [n_real..<length padded]
     in rbind (fold_ok (\<lambda>b state.
          let block_byte_vars = take 64 (drop (b * 64) padded_vars) in
          rbind (collect_ok (word_from_byte_vars G block_byte_vars) [0..<16]) (\<lambda>block_vars.
            sha256_compress G state block_vars))
          [0..<num_blocks] (map (u32_constant G) SHA256_H)) (\<lambda>state.
        Inr (state_to_byte_vars G state)))"


text \<open>Whatever the variables are, a digest has eight words and thirty-two bytes.\<close>

lemma length_sha256_compress: "sha256_compress G s b = Inr t \<Longrightarrow> length t = 8"
  by (auto simp: sha256_compress_def rbind_eq_Inr collect_ok_eq_Inr dest: list_all2_lengthD
      split: prod.splits)

lemma length_sha256_gadget: "sha256_gadget G msg = Inr s \<Longrightarrow> length s = 8"
  unfolding sha256_gadget_def Let_def
  by (erule fold_ok_invariant) (auto simp: SHA256_H_def rbind_eq_Inr length_sha256_compress)

lemma length_state_to_bytes: "state_to_bytes G s = Inr bs \<Longrightarrow> length bs = 4 * length s"
proof -
  have "length (concat (map be32 vs)) = 4 * length vs" for vs :: "u32 list"
    by (induction vs) simp_all
  then show "state_to_bytes G s = Inr bs \<Longrightarrow> length bs = 4 * length s"
    by (auto simp: state_to_bytes_def rbind_eq_Inr collect_ok_eq_Inr dest: list_all2_lengthD)
qed

lemma length_state_to_byte_vars: "length (state_to_byte_vars G s) = 4 * length s"
  by (induction s) (simp_all add: state_to_byte_vars_def Let_def)

lemma length_sha256_from_byte_vars: "sha256_from_byte_vars G vs = Inr bs \<Longrightarrow> length bs = 32"
proof -
  assume "sha256_from_byte_vars G vs = Inr bs"
  then obtain s where s: "bs = state_to_byte_vars G s" and
    "fold_ok (\<lambda>b state. rbind (collect_ok (word_from_byte_vars G (take 64 (drop (b * 64)
       (vs @ map (\<lambda>i. u8_constant G (sha256_pad (map (value_or_zero G) vs) ! i))
         [length vs..<length (sha256_pad (map (value_or_zero G) vs))])))) [0..<16])
       (sha256_compress G state)) [0..<length (sha256_pad (map (value_or_zero G) vs)) div 64]
       (map (u32_constant G) SHA256_H) = Inr s"
    unfolding sha256_from_byte_vars_def Let_def by (auto simp: rbind_eq_Inr)
  from this(2) have "length s = 8"
    by (rule fold_ok_invariant) (auto simp: SHA256_H_def rbind_eq_Inr length_sha256_compress)
  then show ?thesis by (simp add: s length_state_to_byte_vars)
qed

section \<open>What the gadgets rely on\<close>

definition FR_MODULUS :: nat where
  "FR_MODULUS = 21888242871839275222246405745257275088548364400416034343698204186575808495617"

definition assigned :: "('x \<Rightarrow> 'v synth) \<Rightarrow> 'x \<Rightarrow> 'v \<Rightarrow> bool" where
  "assigned val x v \<longleftrightarrow> val x = Inr v"

definition word_bits :: "'a::len word \<Rightarrow> bool list" where
  "word_bits w = map (bit w) [0..<LENGTH('a)]"

lemma length_word_bits [simp]: "length (word_bits (w :: 'a::len word)) = LENGTH('a)"
  by (simp add: word_bits_def)

lemma nth_word_bits [simp]: "i < LENGTH('a) \<Longrightarrow> word_bits (w :: 'a::len word) ! i = bit w i"
  by (simp add: word_bits_def)

lemma word_bits_rel: "list_all2 R bs (word_bits (w :: 'a::len word)) \<longleftrightarrow>
    length bs = LENGTH('a) \<and> (\<forall>i < LENGTH('a). R (bs ! i) (bit w i))"
  by (auto simp: list_all2_conv_all_nth)

text \<open>Bit variables and the two unsigned integer variables.\<close>

definition r1cs_bits_ok :: "('b, 'u8, 'u32, 'f, 'fr) r1cs \<Rightarrow> bool" where
  "r1cs_bits_ok G \<longleftrightarrow>
     (\<forall>v. assigned (b_value G) (b_constant G v) v) \<and>
     (\<forall>x v. assigned (b_value G) x v \<longrightarrow> assigned (b_value G) (b_not G x) (\<not> v)) \<and>
     (\<forall>x v y w. assigned (b_value G) x v \<longrightarrow> assigned (b_value G) y w \<longrightarrow>
        gets (assigned (b_value G)) (b_and G x y) (v \<and> w))"

definition r1cs_u8_ok :: "('b, 'u8, 'u32, 'f, 'fr) r1cs \<Rightarrow> bool" where
  "r1cs_u8_ok G \<longleftrightarrow>
     (\<forall>v. assigned (u8_value G) (u8_constant G v) v) \<and>
     (\<forall>v. gets (assigned (u8_value G)) (u8_new_witness G v) v) \<and>
     (\<forall>x v. assigned (u8_value G) x v \<longrightarrow>
        gets (list_all2 (assigned (b_value G))) (u8_to_bits_le G x) (word_bits v)) \<and>
     (\<forall>bs v. list_all2 (assigned (b_value G)) bs (word_bits v) \<longrightarrow>
        assigned (u8_value G) (u8_from_bits_le G bs) v) \<and>
     (\<forall>x v y w. assigned (u8_value G) x v \<longrightarrow> assigned (u8_value G) y w \<longrightarrow>
        gets (assigned (u8_value G)) (u8_xor G x y) (v XOR w))"

definition r1cs_u32_ok :: "('b, 'u8, 'u32, 'f, 'fr) r1cs \<Rightarrow> bool" where
  "r1cs_u32_ok G \<longleftrightarrow>
     (\<forall>v. assigned (u32_value G) (u32_constant G v) v) \<and>
     (\<forall>v. gets (assigned (u32_value G)) (u32_new_witness G v) v) \<and>
     (\<forall>x v. assigned (u32_value G) x v \<longrightarrow>
        list_all2 (assigned (b_value G)) (u32_to_bits_le G x) (word_bits v)) \<and>
     (\<forall>bs v. list_all2 (assigned (b_value G)) bs (word_bits v) \<longrightarrow>
        assigned (u32_value G) (u32_from_bits_le G bs) v) \<and>
     (\<forall>x v y w. assigned (u32_value G) x v \<longrightarrow> assigned (u32_value G) y w \<longrightarrow>
        gets (assigned (u32_value G)) (u32_xor G x y) (v XOR w)) \<and>
     (\<forall>x v n. assigned (u32_value G) x v \<longrightarrow>
        assigned (u32_value G) (u32_rotr G x n) (word_rotr n v)) \<and>
     (\<forall>xs vs. list_all2 (assigned (u32_value G)) xs vs \<longrightarrow> 2 \<le> length vs \<longrightarrow> length vs \<le> 10 \<longrightarrow>
        gets (assigned (u32_value G)) (u32_addmany G xs) (sum_list vs))"

text \<open>The scalar field, through the canonical representative of each element, and the field
  variables.\<close>

definition fr_ok :: "('b, 'u8, 'u32, 'f, 'fr) r1cs \<Rightarrow> bool" where
  "fr_ok G \<longleftrightarrow>
     (\<forall>a. fr_into_bigint G a < FR_MODULUS) \<and>
     (\<forall>a b. fr_into_bigint G a = fr_into_bigint G b \<longrightarrow> a = b) \<and>
     fr_into_bigint G (fr_zero G) = 0 \<and> fr_into_bigint G (fr_one G) = 1 \<and>
     (\<forall>a b. fr_into_bigint G (fr_add G a b) =
        (fr_into_bigint G a + fr_into_bigint G b) mod FR_MODULUS) \<and>
     (\<forall>a b. fr_into_bigint G (fr_mul G a b) =
        (fr_into_bigint G a * fr_into_bigint G b) mod FR_MODULUS) \<and>
     (\<forall>bs. fr_into_bigint G (fr_from_le_bytes_mod_order G bs) =
        horner_sum unat 256 bs mod FR_MODULUS)"

definition r1cs_field_ok :: "('b, 'u8, 'u32, 'f, 'fr) r1cs \<Rightarrow> bool" where
  "r1cs_field_ok G \<longleftrightarrow>
     (\<forall>v. gets (assigned (f_value G)) (f_new_constant G v) v) \<and>
     (\<forall>v. gets (assigned (f_value G)) (f_new_input G v) v) \<and>
     (\<forall>x v. assigned (b_value G) x v \<longrightarrow>
        assigned (f_value G) (f_from_bool G x) (if v then fr_one G else fr_zero G)) \<and>
     (\<forall>x v y w. assigned (f_value G) x v \<longrightarrow> assigned (f_value G) y w \<longrightarrow>
        assigned (f_value G) (f_add G x y) (fr_add G v w)) \<and>
     (\<forall>x v y w. assigned (f_value G) x v \<longrightarrow> assigned (f_value G) y w \<longrightarrow>
        assigned (f_value G) (f_mul G x y) (fr_mul G v w))"

definition r1cs_ok :: "('b, 'u8, 'u32, 'f, 'fr) r1cs \<Rightarrow> bool" where
  "r1cs_ok G \<longleftrightarrow> r1cs_bits_ok G \<and> r1cs_u8_ok G \<and> r1cs_u32_ok G \<and> fr_ok G \<and> r1cs_field_ok G"

text \<open>The variables that are their own values: every operation is the operation on values.\<close>

typedef fr_rep = "{n :: nat. n < FR_MODULUS}"
  morphisms fr_nat Fr_of
  by (rule exI[of _ 0]) (simp add: FR_MODULUS_def)

definition fr_of_nat :: "nat \<Rightarrow> fr_rep" where
  "fr_of_nat n = Fr_of (n mod FR_MODULUS)"

definition r1cs_ex :: "(bool, u8, u32, fr_rep, fr_rep) r1cs" where
  "r1cs_ex = \<lparr>
     b_value = Inr, b_constant = (\<lambda>v. v), b_and = (\<lambda>x y. Inr (x \<and> y)), b_not = Not,
     u8_value = Inr, u8_constant = (\<lambda>v. v), u8_new_witness = Inr,
     u8_to_bits_le = (\<lambda>v. Inr (word_bits v)), u8_from_bits_le = horner_sum of_bool 2,
     u8_xor = (\<lambda>v w. Inr (v XOR w)),
     u32_value = Inr, u32_constant = (\<lambda>v. v), u32_new_witness = Inr,
     u32_to_bits_le = (\<lambda>v. word_bits v), u32_from_bits_le = horner_sum of_bool 2,
     u32_xor = (\<lambda>v w. Inr (v XOR w)), u32_rotr = (\<lambda>v n. word_rotr n v),
     u32_addmany = (\<lambda>vs. Inr (sum_list vs)),
     f_value = Inr, f_new_constant = Inr, f_new_input = Inr,
     f_from_bool = (\<lambda>b. fr_of_nat (of_bool b)),
     f_add = (\<lambda>v w. fr_of_nat (fr_nat v + fr_nat w)),
     f_mul = (\<lambda>v w. fr_of_nat (fr_nat v * fr_nat w)),
     fr_zero = fr_of_nat 0, fr_one = fr_of_nat 1,
     fr_add = (\<lambda>v w. fr_of_nat (fr_nat v + fr_nat w)),
     fr_mul = (\<lambda>v w. fr_of_nat (fr_nat v * fr_nat w)),
     fr_from_le_bytes_mod_order = (\<lambda>bs. fr_of_nat (horner_sum unat 256 bs)),
     fr_into_bigint = fr_nat\<rparr>"


lemma fr_nat_of_nat [simp]: "fr_nat (fr_of_nat n) = n mod FR_MODULUS"
  unfolding fr_of_nat_def by (subst Fr_of_inverse) (simp_all add: FR_MODULUS_def)

lemma horner_word_bits [simp]: "horner_sum of_bool 2 (word_bits w) = (w :: 'a::len word)"
  by (rule bit_word_eqI) (simp add: bit_horner_sum_bit_word_iff)

lemma assigned_Inr [simp]: "assigned Inr = (=)"
  by (auto simp: assigned_def fun_eq_iff)

lemma r1cs_ex_bits: "r1cs_bits_ok r1cs_ex"
  by (simp add: r1cs_bits_ok_def r1cs_ex_def)

lemma r1cs_ex_u8: "r1cs_u8_ok r1cs_ex"
  unfolding r1cs_u8_ok_def r1cs_ex_def by (simp add: list.rel_eq)

lemma r1cs_ex_u32: "r1cs_u32_ok r1cs_ex"
  unfolding r1cs_u32_ok_def r1cs_ex_def by (simp add: list.rel_eq)

lemma fr_nat_less: "fr_nat a < FR_MODULUS"
  using fr_nat[of a] by simp

lemma r1cs_ex_fr: "fr_ok r1cs_ex"
proof -
  have "1 mod FR_MODULUS = 1" by (simp add: FR_MODULUS_def)
  then show ?thesis
    unfolding fr_ok_def r1cs_ex_def by (simp add: fr_nat_less fr_nat_inject)
qed

lemma r1cs_ex_field: "r1cs_field_ok r1cs_ex"
  unfolding r1cs_field_ok_def r1cs_ex_def by simp

lemma r1cs_ex_ok: "r1cs_ok r1cs_ex"
  by (simp add: r1cs_ok_def r1cs_ex_bits r1cs_ex_u8 r1cs_ex_u32 r1cs_ex_fr r1cs_ex_field)


section \<open>The reference hash\<close>

definition Ch_ref :: "u32 \<Rightarrow> u32 \<Rightarrow> u32 \<Rightarrow> u32" where
  "Ch_ref x y z = (x AND y) XOR (NOT x AND z)"

definition Maj_ref :: "u32 \<Rightarrow> u32 \<Rightarrow> u32 \<Rightarrow> u32" where
  "Maj_ref x y z = ((x AND y) XOR (x AND z)) XOR (y AND z)"

definition Sigma0_ref :: "u32 \<Rightarrow> u32" where
  "Sigma0_ref x = (word_rotr 2 x XOR word_rotr 13 x) XOR word_rotr 22 x"

definition Sigma1_ref :: "u32 \<Rightarrow> u32" where
  "Sigma1_ref x = (word_rotr 6 x XOR word_rotr 11 x) XOR word_rotr 25 x"

definition sigma0_ref :: "u32 \<Rightarrow> u32" where
  "sigma0_ref x = (word_rotr 7 x XOR word_rotr 18 x) XOR drop_bit 3 x"

definition sigma1_ref :: "u32 \<Rightarrow> u32" where
  "sigma1_ref x = (word_rotr 17 x XOR word_rotr 19 x) XOR drop_bit 10 x"

fun schedule_ref :: "u32 list \<Rightarrow> nat \<Rightarrow> u32" where
  "schedule_ref M t = (if t < 16 then M ! t
     else sigma1_ref (schedule_ref M (t - 2)) + schedule_ref M (t - 7) +
          sigma0_ref (schedule_ref M (t - 15)) + schedule_ref M (t - 16))"

declare schedule_ref.simps [simp del]

definition round_ref :: "(nat \<Rightarrow> u32) \<Rightarrow> nat \<Rightarrow> u32 sha_vars \<Rightarrow> u32 sha_vars" where
  "round_ref W t = (\<lambda>(a, b, c, d, e, f, g, h).
     let T1 = h + Sigma1_ref e + Ch_ref e f g + SHA256_K ! t + W t;
         T2 = Sigma0_ref a + Maj_ref a b c
     in (T1 + T2, a, b, c, d + T1, e, f, g))"

definition compress_ref :: "u32 list \<Rightarrow> u32 list \<Rightarrow> u32 list" where
  "compress_ref H M = (
     case fold (round_ref (schedule_ref M)) [0..<64]
       (H ! 0, H ! 1, H ! 2, H ! 3, H ! 4, H ! 5, H ! 6, H ! 7) of
     (a, b, c, d, e, f, g, h) \<Rightarrow>
       [H ! 0 + a, H ! 1 + b, H ! 2 + c, H ! 3 + d, H ! 4 + e, H ! 5 + f, H ! 6 + g, H ! 7 + h])"

text \<open>The padded message: a one bit, the least number of zero bits that leaves room for the length
  at the end of a block, and the bit length.\<close>

definition pad_ref :: "byte list \<Rightarrow> byte list" where
  "pad_ref m = m @ [0x80] @ replicate (zeros_left (length m + 1)) 0 @ be64 (of_nat (8 * length m))"

definition block_ref :: "byte list \<Rightarrow> nat \<Rightarrow> u32 list" where
  "block_ref p b = map (\<lambda>i. be_word (take 4 (drop (64 * b + 4 * i) p))) [0..<16]"

definition sha256_state_ref :: "byte list \<Rightarrow> u32 list" where
  "sha256_state_ref m = (let p = pad_ref m in
     fold (\<lambda>b H. compress_ref H (block_ref p b)) [0..<length p div 64] SHA256_H)"

definition sha256_ref :: "byte list \<Rightarrow> byte list" where
  "sha256_ref m = concat (map be32 (sha256_state_ref m))"

section \<open>Padding\<close>

lemma pad_zeros_eq: "pad_zeros p = p @ replicate (zeros_left (length p)) 0"
proof (induction p rule: pad_zeros.induct)
  case (1 p)
  show ?case
  proof (cases "length p mod 64 = 56")
    case True
    then show ?thesis by (subst pad_zeros.simps) (simp add: zeros_left_def)
  next
    case False
    then have "pad_zeros p = pad_zeros (p @ [0])" by (subst pad_zeros.simps) simp
    with 1 False show ?thesis by (simp add: zeros_left_Suc)
  qed
qed

lemma sha256_pad_eq: "sha256_pad m = pad_ref m"
  by (simp add: sha256_pad_def pad_ref_def pad_zeros_eq Let_def mult.commute)

lemma zeros_left_mod: "(n + zeros_left n) mod 64 = 56"
proof -
  have "n = 64 * (n div 64) + n mod 64" by simp
  then have "(n + zeros_left n) mod 64 = (n mod 64 + zeros_left n) mod 64"
    by (metis mod_add_left_eq)
  then show ?thesis using mod_less_divisor[of 64 n] by (auto simp: zeros_left_def)
qed

lemma zeros_left_less: "zeros_left n < 64"
  using mod_less_divisor[of 64 n] by (auto simp: zeros_left_def)

lemma length_pad_ref: "length (pad_ref m) mod 64 = 0"
proof -
  have "length (pad_ref m) mod 64 = ((length m + 1 + zeros_left (length m + 1)) mod 64 + 8) mod 64"
    unfolding mod_add_left_eq by (simp add: pad_ref_def ac_simps)
  then show ?thesis unfolding zeros_left_mod by simp
qed

section \<open>Every gadget computes the reference\<close>

abbreviation A8 :: "('b, 'u8, 'u32, 'f, 'fr) r1cs \<Rightarrow> 'u8 \<Rightarrow> u8 \<Rightarrow> bool" where
  "A8 G \<equiv> assigned (u8_value G)"

abbreviation A32 :: "('b, 'u8, 'u32, 'f, 'fr) r1cs \<Rightarrow> 'u32 \<Rightarrow> u32 \<Rightarrow> bool" where
  "A32 G \<equiv> assigned (u32_value G)"

abbreviation AB :: "('b, 'u8, 'u32, 'f, 'fr) r1cs \<Rightarrow> 'b \<Rightarrow> bool \<Rightarrow> bool" where
  "AB G \<equiv> assigned (b_value G)"

lemma bit_laws:
  assumes "r1cs_ok G"
  shows "AB G (b_constant G v) v"
    and "AB G x v \<Longrightarrow> AB G (b_not G x) (\<not> v)"
    and "AB G x v \<Longrightarrow> AB G y w \<Longrightarrow> gets (AB G) (b_and G x y) (v \<and> w)"
  using assms by (simp_all add: r1cs_ok_def r1cs_bits_ok_def)

lemma u8_laws:
  assumes "r1cs_ok G"
  shows "A8 G (u8_constant G c) c"
    and "gets (A8 G) (u8_new_witness G c) c"
    and "A8 G x c \<Longrightarrow> gets (list_all2 (AB G)) (u8_to_bits_le G x) (word_bits c)"
    and "list_all2 (AB G) bs (word_bits c) \<Longrightarrow> A8 G (u8_from_bits_le G bs) c"
    and "A8 G x c \<Longrightarrow> A8 G y d \<Longrightarrow> gets (A8 G) (u8_xor G x y) (c XOR d)"
  using assms by (simp_all add: r1cs_ok_def r1cs_u8_ok_def)

lemma u32_laws:
  assumes "r1cs_ok G"
  shows "A32 G (u32_constant G c) c"
    and "gets (A32 G) (u32_new_witness G c) c"
    and "A32 G x c \<Longrightarrow> list_all2 (AB G) (u32_to_bits_le G x) (word_bits c)"
    and "list_all2 (AB G) bs (word_bits c) \<Longrightarrow> A32 G (u32_from_bits_le G bs) c"
    and "A32 G x c \<Longrightarrow> A32 G y d \<Longrightarrow> gets (A32 G) (u32_xor G x y) (c XOR d)"
    and "A32 G x c \<Longrightarrow> A32 G (u32_rotr G x n) (word_rotr n c)"
    and "list_all2 (A32 G) xs cs \<Longrightarrow> 2 \<le> length cs \<Longrightarrow> length cs \<le> 10 \<Longrightarrow>
      gets (A32 G) (u32_addmany G xs) (sum_list cs)"
  using assms by (simp_all add: r1cs_ok_def r1cs_u32_ok_def)

lemma shr32_value:
  assumes ok: "r1cs_ok G" and x: "A32 G x v" and n: "n < 32"
  shows "gets (A32 G) (shr32 G x n) (drop_bit n v)"
proof -
  have high: "\<not> bit v (i + n)" if "\<not> i < 32 - n" for i
    using that bit_imp_le_length[of v "i + n"] by auto
  have "list_all2 (AB G)
    (map (\<lambda>i. if i < 32 - n then u32_to_bits_le G x ! (i + n) else b_constant G False) [0..<32])
    (word_bits (drop_bit n v))"
    using u32_laws(3)[OF ok x] bit_laws(1)[OF ok, of False] high
    by (simp add: word_bits_rel bit_drop_bit_eq add.commute del: upt_rec_numeral)
  then show ?thesis using n by (simp add: shr32_def guard_def u32_laws(4)[OF ok] del: upt_rec_numeral)
qed

lemma and32_value:
  assumes ok: "r1cs_ok G" and x: "A32 G x v" and y: "A32 G y w"
  shows "gets (A32 G) (and32 G x y) (v AND w)"
proof -
  have xs: "list_all2 (AB G) (u32_to_bits_le G x) (word_bits v)" by (rule u32_laws(3)[OF ok x])
  have ys: "list_all2 (AB G) (u32_to_bits_le G y) (word_bits w)" by (rule u32_laws(3)[OF ok y])
  have "list_all2 (rel_prod (AB G) (AB G)) (zip (u32_to_bits_le G x) (u32_to_bits_le G y))
      (zip (word_bits v) (word_bits w))"
    using xs[unfolded word_bits_rel] ys[unfolded word_bits_rel]
    by (simp add: list_all2_conv_all_nth)
  then have "gets (list_all2 (AB G))
      (collect_ok (\<lambda>(ai, bi). b_and G ai bi) (zip (u32_to_bits_le G x) (u32_to_bits_le G y)))
      (map (\<lambda>(a, b). a \<and> b) (zip (word_bits v) (word_bits w)))"
    by (rule gets_collect_ok) (auto intro: bit_laws(3)[OF ok])
  also have "map (\<lambda>(a, b). a \<and> b) (zip (word_bits v) (word_bits w)) = word_bits (v AND w)"
    by (rule nth_equalityI) (auto simp: bit_and_iff)
  finally show ?thesis
    unfolding and32_def Let_def by (rule gets_rbind) (simp add: u32_laws(4)[OF ok])
qed

lemma not32_value:
  assumes ok: "r1cs_ok G" and x: "A32 G x v"
  shows "A32 G (not32 G x) (NOT v)"
proof -
  have "list_all2 (AB G) (map (b_not G) (u32_to_bits_le G x)) (word_bits (NOT v))"
    using u32_laws(3)[OF ok x]
    by (auto simp: list_all2_conv_all_nth bit_not_iff intro: bit_laws(2)[OF ok])
  then show ?thesis unfolding not32_def by (rule u32_laws(4)[OF ok])
qed

lemma choice_values:
  assumes ok: "r1cs_ok G" and x: "A32 G x u" and y: "A32 G y v" and z: "A32 G z w"
  shows "gets (A32 G) (ch G x y z) (Ch_ref u v w)"
    and "gets (A32 G) (maj G x y z) (Maj_ref u v w)"
  unfolding ch_def maj_def Ch_ref_def Maj_ref_def
  by (rule gets_rbind and32_value[OF ok] not32_value[OF ok] u32_laws(5)[OF ok] x y z | assumption)+

lemma sigma_values:
  assumes ok: "r1cs_ok G" and x: "A32 G x u"
  shows "gets (A32 G) (sigma_upper_0 G x) (Sigma0_ref u)"
    and "gets (A32 G) (sigma_upper_1 G x) (Sigma1_ref u)"
    and "gets (A32 G) (sigma_lower_0 G x) (sigma0_ref u)"
    and "gets (A32 G) (sigma_lower_1 G x) (sigma1_ref u)"
  unfolding sigma_upper_0_def sigma_upper_1_def sigma_lower_0_def sigma_lower_1_def
    Sigma0_ref_def Sigma1_ref_def sigma0_ref_def sigma1_ref_def
  by (rule gets_rbind shr32_value[OF ok] u32_laws(5,6)[OF ok] x | assumption | simp)+

text \<open>The message schedule.\<close>

lemma schedule_step_value:
  assumes ok: "r1cs_ok G" and w: "list_all2 (A32 G) w (map (schedule_ref M) [0..<i])" and i: "16 \<le> i"
  shows "gets (list_all2 (A32 G)) (schedule_step G i w) (map (schedule_ref M) [0..<Suc i])"
proof -
  have nth: "A32 G (w ! j) (schedule_ref M j)" if "j < i" for j
    using list_all2_nthD2[OF w, of j] that by simp
  have step: "schedule_ref M i = sum_list
      [sigma1_ref (schedule_ref M (i - 2)), schedule_ref M (i - 7),
       sigma0_ref (schedule_ref M (i - 15)), schedule_ref M (i - 16)]"
    using i by (subst schedule_ref.simps) (simp add: add.assoc)
  have "gets (A32 G) (u32_addmany G [s1, w ! (i - 7), s0, w ! (i - 16)]) (schedule_ref M i)"
    if "A32 G s1 (sigma1_ref (schedule_ref M (i - 2)))"
       "A32 G s0 (sigma0_ref (schedule_ref M (i - 15)))" for s0 s1
    unfolding step using that i by (intro u32_laws(7)[OF ok]) (simp_all add: nth)
  then have "gets (list_all2 (A32 G)) (schedule_step G i w)
      (map (schedule_ref M) [0..<i] @ [schedule_ref M i])"
    unfolding schedule_step_def using i
    by (intro gets_rbind[OF sigma_values(4)[OF ok nth[of "i - 2"]]]
          gets_rbind[OF sigma_values(3)[OF ok nth[of "i - 15"]]]
          gets_rbind[where R = "A32 G" and v = "schedule_ref M i"])
      (auto intro: list_all2_appendI w)
  then show ?thesis using i by simp
qed

lemma schedule_value:
  assumes ok: "r1cs_ok G" and block: "list_all2 (A32 G) block M" "length M = 16" and n: "16 \<le> n"
  shows "gets (list_all2 (A32 G))
    (fold_ok (schedule_step G) [16..<n] (map (\<lambda>i. block ! i) [0..<16])) (map (schedule_ref M) [0..<n])"
  using n
proof (induction n rule: dec_induct)
  case base
  have "map (schedule_ref M) [0..<16] = M"
    using block(2) by (auto intro!: nth_equalityI simp: schedule_ref.simps simp del: upt_rec_numeral)
  moreover have "map (\<lambda>i. block ! i) [0..<16] = block"
    using block list_all2_lengthD[OF block(1)] map_nth[of block] by (simp del: upt_rec_numeral)
  ultimately show ?case using block by (simp del: upt_rec_numeral)
next
  case (step k)
  have "[16..<Suc k] = [16..<k] @ [k]" using step.hyps by simp
  then have "fold_ok (schedule_step G) [16..<Suc k] w =
      rbind (fold_ok (schedule_step G) [16..<k] w) (\<lambda>w. rbind (schedule_step G k w) Inr)" for w
    by (simp only: fold_ok_append fold_ok.simps) (simp add: rbind_def fun_eq_iff split: sum.splits)
  moreover have "rbind r Inr = r" for r :: "'c list synth" by (cases r) simp_all
  ultimately show ?case
    using gets_rbind[OF step.IH schedule_step_value[OF ok _ step.hyps(1)]] by simp
qed

text \<open>The rounds and the compression function.\<close>

abbreviation AV :: "('b, 'u8, 'u32, 'f, 'fr) r1cs \<Rightarrow> 'u32 sha_vars \<Rightarrow> u32 sha_vars \<Rightarrow> bool" where
  "AV G \<equiv> rel_prod (A32 G) (rel_prod (A32 G) (rel_prod (A32 G) (rel_prod (A32 G)
     (rel_prod (A32 G) (rel_prod (A32 G) (rel_prod (A32 G) (A32 G)))))))"

lemma add_values:
  assumes "r1cs_ok G"
  shows "A32 G x u \<Longrightarrow> A32 G y v \<Longrightarrow> gets (A32 G) (u32_addmany G [x, y]) (u + v)"
    and "A32 G x u \<Longrightarrow> A32 G y v \<Longrightarrow> A32 G z w \<Longrightarrow> A32 G z' w' \<Longrightarrow> A32 G z'' w'' \<Longrightarrow>
      gets (A32 G) (u32_addmany G [x, y, z, z', z'']) (u + v + w + w' + w'')"
  using u32_laws(7)[OF assms, of "[x, y]" "[u, v]"]
    u32_laws(7)[OF assms, of "[x, y, z, z', z'']" "[u, v, w, w', w'']"]
  by (simp_all add: add.assoc)

lemma sha_round_value:
  assumes ok: "r1cs_ok G" and s: "AV G s t" and w: "A32 G (w ! i) (W i)"
  shows "gets (AV G) (sha_round G w i s) (round_ref W i t)"
proof -
  obtain a b c d e f g h where s_eq: "s = (a, b, c, d, e, f, g, h)" by (cases s) auto
  obtain a' b' c' d' e' f' g' h' where t_eq: "t = (a', b', c', d', e', f', g', h')" by (cases t) auto
  have vars: "A32 G a a'" "A32 G b b'" "A32 G c c'" "A32 G d d'"
    "A32 G e e'" "A32 G f f'" "A32 G g g'" "A32 G h h'"
    using s unfolding s_eq t_eq by simp_all
  show ?thesis
    unfolding s_eq t_eq sha_round_def round_ref_def Let_def prod.case
    by (rule gets_rbind sigma_values[OF ok] choice_values[OF ok] add_values[OF ok]
          u32_laws(1)[OF ok] w vars | assumption | simp add: vars)+
qed


lemma output_value:
  assumes ok: "r1cs_ok G" and nth: "\<And>j. j < 8 \<Longrightarrow> A32 G (s ! j) (t ! j)" and xy: "AV G x y"
  shows "gets (list_all2 (A32 G))
    (case x of (a, b, c, d, e, f, g, h) \<Rightarrow> collect_ok (u32_addmany G)
       [[s ! 0, a], [s ! 1, b], [s ! 2, c], [s ! 3, d], [s ! 4, e], [s ! 5, f], [s ! 6, g], [s ! 7, h]])
    (case y of (a, b, c, d, e, f, g, h) \<Rightarrow>
       [t ! 0 + a, t ! 1 + b, t ! 2 + c, t ! 3 + d, t ! 4 + e, t ! 5 + f, t ! 6 + g, t ! 7 + h])"
proof -
  obtain a b c d e f g h where x: "x = (a, b, c, d, e, f, g, h)" by (cases x) auto
  obtain a' b' c' d' e' f' g' h' where y: "y = (a', b', c', d', e', f', g', h')" by (cases y) auto
  have "gets (list_all2 (A32 G)) (collect_ok (u32_addmany G)
      [[s ! 0, a], [s ! 1, b], [s ! 2, c], [s ! 3, d], [s ! 4, e], [s ! 5, f], [s ! 6, g], [s ! 7, h]])
      (map sum_list [[t ! 0, a'], [t ! 1, b'], [t ! 2, c'], [t ! 3, d'],
       [t ! 4, e'], [t ! 5, f'], [t ! 6, g'], [t ! 7, h']])"
    by (rule gets_collect_ok[where R = "\<lambda>xs vs. length vs = 2 \<and> list_all2 (A32 G) xs vs"])
      (use xy[unfolded x y] nth in \<open>auto intro!: u32_laws(7)[OF ok]\<close>)
  then show ?thesis by (simp add: x y)
qed

lemma sha256_compress_value:
  assumes ok: "r1cs_ok G" and state: "list_all2 (A32 G) state Hs" "length Hs = 8"
    and block: "list_all2 (A32 G) block M" "length M = 16"
  shows "gets (list_all2 (A32 G)) (sha256_compress G state block) (compress_ref Hs M)"
proof -
  have nth: "A32 G (state ! j) (Hs ! j)" if "j < 8" for j
    using list_all2_nthD2[OF state(1)] that state(2) by simp
  have rounds: "gets (AV G) (fold_ok (sha_round G w) [0..<64]
      (state ! 0, state ! 1, state ! 2, state ! 3, state ! 4, state ! 5, state ! 6, state ! 7))
    (fold (round_ref (schedule_ref M)) [0..<64]
      (Hs ! 0, Hs ! 1, Hs ! 2, Hs ! 3, Hs ! 4, Hs ! 5, Hs ! 6, Hs ! 7))"
    if w: "list_all2 (A32 G) w (map (schedule_ref M) [0..<64])" for w
  proof (rule gets_fold_ok)
    fix i s t assume "i \<in> set [0..<64]" "AV G s t"
    then show "gets (AV G) (sha_round G w i s) (round_ref (schedule_ref M) i t)"
      using list_all2_nthD2[OF w, of i] by (intro sha_round_value[OF ok]) (auto simp del: upt_rec_numeral)
  qed (simp add: nth)
  show ?thesis
    unfolding sha256_compress_def compress_ref_def
    by (rule gets_rbind[OF schedule_value[OF ok block]], simp)
      (rule gets_rbind[OF rounds], assumption, rule output_value[OF ok nth], simp_all)
qed

lemma length_compress_ref [simp]: "length (compress_ref Hs M) = 8"
  by (simp add: compress_ref_def split: prod.splits)

text \<open>The loop over the blocks of a padded message, for any way of making the block variables.\<close>

lemma length_block_ref [simp]: "length (block_ref p b) = 16"
  by (simp add: block_ref_def)

lemma blocks_value:
  assumes ok: "r1cs_ok G"
    and vars: "\<And>b. b < n \<Longrightarrow> gets (list_all2 (A32 G)) (mk b) (block_ref p b)"
  shows "gets (list_all2 (A32 G))
    (fold_ok (\<lambda>b state. rbind (mk b) (\<lambda>block_vars. sha256_compress G state block_vars)) [0..<n]
      (map (u32_constant G) SHA256_H))
    (fold (\<lambda>b Hs. compress_ref Hs (block_ref p b)) [0..<n] SHA256_H)"
proof -
  let ?R = "\<lambda>s t. length t = 8 \<and> list_all2 (A32 G) s t"
  have "gets ?R (fold_ok (\<lambda>b state. rbind (mk b) (sha256_compress G state)) [0..<n]
      (map (u32_constant G) SHA256_H))
    (fold (\<lambda>b Hs. compress_ref Hs (block_ref p b)) [0..<n] SHA256_H)"
  proof (rule gets_fold_ok)
    show "?R (map (u32_constant G) SHA256_H) SHA256_H"
      by (simp add: SHA256_H_def u32_laws(1)[OF ok])
    fix b s t assume b: "b \<in> set [0..<n]" and st: "?R s t"
    have "gets (list_all2 (A32 G)) (rbind (mk b) (sha256_compress G s)) (compress_ref t (block_ref p b))"
      using b st by (intro gets_rbind[OF vars] sha256_compress_value[OF ok]) auto
    then show "gets ?R (rbind (mk b) (sha256_compress G s)) (compress_ref t (block_ref p b))"
      by (auto simp: gets_def)
  qed
  then show ?thesis by (auto simp: gets_def)
qed

lemma take_drop_block: "i < 16 \<Longrightarrow>
    take 4 (drop (4 * i) (take 64 (drop (b * 64) p))) = take 4 (drop (64 * b + 4 * i) p)"
  by (simp add: drop_take ac_simps)

lemma sha256_gadget_value:
  assumes ok: "r1cs_ok G"
  shows "gets (list_all2 (A32 G)) (sha256_gadget G msg) (sha256_state_ref msg)"
proof -
  have "parse_block_native (take 64 (drop (b * 64) p)) = block_ref p b" for b p
    unfolding parse_block_native_def block_ref_def
    by (rule map_cong) (auto simp: take_drop_block simp del: upt_rec_numeral)
  moreover have "gets (list_all2 (A32 G)) (collect_ok (u32_new_witness G) ws) ws" for ws
    using gets_collect_ok[of "(=)" ws ws "A32 G" "u32_new_witness G" "\<lambda>w. w"]
    by (simp add: list.rel_eq u32_laws(2)[OF ok])
  ultimately show ?thesis
    unfolding sha256_gadget_def sha256_state_ref_def Let_def sha256_pad_eq
    by (intro blocks_value[OF ok]) simp
qed

lemma length_sha256_state_ref [simp]: "length (sha256_state_ref m) = 8"
proof -
  have "length (fold (\<lambda>b Hs. compress_ref Hs (block_ref p b)) bs Hs) = 8" if "length Hs = 8" for p bs Hs
    using that by (induction bs arbitrary: Hs) simp_all
  then show ?thesis by (simp add: sha256_state_ref_def Let_def SHA256_H_def)
qed

lemma length_sha256_ref [simp]: "length (sha256_ref m) = 32"
proof -
  have "sum_list (map (\<lambda>w. 4) (xs :: u32 list)) = 4 * length xs" for xs by (induction xs) simp_all
  then show ?thesis by (simp add: sha256_ref_def length_concat comp_def)
qed

lemma state_to_bytes_value:
  assumes "list_all2 (A32 G) s vs"
  shows "state_to_bytes G s = Inr (concat (map be32 vs))"
proof -
  have "collect_ok (u32_value G) s = Inr vs"
    using assms by (simp add: collect_ok_eq_Inr assigned_def[abs_def])
  then show ?thesis by (simp add: state_to_bytes_def)
qed


text \<open>Bytes and words, bit by bit.\<close>

lemma word_bits_be_word:
  "word_bits (be_word [c0, c1, c2, c3] :: u32) =
     word_bits c3 @ word_bits c2 @ word_bits c1 @ word_bits (c0 :: byte)"
proof (rule nth_equalityI)
  fix i assume "i < length (word_bits (be_word [c0, c1, c2, c3] :: u32))"
  then have i: "i < 32" by simp
  have low: "bit c j \<Longrightarrow> j < 8" for c :: byte and j using bit_imp_le_length[of c j] by simp
  have "bit (be_word [c0, c1, c2, c3] :: u32) i \<longleftrightarrow>
     (if i < 8 then bit c3 i else if i < 16 then bit c2 (i - 8)
      else if i < 24 then bit c1 (i - 16) else bit c0 (i - 24))"
    using i low by (auto simp: be_word_def bit_simps dest: low)
  then show "word_bits (be_word [c0, c1, c2, c3] :: u32) ! i =
     (word_bits c3 @ word_bits c2 @ word_bits c1 @ word_bits c0) ! i"
    using i by (auto simp: nth_append)
qed simp

lemma word_from_byte_vars_value:
  assumes ok: "r1cs_ok G" and vars: "list_all2 (A8 G) vs cs" and w: "4 * w + 3 < length cs"
  shows "gets (A32 G) (word_from_byte_vars G vs w) (be_word (take 4 (drop (4 * w) cs)))"
proof -
  have nth: "A8 G (vs ! j) (cs ! j)" if "j < length cs" for j
    using list_all2_nthD2[OF vars that] .
  have four: "take 4 (drop (4 * w) cs) = [cs ! (4 * w), cs ! (4 * w + 1), cs ! (4 * w + 2), cs ! (4 * w + 3)]"
    using w by (intro nth_equalityI) (auto simp: less_Suc_eq numeral_eq_Suc)
  have fin: "gets (A32 G) (Inr (u32_from_bits_le G (b3 @ b2 @ b1 @ b0)))
      (be_word (take 4 (drop (4 * w) cs)))"
    if "list_all2 (AB G) b0 (word_bits (cs ! (4 * w)))"
       "list_all2 (AB G) b1 (word_bits (cs ! (4 * w + 1)))"
       "list_all2 (AB G) b2 (word_bits (cs ! (4 * w + 2)))"
       "list_all2 (AB G) b3 (word_bits (cs ! (4 * w + 3)))" for b0 b1 b2 b3
    using that unfolding four gets_Inr
    by (intro u32_laws(4)[OF ok]) (simp only: word_bits_be_word list_all2_appendI)
  show ?thesis
    unfolding word_from_byte_vars_def
    by (rule gets_rbind[OF u8_laws(3)[OF ok nth]] fin | assumption | use w in simp)+
qed

lemma byte_of_word_value:
  assumes ok: "r1cs_ok G" and x: "A32 G x v" and k: "k < 4"
  shows "A8 G (u8_from_bits_le G (map (\<lambda>bit. u32_to_bits_le G x ! (k * 8 + bit)) [0..<8]))
    (ucast (drop_bit (8 * k) v))"
proof (rule u8_laws(4)[OF ok])
  have "k * 8 + i < 32" if "i < 8" for i using that k by simp
  then show "list_all2 (AB G) (map (\<lambda>bit. u32_to_bits_le G x ! (k * 8 + bit)) [0..<8])
      (word_bits (ucast (drop_bit (8 * k) v) :: byte))"
    using u32_laws(3)[OF ok x]
    by (simp add: word_bits_rel bit_ucast_iff bit_drop_bit_eq mult.commute del: upt_rec_numeral)
qed

lemma be32_eq: "be32 w = [ucast (drop_bit (8 * 3) w), ucast (drop_bit (8 * 2) w),
    ucast (drop_bit (8 * 1) w), ucast (drop_bit (8 * 0) w)]"
  by (simp add: be_bytes_def upt_rec)

lemma state_to_byte_vars_value:
  assumes ok: "r1cs_ok G" and s: "list_all2 (A32 G) s vs"
  shows "list_all2 (A8 G) (state_to_byte_vars G s) (concat (map be32 vs))"
  using s
proof induction
  case (Cons x xs v vs)
  have "list_all2 (A8 G) (map (\<lambda>byte_idx. u8_from_bits_le G
      (map (\<lambda>bit. u32_to_bits_le G x ! (byte_idx * 8 + bit)) [0..<8])) [3, 2, 1, 0]) (be32 v)"
    unfolding be32_eq list.map
    by (intro list.rel_intros byte_of_word_value[OF ok Cons.hyps(1)]) simp_all
  from list_all2_appendI[OF this Cons.IH] show ?case
    unfolding state_to_byte_vars_def Let_def list.map concat.simps .
qed (simp add: state_to_byte_vars_def)


lemma values_or_zero:
  "list_all2 (A8 G) vs cs \<Longrightarrow> map (value_or_zero G) vs = cs"
  by (induction rule: list_all2_induct) (auto simp: value_or_zero_def assigned_def)

text \<open>The padded variables: the inputs, then constants for the padding.\<close>

lemma padded_vars_value:
  assumes ok: "r1cs_ok G" and vs: "list_all2 (A8 G) vs cs"
  shows "list_all2 (A8 G)
    (vs @ map (\<lambda>i. u8_constant G (pad_ref cs ! i)) [length vs..<length (pad_ref cs)]) (pad_ref cs)"
proof -
  have len: "length vs = length cs" by (rule list_all2_lengthD[OF vs])
  define rest where "rest = [0x80] @ replicate (zeros_left (length cs + 1)) 0 @ be64 (of_nat (8 * length cs))"
  have split: "pad_ref cs = cs @ rest" by (simp add: pad_ref_def rest_def)
  have "map (\<lambda>i. u8_constant G (pad_ref cs ! i)) [length vs..<length (pad_ref cs)] =
      map (u8_constant G) rest"
    by (rule nth_equalityI) (auto simp: split len nth_append)
  moreover have "list_all2 (A8 G) (map (u8_constant G) rest) rest"
    by (simp add: list_all2_conv_all_nth u8_laws(1)[OF ok])
  ultimately show ?thesis using vs by (simp only: split list_all2_appendI)
qed

lemma block_vars_value:
  assumes ok: "r1cs_ok G" and pv: "list_all2 (A8 G) pv p" and b: "b < length p div 64"
  shows "gets (list_all2 (A32 G))
    (collect_ok (word_from_byte_vars G (take 64 (drop (b * 64) pv))) [0..<16]) (block_ref p b)"
proof -
  have len: "b * 64 + 64 \<le> length p" using b by linarith
  let ?c = "take 64 (drop (b * 64) p)"
  have cv: "list_all2 (A8 G) (take 64 (drop (b * 64) pv)) ?c"
    using pv by (intro list_all2_takeI list_all2_dropI)
  have "gets (list_all2 (A32 G))
      (collect_ok (word_from_byte_vars G (take 64 (drop (b * 64) pv))) [0..<16])
      (map (\<lambda>i. be_word (take 4 (drop (4 * i) ?c))) [0..<16])"
    by (rule gets_collect_ok[where R = "\<lambda>i j. i = j \<and> i < 16"])
      (use len in \<open>auto simp: list_all2_same intro!: word_from_byte_vars_value[OF ok cv]
         simp del: upt_rec_numeral\<close>)
  also have "map (\<lambda>i. be_word (take 4 (drop (4 * i) ?c))) [0..<16] = block_ref p b"
    unfolding block_ref_def
    by (rule map_cong) (auto simp: take_drop_block simp del: upt_rec_numeral)
  finally show ?thesis .
qed

lemma sha256_from_byte_vars_value:
  assumes ok: "r1cs_ok G" and vs: "list_all2 (A8 G) vs cs"
  shows "gets (list_all2 (A8 G)) (sha256_from_byte_vars G vs) (sha256_ref cs)"
  unfolding sha256_from_byte_vars_def Let_def values_or_zero[OF vs] sha256_pad_eq sha256_ref_def
    sha256_state_ref_def
  by (rule gets_rbind[OF blocks_value[OF ok block_vars_value[OF ok padded_vars_value[OF ok vs]]]])
    (simp_all add: state_to_byte_vars_value[OF ok])

text \<open>Both entry points agree, on every input, with the reference hash.\<close>

lemma sha256_gadget_bytes:
  assumes "r1cs_ok G"
  shows "rbind (sha256_gadget G msg) (state_to_bytes G) = Inr (sha256_ref msg)"
  using sha256_gadget_value[OF assms, of msg]
  by (auto simp: gets_def sha256_ref_def state_to_bytes_value)


end
