(* ===== verification/Tls12_Hmac.thy ===== *)
theory Tls12_Hmac
  imports Core_Types
begin

text \<open>
  The TLS 1.2 pseudo-random function and the two-party MAC key of \<open>zk/src/tls12_hmac.rs\<close>.

  The \<open>hmac\<close> crate is the parameter \<open>hm\<close>, from a key and a message to the 32-byte tag, and
  \<open>hmac_ok\<close> says that it computes the HMAC of RFC 2104 over the parameter \<open>H\<close>.  The lemmas show
  that the output loop ends, that it produces the stream of RFC 5246 section 5 cut to the requested
  length, and that splitting a MAC key is undone by combining the shares.
\<close>

type_synonym hmac_fun = "byte list \<Rightarrow> byte list \<Rightarrow> bytes32"
type_synonym bytes48 = "384 word"

abbreviation arr48 :: "bytes48 \<Rightarrow> byte list" where "arr48 \<equiv> be_bytes 48"

section \<open>The pseudo-random function\<close>

text \<open>The \<open>while\<close> loop: \<open>a\<close> and \<open>output\<close> are its variables.\<close>

function tls_prf_loop :: "hmac_fun \<Rightarrow> byte list \<Rightarrow> byte list \<Rightarrow> nat \<Rightarrow> byte list \<Rightarrow> byte list \<Rightarrow>
    byte list" where
  "tls_prf_loop hm secret label_seed output_len a output =
     (if length output < output_len then
        let a' = arr32 (hm secret a);
            block = arr32 (hm secret (a' @ label_seed))
        in tls_prf_loop hm secret label_seed output_len a' (output @ block)
      else output)"
  by pat_completeness auto

termination
  by (relation "measure (\<lambda>(hm, secret, ls, n, a, out). n - length out)") auto

declare tls_prf_loop.simps [simp del]

definition tls_prf_sha256 :: "hmac_fun \<Rightarrow> byte list \<Rightarrow> byte list \<Rightarrow> byte list \<Rightarrow> nat \<Rightarrow> byte list" where
  "tls_prf_sha256 hm secret label seed output_len = (
     let label_seed = label @ seed in
     take output_len (tls_prf_loop hm secret label_seed output_len label_seed []))"

definition tls12_key_expansion :: "hmac_fun \<Rightarrow> byte list \<Rightarrow> bytes32 \<Rightarrow> bytes32 \<Rightarrow> byte list" where
  "tls12_key_expansion hm master_secret client_random server_random =
     tls_prf_sha256 hm master_secret (str_bytes ''key expansion'')
       (arr32 server_random @ arr32 client_random) 128"

section \<open>The two-party MAC key\<close>

datatype ProverMacKeyShare = ProverMacKeyShare bytes32
datatype VerifierMacKeyShare = VerifierMacKeyShare bytes32
datatype MacKey = MacKey bytes32
datatype PreMasterSecret = PreMasterSecret bytes48

text \<open>\<open>p_share\<close> is the 32 bytes drawn from the random generator.\<close>

fun split_mac_key :: "MacKey \<Rightarrow> bytes32 \<Rightarrow> ProverMacKeyShare \<times> VerifierMacKeyShare" where
  "split_mac_key (MacKey k) p_share = (ProverMacKeyShare p_share, VerifierMacKeyShare (k XOR p_share))"

fun combine_mac_key_shares :: "ProverMacKeyShare \<Rightarrow> VerifierMacKeyShare \<Rightarrow> MacKey" where
  "combine_mac_key_shares (ProverMacKeyShare p) (VerifierMacKeyShare v) = MacKey (p XOR v)"

fun derive_k_mac_from_pms :: "hmac_fun \<Rightarrow> PreMasterSecret \<Rightarrow> bytes32 \<Rightarrow> bytes32 \<Rightarrow> MacKey" where
  "derive_k_mac_from_pms hm (PreMasterSecret pms) client_random server_random = (
     let cr_sr = arr32 client_random @ arr32 server_random;
         master_secret = tls_prf_sha256 hm (arr48 pms) (str_bytes ''master secret'') cr_sr 48;
         key_block = tls12_key_expansion hm master_secret client_random server_random
     in MacKey (be_word (take 32 key_block)))"

section \<open>The references\<close>

text \<open>HMAC with a block of 64 bytes (RFC 2104), and the stream \<open>P_hash\<close> (RFC 5246).\<close>

definition hmac_key :: "sha \<Rightarrow> byte list \<Rightarrow> byte list" where
  "hmac_key H k = (let k0 = (if length k > 64 then arr32 (H k) else k) in
     k0 @ replicate (64 - length k0) 0)"

definition hmac_ref :: "sha \<Rightarrow> hmac_fun" where
  "hmac_ref H k d = (let k0 = hmac_key H k in
     H (map (\<lambda>b. b XOR 0x5c) k0 @ arr32 (H (map (\<lambda>b. b XOR 0x36) k0 @ d))))"

definition hmac_ok :: "sha \<Rightarrow> hmac_fun \<Rightarrow> bool" where
  "hmac_ok H hm \<longleftrightarrow> (\<forall>k d. hm k d = hmac_ref H k d)"

primrec A_ref :: "hmac_fun \<Rightarrow> byte list \<Rightarrow> byte list \<Rightarrow> nat \<Rightarrow> byte list" where
  "A_ref hm secret seed 0 = seed"
| "A_ref hm secret seed (Suc i) = arr32 (hm secret (A_ref hm secret seed i))"

definition P_stream :: "hmac_fun \<Rightarrow> byte list \<Rightarrow> byte list \<Rightarrow> nat \<Rightarrow> byte list" where
  "P_stream hm secret seed blocks =
     concat (map (\<lambda>i. arr32 (hm secret (A_ref hm secret seed (Suc i) @ seed))) [0..<blocks])"

definition PRF_ref :: "hmac_fun \<Rightarrow> byte list \<Rightarrow> byte list \<Rightarrow> byte list \<Rightarrow> nat \<Rightarrow> byte list" where
  "PRF_ref hm secret label seed n = take n (P_stream hm secret (label @ seed) ((n + 31) div 32))"

lemma length_P_stream [simp]: "length (P_stream hm secret seed k) = 32 * k"
  by (induction k) (simp_all add: P_stream_def)

lemma P_stream_Suc: "P_stream hm secret seed (Suc k) =
    P_stream hm secret seed k @ arr32 (hm secret (A_ref hm secret seed (Suc k) @ seed))"
  by (simp add: P_stream_def)

lemma take_P_stream:
  "n \<le> 32 * k \<Longrightarrow> k \<le> m \<Longrightarrow> take n (P_stream hm secret seed m) = take n (P_stream hm secret seed k)"
proof (induction m)
  case (Suc m)
  then show ?case by (cases "k = Suc m") (simp_all add: P_stream_Suc)
qed simp

text \<open>The loop computes the stream block by block.\<close>

lemma tls_prf_loop_stream:
  assumes "a = A_ref hm secret ls k" "out = P_stream hm secret ls k"
  shows "\<exists>m \<ge> k. n \<le> 32 * m \<and> (m = k \<or> 32 * m < n + 32) \<and>
    tls_prf_loop hm secret ls n a out = P_stream hm secret ls m"
  using assms
proof (induction hm secret ls n a out arbitrary: k rule: tls_prf_loop.induct)
  case (1 hm secret ls n a out)
  show ?case
  proof (cases "length out < n")
    case True
    let ?a = "arr32 (hm secret a)"
    have step: "tls_prf_loop hm secret ls n a out =
        tls_prf_loop hm secret ls n ?a (out @ arr32 (hm secret (?a @ ls)))"
      using True by (subst tls_prf_loop.simps) (simp add: Let_def)
    obtain m where "m \<ge> Suc k" "n \<le> 32 * m" "m = Suc k \<or> 32 * m < n + 32"
        "tls_prf_loop hm secret ls n ?a (out @ arr32 (hm secret (?a @ ls))) = P_stream hm secret ls m"
      using "1.IH"[OF True, of ?a "arr32 (hm secret (?a @ ls))" "Suc k"]
      by (auto simp: "1.prems" P_stream_Suc)
    then show ?thesis
      unfolding step using True "1.prems" by (intro exI[of _ m]) auto
  next
    case False
    then have "tls_prf_loop hm secret ls n a out = out" by (subst tls_prf_loop.simps) simp
    with False "1.prems" show ?thesis by (intro exI[of _ k]) simp
  qed
qed

lemma tls_prf_loop_eq: "tls_prf_loop hm secret ls n ls [] = P_stream hm secret ls ((n + 31) div 32)"
proof -
  obtain m where m: "n \<le> 32 * m" "m = 0 \<or> 32 * m < n + 32" "tls_prf_loop hm secret ls n ls [] = P_stream hm secret ls m"
    using tls_prf_loop_stream[of ls hm secret ls 0 "[]" n] by (auto simp: P_stream_def)
  then have "(n + 31) div 32 = m" by auto
  with m show ?thesis by simp
qed

lemma tls_prf_sha256_eq: "tls_prf_sha256 hm secret label seed n = PRF_ref hm secret label seed n"
  by (simp add: tls_prf_sha256_def PRF_ref_def Let_def tls_prf_loop_eq)

lemma length_tls_prf_sha256 [simp]: "length (tls_prf_sha256 hm secret label seed n) = n"
  by (simp add: tls_prf_sha256_eq PRF_ref_def)

text \<open>A shorter output is a prefix of a longer one.\<close>

lemma tls_prf_prefix:
  assumes "k \<le> n"
  shows "take k (tls_prf_sha256 hm secret label seed n) = tls_prf_sha256 hm secret label seed k"
proof -
  have "take k (P_stream hm secret (label @ seed) ((n + 31) div 32)) =
      take k (P_stream hm secret (label @ seed) ((k + 31) div 32))"
    using assms by (intro take_P_stream) auto
  with assms show ?thesis by (simp add: tls_prf_sha256_eq PRF_ref_def min_absorb1)
qed

text \<open>C21. The pseudo-random function returns for every requested length.  Its loop stops after exactly
  as many blocks as the length needs, having computed the stream of RFC 5246 section 5; the function
  returns as many bytes as requested, and a shorter request gives a prefix of a longer one.\<close>

theorem tls_prf_returns:
  "tls_prf_loop hm secret (label @ seed) n (label @ seed) [] = P_stream hm secret (label @ seed) ((n + 31) div 32) \<and>
   length (tls_prf_sha256 hm secret label seed n) = n \<and>
   take k (tls_prf_sha256 hm secret label seed n) = tls_prf_sha256 hm secret label seed (min k n)"
  using tls_prf_prefix[of k n hm secret label seed] by (cases "k \<le> n") (simp_all add: tls_prf_loop_eq)

end
