(* ===== verification/Hmac_Gadget.thy ===== *)
theory Hmac_Gadget
  imports Sha256_Gadget Tls12_Hmac
begin

text \<open>
  The HMAC and TLS-PRF gadgets of \<open>zk/src/hmac_sha256_gadget.rs\<close>: the variant over native bytes,
  and the constrained variant over byte variables, which the TLS-PRF circuit uses.

  The constraint system \<open>cs\<close> numbers its byte witnesses.  A function \<open>w\<close> says which value each of them is assigned:
  \<open>w n b\<close> is the value of witness \<open>n\<close>, for which the code supplies \<open>b\<close>.  Honest synthesis assigns what the code supplies;
  whoever makes a proof may assign anything else.  A gadget that allocates witnesses takes \<open>w\<close> and the number of
  the next witness, and returns the number after its last one, so that no two allocations share a witness.

  The lemmas show that both variants compute, on the values of their inputs, the function that
  \<open>Tls12_Hmac\<close> computes natively.
\<close>

section \<open>Witnesses and their assignment\<close>

type_synonym witness_fun = "nat \<Rightarrow> byte \<Rightarrow> byte"

definition honest :: witness_fun where
  "honest n b = b"

definition assigned_bytes :: "witness_fun \<Rightarrow> nat \<Rightarrow> byte list \<Rightarrow> byte list" where
  "assigned_bytes w n bs = map (\<lambda>(i, b). w i b) (enumerate n bs)"

definition new_witness_bytes :: "('b, 'u8, 'u32, 'f, 'fr) r1cs \<Rightarrow> witness_fun \<Rightarrow> nat \<Rightarrow> byte list \<Rightarrow>
    ('u8 list \<times> nat) synth" where
  "new_witness_bytes G w n bs =
     rbind (collect_ok (u8_new_witness G) (assigned_bytes w n bs)) (\<lambda>vars. Inr (vars, n + length bs))"

section \<open>The gadgets, in source order\<close>

definition hmac_sha256_gadget :: "sha \<Rightarrow> ('b, 'u8, 'u32, 'f, 'fr) r1cs \<Rightarrow> byte list \<Rightarrow> byte list \<Rightarrow>
    byte list synth" where
  "hmac_sha256_gadget H G key data = (
     let k_block = (if length key > 64 then arr32 (H key) @ replicate 32 0
                    else key @ replicate (64 - length key) 0);
         ipad_key = map (\<lambda>b. b XOR 0x36) k_block;
         opad_key = map (\<lambda>b. b XOR 0x5c) k_block
     in rbind (sha256_gadget G (ipad_key @ data)) (\<lambda>inner_state.
        rbind (state_to_bytes G inner_state) (\<lambda>inner_bytes.
        rbind (sha256_gadget G (opad_key @ inner_bytes)) (\<lambda>outer_state.
          state_to_bytes G outer_state))))"

definition hmac_sha256_gadget_constrained :: "('b, 'u8, 'u32, 'f, 'fr) r1cs \<Rightarrow> 'u8 list \<Rightarrow> 'u8 list \<Rightarrow>
    'u8 list synth" where
  "hmac_sha256_gadget_constrained G key_vars data_vars = (
     if length key_vars > 64 then Inl (Synthesis AssignmentMissing)
     else let k_padded = key_vars @ replicate (64 - length key_vars) (u8_constant G 0) in
       rbind (collect_ok (\<lambda>b. u8_xor G b (u8_constant G 0x36)) k_padded) (\<lambda>ipad_key.
       rbind (collect_ok (\<lambda>b. u8_xor G b (u8_constant G 0x5c)) k_padded) (\<lambda>opad_key.
       rbind (sha256_from_byte_vars G (ipad_key @ data_vars)) (\<lambda>inner_hash.
         sha256_from_byte_vars G (opad_key @ inner_hash)))))"

lemma length_hmac_constrained: "hmac_sha256_gadget_constrained G k d = Inr t \<Longrightarrow> length t = 32"
  by (auto simp: hmac_sha256_gadget_constrained_def Let_def rbind_eq_Inr split: if_splits
      dest: length_sha256_from_byte_vars)

lemma length_hmac_gadget: "hmac_sha256_gadget H G k d = Inr t \<Longrightarrow> length t = 32"
  by (auto simp: hmac_sha256_gadget_def Let_def rbind_eq_Inr
      dest!: length_sha256_gadget length_state_to_bytes)

function prf_constrained_loop :: "('b, 'u8, 'u32, 'f, 'fr) r1cs \<Rightarrow> 'u8 list \<Rightarrow> 'u8 list \<Rightarrow> nat \<Rightarrow>
    'u8 list \<Rightarrow> 'u8 list \<Rightarrow> 'u8 list synth" where
  "prf_constrained_loop G secret_vars label_and_seed_vars output_len a_prev output =
     (if length output < output_len then
        rbind (hmac_sha256_gadget_constrained G secret_vars a_prev) (\<lambda>a_i.
        rbind (hmac_sha256_gadget_constrained G secret_vars (a_i @ label_and_seed_vars)) (\<lambda>block_out.
          prf_constrained_loop G secret_vars label_and_seed_vars output_len a_i (output @ block_out)))
      else Inr output)"
  by pat_completeness auto

termination
  by (relation "measure (\<lambda>(G, s, ls, n, a, out). n - length out)")
    (auto dest: length_hmac_constrained)

declare prf_constrained_loop.simps [simp del]

definition tls_prf_p_sha256_constrained :: "('b, 'u8, 'u32, 'f, 'fr) r1cs \<Rightarrow> 'u8 list \<Rightarrow> 'u8 list \<Rightarrow>
    nat \<Rightarrow> 'u8 list synth" where
  "tls_prf_p_sha256_constrained G secret_vars label_and_seed_vars output_len =
     rbind (prf_constrained_loop G secret_vars label_and_seed_vars output_len label_and_seed_vars [])
       (\<lambda>output. Inr (take output_len output))"

definition tls12_master_secret_constrained :: "('b, 'u8, 'u32, 'f, 'fr) r1cs \<Rightarrow> witness_fun \<Rightarrow> nat \<Rightarrow> 'u8 list \<Rightarrow>
    bytes32 \<Rightarrow> bytes32 \<Rightarrow> ('u8 list \<times> nat) synth" where
  "tls12_master_secret_constrained G w n pms_vars client_random server_random = (
     let label_vars = map (u8_constant G) (str_bytes ''master secret'') in
     rbind (new_witness_bytes G w n (arr32 client_random)) (\<lambda>(cr_vars, n).
     rbind (new_witness_bytes G w n (arr32 server_random)) (\<lambda>(sr_vars, n).
     rbind (tls_prf_p_sha256_constrained G pms_vars (label_vars @ cr_vars @ sr_vars) 48) (\<lambda>ms_vars.
       Inr (ms_vars, n)))))"

definition tls12_key_expansion_constrained :: "('b, 'u8, 'u32, 'f, 'fr) r1cs \<Rightarrow> witness_fun \<Rightarrow> nat \<Rightarrow> 'u8 list \<Rightarrow>
    bytes32 \<Rightarrow> bytes32 \<Rightarrow> ('u8 list \<times> nat) synth" where
  "tls12_key_expansion_constrained G w n ms_vars client_random server_random = (
     let label_vars = map (u8_constant G) (str_bytes ''key expansion'') in
     rbind (new_witness_bytes G w n (arr32 server_random)) (\<lambda>(sr_vars, n).
     rbind (new_witness_bytes G w n (arr32 client_random)) (\<lambda>(cr_vars, n).
     rbind (tls_prf_p_sha256_constrained G ms_vars (label_vars @ sr_vars @ cr_vars) 96) (\<lambda>key_block_vars.
       Inr (key_block_vars, n)))))"

function prf_gadget_loop :: "sha \<Rightarrow> ('b, 'u8, 'u32, 'f, 'fr) r1cs \<Rightarrow> byte list \<Rightarrow> byte list \<Rightarrow> nat \<Rightarrow>
    byte list \<Rightarrow> byte list \<Rightarrow> byte list synth" where
  "prf_gadget_loop H G secret label_and_seed output_len a_prev output =
     (if length output < output_len then
        rbind (hmac_sha256_gadget H G secret a_prev) (\<lambda>a_i.
        rbind (hmac_sha256_gadget H G secret (a_i @ label_and_seed)) (\<lambda>block_out.
          prf_gadget_loop H G secret label_and_seed output_len a_i (output @ block_out)))
      else Inr output)"
  by pat_completeness auto

termination
  by (relation "measure (\<lambda>(H, G, s, ls, n, a, out). n - length out)")
    (auto dest: length_hmac_gadget)

declare prf_gadget_loop.simps [simp del]

definition tls_prf_p_sha256_gadget :: "sha \<Rightarrow> ('b, 'u8, 'u32, 'f, 'fr) r1cs \<Rightarrow> byte list \<Rightarrow> byte list \<Rightarrow>
    nat \<Rightarrow> byte list synth" where
  "tls_prf_p_sha256_gadget H G secret label_and_seed output_len =
     rbind (prf_gadget_loop H G secret label_and_seed output_len label_and_seed [])
       (\<lambda>output. Inr (take output_len output))"

definition tls12_master_secret_gadget :: "sha \<Rightarrow> ('b, 'u8, 'u32, 'f, 'fr) r1cs \<Rightarrow> byte list \<Rightarrow> bytes32 \<Rightarrow>
    bytes32 \<Rightarrow> byte list synth" where
  "tls12_master_secret_gadget H G pre_master_secret client_random server_random =
     tls_prf_p_sha256_gadget H G pre_master_secret
       (str_bytes ''master secret'' @ arr32 client_random @ arr32 server_random) 48"

record Tls12KeyMaterial =
  client_write_mac_key :: bytes32
  server_write_mac_key :: bytes32
  client_write_key :: bytes16
  server_write_key :: bytes16

definition tls12_key_expansion_gadget :: "sha \<Rightarrow> ('b, 'u8, 'u32, 'f, 'fr) r1cs \<Rightarrow> byte list \<Rightarrow> bytes32 \<Rightarrow>
    bytes32 \<Rightarrow> Tls12KeyMaterial synth" where
  "tls12_key_expansion_gadget H G master_secret client_random server_random =
     rbind (tls_prf_p_sha256_gadget H G master_secret
       (str_bytes ''key expansion'' @ arr32 server_random @ arr32 client_random) 96) (\<lambda>key_block.
     Inr \<lparr> client_write_mac_key = be_word (take 32 key_block),
           server_write_mac_key = be_word (take 32 (drop 32 key_block)),
           client_write_key = be_word (take 16 (drop 64 key_block)),
           server_write_key = be_word (take 16 (drop 80 key_block)) \<rparr>)"

section \<open>The gadgets compute the native functions\<close>

text \<open>The \<open>sha2\<close> crate computes SHA-256.\<close>

definition sha_ok :: "sha \<Rightarrow> bool" where
  "sha_ok H \<longleftrightarrow> (\<forall>m. H m = be_word (sha256_ref m))"

lemma arr32_sha: "sha_ok H \<Longrightarrow> arr32 (H m) = sha256_ref m"
  by (simp add: sha_ok_def be_bytes_be_word)

lemma hmac_key_eq: "hmac_key H key =
    (if length key > 64 then arr32 (H key) @ replicate 32 0 else key @ replicate (64 - length key) 0)"
  by (simp add: hmac_key_def Let_def)

lemma hmac_gadget_value:
  assumes "r1cs_ok G" "sha_ok H"
  shows "hmac_sha256_gadget H G key data = Inr (arr32 (hmac_ref H key data))"
proof -
  have two: "rbind (sha256_gadget G m) (\<lambda>s. rbind (state_to_bytes G s) f) = f (sha256_ref m)" for m f
  proof -
    have "rbind (sha256_gadget G m) (\<lambda>s. rbind (state_to_bytes G s) f) =
        rbind (rbind (sha256_gadget G m) (state_to_bytes G)) f"
      by (cases "sha256_gadget G m") simp_all
    then show ?thesis by (simp add: sha256_gadget_bytes[OF assms(1)])
  qed
  show ?thesis
    unfolding hmac_sha256_gadget_def hmac_ref_def hmac_key_eq[symmetric] Let_def two
    by (simp add: sha256_gadget_bytes[OF assms(1)] arr32_sha[OF assms(2)])
qed

lemma hmac_constrained_value:
  assumes ok: "r1cs_ok G" and H: "sha_ok H"
    and k: "list_all2 (A8 G) kv key" "length key \<le> 64" and d: "list_all2 (A8 G) dv data"
  shows "gets (list_all2 (A8 G)) (hmac_sha256_gadget_constrained G kv dv) (arr32 (hmac_ref H key data))"
proof -
  let ?kp = "kv @ replicate (64 - length kv) (u8_constant G 0)"
  have len: "length kv = length key" by (rule list_all2_lengthD[OF k(1)])
  have pad: "list_all2 (A8 G) ?kp (hmac_key H key)"
    unfolding len hmac_key_eq using k
    by (auto simp: list_all2_conv_all_nth nth_append u8_laws(1)[OF ok])
  have xor: "gets (list_all2 (A8 G)) (collect_ok (\<lambda>b. u8_xor G b (u8_constant G c)) ?kp)
      (map (\<lambda>b. b XOR c) (hmac_key H key))" for c
    by (rule gets_collect_ok[OF pad]) (rule u8_laws(5)[OF ok _ u8_laws(1)[OF ok]])
  have key: "\<not> 64 < length kv" using k len by simp
  show ?thesis
    unfolding hmac_sha256_gadget_constrained_def hmac_ref_def Let_def if_not_P[OF key]
      arr32_sha[OF H]
    by (rule gets_rbind[OF xor] | rule gets_rbind[OF sha256_from_byte_vars_value[OF ok]] |
        rule sha256_from_byte_vars_value[OF ok] | rule list_all2_appendI | assumption | rule d)+
qed

lemma prf_constrained_loop_value:
  assumes ok: "r1cs_ok G" and H: "sha_ok H" and "hmac_ok H hm"
    "list_all2 (A8 G) sv secret" "length secret \<le> 64" "list_all2 (A8 G) lv ls"
    "list_all2 (A8 G) av a" "list_all2 (A8 G) ov out"
  shows "gets (list_all2 (A8 G)) (prf_constrained_loop G sv lv n av ov)
    (tls_prf_loop hm secret ls n a out)"
  using assms(3-)
proof (induction hm secret ls n a out arbitrary: av ov rule: tls_prf_loop.induct)
  case (1 hm secret ls n a out)
  have len: "length ov = length out" by (rule list_all2_lengthD[OF "1.prems"(6)])
  have hmac: "gets (list_all2 (A8 G)) (hmac_sha256_gadget_constrained G sv dv) (arr32 (hm secret d))"
    if "list_all2 (A8 G) dv d" for dv d
    using hmac_constrained_value[OF ok H "1.prems"(2,3) that] "1.prems"(1) by (simp add: hmac_ok_def)
  show ?case
  proof (cases "length out < n")
    case True
    show ?thesis
      unfolding prf_constrained_loop.simps[of G sv lv n av ov] tls_prf_loop.simps[of hm secret ls n a out]
        Let_def if_P[OF True] if_P[OF True[folded len]]
      by (rule gets_rbind[OF hmac] "1.prems" | assumption | rule list_all2_appendI |
          rule "1.IH"[OF True refl refl "1.prems"(1-4)])+
  next
    case False
    show ?thesis
      unfolding prf_constrained_loop.simps[of G sv lv n av ov] tls_prf_loop.simps[of hm secret ls n a out]
        Let_def if_not_P[OF False] if_not_P[OF False[folded len]]
      by (simp add: "1.prems")
  qed
qed

lemma tls_prf_constrained_value:
  assumes "r1cs_ok G" "sha_ok H" "hmac_ok H hm" "list_all2 (A8 G) sv secret" "length secret \<le> 64"
    "list_all2 (A8 G) lv (label @ seed)"
  shows "gets (list_all2 (A8 G)) (tls_prf_p_sha256_constrained G sv lv n)
    (tls_prf_sha256 hm secret label seed n)"
  unfolding tls_prf_p_sha256_constrained_def tls_prf_sha256_def Let_def
  by (rule gets_rbind[OF prf_constrained_loop_value[OF assms assms(6)]])
    (auto intro: list_all2_takeI)

lemma prf_gadget_loop_value:
  assumes "r1cs_ok G" "sha_ok H" "hmac_ok H hm"
  shows "prf_gadget_loop H G secret ls n a out = Inr (tls_prf_loop hm secret ls n a out)"
  using assms(3)
proof (induction hm secret ls n a out rule: tls_prf_loop.induct)
  case (1 hm secret ls n a out)
  have hmac: "hmac_sha256_gadget H G secret d = Inr (arr32 (hm secret d))" for d
    using hmac_gadget_value[OF assms(1,2)] "1.prems" by (simp add: hmac_ok_def)
  show ?case
    using 1 by (subst prf_gadget_loop.simps, subst tls_prf_loop.simps) (simp add: hmac Let_def)
qed

lemma tls_prf_gadget_value:
  assumes "r1cs_ok G" "sha_ok H" "hmac_ok H hm"
  shows "tls_prf_p_sha256_gadget H G secret (label @ seed) n = Inr (tls_prf_sha256 hm secret label seed n)"
  by (simp add: tls_prf_p_sha256_gadget_def tls_prf_sha256_def prf_gadget_loop_value[OF assms] Let_def)

text \<open>Byte constants and byte witnesses are assigned the bytes they were made from.\<close>

lemma constants_value: "r1cs_ok G \<Longrightarrow> list_all2 (A8 G) (map (u8_constant G) cs) cs"
  by (simp add: list_all2_conv_all_nth u8_laws(1))

lemma witnesses_value: "r1cs_ok G \<Longrightarrow> gets (list_all2 (A8 G)) (collect_ok (u8_new_witness G) cs) cs"
  using gets_collect_ok[of "(=)" cs cs "A8 G" "u8_new_witness G" "\<lambda>c. c"]
  by (simp add: list.rel_eq u8_laws(2))

text \<open>What is assigned, as bytes and as 32-byte words; an allocation moves the number of the next witness on.\<close>

lemma length_assigned_bytes [simp]: "length (assigned_bytes w n bs) = length bs"
  by (simp add: assigned_bytes_def)

lemma assigned_bytes_honest [simp]: "assigned_bytes honest n bs = bs"
  by (simp add: assigned_bytes_def honest_def split_def)

lemma assigned_bytes_fixed: "assigned_bytes (\<lambda>i _. a i) n bs = map a [n..<n + length bs]"
  by (rule nth_equalityI) (simp_all add: assigned_bytes_def nth_enumerate_eq)

definition assigned32 :: "witness_fun \<Rightarrow> nat \<Rightarrow> bytes32 \<Rightarrow> bytes32" where
  "assigned32 w n v = be_word (assigned_bytes w n (arr32 v))"

lemma arr32_assigned32 [simp]: "arr32 (assigned32 w n v) = assigned_bytes w n (arr32 v)"
  by (simp add: assigned32_def be_bytes_be_word)

lemma assigned32_honest [simp]: "assigned32 honest n v = v"
  by (simp add: assigned32_def be_word_be_bytes)

lemma rbind_assoc: "rbind (rbind r f) g = rbind r (\<lambda>x. rbind (f x) g)"
  by (cases r) simp_all

lemma rbind_new_witness:
  "rbind (new_witness_bytes G w n bs) (\<lambda>(vars, m). f vars m) =
     rbind (collect_ok (u8_new_witness G) (assigned_bytes w n bs)) (\<lambda>vars. f vars (n + length bs))"
  by (simp add: new_witness_bytes_def rbind_assoc)

text \<open>A computation that also returns the number of the next witness.\<close>

abbreviation numbered :: "('a \<Rightarrow> 'v \<Rightarrow> bool) \<Rightarrow> 'a \<times> nat \<Rightarrow> 'v \<times> nat \<Rightarrow> bool" where
  "numbered R \<equiv> rel_prod R (=)"

lemma gets_rbind_numbered:
  "gets (numbered R) r (v, m) \<Longrightarrow> (\<And>x. R x v \<Longrightarrow> gets S (f x m) u) \<Longrightarrow> gets S (rbind r (\<lambda>(x, n). f x n)) u"
  by (auto simp: gets_def)

lemma master_secret_constrained_value:
  assumes ok: "r1cs_ok G" and "sha_ok H" "hmac_ok H hm" "list_all2 (A8 G) pv pms" "length pms \<le> 64"
  shows "gets (numbered (list_all2 (A8 G))) (tls12_master_secret_constrained G w n pv cr sr)
    (tls_prf_sha256 hm pms (str_bytes ''master secret'')
       (arr32 (assigned32 w n cr) @ arr32 (assigned32 w (n + 32) sr)) 48, n + 64)"
  unfolding tls12_master_secret_constrained_def Let_def rbind_new_witness arr32_assigned32
  by (rule gets_rbind[OF witnesses_value[OF ok]], rule gets_rbind[OF witnesses_value[OF ok]],
      rule gets_rbind[OF tls_prf_constrained_value[OF assms]])
    (rule list_all2_appendI constants_value[OF ok] | assumption | simp)+

lemma key_expansion_constrained_value:
  assumes ok: "r1cs_ok G" and "sha_ok H" "hmac_ok H hm" "list_all2 (A8 G) mv ms" "length ms \<le> 64"
  shows "gets (numbered (list_all2 (A8 G))) (tls12_key_expansion_constrained G w n mv cr sr)
    (tls_prf_sha256 hm ms (str_bytes ''key expansion'')
       (arr32 (assigned32 w n sr) @ arr32 (assigned32 w (n + 32) cr)) 96, n + 64)"
  unfolding tls12_key_expansion_constrained_def Let_def rbind_new_witness arr32_assigned32
  by (rule gets_rbind[OF witnesses_value[OF ok]], rule gets_rbind[OF witnesses_value[OF ok]],
      rule gets_rbind[OF tls_prf_constrained_value[OF assms]])
    (rule list_all2_appendI constants_value[OF ok] | assumption | simp)+

text \<open>The MAC key of the gadget's key block is the one derived natively, although the native block
  is 128 bytes and the gadget's is 96.\<close>

lemma key_block_mac_key:
  "take 32 (tls_prf_sha256 hm (tls_prf_sha256 hm (arr48 pms) (str_bytes ''master secret'')
       (arr32 cr @ arr32 sr) 48) (str_bytes ''key expansion'') (arr32 sr @ arr32 cr) 96) =
   (case derive_k_mac_from_pms hm (PreMasterSecret pms) cr sr of MacKey k \<Rightarrow> arr32 k)"
  by (simp add: Let_def tls12_key_expansion_def tls_prf_prefix be_bytes_be_word)

end
