(* ===== verification/Tls_Prf_Circuit.thy ===== *)
theory Tls_Prf_Circuit
  imports Hmac_Gadget
begin

text \<open>
  The two Groth16 circuits of \<open>zk/src/tls_prf_circuit.rs\<close>: \<open>TlsPrfCircuit\<close>, which ties the
  two-party MAC key to its commitment and, in mode 2, to the pre-master secret through the whole
  TLS-PRF chain, and \<open>PgpBindingCircuit\<close>, which ties two digests to their commitments.

  A circuit is the list of the equalities it enforces between field variables, beside the
  constraints inside the gadgets.  In \<open>TlsPrfCircuit\<close> every allocated byte witness has its own number and may be
  assigned any value, whatever the circuit's structure supplies for it, so that \<open>satisfied\<close> of the generated list
  says that this assignment satisfies the circuit.  In \<open>PgpBindingCircuit\<close> each field is allocated once, and an
  assignment is a value of the structure.  The lemmas characterise the satisfying assignments by the
  native functions.
\<close>

section \<open>Packing bytes into a field element\<close>

definition bytes32_to_fr :: "('b, 'u8, 'u32, 'f, 'fr) r1cs \<Rightarrow> bytes32 \<Rightarrow> 'fr" where
  "bytes32_to_fr G bytes = (
     let b = arr32 bytes; b' = b[31 := b ! 31 AND 0x3F] in
     fr_from_le_bytes_mod_order G b')"

definition k_mac_commitment :: "('b, 'u8, 'u32, 'f, 'fr) r1cs \<Rightarrow> bytes32 \<Rightarrow> 'fr \<Rightarrow> 'fr" where
  "k_mac_commitment G k_mac rand_binding_fe = fr_add G (bytes32_to_fr G k_mac) rand_binding_fe"

text \<open>The inner loop of \<open>pack_bytes_to_fpvar\<close>, with its \<open>break\<close>, over the state
  \<open>(result, coeff, bit_count)\<close>.\<close>

fun pack_bits :: "('b, 'u8, 'u32, 'f, 'fr) r1cs \<Rightarrow> 'b list \<Rightarrow> 'f \<times> 'fr \<times> nat \<Rightarrow>
    ('f \<times> 'fr \<times> nat) synth" where
  "pack_bits G [] st = Inr st"
| "pack_bits G (bit_var # bits) (res, coeff, bit_count) =
     (if bit_count \<ge> 254 then Inr (res, coeff, bit_count)
      else let bit_fe = f_from_bool G bit_var in
        rbind (f_new_constant G coeff) (\<lambda>coeff_var.
          pack_bits G bits (f_add G res (f_mul G bit_fe coeff_var), fr_add G coeff coeff, bit_count + 1)))"

definition pack_bytes_to_fpvar :: "('b, 'u8, 'u32, 'f, 'fr) r1cs \<Rightarrow> 'u8 list \<Rightarrow> 'f synth" where
  "pack_bytes_to_fpvar G bytes =
     rbind (f_new_constant G (fr_zero G)) (\<lambda>result.
     rbind (fold_ok (\<lambda>byte_var st. rbind (u8_to_bits_le G byte_var) (\<lambda>bits. pack_bits G bits st))
       bytes (result, fr_one G, 0)) (\<lambda>(result, coeff, bit_count). Inr result))"

section \<open>The MAC key circuit\<close>

record 'fr TlsPrfCircuit =
  k_mac_commitment_fe :: 'fr
  rand_binding_fe :: 'fr
  pms_hash_fe :: "'fr option"
  k_mac_prover_share :: bytes32
  k_mac_verifier_share :: bytes32
  pre_master_secret :: "byte list option"
  client_random :: "bytes32 option"
  server_random :: "bytes32 option"

definition pms_hash :: "sha \<Rightarrow> ('b, 'u8, 'u32, 'f, 'fr) r1cs \<Rightarrow> byte list \<Rightarrow> 'fr" where
  "pms_hash H G pms = bytes32_to_fr G (H pms)"

definition xor_shares :: "bytes32 \<Rightarrow> bytes32 \<Rightarrow> bytes32" where
  "xor_shares p v = p XOR v"

definition TlsPrfCircuit_new :: "('b, 'u8, 'u32, 'f, 'fr) r1cs \<Rightarrow> bytes32 \<Rightarrow> bytes32 \<Rightarrow> bytes32 \<Rightarrow>
    'fr TlsPrfCircuit" where
  "TlsPrfCircuit_new G p_share v_share rand_binding = (
     let k_mac = xor_shares p_share v_share;
         rand_fe = bytes32_to_fr G rand_binding
     in \<lparr> k_mac_commitment_fe = k_mac_commitment G k_mac rand_fe, rand_binding_fe = rand_fe,
          pms_hash_fe = None, k_mac_prover_share = p_share, k_mac_verifier_share = v_share,
          pre_master_secret = None, client_random = None, server_random = None \<rparr>)"

definition with_tls_prf :: "sha \<Rightarrow> ('b, 'u8, 'u32, 'f, 'fr) r1cs \<Rightarrow> bytes32 \<Rightarrow> bytes32 \<Rightarrow> bytes32 \<Rightarrow>
    byte list \<Rightarrow> bytes32 \<Rightarrow> bytes32 \<Rightarrow> 'fr TlsPrfCircuit" where
  "with_tls_prf H G p_share v_share rand_binding pms cr sr = (
     let k_mac = xor_shares p_share v_share;
         rand_fe = bytes32_to_fr G rand_binding;
         pms_fe = pms_hash H G pms
     in \<lparr> k_mac_commitment_fe = k_mac_commitment G k_mac rand_fe, rand_binding_fe = rand_fe,
          pms_hash_fe = Some pms_fe, k_mac_prover_share = p_share, k_mac_verifier_share = v_share,
          pre_master_secret = Some pms, client_random = Some cr, server_random = Some sr \<rparr>)"

definition TlsPrfCircuit_dummy :: "('b, 'u8, 'u32, 'f, 'fr) r1cs \<Rightarrow> 'fr TlsPrfCircuit" where
  "TlsPrfCircuit_dummy G =
     TlsPrfCircuit_new G (be_word (replicate 32 1)) (be_word (replicate 32 2)) 0"

definition dummy_full_prf :: "sha \<Rightarrow> ('b, 'u8, 'u32, 'f, 'fr) r1cs \<Rightarrow> 'fr TlsPrfCircuit" where
  "dummy_full_prf H G =
     with_tls_prf H G (be_word (replicate 32 1)) (be_word (replicate 32 2)) 0 (replicate 48 0) 0 0"

type_synonym 'f constraints = "('f \<times> 'f) list"

text \<open>The mode 2 block: the hash of the pre-master secret and the TLS-PRF chain.\<close>

definition prf_chain_constraints :: "('b, 'u8, 'u32, 'f, 'fr) r1cs \<Rightarrow> witness_fun \<Rightarrow> nat \<Rightarrow> 'f \<Rightarrow> 'f \<Rightarrow> byte list \<Rightarrow>
    bytes32 \<Rightarrow> bytes32 \<Rightarrow> 'fr \<Rightarrow> 'f constraints synth" where
  "prf_chain_constraints G w n expected_commitment rand_binding pms cr sr pms_fe =
     rbind (f_new_input G pms_fe) (\<lambda>expected_pms_hash.
     rbind (new_witness_bytes G w n pms) (\<lambda>(pms_vars, n).
     rbind (sha256_from_byte_vars G pms_vars) (\<lambda>pms_hash_byte_vars.
     rbind (pack_bytes_to_fpvar G pms_hash_byte_vars) (\<lambda>packed_pms_hash.
     rbind (tls12_master_secret_constrained G w n pms_vars cr sr) (\<lambda>(ms_vars, n).
     rbind (tls12_key_expansion_constrained G w n ms_vars cr sr) (\<lambda>(key_block_vars, n).
     let derived_k_mac_vars = take 32 key_block_vars in
     rbind (pack_bytes_to_fpvar G derived_k_mac_vars) (\<lambda>packed_derived.
     let derived_commitment = f_add G packed_derived rand_binding in
       Inr [(packed_pms_hash, expected_pms_hash), (derived_commitment, expected_commitment)])))))))"

definition generate_constraints :: "('b, 'u8, 'u32, 'f, 'fr) r1cs \<Rightarrow> witness_fun \<Rightarrow> 'fr TlsPrfCircuit \<Rightarrow>
    'f constraints synth" where
  "generate_constraints G w c =
     rbind (f_new_input G (k_mac_commitment_fe c)) (\<lambda>expected_commitment.
     rbind (f_new_input G (rand_binding_fe c)) (\<lambda>rand_binding.
     rbind (new_witness_bytes G w 0 (arr32 (k_mac_prover_share c))) (\<lambda>(p_vars, n).
     rbind (new_witness_bytes G w n (arr32 (k_mac_verifier_share c))) (\<lambda>(v_vars, n).
     rbind (collect_ok (\<lambda>(p, v). u8_xor G p v) (zip p_vars v_vars)) (\<lambda>xor_vars.
     rbind (pack_bytes_to_fpvar G xor_vars) (\<lambda>packed_k_mac.
     let computed_commitment = f_add G packed_k_mac rand_binding;
         mode1 = [(computed_commitment, expected_commitment)]
     in (case (pre_master_secret c, client_random c, server_random c, pms_hash_fe c) of
          (Some pms, Some cr, Some sr, Some pms_fe) \<Rightarrow>
            rbind (prf_chain_constraints G w n expected_commitment rand_binding pms cr sr pms_fe) (\<lambda>mode2.
              Inr (mode1 @ mode2))
        | _ \<Rightarrow> Inr mode1)))))))"

section \<open>The transcript circuit\<close>

record 'fr PgpBindingCircuit =
  query_commitment_fe :: 'fr
  response_commitment_fe :: 'fr
  transcript_commitment_fe :: 'fr
  pgp_rand_binding_fe :: 'fr
  query_hash :: bytes32
  response_hash :: bytes32

definition pgp_transcript_commitment :: "sha \<Rightarrow> ('b, 'u8, 'u32, 'f, 'fr) r1cs \<Rightarrow> bytes32 \<Rightarrow> bytes32 \<Rightarrow>
    'fr \<Rightarrow> 'fr" where
  "pgp_transcript_commitment H G qh rh rand_fe =
     fr_add G (bytes32_to_fr G (H (arr32 qh @ arr32 rh))) rand_fe"

definition PgpBindingCircuit_new :: "sha \<Rightarrow> ('b, 'u8, 'u32, 'f, 'fr) r1cs \<Rightarrow> bytes32 \<Rightarrow> bytes32 \<Rightarrow> bytes32 \<Rightarrow>
    'fr PgpBindingCircuit" where
  "PgpBindingCircuit_new H G qh rh rand_binding = (
     let rand_fe = bytes32_to_fr G rand_binding in
     \<lparr> query_commitment_fe = fr_add G (bytes32_to_fr G qh) rand_fe,
       response_commitment_fe = fr_add G (bytes32_to_fr G rh) rand_fe,
       transcript_commitment_fe = pgp_transcript_commitment H G qh rh rand_fe,
       pgp_rand_binding_fe = rand_fe, query_hash = qh, response_hash = rh \<rparr>)"

definition PgpBindingCircuit_dummy :: "sha \<Rightarrow> ('b, 'u8, 'u32, 'f, 'fr) r1cs \<Rightarrow> 'fr PgpBindingCircuit" where
  "PgpBindingCircuit_dummy H G =
     PgpBindingCircuit_new H G (be_word (replicate 32 1)) (be_word (replicate 32 2)) 0"

definition pgp_generate_constraints :: "('b, 'u8, 'u32, 'f, 'fr) r1cs \<Rightarrow> 'fr PgpBindingCircuit \<Rightarrow>
    'f constraints synth" where
  "pgp_generate_constraints G c =
     rbind (f_new_input G (query_commitment_fe c)) (\<lambda>exp_query_commit.
     rbind (f_new_input G (response_commitment_fe c)) (\<lambda>exp_response_commit.
     rbind (f_new_input G (transcript_commitment_fe c)) (\<lambda>exp_transcript_commit.
     rbind (f_new_input G (pgp_rand_binding_fe c)) (\<lambda>rand_binding.
     rbind (collect_ok (u8_new_witness G) (arr32 (query_hash c))) (\<lambda>qh_vars.
     rbind (collect_ok (u8_new_witness G) (arr32 (response_hash c))) (\<lambda>rh_vars.
     rbind (pack_bytes_to_fpvar G qh_vars) (\<lambda>packed_qh.
     rbind (pack_bytes_to_fpvar G rh_vars) (\<lambda>packed_rh.
     rbind (sha256_from_byte_vars G (qh_vars @ rh_vars)) (\<lambda>digest_vars.
     rbind (pack_bytes_to_fpvar G digest_vars) (\<lambda>packed_digest.
       Inr [(f_add G packed_qh rand_binding, exp_query_commit),
            (f_add G packed_rh rand_binding, exp_response_commit),
            (f_add G packed_digest rand_binding, exp_transcript_commit)]))))))))))"

definition satisfied :: "('b, 'u8, 'u32, 'f, 'fr) r1cs \<Rightarrow> 'f constraints \<Rightarrow> bool" where
  "satisfied G cs \<longleftrightarrow> (\<forall>(x, y) \<in> set cs. f_value G x = f_value G y)"

section \<open>Packing agrees with the native encoding\<close>

abbreviation AF :: "('b, 'u8, 'u32, 'f, 'fr) r1cs \<Rightarrow> 'f \<Rightarrow> 'fr \<Rightarrow> bool" where
  "AF G \<equiv> assigned (f_value G)"

lemma field_laws:
  assumes "r1cs_ok G"
  shows "gets (AF G) (f_new_constant G u) u" and "gets (AF G) (f_new_input G u) u"
    and "AB G x b \<Longrightarrow> AF G (f_from_bool G x) (if b then fr_one G else fr_zero G)"
    and "AF G y u \<Longrightarrow> AF G z v \<Longrightarrow> AF G (f_add G y z) (fr_add G u v)"
    and "AF G y u \<Longrightarrow> AF G z v \<Longrightarrow> AF G (f_mul G y z) (fr_mul G u v)"
  using assms by (simp_all add: r1cs_ok_def r1cs_field_ok_def)

lemma fr_laws:
  assumes "r1cs_ok G"
  shows "fr_into_bigint G u < FR_MODULUS"
    and "fr_into_bigint G u = fr_into_bigint G v \<Longrightarrow> u = v"
    and "fr_into_bigint G (fr_zero G) = 0" and "fr_into_bigint G (fr_one G) = 1"
    and "fr_into_bigint G (fr_add G u v) = (fr_into_bigint G u + fr_into_bigint G v) mod FR_MODULUS"
    and "fr_into_bigint G (fr_mul G u v) = (fr_into_bigint G u * fr_into_bigint G v) mod FR_MODULUS"
    and "fr_into_bigint G (fr_from_le_bytes_mod_order G bs) = horner_sum unat 256 bs mod FR_MODULUS"
  using assms by (simp_all add: r1cs_ok_def fr_ok_def)

text \<open>The loop invariant: \<open>pre\<close> is the bits read so far.\<close>

definition packed :: "('b, 'u8, 'u32, 'f, 'fr) r1cs \<Rightarrow> 'f \<times> 'fr \<times> nat \<Rightarrow> bool list \<Rightarrow> bool" where
  "packed G st pre \<longleftrightarrow> (case st of (res, coeff, n) \<Rightarrow>
     n = min 254 (length pre) \<and> fr_into_bigint G coeff = 2 ^ n mod FR_MODULUS \<and>
     (\<exists>r. AF G res r \<and>
        fr_into_bigint G r = horner_sum of_bool 2 (take 254 pre) mod FR_MODULUS))"

lemma packed_step:
  assumes ok: "r1cs_ok G" and st: "packed G (res, coeff, n) pre" and n: "n < 254"
    and b: "AB G x b" and c: "AF G cv coeff"
  shows "packed G (f_add G res (f_mul G (f_from_bool G x) cv), fr_add G coeff coeff, n + 1) (pre @ [b])"
proof -
  from st obtain r where r: "AF G res r"
    "fr_into_bigint G r = horner_sum of_bool 2 pre mod FR_MODULUS"
    and len: "n = length pre" and coeff: "fr_into_bigint G coeff = 2 ^ n mod FR_MODULUS"
    using n by (auto simp: packed_def)
  let ?one = "if b then fr_one G else fr_zero G"
  have "AF G (f_add G res (f_mul G (f_from_bool G x) cv)) (fr_add G r (fr_mul G ?one coeff))"
    by (intro field_laws(4,5)[OF ok] field_laws(3)[OF ok b] r c)
  moreover have "fr_into_bigint G (fr_add G r (fr_mul G ?one coeff)) =
      horner_sum of_bool 2 (take 254 (pre @ [b])) mod FR_MODULUS"
    using n len
    by (simp add: fr_laws[OF ok] r coeff horner_sum_append mod_simps)
  moreover have "fr_into_bigint G (fr_add G coeff coeff) = 2 ^ (n + 1) mod FR_MODULUS"
    by (simp add: fr_laws[OF ok] coeff mod_simps flip: mult_2)
  ultimately show ?thesis using n len by (auto simp: packed_def)
qed

lemma packed_full: "packed G (res, coeff, n) pre \<Longrightarrow> 254 \<le> n \<Longrightarrow> packed G (res, coeff, n) (pre @ bs)"
  by (auto simp: packed_def)

lemma pack_bits_value:
  assumes ok: "r1cs_ok G" and bits: "list_all2 (AB G) xs bs" and st: "packed G st pre"
  shows "gets (packed G) (pack_bits G xs st) (pre @ bs)"
  using bits st
proof (induction arbitrary: st pre)
  case (Cons x xs b bs)
  obtain res coeff n where s: "st = (res, coeff, n)" by (cases st)
  show ?case
  proof (cases "254 \<le> n")
    case True
    then show ?thesis using packed_full[OF Cons.prems[unfolded s]] by (simp add: s)
  next
    case False
    have "gets (packed G) (pack_bits G (x # xs) st) ((pre @ [b]) @ bs)"
      unfolding s pack_bits.simps if_not_P[OF False] Let_def
      by (rule gets_rbind[OF field_laws(1)[OF ok]], rule Cons.IH,
          rule packed_step[OF ok Cons.prems[unfolded s] _ Cons.hyps(1)])
        (use False in simp_all)
    then show ?thesis by simp
  qed
qed simp


lemma pack_loop_value:
  assumes ok: "r1cs_ok G" and bytes: "list_all2 (A8 G) vs cs" and st: "packed G st pre"
  shows "gets (packed G)
    (fold_ok (\<lambda>byte_var st. rbind (u8_to_bits_le G byte_var) (\<lambda>bits. pack_bits G bits st)) vs st)
    (pre @ concat (map word_bits cs))"
  using bytes st
proof (induction arbitrary: st pre)
  case (Cons v vs c cs)
  have "gets (packed G)
      (rbind (u8_to_bits_le G v) (\<lambda>bits. pack_bits G bits st)) (pre @ word_bits c)"
    by (rule gets_rbind[OF u8_laws(3)[OF ok Cons.hyps(1)]])
      (rule pack_bits_value[OF ok _ Cons.prems])
  then have "gets (packed G)
      (rbind (rbind (u8_to_bits_le G v) (\<lambda>bits. pack_bits G bits st))
        (fold_ok (\<lambda>byte_var st. rbind (u8_to_bits_le G byte_var) (\<lambda>bits. pack_bits G bits st)) vs))
      ((pre @ word_bits c) @ concat (map word_bits cs))"
    by (rule gets_rbind) (rule Cons.IH)
  then show ?case by simp
qed simp

lemma unat_word_bits: "unat c = horner_sum of_bool 2 (word_bits (c :: byte))"
proof -
  have "word_bits c = map (bit (unat c)) [0..<8]"
    by (simp add: word_bits_def bit_unsigned_iff)
  then show ?thesis
    using horner_sum_bit_eq_take_bit[of "unat c" 8] unsigned_less[of c, where ?'a = nat]
    by (simp add: take_bit_nat_eq_self)
qed

lemma horner_bytes:
  "horner_sum unat 256 cs = horner_sum of_bool 2 (concat (map word_bits (cs :: byte list)))"
  by (induction cs) (simp_all add: horner_sum_append unat_word_bits)

lemma length_concat_bits [simp]: "length (concat (map word_bits (cs :: byte list))) = 8 * length cs"
  by (induction cs) simp_all

text \<open>Clearing the two top bits of the last byte keeps the first 254 bits.\<close>

lemma bytes32_to_fr_value:
  assumes "r1cs_ok G"
  shows "fr_into_bigint G (bytes32_to_fr G w) =
    horner_sum of_bool 2 (take 254 (concat (map word_bits (arr32 w)))) mod FR_MODULUS"
proof -
  define xs c where "xs = take 31 (arr32 w)" and "c = arr32 w ! 31"
  have arr: "arr32 w = xs @ [c]"
    using take_Suc_conv_app_nth[of 31 "arr32 w"] by (simp add: xs_def c_def)
  have len: "length xs = 31" by (simp add: xs_def)
  have "c AND 0x3F = take_bit 6 c" by (simp add: take_bit_eq_mask mask_eq_exp_minus_1)
  then have "unat (c AND 0x3F) = take_bit 6 (unat c)" by (simp add: unsigned_take_bit_eq)
  also have "\<dots> = horner_sum of_bool 2 (take 6 (word_bits c))"
    by (simp add: unat_word_bits take_bit_horner_sum_bit_eq)
  finally have mask: "unat (c AND 0x3F) = horner_sum of_bool 2 (take 6 (word_bits c))" .
  have "horner_sum unat 256 (xs @ [c AND 0x3F]) =
      horner_sum of_bool 2 (take 254 (concat (map word_bits xs) @ word_bits c))"
    by (simp add: horner_sum_append horner_bytes mask len)
  moreover have "(arr32 w)[31 := arr32 w ! 31 AND 0x3F] = xs @ [c AND 0x3F]"
    using len by (simp add: arr nth_append list_update_append)
  ultimately show ?thesis
    by (simp add: bytes32_to_fr_def Let_def fr_laws[OF assms] arr)
qed

lemma pack_bytes_value:
  assumes ok: "r1cs_ok G" and bytes: "list_all2 (A8 G) vs (arr32 w)"
  shows "gets (AF G) (pack_bytes_to_fpvar G vs) (bytes32_to_fr G w)"
  unfolding pack_bytes_to_fpvar_def
proof (rule gets_rbind[OF field_laws(1)[OF ok]])
  fix z assume "AF G z (fr_zero G)"
  then have "packed G (z, fr_one G, 0) []"
    by (auto simp: packed_def fr_laws[OF ok] FR_MODULUS_def)
  from pack_loop_value[OF ok bytes this]
  show "gets (AF G) (rbind (fold_ok (\<lambda>byte_var st. rbind (u8_to_bits_le G byte_var)
      (\<lambda>bits. pack_bits G bits st)) vs (z, fr_one G, 0)) (\<lambda>(result, coeff, bit_count). Inr result))
      (bytes32_to_fr G w)"
    by (rule gets_rbind)
      (auto simp: packed_def bytes32_to_fr_value[OF ok, symmetric] dest: fr_laws(2)[OF ok])
qed

section \<open>What the circuits prove\<close>

lemma satisfied_simps [simp]:
  "satisfied G []" "satisfied G ((x, y) # cs) \<longleftrightarrow> f_value G x = f_value G y \<and> satisfied G cs"
  "satisfied G (cs @ ds) \<longleftrightarrow> satisfied G cs \<and> satisfied G ds"
  by (auto simp: satisfied_def)

text \<open>Generated constraints whose satisfaction is the proposition \<open>p\<close>.\<close>

definition enforces :: "('b, 'u8, 'u32, 'f, 'fr) r1cs \<Rightarrow> 'f constraints \<Rightarrow> bool \<Rightarrow> bool" where
  "enforces G cs p \<longleftrightarrow> satisfied G cs = p"

lemma AF_eq_iff: "AF G x u \<Longrightarrow> AF G y v \<Longrightarrow> f_value G x = f_value G y \<longleftrightarrow> u = v"
  by (simp add: assigned_def)

lemma xor_vars_value:
  assumes ok: "r1cs_ok G" and p: "list_all2 (A8 G) pv (arr32 p)" and v: "list_all2 (A8 G) vv (arr32 v)"
  shows "gets (list_all2 (A8 G)) (collect_ok (\<lambda>(p, v). u8_xor G p v) (zip pv vv)) (arr32 (p XOR v))"
proof -
  have "list_all2 (rel_prod (A8 G) (A8 G)) (zip pv vv) (zip (arr32 p) (arr32 v))"
    using p v by (simp add: list_all2_conv_all_nth)
  then have "gets (list_all2 (A8 G)) (collect_ok (\<lambda>(p, v). u8_xor G p v) (zip pv vv))
      (map (\<lambda>(a, b). a XOR b) (zip (arr32 p) (arr32 v)))"
    by (rule gets_collect_ok) (auto intro: u8_laws(5)[OF ok])
  also have "map (\<lambda>(a, b). a XOR b) (zip (arr32 p) (arr32 v)) = arr32 (p XOR v)"
    by (rule nth_equalityI) (auto simp: be_bytes_def intro!: bit_word_eqI simp: bit_simps)
  finally show ?thesis .
qed

text \<open>The MAC key that the key block of a pre-master secret starts with, for one pair of randoms in the derivation of
  the master secret and another pair in the key expansion.  With the same pair twice it is the native key.\<close>

definition chain_k_mac :: "hmac_fun \<Rightarrow> byte list \<Rightarrow> bytes32 \<Rightarrow> bytes32 \<Rightarrow> bytes32 \<Rightarrow> bytes32 \<Rightarrow> bytes32" where
  "chain_k_mac hm pms cr sr cr' sr' = be_word (take 32 (tls12_key_expansion hm
     (tls_prf_sha256 hm pms (str_bytes ''master secret'') (arr32 cr @ arr32 sr) 48) cr' sr'))"

abbreviation prf_k_mac :: "hmac_fun \<Rightarrow> byte list \<Rightarrow> bytes32 \<Rightarrow> bytes32 \<Rightarrow> bytes32" where
  "prf_k_mac hm pms cr sr \<equiv> chain_k_mac hm pms cr sr cr sr"

lemma prf_k_mac_derive: "derive_k_mac_from_pms hm (PreMasterSecret pms) cr sr = MacKey (prf_k_mac hm (arr48 pms) cr sr)"
  by (simp add: Let_def chain_k_mac_def)

lemma arr32_chain_k_mac: "take 32 (tls_prf_sha256 hm
     (tls_prf_sha256 hm pms (str_bytes ''master secret'') (arr32 cr @ arr32 sr) 48)
     (str_bytes ''key expansion'') (arr32 sr' @ arr32 cr') 96) = arr32 (chain_k_mac hm pms cr sr cr' sr')"
  by (simp add: chain_k_mac_def tls12_key_expansion_def tls_prf_prefix be_bytes_be_word)

text \<open>What the mode 2 block relates, in terms of the values that its witnesses are assigned.\<close>

definition chain_relation :: "sha \<Rightarrow> hmac_fun \<Rightarrow> ('b, 'u8, 'u32, 'f, 'fr) r1cs \<Rightarrow> witness_fun \<Rightarrow> nat \<Rightarrow> byte list \<Rightarrow>
    bytes32 \<Rightarrow> bytes32 \<Rightarrow> 'fr \<Rightarrow> 'fr \<Rightarrow> 'fr \<Rightarrow> bool" where
  "chain_relation H hm G w n pms cr sr pf r e \<longleftrightarrow> (let zp = assigned_bytes w n pms; m = n + length pms in
     pms_hash H G zp = pf \<and>
     k_mac_commitment G (chain_k_mac hm zp (assigned32 w m cr) (assigned32 w (m + 32) sr)
       (assigned32 w (m + 96) cr) (assigned32 w (m + 64) sr)) r = e)"

lemma prf_chain_value:
  assumes ok: "r1cs_ok G" and H: "sha_ok H" and hm: "hmac_ok H hm"
    and ec: "AF G ec e" and rb: "AF G rb r" and len: "length pms \<le> 64"
  shows "gets (enforces G) (prf_chain_constraints G w n ec rb pms cr sr pf) (chain_relation H hm G w n pms cr sr pf r e)"
  unfolding prf_chain_constraints_def Let_def rbind_new_witness
proof (rule gets_rbind[OF field_laws(2)[OF ok]], rule gets_rbind[OF witnesses_value[OF ok]])
  define zp m where "zp = assigned_bytes w n pms" and "m = n + length pms"
  define ms where "ms = tls_prf_sha256 hm zp (str_bytes ''master secret'')
      (arr32 (assigned32 w m cr) @ arr32 (assigned32 w (m + 32) sr)) 48"
  fix ph pv assume ph: "AF G ph pf" and pv': "list_all2 (A8 G) pv (assigned_bytes w n pms)"
  then have pv: "list_all2 (A8 G) pv zp" by (simp add: zp_def)
  have hash: "gets (list_all2 (A8 G)) (sha256_from_byte_vars G pv) (arr32 (H zp))"
    using sha256_from_byte_vars_value[OF ok pv] by (simp only: arr32_sha[OF H])
  have "length zp \<le> 64" using len by (simp add: zp_def)
  note master = master_secret_constrained_value[OF ok H hm pv this, of w m cr sr, folded ms_def]
  have "length ms \<le> 64" by (simp add: ms_def)
  note keys = key_expansion_constrained_value[OF ok H hm _ this, of _ w "m + 64" cr sr]
  show "gets (enforces G)
     (rbind (sha256_from_byte_vars G pv) (\<lambda>hv. rbind (pack_bytes_to_fpvar G hv) (\<lambda>x.
      rbind (tls12_master_secret_constrained G w (n + length pms) pv cr sr) (\<lambda>(mv, n).
      rbind (tls12_key_expansion_constrained G w n mv cr sr) (\<lambda>(kv, n).
      rbind (pack_bytes_to_fpvar G (take 32 kv)) (\<lambda>y. Inr [(x, ph), (f_add G y rb, ec)]))))))
     (chain_relation H hm G w n pms cr sr pf r e)"
    unfolding m_def[symmetric]
  proof (rule gets_rbind[OF hash], rule gets_rbind[OF pack_bytes_value[OF ok]], assumption,
      rule gets_rbind_numbered[OF master], rule gets_rbind_numbered[OF keys], assumption)
    fix x kv
    assume x: "AF G x (bytes32_to_fr G (H zp))" and kv: "list_all2 (A8 G) kv (tls_prf_sha256 hm ms
        (str_bytes ''key expansion'') (arr32 (assigned32 w (m + 64) sr) @ arr32 (assigned32 w (m + 64 + 32) cr)) 96)"
    let ?k = "chain_k_mac hm zp (assigned32 w m cr) (assigned32 w (m + 32) sr)
        (assigned32 w (m + 96) cr) (assigned32 w (m + 64) sr)"
    have "m + 64 + 32 = m + 96" by simp
    then have "list_all2 (A8 G) (take 32 kv) (arr32 ?k)"
      using list_all2_takeI[OF kv, of 32] unfolding ms_def by (simp only: arr32_chain_k_mac)
    then show "gets (enforces G)
      (rbind (pack_bytes_to_fpvar G (take 32 kv)) (\<lambda>y. Inr [(x, ph), (f_add G y rb, ec)]))
      (chain_relation H hm G w n pms cr sr pf r e)"
      by (rule gets_rbind[OF pack_bytes_value[OF ok]])
        (simp add: enforces_def AF_eq_iff[OF x ph] AF_eq_iff[OF field_laws(4)[OF ok _ rb] ec]
          pms_hash_def k_mac_commitment_def chain_relation_def Let_def zp_def m_def)
  qed
qed

definition prf_relation :: "sha \<Rightarrow> hmac_fun \<Rightarrow> ('b, 'u8, 'u32, 'f, 'fr) r1cs \<Rightarrow> witness_fun \<Rightarrow> 'fr TlsPrfCircuit \<Rightarrow> bool" where
  "prf_relation H hm G w c \<longleftrightarrow>
     k_mac_commitment G (xor_shares (assigned32 w 0 (k_mac_prover_share c)) (assigned32 w 32 (k_mac_verifier_share c)))
       (rand_binding_fe c) = k_mac_commitment_fe c \<and>
     (case (pre_master_secret c, client_random c, server_random c, pms_hash_fe c) of
        (Some pms, Some cr, Some sr, Some pms_fe) \<Rightarrow>
          chain_relation H hm G w 64 pms cr sr pms_fe (rand_binding_fe c) (k_mac_commitment_fe c)
      | _ \<Rightarrow> True)"

definition pms_fits :: "'fr TlsPrfCircuit \<Rightarrow> bool" where
  "pms_fits c \<longleftrightarrow> (case pre_master_secret c of Some pms \<Rightarrow> length pms \<le> 64 | None \<Rightarrow> True)"

lemma generate_constraints_value:
  assumes ok: "r1cs_ok G" and H: "sha_ok H" and hm: "hmac_ok H hm" and fits: "pms_fits c"
  shows "gets (enforces G) (generate_constraints G w c) (prf_relation H hm G w c)"
  unfolding generate_constraints_def Let_def rbind_new_witness length_be_bytes
proof (rule gets_rbind[OF field_laws(2)[OF ok]], rule gets_rbind[OF field_laws(2)[OF ok]],
    rule gets_rbind[OF witnesses_value[OF ok]], rule gets_rbind[OF witnesses_value[OF ok]])
  let ?p = "assigned32 w 0 (k_mac_prover_share c)" and ?v = "assigned32 w 32 (k_mac_verifier_share c)"
  fix ec rb pv vv
  assume ec: "AF G ec (k_mac_commitment_fe c)" and rb: "AF G rb (rand_binding_fe c)"
    and "list_all2 (A8 G) pv (assigned_bytes w 0 (arr32 (k_mac_prover_share c)))"
    and "list_all2 (A8 G) vv (assigned_bytes w (0 + 32) (arr32 (k_mac_verifier_share c)))"
  then have vars: "list_all2 (A8 G) pv (arr32 ?p)" "list_all2 (A8 G) vv (arr32 ?v)" by simp_all
  show "gets (enforces G) (rbind (collect_ok (\<lambda>(p, v). u8_xor G p v) (zip pv vv)) (\<lambda>xor_vars.
    rbind (pack_bytes_to_fpvar G xor_vars) (\<lambda>x.
      case (pre_master_secret c, client_random c, server_random c, pms_hash_fe c) of
       (Some pms, Some cr, Some sr, Some pms_fe) \<Rightarrow>
         rbind (prf_chain_constraints G w (0 + 32 + 32) ec rb pms cr sr pms_fe) (\<lambda>mode2. Inr ([(f_add G x rb, ec)] @ mode2))
     | _ \<Rightarrow> Inr [(f_add G x rb, ec)]))) (prf_relation H hm G w c)"
  proof (rule gets_rbind[OF xor_vars_value[OF ok vars]], rule gets_rbind[OF pack_bytes_value[OF ok]], assumption)
    fix x assume x: "AF G x (bytes32_to_fr G (?p XOR ?v))"
    have first: "f_value G (f_add G x rb) = f_value G ec \<longleftrightarrow>
        k_mac_commitment G (xor_shares ?p ?v) (rand_binding_fe c) = k_mac_commitment_fe c"
      by (simp add: AF_eq_iff[OF field_laws(4)[OF ok x rb] ec] k_mac_commitment_def xor_shares_def)
    show "gets (enforces G)
      (case (pre_master_secret c, client_random c, server_random c, pms_hash_fe c) of
         (Some pms, Some cr, Some sr, Some pms_fe) \<Rightarrow>
           rbind (prf_chain_constraints G w (0 + 32 + 32) ec rb pms cr sr pms_fe) (\<lambda>mode2. Inr ([(f_add G x rb, ec)] @ mode2))
       | _ \<Rightarrow> Inr [(f_add G x rb, ec)]) (prf_relation H hm G w c)"
    proof (cases "\<exists>pms cr sr pf. pre_master_secret c = Some pms \<and> client_random c = Some cr \<and>
        server_random c = Some sr \<and> pms_hash_fe c = Some pf")
      case True
      then obtain pms cr sr pf where m: "pre_master_secret c = Some pms" "client_random c = Some cr"
        "server_random c = Some sr" "pms_hash_fe c = Some pf" by blast
      then have "length pms \<le> 64" using fits by (simp add: pms_fits_def)
      from prf_chain_value[OF ok H hm ec rb this, of w 64 cr sr pf] show ?thesis
        by (auto simp: m prf_relation_def enforces_def first gets_def)
    next
      case False
      then show ?thesis
        by (auto simp: prf_relation_def enforces_def first split: option.splits)
    qed
  qed
qed

text \<open>The bytes that the circuit's structure supplies, in the order of the allocations; assigning them is
  honest synthesis.\<close>

definition supplied_bytes :: "'fr TlsPrfCircuit \<Rightarrow> byte list" where
  "supplied_bytes c = arr32 (k_mac_prover_share c) @ arr32 (k_mac_verifier_share c) @
     (case (pre_master_secret c, client_random c, server_random c) of
        (Some pms, Some cr, Some sr) \<Rightarrow> pms @ arr32 cr @ arr32 sr @ arr32 sr @ arr32 cr
      | _ \<Rightarrow> [])"

lemma map_nth_segment: "n = length xs \<Longrightarrow> m = n + length ys \<Longrightarrow> map (nth (xs @ ys @ zs)) [n..<m] = ys"
  by (rule nth_equalityI) (simp_all add: nth_append)

lemma generate_constraints_supplied:
  "generate_constraints G (\<lambda>i _. supplied_bytes c ! i) c = generate_constraints G honest c"
proof -
  let ?w = "\<lambda>i (_ :: byte). supplied_bytes c ! i"
  let ?p = "arr32 (k_mac_prover_share c)" and ?v = "arr32 (k_mac_verifier_share c)"
  have pv: "assigned_bytes ?w 0 ?p = ?p" "assigned_bytes ?w 32 ?v = ?v"
    unfolding assigned_bytes_fixed supplied_bytes_def
    using map_nth_segment[of 0 "[]" 32 ?p] map_nth_segment[of 32 ?p 64 ?v] by simp_all
  have chain: "prf_chain_constraints G ?w 64 ec rb pms cr sr pf = prf_chain_constraints G honest 64 ec rb pms cr sr pf"
    if m: "pre_master_secret c = Some pms" "client_random c = Some cr" "server_random c = Some sr" for ec rb pms cr sr pf
  proof -
    let ?n = "64 + length pms"
    have "supplied_bytes c = (?p @ ?v) @ pms @ arr32 cr @ arr32 sr @ arr32 sr @ arr32 cr"
      "supplied_bytes c = (?p @ ?v @ pms) @ arr32 cr @ arr32 sr @ arr32 sr @ arr32 cr"
      "supplied_bytes c = (?p @ ?v @ pms @ arr32 cr) @ arr32 sr @ arr32 sr @ arr32 cr"
      "supplied_bytes c = (?p @ ?v @ pms @ arr32 cr @ arr32 sr) @ arr32 sr @ arr32 cr"
      "supplied_bytes c = (?p @ ?v @ pms @ arr32 cr @ arr32 sr @ arr32 sr) @ arr32 cr @ []"
      by (simp_all add: supplied_bytes_def m)
    note seg = this
    have "assigned_bytes ?w 64 pms = pms" unfolding assigned_bytes_fixed seg(1) by (rule map_nth_segment) simp_all
    moreover have "assigned_bytes ?w ?n (arr32 cr) = arr32 cr"
      unfolding assigned_bytes_fixed seg(2) by (rule map_nth_segment) simp_all
    moreover have "assigned_bytes ?w (?n + 32) (arr32 sr) = arr32 sr"
      unfolding assigned_bytes_fixed seg(3) by (rule map_nth_segment) simp_all
    moreover have "assigned_bytes ?w (?n + 32 + 32) (arr32 sr) = arr32 sr"
      unfolding assigned_bytes_fixed seg(4) by (rule map_nth_segment) simp_all
    moreover have "assigned_bytes ?w (?n + 32 + 32 + 32) (arr32 cr) = arr32 cr"
      unfolding assigned_bytes_fixed seg(5) by (rule map_nth_segment) simp_all
    ultimately show ?thesis
      unfolding prf_chain_constraints_def tls12_master_secret_constrained_def tls12_key_expansion_constrained_def
      by (simp add: new_witness_bytes_def rbind_assoc del: add.assoc)
  qed
  show ?thesis
    unfolding generate_constraints_def rbind_new_witness length_be_bytes
    by (cases "pre_master_secret c"; cases "client_random c"; cases "server_random c"; cases "pms_hash_fe c")
      (simp_all add: pv chain Let_def)
qed

text \<open>The transcript circuit.\<close>

definition pgp_relation :: "sha \<Rightarrow> ('b, 'u8, 'u32, 'f, 'fr) r1cs \<Rightarrow> 'fr PgpBindingCircuit \<Rightarrow> bool" where
  "pgp_relation H G c \<longleftrightarrow>
     fr_add G (bytes32_to_fr G (query_hash c)) (pgp_rand_binding_fe c) = query_commitment_fe c \<and>
     fr_add G (bytes32_to_fr G (response_hash c)) (pgp_rand_binding_fe c) = response_commitment_fe c \<and>
     pgp_transcript_commitment H G (query_hash c) (response_hash c) (pgp_rand_binding_fe c) =
       transcript_commitment_fe c"

lemma pgp_generate_constraints_value:
  assumes ok: "r1cs_ok G" and H: "sha_ok H"
  shows "gets (enforces G) (pgp_generate_constraints G c) (pgp_relation H G c)"
  unfolding pgp_generate_constraints_def
proof (rule gets_rbind[OF field_laws(2)[OF ok]], rule gets_rbind[OF field_laws(2)[OF ok]],
    rule gets_rbind[OF field_laws(2)[OF ok]], rule gets_rbind[OF field_laws(2)[OF ok]],
    rule gets_rbind[OF witnesses_value[OF ok]], rule gets_rbind[OF witnesses_value[OF ok]],
    rule gets_rbind[OF pack_bytes_value[OF ok]], assumption,
    rule gets_rbind[OF pack_bytes_value[OF ok]], assumption)
  fix eq er et rb qv rv x y
  assume eqs: "AF G eq (query_commitment_fe c)" "AF G er (response_commitment_fe c)"
      "AF G et (transcript_commitment_fe c)" and rb: "AF G rb (pgp_rand_binding_fe c)"
    and qv: "list_all2 (A8 G) qv (arr32 (query_hash c))" and rv: "list_all2 (A8 G) rv (arr32 (response_hash c))"
    and x: "AF G x (bytes32_to_fr G (query_hash c))" and y: "AF G y (bytes32_to_fr G (response_hash c))"
  have digest: "gets (list_all2 (A8 G)) (sha256_from_byte_vars G (qv @ rv))
      (arr32 (H (arr32 (query_hash c) @ arr32 (response_hash c))))"
    using sha256_from_byte_vars_value[OF ok list_all2_appendI[OF qv rv]] by (simp only: arr32_sha[OF H])
  show "gets (enforces G)
     (rbind (sha256_from_byte_vars G (qv @ rv)) (\<lambda>dv. rbind (pack_bytes_to_fpvar G dv) (\<lambda>z.
        Inr [(f_add G x rb, eq), (f_add G y rb, er), (f_add G z rb, et)])))
     (pgp_relation H G c)"
    by (rule gets_rbind[OF digest], rule gets_rbind[OF pack_bytes_value[OF ok]], assumption)
      (simp add: enforces_def pgp_relation_def pgp_transcript_commitment_def
        AF_eq_iff[OF field_laws(4)[OF ok x rb] eqs(1)] AF_eq_iff[OF field_laws(4)[OF ok y rb] eqs(2)]
        AF_eq_iff[OF field_laws(4)[OF ok _ rb] eqs(3)])
qed

lemma mod_add_cancel_less:
  fixes p :: nat
  assumes "a < p" "b < p" "r < p" "(a + r) mod p = (b + r) mod p"
  shows "a = b"
proof -
  have "(x + r) mod p = (if x + r < p then x + r else x + r - p)" if "x < p" for x
    using that assms(3) le_mod_geq[of p "x + r"] by (cases "x + r < p") simp_all
  with assms show ?thesis by (auto split: if_splits)
qed

lemma fr_add_cancel:
  assumes "r1cs_ok G"
  shows "fr_add G u r = fr_add G v r \<longleftrightarrow> u = v"
proof
  assume "fr_add G u r = fr_add G v r"
  then have "fr_into_bigint G (fr_add G u r) = fr_into_bigint G (fr_add G v r)" by simp
  then have "fr_into_bigint G u = fr_into_bigint G v"
    unfolding fr_laws(5)[OF assms] by (rule mod_add_cancel_less[OF fr_laws(1,1,1)[OF assms]])
  then show "u = v" by (rule fr_laws(2)[OF assms])
qed simp

text \<open>The packed value is the little-endian number of the bytes, cut to 254 bits, reduced.\<close>

lemma bytes32_to_fr_take_bit:
  assumes "r1cs_ok G"
  shows "fr_into_bigint G (bytes32_to_fr G w) =
    take_bit 254 (horner_sum unat 256 (arr32 w)) mod FR_MODULUS"
  by (simp add: bytes32_to_fr_value[OF assms] horner_bytes take_bit_horner_sum_bit_eq)

lemma horner_rev_be_bytes:
  "horner_sum unat 256 (rev (be_bytes n (w :: 'a::len word))) = take_bit (8 * n) (unat w)"
proof (induction n)
  case (Suc n)
  have byte: "unat (ucast (drop_bit (8 * n) w) :: byte) = unat w div 2 ^ (8 * n) mod 2 ^ 8"
  proof -
    have "unat (ucast (drop_bit (8 * n) w) :: byte) = take_bit 8 (drop_bit (8 * n) (unat w))"
      by (rule bit_eqI) (auto simp: bit_simps dest: bit_imp_le_length)
    then show ?thesis by (simp only: take_bit_eq_mod drop_bit_eq_div)
  qed
  have "take_bit (8 * Suc n) (unat w) = unat w mod (2 ^ (8 * n) * 2 ^ 8)"
    by (simp add: take_bit_eq_mod power_add mult.commute)
  also have "\<dots> = 2 ^ (8 * n) * (unat w div 2 ^ (8 * n) mod 2 ^ 8) + unat w mod 2 ^ (8 * n)"
    by (rule mod_mult2_eq)
  finally show ?case
    using Suc by (simp add: be_bytes_Suc horner_sum_append byte take_bit_eq_mod power_mult)
qed (simp add: be_bytes_def)

lemma arr32_last: "arr32 v = take 31 (arr32 v) @ [ucast v]"
  using take_Suc_conv_app_nth[of 31 "arr32 v"] by (simp add: be_bytes_def)

lemma bit_0x40: "bit (0x40 :: 'a::len word) n \<longleftrightarrow> n = 6 \<and> 6 < LENGTH('a)"
proof -
  have "(0x40 :: 'a word) = 2 ^ 6" by simp
  then show ?thesis by (simp only: bit_exp_iff) auto
qed

lemma flip_bit_bytes: "arr32 (w XOR 0x40) = take 31 (arr32 w) @ [ucast w XOR 0x40]"
proof -
  have "take 31 (arr32 (w XOR 0x40)) = take 31 (arr32 w)"
  proof (rule nth_equalityI)
    fix i assume i: "i < length (take 31 (arr32 (w XOR 0x40)))"
    have "\<not> bit (0x40 :: bytes32) (8 * (31 - i) + n)" for n using i by (subst bit_0x40) auto
    with i show "take 31 (arr32 (w XOR 0x40)) ! i = take 31 (arr32 w) ! i"
      by (auto simp: be_bytes_def intro!: bit_word_eqI simp: bit_xor_iff bit_ucast_iff bit_drop_bit_eq
          simp del: bit_numeral_word_iff)
  qed simp
  moreover have "ucast (w XOR 0x40) = (ucast w XOR 0x40 :: byte)"
    by (rule bit_word_eqI)
      (auto simp: bit_xor_iff bit_ucast_iff bit_0x40 simp del: bit_numeral_word_iff)
  ultimately show ?thesis using arr32_last[of "w XOR 0x40"] by simp
qed

section \<open>Properties\<close>

definition witness32 :: "(nat \<Rightarrow> byte) \<Rightarrow> nat \<Rightarrow> bytes32" where
  "witness32 a n = be_word (map a [n..<n + 32])"

lemma assigned32_fixed: "assigned32 (\<lambda>i _. a i) n v = witness32 a n"
  by (simp add: assigned32_def assigned_bytes_fixed witness32_def)

text \<open>The relation of the mode 2 circuit, for an assignment of its 240 byte witnesses.\<close>

lemma mode2_relation:
  assumes ok: "r1cs_ok G" "sha_ok H" "hmac_ok H hm"
    and m: "pre_master_secret c = Some pms" "length pms = 48" "client_random c = Some cr" "server_random c = Some sr"
      "pms_hash_fe c = Some pf"
  shows "gets (enforces G) (generate_constraints G (\<lambda>i _. a i) c)
    (k_mac_commitment G (xor_shares (witness32 a 0) (witness32 a 32)) (rand_binding_fe c) = k_mac_commitment_fe c \<and>
     pms_hash H G (map a [64..<112]) = pf \<and>
     bytes32_to_fr G (chain_k_mac hm (map a [64..<112]) (witness32 a 112) (witness32 a 144) (witness32 a 208) (witness32 a 176)) =
       bytes32_to_fr G (xor_shares (witness32 a 0) (witness32 a 32)))"
proof -
  have cancel: "fr_add G u r = e \<and> P \<and> fr_add G v r = e \<longleftrightarrow> fr_add G u r = e \<and> P \<and> v = u" for u v r e P
    using fr_add_cancel[OF ok(1), of v r u] by auto
  have "pms_fits c" by (simp add: pms_fits_def m)
  from generate_constraints_value[OF ok this, of "\<lambda>i _. a i"] show ?thesis
    by (simp add: prf_relation_def chain_relation_def Let_def m assigned_bytes_fixed assigned32_fixed k_mac_commitment_def
        cancel)
qed

text \<open>C8. In mode 2 the constraints can always be generated, whatever values the 240 byte witnesses are assigned, and
  an assignment satisfies them exactly when the commitment opens to the exclusive or of the witnesses for the two
  MAC key shares, the public hash is the hash of the witness for the pre-master secret, and that exclusive or
  packs to the same field element as the MAC key that the native TLS 1.2 functions compute from this pre-master
  secret: the master secret with one pair of randoms, the key block with another pair, since each of the two
  derivations has witnesses of its own for the client and the server random.\<close>

theorem tls_prf_circuit_relation:
  assumes "r1cs_ok G" "sha_ok H" "hmac_ok H hm"
    "pre_master_secret c = Some pms" "length pms = 48" "client_random c = Some cr" "server_random c = Some sr"
    "pms_hash_fe c = Some pf"
  shows "\<exists>cs. generate_constraints G (\<lambda>i _. a i) c = Inr cs \<and>
    (satisfied G cs \<longleftrightarrow> (
      let k = xor_shares (witness32 a 0) (witness32 a 32); zp = map a [64..<112];
          master_secret = tls_prf_sha256 hm zp (str_bytes ''master secret'')
            (arr32 (witness32 a 112) @ arr32 (witness32 a 144)) 48;
          key_block = tls12_key_expansion hm master_secret (witness32 a 208) (witness32 a 176)
      in k_mac_commitment G k (rand_binding_fe c) = k_mac_commitment_fe c \<and> pms_hash H G zp = pf \<and>
         bytes32_to_fr G (be_word (take 32 key_block)) = bytes32_to_fr G k))"
  using mode2_relation[OF assms, of a] by (simp add: gets_def enforces_def chain_k_mac_def Let_def)

definition sha_ex :: sha where
  "sha_ex m = be_word (sha256_ref m)"

lemma sha_ex_ok: "sha_ok sha_ex"
  by (simp add: sha_ok_def sha_ex_def)

lemma hmac_ref_ok: "hmac_ok H (hmac_ref H)"
  by (simp add: hmac_ok_def)

theorem tls_prf_circuit_relation_witness:
  "let c = with_tls_prf sha_ex r1cs_ex 1 2 3 (arr48 5) 6 7; k = xor_shares (witness32 of_nat 0) (witness32 of_nat 32) in
   \<exists>cs. generate_constraints r1cs_ex (\<lambda>i _. of_nat i) c = Inr cs \<and>
    (satisfied r1cs_ex cs \<longleftrightarrow>
      k_mac_commitment r1cs_ex k (rand_binding_fe c) = k_mac_commitment_fe c \<and>
      pms_hash sha_ex r1cs_ex (map of_nat [64..<112]) = pms_hash sha_ex r1cs_ex (arr48 5) \<and>
      bytes32_to_fr r1cs_ex (be_word (take 32 (tls12_key_expansion (hmac_ref sha_ex)
        (tls_prf_sha256 (hmac_ref sha_ex) (map of_nat [64..<112]) (str_bytes ''master secret'')
          (arr32 (witness32 of_nat 112) @ arr32 (witness32 of_nat 144)) 48) (witness32 of_nat 208) (witness32 of_nat 176)))) =
      bytes32_to_fr r1cs_ex k)"
  unfolding Let_def
  by (rule tls_prf_circuit_relation[OF r1cs_ex_ok sha_ex_ok hmac_ref_ok, where pms = "arr48 5" and cr = 6 and sr = 7,
      unfolded Let_def]) (simp_all add: with_tls_prf_def Let_def)

text \<open>C9. The circuit does not tie the two derivations together.  For every pre-master secret and any two pairs of
  randoms, the key of the mixed derivation, split in any way, has an assignment that satisfies the mode 2 circuit
  with the commitment of this key and the hash of the pre-master secret as public inputs.\<close>

theorem prf_randoms_unlinked:
  assumes "r1cs_ok G" "sha_ok H" "hmac_ok H hm"
    and key: "p XOR v = chain_k_mac hm (arr48 pms) cr sr cr' sr'"
  shows "\<exists>a cs. generate_constraints G (\<lambda>i _. a i) (with_tls_prf H G p v rand_binding (arr48 pms) cr sr) = Inr cs \<and>
    satisfied G cs \<and> map a [112..<176] = arr32 cr @ arr32 sr \<and> map a [176..<240] = arr32 sr' @ arr32 cr'"
proof -
  let ?bs = "arr32 p @ arr32 v @ arr48 pms @ arr32 cr @ arr32 sr @ arr32 sr' @ arr32 cr'"
  have w: "witness32 (nth ?bs) 0 = p" "witness32 (nth ?bs) 32 = v" "witness32 (nth ?bs) 112 = cr"
    "witness32 (nth ?bs) 144 = sr" "witness32 (nth ?bs) 176 = sr'" "witness32 (nth ?bs) 208 = cr'"
    unfolding witness32_def
    using map_nth_segment[of 0 "[]" 32 "arr32 p"] map_nth_segment[of 32 "arr32 p" 64 "arr32 v"]
      map_nth_segment[of 112 "arr32 p @ arr32 v @ arr48 pms" 144 "arr32 cr"]
      map_nth_segment[of 144 "arr32 p @ arr32 v @ arr48 pms @ arr32 cr" 176 "arr32 sr"]
      map_nth_segment[of 176 "arr32 p @ arr32 v @ arr48 pms @ arr32 cr @ arr32 sr" 208 "arr32 sr'"]
      map_nth_segment[of 208 "arr32 p @ arr32 v @ arr48 pms @ arr32 cr @ arr32 sr @ arr32 sr'" 240 "arr32 cr'" "[]"]
    by (simp_all add: be_word_be_bytes)
  have zp: "map (nth ?bs) [64..<112] = arr48 pms"
    "map (nth ?bs) [112..<176] = arr32 cr @ arr32 sr" "map (nth ?bs) [176..<240] = arr32 sr' @ arr32 cr'"
    using map_nth_segment[of 64 "arr32 p @ arr32 v" 112 "arr48 pms"]
      map_nth_segment[of 112 "arr32 p @ arr32 v @ arr48 pms" 176 "arr32 cr @ arr32 sr"]
      map_nth_segment[of 176 "arr32 p @ arr32 v @ arr48 pms @ arr32 cr @ arr32 sr" 240 "arr32 sr' @ arr32 cr'" "[]"]
    by simp_all
  let ?c = "with_tls_prf H G p v rand_binding (arr48 pms) cr sr"
  have m: "pre_master_secret ?c = Some (arr48 pms)" "length (arr48 pms) = 48" "client_random ?c = Some cr"
    "server_random ?c = Some sr" "pms_hash_fe ?c = Some (pms_hash H G (arr48 pms))"
    "k_mac_commitment G (xor_shares p v) (rand_binding_fe ?c) = k_mac_commitment_fe ?c"
    by (simp_all add: with_tls_prf_def Let_def)
  have "gets (enforces G) (generate_constraints G (\<lambda>i _. ?bs ! i) ?c) True"
    using mode2_relation[OF assms(1-3) m(1-5), of "nth ?bs", unfolded w zp m(6)]
    by (simp add: key[symmetric] xor_shares_def)
  then show ?thesis
    using zp(2,3) by (intro exI[of _ "nth ?bs"]) (auto simp: gets_def enforces_def)
qed

theorem prf_randoms_unlinked_witness:
  "\<exists>a cs. generate_constraints r1cs_ex (\<lambda>i _. a i) (with_tls_prf sha_ex r1cs_ex
      (chain_k_mac (hmac_ref sha_ex) (arr48 5) 6 7 8 9) 0 3 (arr48 5) 6 7) = Inr cs \<and> satisfied r1cs_ex cs \<and>
    map a [112..<176] = arr32 6 @ arr32 7 \<and> map a [176..<240] = arr32 9 @ arr32 8"
  by (rule prf_randoms_unlinked[OF r1cs_ex_ok sha_ex_ok hmac_ref_ok]) simp

text \<open>Packing a 32-byte key is not injective: flipping bit 254 of any key leaves its
  packed value unchanged, and the bytes of the modulus pack to the same value as the zero key, so
  a packed value is reduced.\<close>

theorem bytes32_to_fr_not_injective:
  assumes "r1cs_ok G"
  shows "bytes32_to_fr G (w XOR 0x40) = bytes32_to_fr G w \<and> w XOR 0x40 \<noteq> w \<and>
    bytes32_to_fr G (be_word (rev (arr32 (of_nat FR_MODULUS)))) = bytes32_to_fr G 0"
proof -
  define xs where "xs = concat (map word_bits (take 31 (arr32 w)))"
  have len: "length xs = 248" by (simp add: xs_def)
  have bits: "take 6 (word_bits (c XOR 0x40)) = take 6 (word_bits c)" for c :: byte
    by (rule nth_equalityI) (auto simp: bit_xor_iff bit_0x40 simp del: bit_numeral_word_iff)
  have "concat (map word_bits (arr32 (w XOR 0x40))) = xs @ word_bits (ucast w XOR 0x40 :: byte)"
    "concat (map word_bits (arr32 w)) = xs @ word_bits (ucast w :: byte)"
    unfolding xs_def flip_bit_bytes by (simp, subst arr32_last, simp)
  then have "fr_into_bigint G (bytes32_to_fr G (w XOR 0x40)) = fr_into_bigint G (bytes32_to_fr G w)"
    by (simp add: bytes32_to_fr_value[OF assms] len bits)
  then have same: "bytes32_to_fr G (w XOR 0x40) = bytes32_to_fr G w" by (rule fr_laws(2)[OF assms])
  have distinct: "w XOR 0x40 \<noteq> w"
  proof
    assume "w XOR 0x40 = w"
    then have "w XOR (w XOR 0x40) = 0" by simp
    then show False by (simp flip: xor.assoc)
  qed
  have "unat (of_nat FR_MODULUS :: bytes32) = FR_MODULUS"
    by (simp add: FR_MODULUS_def)
  then have "fr_into_bigint G (bytes32_to_fr G (be_word (rev (arr32 (of_nat FR_MODULUS))))) = 0"
    by (simp add: bytes32_to_fr_take_bit[OF assms] be_bytes_be_word horner_rev_be_bytes take_bit_take_bit)
      (simp add: take_bit_eq_mod FR_MODULUS_def)
  moreover have "fr_into_bigint G (bytes32_to_fr G 0) = 0"
  proof -
    have "arr32 0 = rev (arr32 0)" by (simp add: be_bytes_def map_replicate_const)
    then have "horner_sum unat 256 (arr32 0) = take_bit (8 * 32) (unat (0 :: bytes32))"
      using horner_rev_be_bytes[of 32 "0 :: bytes32"] by simp
    then show ?thesis by (simp add: bytes32_to_fr_take_bit[OF assms])
  qed
  ultimately have "bytes32_to_fr G (be_word (rev (arr32 (of_nat FR_MODULUS)))) = bytes32_to_fr G 0"
    by (intro fr_laws(2)[OF assms]) simp
  with same distinct show ?thesis by simp
qed

theorem bytes32_to_fr_not_injective_witness:
  "bytes32_to_fr r1cs_ex (5 XOR 0x40) = bytes32_to_fr r1cs_ex 5 \<and> (5 :: bytes32) XOR 0x40 \<noteq> 5 \<and>
    bytes32_to_fr r1cs_ex (be_word (rev (arr32 (of_nat FR_MODULUS)))) = bytes32_to_fr r1cs_ex 0"
  by (rule bytes32_to_fr_not_injective[OF r1cs_ex_ok])

end
