(* ===== verification/Co_Snark.thy ===== *)
theory Co_Snark
  imports Tls_Prf_Circuit
begin

text \<open>
  The handshake proof of \<open>zk/src/co_snark.rs\<close>: setup, execution in both modes, and verification.

  Groth16 over BN254 and the canonical serialization of its values are the record \<open>groth\<close>, a
  parameter.  \<open>codec_ok\<close> says that serialization is total and inverted by deserialization,
  \<open>groth_complete\<close> that a proof of a circuit verifies when honest synthesis satisfies it, and \<open>groth_sound\<close> that only
  statements with a satisfying assignment verify, for circuits of the shape of the setup circuit.  An
  assignment gives every allocated byte witness a value of its own; it need not come from a circuit structure.
\<close>

section \<open>The proof system as a parameter\<close>

record ('fr, 'pk, 'vk, 'pvk, 'pf, 'rng) groth =
  circuit_specific_setup :: "'fr TlsPrfCircuit \<Rightarrow> 'rng \<Rightarrow> (string, 'pk \<times> 'vk) result"
  process_vk :: "'vk \<Rightarrow> (string, 'pvk) result"
  g_prove :: "'pk \<Rightarrow> 'fr TlsPrfCircuit \<Rightarrow> 'rng \<Rightarrow> (string, 'pf) result"
  verify_with_processed_vk :: "'pvk \<Rightarrow> 'fr list \<Rightarrow> 'pf \<Rightarrow> (string, bool) result"
  pf_serialize :: "'pf \<Rightarrow> (string, byte list) result"
  pf_deserialize :: "byte list \<Rightarrow> (string, 'pf) result"
  fr_serialize :: "'fr \<Rightarrow> (string, byte list) result"
  fr_deserialize :: "byte list \<Rightarrow> (string, 'fr) result"
  pvk_serialize :: "'pvk \<Rightarrow> byte list"
  pvk_deserialize :: "byte list \<Rightarrow> (string, 'pvk) result"

section \<open>The component, in source order\<close>

datatype CoSnarkError = CoSetup string | CoProve string | CoVerify | CoSerialize string

record ('pk, 'pvk) CoSnarkCrs =
  crs_pk :: 'pk
  crs_pvk :: 'pvk

definition setup_circuit :: "('fr, 'pk, 'vk, 'pvk, 'pf, 'rng) groth \<Rightarrow> 'fr TlsPrfCircuit \<Rightarrow> 'rng \<Rightarrow>
    (CoSnarkError, ('pk, 'pvk) CoSnarkCrs) result" where
  "setup_circuit K circuit rng =
     rbind (map_err CoSetup (circuit_specific_setup K circuit rng)) (\<lambda>(pk, vk).
     rbind (map_err CoSetup (process_vk K vk)) (\<lambda>pvk.
       Inr \<lparr> crs_pk = pk, crs_pvk = pvk \<rparr>))"

definition crs_setup :: "('b, 'u8, 'u32, 'f, 'fr) r1cs \<Rightarrow> ('fr, 'pk, 'vk, 'pvk, 'pf, 'rng) groth \<Rightarrow> 'rng \<Rightarrow>
    (CoSnarkError, ('pk, 'pvk) CoSnarkCrs) result" where
  "crs_setup G K rng = setup_circuit K (TlsPrfCircuit_dummy G) rng"

definition crs_setup_mode2 :: "sha \<Rightarrow> ('b, 'u8, 'u32, 'f, 'fr) r1cs \<Rightarrow>
    ('fr, 'pk, 'vk, 'pvk, 'pf, 'rng) groth \<Rightarrow> 'rng \<Rightarrow> (CoSnarkError, ('pk, 'pvk) CoSnarkCrs) result" where
  "crs_setup_mode2 H G K rng = setup_circuit K (dummy_full_prf H G) rng"

definition crs_verifying_key_bytes :: "('fr, 'pk, 'vk, 'pvk, 'pf, 'rng) groth \<Rightarrow> ('pk, 'pvk) CoSnarkCrs \<Rightarrow>
    byte list" where
  "crs_verifying_key_bytes K crs = pvk_serialize K (crs_pvk crs)"

record HspZkProof =
  groth16_bytes :: "byte list"
  k_mac_commitment_bytes :: "byte list"
  rand_binding_bytes :: "byte list"
  zk_k_mac :: bytes32
  pms_hash_bytes :: "byte list"

fun share_bytes :: "ProverMacKeyShare \<Rightarrow> VerifierMacKeyShare \<Rightarrow> bytes32 \<times> bytes32" where
  "share_bytes (ProverMacKeyShare p) (VerifierMacKeyShare v) = (p, v)"

fun mac_key_bytes :: "MacKey \<Rightarrow> bytes32" where
  "mac_key_bytes (MacKey k) = k"

text \<open>The common tail of both executions: prove, then serialize the proof and its inputs.\<close>

definition prove_circuit :: "('fr, 'pk, 'vk, 'pvk, 'pf, 'rng) groth \<Rightarrow> ('pk, 'pvk) CoSnarkCrs \<Rightarrow>
    'fr TlsPrfCircuit \<Rightarrow> bytes32 \<Rightarrow> 'fr option \<Rightarrow> 'rng \<Rightarrow> (CoSnarkError, HspZkProof) result" where
  "prove_circuit K crs circuit k pms_fe_opt rng =
     rbind (map_err CoProve (g_prove K (crs_pk crs) circuit rng)) (\<lambda>proof.
     rbind (map_err CoSerialize (pf_serialize K proof)) (\<lambda>groth16.
     rbind (map_err CoSerialize (fr_serialize K (k_mac_commitment_fe circuit))) (\<lambda>commitment.
     rbind (map_err CoSerialize (fr_serialize K (rand_binding_fe circuit))) (\<lambda>rand_bytes.
     rbind (case pms_fe_opt of None \<Rightarrow> Inr []
            | Some pms_fe \<Rightarrow> map_err CoSerialize (fr_serialize K pms_fe)) (\<lambda>pms_bytes.
       Inr \<lparr> groth16_bytes = groth16, k_mac_commitment_bytes = commitment,
             rand_binding_bytes = rand_bytes, zk_k_mac = k, pms_hash_bytes = pms_bytes \<rparr>)))))"

definition co_snark_execute :: "('b, 'u8, 'u32, 'f, 'fr) r1cs \<Rightarrow> ('fr, 'pk, 'vk, 'pvk, 'pf, 'rng) groth \<Rightarrow>
    ('pk, 'pvk) CoSnarkCrs \<Rightarrow> ProverMacKeyShare \<Rightarrow> VerifierMacKeyShare \<Rightarrow> bytes32 \<Rightarrow> 'rng \<Rightarrow>
    (CoSnarkError, HspZkProof) result" where
  "co_snark_execute G K crs p_share v_share rand_binding rng = (
     let k_mac = combine_mac_key_shares p_share v_share;
         circuit = (case share_bytes p_share v_share of (p, v) \<Rightarrow> TlsPrfCircuit_new G p v rand_binding)
     in prove_circuit K crs circuit (mac_key_bytes k_mac) (pms_hash_fe circuit) rng)"

definition co_snark_execute_mode2 :: "sha \<Rightarrow> ('b, 'u8, 'u32, 'f, 'fr) r1cs \<Rightarrow>
    ('fr, 'pk, 'vk, 'pvk, 'pf, 'rng) groth \<Rightarrow> ('pk, 'pvk) CoSnarkCrs \<Rightarrow> ProverMacKeyShare \<Rightarrow>
    VerifierMacKeyShare \<Rightarrow> bytes32 \<Rightarrow> byte list \<Rightarrow> bytes32 \<Rightarrow> bytes32 \<Rightarrow> 'rng \<Rightarrow>
    (CoSnarkError, HspZkProof) result" where
  "co_snark_execute_mode2 H G K crs p_share v_share rand_binding pms cr sr rng = (
     let k_mac = combine_mac_key_shares p_share v_share;
         circuit = (case share_bytes p_share v_share of (p, v) \<Rightarrow>
           with_tls_prf H G p v rand_binding pms cr sr);
         pms_fe = pms_hash H G pms
     in prove_circuit K crs circuit (mac_key_bytes k_mac) (Some pms_fe) rng)"

definition co_snark_verify :: "('b, 'u8, 'u32, 'f, 'fr) r1cs \<Rightarrow> ('fr, 'pk, 'vk, 'pvk, 'pf, 'rng) groth \<Rightarrow>
    'pvk \<Rightarrow> HspZkProof \<Rightarrow> 'fr option \<Rightarrow> (CoSnarkError, unit) result" where
  "co_snark_verify G K pvk proof expected_pms_hash =
     rbind (map_err (\<lambda>e. CoSerialize (''proof deserialize: '' @ e))
       (pf_deserialize K (groth16_bytes proof))) (\<lambda>groth16_proof.
     rbind (map_err (\<lambda>e. CoSerialize (''commitment deserialize: '' @ e))
       (fr_deserialize K (k_mac_commitment_bytes proof))) (\<lambda>commitment_fe.
     rbind (map_err (\<lambda>e. CoSerialize (''rand deserialize: '' @ e))
       (fr_deserialize K (rand_binding_bytes proof))) (\<lambda>rand_fe.
     rbind (if pms_hash_bytes proof = [] then Inr None
            else rbind (map_err (\<lambda>e. CoSerialize (''pms_hash deserialize: '' @ e))
              (fr_deserialize K (pms_hash_bytes proof))) (\<lambda>f. Inr (Some f))) (\<lambda>proof_pms_fe_opt.
     let public_inputs = [commitment_fe, rand_fe] @
           (case proof_pms_fe_opt of Some pms_fe \<Rightarrow> [pms_fe] | None \<Rightarrow> []) in
     rbind (map_err CoProve (verify_with_processed_vk K pvk public_inputs groth16_proof)) (\<lambda>valid.
     if \<not> valid then Inl CoVerify
     else if k_mac_commitment G (zk_k_mac proof) rand_fe \<noteq> commitment_fe then Inl CoVerify
     else (case (expected_pms_hash, proof_pms_fe_opt) of
            (Some expected_fe, Some proof_fe) \<Rightarrow> if proof_fe \<noteq> expected_fe then Inl CoVerify else Inr ()
          | (Some _, None) \<Rightarrow> Inl CoVerify
          | (None, Some _) \<Rightarrow> Inl CoVerify
          | (None, None) \<Rightarrow> Inr ()))))))"

text \<open>The backend holds a reference string and forwards to the functions above.\<close>

record ('pk, 'pvk) CoSnarkBackend =
  backend_crs :: "('pk, 'pvk) CoSnarkCrs"

definition backend_setup :: "('b, 'u8, 'u32, 'f, 'fr) r1cs \<Rightarrow> ('fr, 'pk, 'vk, 'pvk, 'pf, 'rng) groth \<Rightarrow> 'rng \<Rightarrow>
    (CoSnarkError, ('pk, 'pvk) CoSnarkBackend) result" where
  "backend_setup G K rng = rbind (crs_setup G K rng) (\<lambda>crs. Inr \<lparr> backend_crs = crs \<rparr>)"

definition backend_setup_mode2 :: "sha \<Rightarrow> ('b, 'u8, 'u32, 'f, 'fr) r1cs \<Rightarrow>
    ('fr, 'pk, 'vk, 'pvk, 'pf, 'rng) groth \<Rightarrow> 'rng \<Rightarrow> (CoSnarkError, ('pk, 'pvk) CoSnarkBackend) result" where
  "backend_setup_mode2 H G K rng = rbind (crs_setup_mode2 H G K rng) (\<lambda>crs. Inr \<lparr> backend_crs = crs \<rparr>)"

definition backend_execute :: "('b, 'u8, 'u32, 'f, 'fr) r1cs \<Rightarrow> ('fr, 'pk, 'vk, 'pvk, 'pf, 'rng) groth \<Rightarrow>
    ('pk, 'pvk) CoSnarkBackend \<Rightarrow> ProverMacKeyShare \<Rightarrow> VerifierMacKeyShare \<Rightarrow> bytes32 \<Rightarrow> 'rng \<Rightarrow>
    (CoSnarkError, HspZkProof) result" where
  "backend_execute G K be p v rand_binding rng = co_snark_execute G K (backend_crs be) p v rand_binding rng"

definition backend_execute_mode2 :: "sha \<Rightarrow> ('b, 'u8, 'u32, 'f, 'fr) r1cs \<Rightarrow>
    ('fr, 'pk, 'vk, 'pvk, 'pf, 'rng) groth \<Rightarrow> ('pk, 'pvk) CoSnarkBackend \<Rightarrow> ProverMacKeyShare \<Rightarrow>
    VerifierMacKeyShare \<Rightarrow> bytes32 \<Rightarrow> byte list \<Rightarrow> bytes32 \<Rightarrow> bytes32 \<Rightarrow> 'rng \<Rightarrow>
    (CoSnarkError, HspZkProof) result" where
  "backend_execute_mode2 H G K be p v rand_binding pms cr sr rng =
     co_snark_execute_mode2 H G K (backend_crs be) p v rand_binding pms cr sr rng"

definition backend_verify :: "('b, 'u8, 'u32, 'f, 'fr) r1cs \<Rightarrow> ('fr, 'pk, 'vk, 'pvk, 'pf, 'rng) groth \<Rightarrow>
    ('pk, 'pvk) CoSnarkBackend \<Rightarrow> HspZkProof \<Rightarrow> 'fr option \<Rightarrow> (CoSnarkError, unit) result" where
  "backend_verify G K be proof expected = co_snark_verify G K (crs_pvk (backend_crs be)) proof expected"

section \<open>What is relied on\<close>

definition public_inputs_of :: "'fr TlsPrfCircuit \<Rightarrow> 'fr list" where
  "public_inputs_of c = [k_mac_commitment_fe c, rand_binding_fe c] @
     (case pms_hash_fe c of Some h \<Rightarrow> [h] | None \<Rightarrow> [])"

text \<open>Two circuits generate the same constraint system, up to the assignment, when they enable the
  same block and have a pre-master secret of the same length.\<close>

type_synonym shape = "nat option \<times> bool \<times> bool \<times> bool"

definition circuit_shape :: "'fr TlsPrfCircuit \<Rightarrow> shape" where
  "circuit_shape c = (map_option length (pre_master_secret c), client_random c = None,
     server_random c = None, pms_hash_fe c = None)"

definition same_shape :: "'fr TlsPrfCircuit \<Rightarrow> 'fr TlsPrfCircuit \<Rightarrow> bool" where
  "same_shape c d \<longleftrightarrow> circuit_shape c = circuit_shape d"

text \<open>Honest synthesis satisfies the circuit; an assignment of the witnesses satisfies the circuit, whatever the
  structure supplies for them.\<close>

definition circuit_satisfied :: "('b, 'u8, 'u32, 'f, 'fr) r1cs \<Rightarrow> 'fr TlsPrfCircuit \<Rightarrow> bool" where
  "circuit_satisfied G c \<longleftrightarrow> (\<exists>cs. generate_constraints G honest c = Inr cs \<and> satisfied G cs)"

definition satisfying_assignment :: "('b, 'u8, 'u32, 'f, 'fr) r1cs \<Rightarrow> 'fr TlsPrfCircuit \<Rightarrow> (nat \<Rightarrow> byte) \<Rightarrow> bool" where
  "satisfying_assignment G c a \<longleftrightarrow> (\<exists>cs. generate_constraints G (\<lambda>i _. a i) c = Inr cs \<and> satisfied G cs)"

definition codec_ok :: "('fr, 'pk, 'vk, 'pvk, 'pf, 'rng) groth \<Rightarrow> bool" where
  "codec_ok K \<longleftrightarrow>
     (\<forall>x. \<exists>b. pf_serialize K x = Inr b \<and> pf_deserialize K b = Inr x) \<and>
     (\<forall>x. \<exists>b. fr_serialize K x = Inr b \<and> b \<noteq> [] \<and> fr_deserialize K b = Inr x) \<and>
     (\<forall>x. pvk_deserialize K (pvk_serialize K x) = Inr x)"

definition groth_complete :: "('b, 'u8, 'u32, 'f, 'fr) r1cs \<Rightarrow> ('fr, 'pk, 'vk, 'pvk, 'pf, 'rng) groth \<Rightarrow> bool" where
  "groth_complete G K \<longleftrightarrow> (\<forall>d rng crs c rng'.
     setup_circuit K d rng = Inr crs \<longrightarrow> same_shape c d \<longrightarrow> circuit_satisfied G c \<longrightarrow>
     (\<exists>pf. g_prove K (crs_pk crs) c rng' = Inr pf \<and>
        verify_with_processed_vk K (crs_pvk crs) (public_inputs_of c) pf = Inr True))"

definition groth_sound :: "('b, 'u8, 'u32, 'f, 'fr) r1cs \<Rightarrow> ('fr, 'pk, 'vk, 'pvk, 'pf, 'rng) groth \<Rightarrow> bool" where
  "groth_sound G K \<longleftrightarrow> (\<forall>d rng crs inputs pf.
     setup_circuit K d rng = Inr crs \<longrightarrow>
     verify_with_processed_vk K (crs_pvk crs) inputs pf = Inr True \<longrightarrow>
     (\<exists>c a. same_shape c d \<and> public_inputs_of c = inputs \<and> satisfying_assignment G c a))"


section \<open>Verification, branch by branch\<close>

definition decoded_pms :: "('fr, 'pk, 'vk, 'pvk, 'pf, 'rng) groth \<Rightarrow> HspZkProof \<Rightarrow> 'fr option \<Rightarrow> bool" where
  "decoded_pms K proof po \<longleftrightarrow> (case po of
     None \<Rightarrow> pms_hash_bytes proof = []
   | Some h \<Rightarrow> pms_hash_bytes proof \<noteq> [] \<and> fr_deserialize K (pms_hash_bytes proof) = Inr h)"

lemma co_snark_verify_eq_Inr:
  "co_snark_verify G K pvk proof expected = Inr () \<longleftrightarrow>
     (\<exists>pf c r. pf_deserialize K (groth16_bytes proof) = Inr pf \<and>
        fr_deserialize K (k_mac_commitment_bytes proof) = Inr c \<and>
        fr_deserialize K (rand_binding_bytes proof) = Inr r \<and> decoded_pms K proof expected \<and>
        verify_with_processed_vk K pvk
          ([c, r] @ (case expected of Some h \<Rightarrow> [h] | None \<Rightarrow> [])) pf = Inr True \<and>
        k_mac_commitment G (zk_k_mac proof) r = c)"
  by (cases expected; cases "pms_hash_bytes proof = []"; cases "fr_deserialize K (pms_hash_bytes proof)")
    (auto simp: co_snark_verify_def rbind_eq_Inr map_err_eq_Inr decoded_pms_def Let_def split: if_splits)

text \<open>A proof is accepted in the mode it was made for only.\<close>

lemma co_snark_verify_modes:
  "co_snark_verify G K pvk proof (Some h) = Inr () \<Longrightarrow> pms_hash_bytes proof \<noteq> []"
  "co_snark_verify G K pvk proof None = Inr () \<Longrightarrow> pms_hash_bytes proof = []"
  by (auto simp: co_snark_verify_eq_Inr decoded_pms_def)

lemma circuit_satisfied_iff:
  assumes "r1cs_ok G" "sha_ok H" "hmac_ok H hm" "pms_fits c"
  shows "circuit_satisfied G c \<longleftrightarrow> prf_relation H hm G honest c"
  using generate_constraints_value[OF assms, of honest] by (auto simp: circuit_satisfied_def gets_def enforces_def)

lemma satisfying_assignmentI: "circuit_satisfied G c \<Longrightarrow> satisfying_assignment G c (nth (supplied_bytes c))"
  by (simp add: circuit_satisfied_def satisfying_assignment_def generate_constraints_supplied)

lemma codecD:
  assumes "codec_ok K"
  obtains b where "pf_serialize K x = Inr b" "pf_deserialize K b = Inr x"
  using assms unfolding codec_ok_def by blast

lemma fr_codecD:
  assumes "codec_ok K"
  obtains b where "fr_serialize K x = Inr b" "b \<noteq> []" "fr_deserialize K b = Inr x"
  using assms unfolding codec_ok_def by blast

text \<open>A satisfied circuit of the right shape is proved, and the proof verifies for its key.\<close>

lemma prove_circuit_verifies:
  assumes K: "codec_ok K" "groth_complete G K" and crs: "setup_circuit K d rng = Inr crs"
    and c: "same_shape c d" "circuit_satisfied G c" "pms_hash_fe c = po"
    and k: "k_mac_commitment G k (rand_binding_fe c) = k_mac_commitment_fe c"
  shows "\<exists>proof. prove_circuit K crs c k po rng' = Inr proof \<and> zk_k_mac proof = k \<and>
    co_snark_verify G K (crs_pvk crs) proof po = Inr ()"
proof -
  obtain pf where pf: "g_prove K (crs_pk crs) c rng' = Inr pf"
    "verify_with_processed_vk K (crs_pvk crs) (public_inputs_of c) pf = Inr True"
    using K(2) crs c unfolding groth_complete_def by blast
  obtain b where b: "pf_serialize K pf = Inr b" "pf_deserialize K b = Inr pf" by (rule codecD[OF K(1)])
  obtain cb where cb: "fr_serialize K (k_mac_commitment_fe c) = Inr cb"
    "fr_deserialize K cb = Inr (k_mac_commitment_fe c)" by (rule fr_codecD[OF K(1)])
  obtain rb where rb: "fr_serialize K (rand_binding_fe c) = Inr rb"
    "fr_deserialize K rb = Inr (rand_binding_fe c)" by (rule fr_codecD[OF K(1)])
  obtain pb where pb: "(case po of None \<Rightarrow> Inr [] | Some h \<Rightarrow> map_err CoSerialize (fr_serialize K h)) = Inr pb"
    "case po of None \<Rightarrow> pb = [] | Some h \<Rightarrow> pb \<noteq> [] \<and> fr_deserialize K pb = Inr h"
  proof (cases po)
    case (Some h)
    obtain x where "fr_serialize K h = Inr x" "x \<noteq> []" "fr_deserialize K x = Inr h"
      by (rule fr_codecD[OF K(1)])
    with Some that show thesis by simp
  qed (use that in simp)
  show ?thesis
    using pf k c(3) pb
    by (cases po) (auto simp: prove_circuit_def b cb rb co_snark_verify_eq_Inr decoded_pms_def public_inputs_of_def
        rbind_eq_Inr)
qed

section \<open>An instance\<close>

text \<open>The ideal proof system: a statement verifies exactly when it has a satisfying assignment.\<close>

fun shape_bytes :: "shape \<Rightarrow> byte list" where
  "shape_bytes (n, a, b, c) = [of_bool a, of_bool b, of_bool c] @
     (case n of None \<Rightarrow> [] | Some k \<Rightarrow> replicate (Suc k) 0)"

definition bytes_shape :: "byte list \<Rightarrow> shape" where
  "bytes_shape bs = (if length bs = 3 then None else Some (length bs - 4),
     bs ! 0 = 1, bs ! 1 = 1, bs ! 2 = 1)"

lemma bytes_shape_inverse: "bytes_shape (shape_bytes s) = s"
  by (cases s) (auto simp: bytes_shape_def split: option.splits)

definition groth_ex :: "(fr_rep, shape, shape, shape, unit, unit) groth" where
  "groth_ex = \<lparr> circuit_specific_setup = (\<lambda>d _. Inr (circuit_shape d, circuit_shape d)),
     process_vk = Inr, g_prove = (\<lambda>_ _ _. Inr ()),
     verify_with_processed_vk = (\<lambda>s inputs _. Inr (\<exists>c a. circuit_shape c = s \<and>
        public_inputs_of c = inputs \<and> satisfying_assignment r1cs_ex c a)),
     pf_serialize = (\<lambda>_. Inr []), pf_deserialize = (\<lambda>_. Inr ()),
     fr_serialize = (\<lambda>x. Inr (arr32 (of_nat (fr_nat x)))),
     fr_deserialize = (\<lambda>bs. Inr (fr_of_nat (unat (be_word bs :: bytes32)))),
     pvk_serialize = shape_bytes, pvk_deserialize = (\<lambda>bs. Inr (bytes_shape bs)) \<rparr>"

lemma fr_of_nat_fr_nat: "fr_of_nat (fr_nat x) = x"
  using fr_nat_less[of x] by (simp add: fr_of_nat_def fr_nat_inverse)

lemma groth_ex_codec: "codec_ok groth_ex"
proof -
  have "unat (of_nat (fr_nat x) :: bytes32) = fr_nat x" for x
    using fr_nat_less[of x] by (simp add: unsigned_of_nat take_bit_nat_eq_self FR_MODULUS_def)
  moreover have "arr32 w \<noteq> []" for w using length_be_bytes[of 32 w] by fastforce
  ultimately show ?thesis
    unfolding codec_ok_def groth_ex_def
    by (simp add: be_word_be_bytes fr_of_nat_fr_nat bytes_shape_inverse)
qed

lemma groth_ex_setup: "setup_circuit groth_ex d () = Inr crs \<longleftrightarrow>
    crs = \<lparr> crs_pk = circuit_shape d, crs_pvk = circuit_shape d \<rparr>"
  by (auto simp: setup_circuit_def groth_ex_def)

lemma groth_ex_complete: "groth_complete r1cs_ex groth_ex"
  unfolding groth_complete_def
  by (auto simp: groth_ex_setup same_shape_def) (auto simp: groth_ex_def intro!: satisfying_assignmentI)

lemma groth_ex_sound: "groth_sound r1cs_ex groth_ex"
  unfolding groth_sound_def
  by (auto simp: groth_ex_setup same_shape_def) (auto simp: groth_ex_def)


section \<open>Properties\<close>

lemma mode2_shape:
  assumes "circuit_shape c = circuit_shape (dummy_full_prf H G)"
  obtains pms cr sr h where "pre_master_secret c = Some pms" "length pms = 48" "client_random c = Some cr"
    "server_random c = Some sr" "pms_hash_fe c = Some h"
  using assms by (auto simp: circuit_shape_def dummy_full_prf_def with_tls_prf_def Let_def)

text \<open>C6. When an auxiliary verifier accepts a mode 2 proof against the hash of the pre-master secret it expects, there
  is a pre-master secret with this hash and a MAC key that packs to the same field element as the disclosed
  one, such that the native TLS 1.2 functions derive this key from the pre-master secret: the master
  secret with some client and server random, the key block with some client and server random, where nothing says
  that the two pairs are equal.\<close>

theorem co_snark_mode2_sound:
  assumes "r1cs_ok G" "sha_ok H" "hmac_ok H hm" "groth_sound G K"
    and crs: "crs_setup_mode2 H G K rng = Inr crs"
    and accepted: "co_snark_verify G K (crs_pvk crs) proof (Some h) = Inr ()"
  shows "\<exists>pms cr sr cr' sr'. pms_hash H G (arr48 pms) = h \<and>
    (let master_secret = tls_prf_sha256 hm (arr48 pms) (str_bytes ''master secret'') (arr32 cr @ arr32 sr) 48;
         key_block = tls12_key_expansion hm master_secret cr' sr'
     in bytes32_to_fr G (be_word (take 32 key_block)) = bytes32_to_fr G (zk_k_mac proof))"
proof -
  from accepted obtain pf e r where
    ver: "verify_with_processed_vk K (crs_pvk crs) [e, r, h] pf = Inr True"
    and open_k: "k_mac_commitment G (zk_k_mac proof) r = e"
    by (auto simp: co_snark_verify_eq_Inr)
  obtain c a where c: "circuit_shape c = circuit_shape (dummy_full_prf H G)"
    "public_inputs_of c = [e, r, h]" "satisfying_assignment G c a"
    using assms(4) crs ver unfolding groth_sound_def crs_setup_mode2_def same_shape_def by blast
  obtain pms cr sr h' where m: "pre_master_secret c = Some pms" "length pms = 48" "client_random c = Some cr"
    "server_random c = Some sr" "pms_hash_fe c = Some h'"
    by (rule mode2_shape[OF c(1)])
  have inputs: "k_mac_commitment_fe c = e" "rand_binding_fe c = r" "h' = h"
    using c(2) m(5) by (simp_all add: public_inputs_of_def)
  define zp :: bytes48 where "zp = be_word (map a [64..<112])"
  have zp: "map a [64..<112] = arr48 zp" unfolding zp_def by (rule be_bytes_be_word[symmetric]) simp_all
  let ?k = "chain_k_mac hm (arr48 zp) (witness32 a 112) (witness32 a 144) (witness32 a 208) (witness32 a 176)"
    and ?s = "xor_shares (witness32 a 0) (witness32 a 32)"
  have "k_mac_commitment G ?s r = e" "pms_hash H G (arr48 zp) = h" "bytes32_to_fr G ?k = bytes32_to_fr G ?s"
    using mode2_relation[OF assms(1-3) m, of a] c(3) unfolding zp inputs
    by (auto simp: satisfying_assignment_def gets_def enforces_def)
  moreover from this(1) have "bytes32_to_fr G ?s = bytes32_to_fr G (zk_k_mac proof)"
    using fr_add_cancel[OF assms(1)] open_k unfolding k_mac_commitment_def by metis
  ultimately show ?thesis
    unfolding Let_def chain_k_mac_def[symmetric] by metis
qed

definition crs_ex2 :: "(shape, shape) CoSnarkCrs" where
  "crs_ex2 = \<lparr> crs_pk = circuit_shape (dummy_full_prf sha_ex r1cs_ex),
     crs_pvk = circuit_shape (dummy_full_prf sha_ex r1cs_ex) \<rparr>"

lemma crs_ex2_setup: "crs_setup_mode2 sha_ex r1cs_ex groth_ex () = Inr crs_ex2"
  by (simp add: crs_setup_mode2_def groth_ex_setup crs_ex2_def)

definition hsp_ex2 :: HspZkProof where
  "hsp_ex2 = \<lparr> groth16_bytes = [], k_mac_commitment_bytes = arr32 (of_nat (fr_nat (k_mac_commitment r1cs_ex
       (prf_k_mac (hmac_ref sha_ex) (arr48 5) 6 7) (bytes32_to_fr r1cs_ex 3)))),
     rand_binding_bytes = arr32 (of_nat (fr_nat (bytes32_to_fr r1cs_ex 3))),
     zk_k_mac = prf_k_mac (hmac_ref sha_ex) (arr48 5) 6 7,
     pms_hash_bytes = arr32 (of_nat (fr_nat (pms_hash sha_ex r1cs_ex (arr48 5)))) \<rparr>"

lemma groth_ex_fr: "fr_deserialize groth_ex (arr32 (of_nat (fr_nat x))) = Inr x"
  "arr32 (of_nat (fr_nat x)) \<noteq> []"
proof -
  have "unat (of_nat (fr_nat x) :: bytes32) = fr_nat x"
    using fr_nat_less[of x] by (simp add: unsigned_of_nat take_bit_nat_eq_self FR_MODULUS_def)
  then show "fr_deserialize groth_ex (arr32 (of_nat (fr_nat x))) = Inr x"
    by (simp add: groth_ex_def be_word_be_bytes fr_of_nat_fr_nat)
  show "arr32 (of_nat (fr_nat x)) \<noteq> []"
    using length_be_bytes[of 32 "of_nat (fr_nat x) :: bytes32"] by fastforce
qed

lemma hsp_ex2_verifies:
  "co_snark_verify r1cs_ex groth_ex (crs_pvk crs_ex2) hsp_ex2 (Some (pms_hash sha_ex r1cs_ex (arr48 5))) = Inr ()"
proof -
  let ?k = "prf_k_mac (hmac_ref sha_ex) (arr48 5) 6 7"
  let ?c = "with_tls_prf sha_ex r1cs_ex ?k 0 3 (arr48 5) 6 7"
  have "circuit_satisfied r1cs_ex ?c"
    by (subst circuit_satisfied_iff[OF r1cs_ex_ok sha_ex_ok hmac_ref_ok])
      (simp_all add: pms_fits_def prf_relation_def chain_relation_def with_tls_prf_def Let_def xor_shares_def)
  then have "satisfying_assignment r1cs_ex ?c (nth (supplied_bytes ?c))" by (rule satisfying_assignmentI)
  moreover have "circuit_shape ?c = crs_pvk crs_ex2"
    by (simp add: crs_ex2_def circuit_shape_def dummy_full_prf_def with_tls_prf_def Let_def)
  moreover have "public_inputs_of ?c = [k_mac_commitment r1cs_ex ?k (bytes32_to_fr r1cs_ex 3),
      bytes32_to_fr r1cs_ex 3, pms_hash sha_ex r1cs_ex (arr48 5)]"
    by (simp add: public_inputs_of_def with_tls_prf_def Let_def xor_shares_def)
  ultimately have "verify_with_processed_vk groth_ex (crs_pvk crs_ex2)
      [k_mac_commitment r1cs_ex ?k (bytes32_to_fr r1cs_ex 3), bytes32_to_fr r1cs_ex 3,
       pms_hash sha_ex r1cs_ex (arr48 5)] () = Inr True"
    unfolding groth_ex_def by auto
  moreover have "pf_deserialize groth_ex [] = Inr ()" by (simp add: groth_ex_def)
  ultimately show ?thesis
    unfolding co_snark_verify_eq_Inr hsp_ex2_def by (simp add: decoded_pms_def groth_ex_fr)
qed

theorem co_snark_mode2_sound_witness:
  "co_snark_verify r1cs_ex groth_ex (crs_pvk crs_ex2) hsp_ex2
     (Some (pms_hash sha_ex r1cs_ex (arr48 5))) = Inr () \<and>
   (\<exists>pms cr sr cr' sr'. pms_hash sha_ex r1cs_ex (arr48 pms) = pms_hash sha_ex r1cs_ex (arr48 5) \<and>
      bytes32_to_fr r1cs_ex (be_word (take 32 (tls12_key_expansion (hmac_ref sha_ex) (tls_prf_sha256 (hmac_ref sha_ex)
        (arr48 pms) (str_bytes ''master secret'') (arr32 cr @ arr32 sr) 48) cr' sr'))) =
      bytes32_to_fr r1cs_ex (zk_k_mac hsp_ex2))"
  using co_snark_mode2_sound[OF r1cs_ex_ok sha_ex_ok hmac_ref_ok groth_ex_sound crs_ex2_setup hsp_ex2_verifies,
      unfolded Let_def] hsp_ex2_verifies by blast

text \<open>C7. In mode 2 an execution whose shares combine to the MAC key of the session returns a proof
  that discloses this key and verifies against the hash of the pre-master secret.\<close>

theorem co_snark_mode2_complete:
  assumes "r1cs_ok G" "sha_ok H" "hmac_ok H hm" "codec_ok K" "groth_complete G K"
    and crs: "crs_setup_mode2 H G K rng = Inr crs"
    and key: "combine_mac_key_shares p v = derive_k_mac_from_pms hm (PreMasterSecret pms) cr sr"
  shows "\<exists>proof. co_snark_execute_mode2 H G K crs p v rand_binding (arr48 pms) cr sr rng' = Inr proof \<and>
    combine_mac_key_shares p v = MacKey (zk_k_mac proof) \<and>
    co_snark_verify G K (crs_pvk crs) proof (Some (pms_hash H G (arr48 pms))) = Inr ()"
proof -
  obtain pb vb where pv: "p = ProverMacKeyShare pb" "v = VerifierMacKeyShare vb"
    by (cases p, cases v) blast
  have k: "pb XOR vb = prf_k_mac hm (arr48 pms) cr sr"
    using key unfolding prf_k_mac_derive pv by simp
  let ?c = "with_tls_prf H G pb vb rand_binding (arr48 pms) cr sr"
  have "circuit_satisfied G ?c"
    by (subst circuit_satisfied_iff[OF assms(1-3)])
      (simp_all add: pms_fits_def prf_relation_def chain_relation_def with_tls_prf_def Let_def xor_shares_def k)
  moreover have "same_shape ?c (dummy_full_prf H G)"
    by (simp add: same_shape_def circuit_shape_def dummy_full_prf_def with_tls_prf_def Let_def)
  moreover have "pms_hash_fe ?c = Some (pms_hash H G (arr48 pms))"
    "k_mac_commitment G (pb XOR vb) (rand_binding_fe ?c) = k_mac_commitment_fe ?c"
    by (simp_all add: with_tls_prf_def Let_def xor_shares_def)
  ultimately show ?thesis
    using prove_circuit_verifies[OF assms(4,5) crs[unfolded crs_setup_mode2_def], of ?c
        "Some (pms_hash H G (arr48 pms))" "pb XOR vb" rng']
    by (auto simp: co_snark_execute_mode2_def pv Let_def)
qed

theorem co_snark_mode2_complete_witness:
  "\<exists>proof. co_snark_execute_mode2 sha_ex r1cs_ex groth_ex crs_ex2
      (ProverMacKeyShare (prf_k_mac (hmac_ref sha_ex) (arr48 5) 6 7)) (VerifierMacKeyShare 0) 3
      (arr48 5) 6 7 () = Inr proof \<and>
    combine_mac_key_shares (ProverMacKeyShare (prf_k_mac (hmac_ref sha_ex) (arr48 5) 6 7))
      (VerifierMacKeyShare 0) = MacKey (zk_k_mac proof) \<and>
    co_snark_verify r1cs_ex groth_ex (crs_pvk crs_ex2) proof
      (Some (pms_hash sha_ex r1cs_ex (arr48 5))) = Inr ()"
  by (rule co_snark_mode2_complete[OF r1cs_ex_ok sha_ex_ok hmac_ref_ok groth_ex_codec groth_ex_complete
        crs_ex2_setup]) (simp only: prf_k_mac_derive combine_mac_key_shares.simps xor.right_neutral)

text \<open>In mode 1 every MAC key and every randomness has an accepted proof: a party that knows
  no session at all, and picks a key \<open>k\<close>, obtains a proof that discloses \<open>k\<close> and verifies.\<close>

theorem co_snark_mode1_any_key:
  assumes "r1cs_ok G" "sha_ok H" "hmac_ok H hm" "codec_ok K" "groth_complete G K"
    and crs: "crs_setup G K rng = Inr crs"
  shows "\<exists>proof. co_snark_execute G K crs (ProverMacKeyShare k) (VerifierMacKeyShare 0) rand_binding rng' =
      Inr proof \<and> zk_k_mac proof = k \<and> co_snark_verify G K (crs_pvk crs) proof None = Inr ()"
proof -
  let ?c = "TlsPrfCircuit_new G k 0 rand_binding"
  have "circuit_satisfied G ?c"
    by (subst circuit_satisfied_iff[OF assms(1-3)])
      (simp_all add: pms_fits_def prf_relation_def TlsPrfCircuit_new_def Let_def)
  moreover have "same_shape ?c (TlsPrfCircuit_dummy G)"
    by (simp add: same_shape_def circuit_shape_def TlsPrfCircuit_dummy_def TlsPrfCircuit_new_def Let_def)
  moreover have "pms_hash_fe ?c = None" "k_mac_commitment G k (rand_binding_fe ?c) = k_mac_commitment_fe ?c"
    by (simp_all add: TlsPrfCircuit_new_def Let_def xor_shares_def)
  ultimately show ?thesis
    using prove_circuit_verifies[OF assms(4,5) crs[unfolded crs_setup_def], of ?c None k rng']
    by (auto simp: co_snark_execute_def Let_def)
qed

definition crs_ex1 :: "(shape, shape) CoSnarkCrs" where
  "crs_ex1 = \<lparr> crs_pk = circuit_shape (TlsPrfCircuit_dummy r1cs_ex),
     crs_pvk = circuit_shape (TlsPrfCircuit_dummy r1cs_ex) \<rparr>"

theorem co_snark_mode1_any_key_witness:
  "\<exists>proof. co_snark_execute r1cs_ex groth_ex crs_ex1 (ProverMacKeyShare 9) (VerifierMacKeyShare 0) 3 () =
      Inr proof \<and> zk_k_mac proof = 9 \<and> co_snark_verify r1cs_ex groth_ex (crs_pvk crs_ex1) proof None = Inr ()"
  by (rule co_snark_mode1_any_key[OF r1cs_ex_ok sha_ex_ok hmac_ref_ok groth_ex_codec groth_ex_complete])
    (simp add: crs_setup_def groth_ex_setup crs_ex1_def)

end
