(* ===== verification/Dctls.thy ===== *)
theory Dctls
  imports Evidence
begin

text \<open>
  The commitment backend of the TLS session protocol (\<open>crates/attestation/src/dctls.rs\<close>): the
  handshake proof (HSP), the query record (QP), the statement proof (PGP), the checks that tie the
  three together, and the prototype engine that produces them (\<open>engine.rs\<close>).  The system clock read
  by \<open>verify_hsp_proof\<close> is the argument \<open>now\<close>, the JSON serializer of the engine (package
  \<open>serde_json\<close>) the argument \<open>to_vec\<close>.
\<close>

datatype DctlsError =
    RandMismatch
  | CommitmentMismatch string
  | ProofBindingMismatch string
  | CertHashMismatch
  | UnknownEngineTag string
  | ZkProofFailed string

definition dctls_error_display :: "DctlsError \<Rightarrow> string" where
  "dctls_error_display e =
     (case e of
        RandMismatch \<Rightarrow> ''DVRF randomness mismatch''
      | CommitmentMismatch w \<Rightarrow> ''commitment mismatch: '' @ w
      | ProofBindingMismatch w \<Rightarrow> ''proof binding mismatch: '' @ w
      | CertHashMismatch \<Rightarrow> ''certificate hash mismatch''
      | UnknownEngineTag t \<Rightarrow> ''unknown engine tag: '' @ t
      | ZkProofFailed m \<Rightarrow> ''ZK proof failed: '' @ m)"

definition DCTLS_ENGINE_TAG :: string where
  "DCTLS_ENGINE_TAG = ''dx-dctls/commitment-v1''"

record SessionParamsSecret =
  sps_dvrf_exporter :: DigestBytes
  sps_session_nonce :: DigestBytes

record SessionParamsPublic =
  spp_server_cert_hash :: DigestBytes
  spp_tls_version :: u16
  spp_server_name :: string
  spp_established_at :: u64

section \<open>The handshake proof\<close>

record HSPProof =
  hsp_session_id :: SessionId
  hsp_rand_value :: DigestBytes
  hsp_dvrf_exporter :: DigestBytes
  hsp_commitment :: DigestBytes
  hsp_server_cert_hash :: DigestBytes
  hsp_handshake_transcript_hash :: DigestBytes
  hsp_tls_version :: u16
  hsp_server_name :: string
  hsp_established_at :: u64
  hsp_engine_tag :: string
  hsp_zk_proof :: "byte list option"
  hsp_zk_binding :: "DigestBytes option"

definition ht_hasher :: "DigestBytes \<Rightarrow> u16 \<Rightarrow> string \<Rightarrow> u64 \<Rightarrow> CanonicalHasher" where
  "ht_hasher cert ver name at =
     update_u64 at (update_bytes (str_bytes name) (update_u64 (ucast ver) (update_digest cert
       (ch_new ''tls-attestation/hsp-ht/v1''))))"

definition compute_handshake_transcript_hash ::
  "sha \<Rightarrow> DigestBytes \<Rightarrow> u16 \<Rightarrow> string \<Rightarrow> u64 \<Rightarrow> DigestBytes" where
  "compute_handshake_transcript_hash H cert ver name at = ch_finalize H (ht_hasher cert ver name at)"

definition hsp_hasher ::
  "SessionId \<Rightarrow> DigestBytes \<Rightarrow> DigestBytes \<Rightarrow> DigestBytes \<Rightarrow> DigestBytes \<Rightarrow> CanonicalHasher" where
  "hsp_hasher sid rnd ex cert ht =
     update_digest ht (update_digest cert (update_digest ex (update_digest rnd
       (update_fixed (sid_enc sid) (ch_new ''tls-attestation/hsp/v1'')))))"

definition hsp_compute_commitment ::
  "sha \<Rightarrow> SessionId \<Rightarrow> DigestBytes \<Rightarrow> DigestBytes \<Rightarrow> DigestBytes \<Rightarrow> DigestBytes \<Rightarrow> DigestBytes" where
  "hsp_compute_commitment H sid rnd ex cert ht = ch_finalize H (hsp_hasher sid rnd ex cert ht)"

definition hsp_generate ::
  "sha \<Rightarrow> SessionId \<Rightarrow> DigestBytes \<Rightarrow> SessionParamsSecret \<Rightarrow> SessionParamsPublic \<Rightarrow> HSPProof" where
  "hsp_generate H sid rnd sps spp =
     (let ht = compute_handshake_transcript_hash H (spp_server_cert_hash spp) (spp_tls_version spp)
                 (spp_server_name spp) (spp_established_at spp);
          c = hsp_compute_commitment H sid rnd (sps_dvrf_exporter sps) (spp_server_cert_hash spp) ht
      in \<lparr> hsp_session_id = sid, hsp_rand_value = rnd, hsp_dvrf_exporter = sps_dvrf_exporter sps,
           hsp_commitment = c, hsp_server_cert_hash = spp_server_cert_hash spp,
           hsp_handshake_transcript_hash = ht, hsp_tls_version = spp_tls_version spp,
           hsp_server_name = spp_server_name spp, hsp_established_at = spp_established_at spp,
           hsp_engine_tag = DCTLS_ENGINE_TAG, hsp_zk_proof = None, hsp_zk_binding = None \<rparr>)"

definition hsp_proof_hasher ::
  "SessionId \<Rightarrow> DigestBytes \<Rightarrow> DigestBytes \<Rightarrow> DigestBytes \<Rightarrow> DigestBytes \<Rightarrow> CanonicalHasher" where
  "hsp_proof_hasher sid rnd c cert ht =
     update_digest ht (update_digest cert (update_digest c (update_digest rnd
       (update_fixed (sid_enc sid) (ch_new ''tls-attestation/hsp-proof/v1'')))))"

definition proof_digest :: "sha \<Rightarrow> HSPProof \<Rightarrow> DigestBytes" where
  "proof_digest H p = ch_finalize H (hsp_proof_hasher (hsp_session_id p) (hsp_rand_value p)
     (hsp_commitment p) (hsp_server_cert_hash p) (hsp_handshake_transcript_hash p))"

definition HSP_PROOF_MAX_AGE_SECS :: u64 where
  "HSP_PROOF_MAX_AGE_SECS = 24 * 3600"

text \<open>\<open>format!("{:?}", s)\<close> of a string: quotes, with the escapes of \<open>char::escape_debug\<close> on ASCII.\<close>

definition hex_nat2 :: "nat \<Rightarrow> string" where
  "hex_nat2 n = (if n < 16 then [hex_digit n] else [hex_digit (n div 16), hex_digit (n mod 16)])"

definition escape_debug_char :: "char \<Rightarrow> string" where
  "escape_debug_char c =
     (let n = of_char c :: nat in
      if n = 0 then [CHR 0x5C, CHR ''0'']
      else if n = 9 then [CHR 0x5C, CHR ''t'']
      else if n = 10 then [CHR 0x5C, CHR ''n'']
      else if n = 13 then [CHR 0x5C, CHR ''r'']
      else if n = 34 then [CHR 0x5C, CHR 0x22]
      else if n = 92 then [CHR 0x5C, CHR 0x5C]
      else if n < 32 \<or> n = 127 then [CHR 0x5C] @ ''u{'' @ hex_nat2 n @ ''}''
      else [c])"

definition str_debug :: "string \<Rightarrow> string" where
  "str_debug s = [CHR 0x22] @ concat (map escape_debug_char s) @ [CHR 0x22]"

definition hsp_expired :: "u64 \<Rightarrow> HSPProof \<Rightarrow> bool" where
  "hsp_expired now p \<longleftrightarrow>
     hsp_established_at p > 0 \<and> now > hsp_established_at p \<and>
     now - hsp_established_at p > HSP_PROOF_MAX_AGE_SECS"

definition hsp_check_commitments :: "sha \<Rightarrow> HSPProof \<Rightarrow> (DctlsError, unit) result" where
  "hsp_check_commitments H p =
     (if hsp_handshake_transcript_hash p \<noteq>
           compute_handshake_transcript_hash H (hsp_server_cert_hash p) (hsp_tls_version p)
             (hsp_server_name p) (hsp_established_at p)
      then Inl (CommitmentMismatch ''handshake_transcript_hash'')
      else if hsp_commitment p \<noteq>
           hsp_compute_commitment H (hsp_session_id p) (hsp_rand_value p) (hsp_dvrf_exporter p)
             (hsp_server_cert_hash p) (hsp_handshake_transcript_hash p)
      then Inl (CommitmentMismatch ''HSP commitment'')
      else Inr ())"

definition verify_hsp_proof ::
  "sha \<Rightarrow> u64 \<Rightarrow> HSPProof \<Rightarrow> DigestBytes \<Rightarrow> DigestBytes \<Rightarrow> (DctlsError, unit) result" where
  "verify_hsp_proof H now p expected_rand expected_cert =
     (if hsp_engine_tag p \<noteq> DCTLS_ENGINE_TAG
      then Inl (CommitmentMismatch (''engine_tag mismatch: expected '' @ str_debug DCTLS_ENGINE_TAG @
             '', got '' @ str_debug (hsp_engine_tag p)))
      else if hsp_rand_value p \<noteq> expected_rand then Inl RandMismatch
      else if hsp_server_cert_hash p \<noteq> expected_cert then Inl CertHashMismatch
      else if hsp_zk_proof p \<noteq> None
      then Inl (CommitmentMismatch (''zk_proof present but no verifying key supplied '' @
             [CHR 0xE2, CHR 0x80, CHR 0x94] @ '' use verify_hsp_proof_with_zk instead''))
      else if hsp_expired now p
      then Inl (CommitmentMismatch (''HSP proof has expired (established_at='' @
             dec_str (unat (hsp_established_at p)) @ '', age='' @
             dec_str (unat (now - hsp_established_at p)) @ ''s, max='' @
             dec_str (unat HSP_PROOF_MAX_AGE_SECS) @ ''s)''))
      else hsp_check_commitments H p)"

definition verify_groth16_hsp_bytes ::
  "byte list \<Rightarrow> byte list \<Rightarrow> byte list \<Rightarrow> (string, unit) result" where
  "verify_groth16_hsp_bytes pvk pf inp =
     Inl (''verify_groth16_hsp_bytes: not wired '' @ [CHR 0xE2, CHR 0x80, CHR 0x94] @
       '' integrate via node crate'')"

definition verify_hsp_proof_with_zk ::
  "sha \<Rightarrow> HSPProof \<Rightarrow> DigestBytes \<Rightarrow> DigestBytes \<Rightarrow> byte list \<Rightarrow> (DctlsError, unit) result" where
  "verify_hsp_proof_with_zk H p expected_rand expected_cert pvk =
     (if hsp_rand_value p \<noteq> expected_rand then Inl RandMismatch
      else if hsp_server_cert_hash p \<noteq> expected_cert then Inl CertHashMismatch
      else rbind (hsp_check_commitments H p)
        (\<lambda>_. case hsp_zk_proof p of
               None \<Rightarrow> Inl (CommitmentMismatch ''zk_proof missing'')
             | Some zk \<Rightarrow>
                 (case hsp_zk_binding p of
                    None \<Rightarrow> Inl (CommitmentMismatch ''zk_binding missing'')
                  | Some b \<Rightarrow>
                      map_err (\<lambda>e. CommitmentMismatch (''ZK proof invalid: '' @ e))
                        (verify_groth16_hsp_bytes pvk zk (digest_enc b)))))"

section \<open>The query record\<close>

record QueryRecord =
  qr_session_id :: SessionId
  qr_rand_value :: DigestBytes
  qr_query_commitment :: DigestBytes
  qr_response_commitment :: DigestBytes
  qr_transcript_commitment :: DigestBytes

definition qp_hasher :: "string \<Rightarrow> SessionId \<Rightarrow> DigestBytes \<Rightarrow> byte list \<Rightarrow> CanonicalHasher" where
  "qp_hasher dm sid rnd data =
     update_bytes data (update_digest rnd (update_fixed (sid_enc sid) (ch_new dm)))"

abbreviation query_hasher where "query_hasher \<equiv> qp_hasher ''tls-attestation/query-commitment/v1''"
abbreviation response_hasher where
  "response_hasher \<equiv> qp_hasher ''tls-attestation/response-commitment/v1''"

definition qpt_hasher :: "DigestBytes \<Rightarrow> DigestBytes \<Rightarrow> CanonicalHasher" where
  "qpt_hasher qc rc = update_digest rc (update_digest qc (ch_new ''tls-attestation/qp-transcript/v1''))"

definition qr_build :: "sha \<Rightarrow> SessionId \<Rightarrow> DigestBytes \<Rightarrow> byte list \<Rightarrow> byte list \<Rightarrow> QueryRecord" where
  "qr_build H sid rnd query response =
     (let qc = ch_finalize H (query_hasher sid rnd query);
          rc = ch_finalize H (response_hasher sid rnd response)
      in \<lparr> qr_session_id = sid, qr_rand_value = rnd, qr_query_commitment = qc,
           qr_response_commitment = rc,
           qr_transcript_commitment = ch_finalize H (qpt_hasher qc rc) \<rparr>)"

definition verify_query_record ::
  "sha \<Rightarrow> QueryRecord \<Rightarrow> byte list \<Rightarrow> byte list \<Rightarrow> (DctlsError, unit) result" where
  "verify_query_record H r query response =
     (if qr_query_commitment r \<noteq> ch_finalize H (query_hasher (qr_session_id r) (qr_rand_value r) query)
      then Inl (CommitmentMismatch ''query commitment'')
      else if qr_response_commitment r \<noteq>
          ch_finalize H (response_hasher (qr_session_id r) (qr_rand_value r) response)
      then Inl (CommitmentMismatch ''response commitment'')
      else if qr_transcript_commitment r \<noteq>
          ch_finalize H (qpt_hasher (qr_query_commitment r) (qr_response_commitment r))
      then Inl (CommitmentMismatch ''QP transcript commitment'')
      else Inr ())"

section \<open>The statement proof\<close>

record Statement =
  stm_content :: "byte list"
  stm_derivation_tag :: string
  stm_statement_digest :: DigestBytes

definition stm_hasher :: "string \<Rightarrow> DigestBytes \<Rightarrow> byte list \<Rightarrow> CanonicalHasher" where
  "stm_hasher tag tcm content =
     update_bytes content (update_digest tcm (update_bytes (str_bytes tag)
       (ch_new ''tls-attestation/pgp-statement/v1'')))"

definition stm_derive :: "sha \<Rightarrow> byte list \<Rightarrow> string \<Rightarrow> DigestBytes \<Rightarrow> Statement" where
  "stm_derive H content tag tcm =
     \<lparr> stm_content = content, stm_derivation_tag = tag,
       stm_statement_digest = ch_finalize H (stm_hasher tag tcm content) \<rparr>"

record PGPProof =
  pgp_session_id :: SessionId
  pgp_statement :: Statement
  pgp_commitment :: DigestBytes
  pgp_hsp_proof_digest :: DigestBytes
  pgp_qp_transcript_commitment :: DigestBytes

definition pgp_hasher ::
  "SessionId \<Rightarrow> DigestBytes \<Rightarrow> DigestBytes \<Rightarrow> DigestBytes \<Rightarrow> DigestBytes \<Rightarrow> CanonicalHasher" where
  "pgp_hasher sid rnd qpt sd hc =
     update_digest hc (update_digest sd (update_digest qpt (update_digest rnd
       (update_fixed (sid_enc sid) (ch_new ''tls-attestation/pgp/v1'')))))"

definition pgp_compute_commitment ::
  "sha \<Rightarrow> SessionId \<Rightarrow> DigestBytes \<Rightarrow> DigestBytes \<Rightarrow> DigestBytes \<Rightarrow> DigestBytes \<Rightarrow> DigestBytes" where
  "pgp_compute_commitment H sid rnd qpt sd hc = ch_finalize H (pgp_hasher sid rnd qpt sd hc)"

definition pgp_generate ::
  "sha \<Rightarrow> SessionId \<Rightarrow> DigestBytes \<Rightarrow> QueryRecord \<Rightarrow> Statement \<Rightarrow> HSPProof \<Rightarrow> PGPProof" where
  "pgp_generate H sid rnd qp st hsp =
     \<lparr> pgp_session_id = sid, pgp_statement = st,
       pgp_commitment = pgp_compute_commitment H sid rnd (qr_transcript_commitment qp)
         (stm_statement_digest st) (hsp_commitment hsp),
       pgp_hsp_proof_digest = proof_digest H hsp,
       pgp_qp_transcript_commitment = qr_transcript_commitment qp \<rparr>"

definition sp_hasher :: "DigestBytes \<Rightarrow> DigestBytes \<Rightarrow> CanonicalHasher" where
  "sp_hasher c d = update_digest d (update_digest c (ch_new ''tls-attestation/signing-preimage/v1''))"

definition signing_preimage :: "sha \<Rightarrow> PGPProof \<Rightarrow> DigestBytes" where
  "signing_preimage H p = ch_finalize H (sp_hasher (pgp_commitment p) (pgp_hsp_proof_digest p))"

definition verify_pgp_proof ::
  "sha \<Rightarrow> PGPProof \<Rightarrow> DigestBytes \<Rightarrow> HSPProof \<Rightarrow> (DctlsError, unit) result" where
  "verify_pgp_proof H p rnd hsp =
     (if pgp_commitment p \<noteq> pgp_compute_commitment H (pgp_session_id p) rnd
           (pgp_qp_transcript_commitment p) (stm_statement_digest (pgp_statement p)) (hsp_commitment hsp)
      then Inl (CommitmentMismatch ''PGP commitment'')
      else if pgp_hsp_proof_digest p \<noteq> proof_digest H hsp
      then Inl (ProofBindingMismatch ''HSP proof digest'')
      else if stm_statement_digest (pgp_statement p) \<noteq>
          ch_finalize H (stm_hasher (stm_derivation_tag (pgp_statement p))
            (pgp_qp_transcript_commitment p) (stm_content (pgp_statement p)))
      then Inl (CommitmentMismatch ''statement digest'')
      else Inr ())"

section \<open>The transcript binding\<close>

record TranscriptBinding =
  tb_session_id :: SessionId
  tb_rand_value :: DigestBytes
  tb_hsp_commitment :: DigestBytes
  tb_qp_transcript_commitment :: DigestBytes
  tb_pgp_commitment :: DigestBytes
  tb_binding_digest :: DigestBytes

definition tb_hasher ::
  "SessionId \<Rightarrow> DigestBytes \<Rightarrow> DigestBytes \<Rightarrow> DigestBytes \<Rightarrow> DigestBytes \<Rightarrow> CanonicalHasher" where
  "tb_hasher sid rnd hc qpt pc =
     update_digest pc (update_digest qpt (update_digest hc (update_digest rnd
       (update_fixed (sid_enc sid) (ch_new ''tls-attestation/transcript-binding/v1'')))))"

definition tb_build :: "sha \<Rightarrow> HSPProof \<Rightarrow> QueryRecord \<Rightarrow> PGPProof \<Rightarrow> TranscriptBinding" where
  "tb_build H hsp qr pgp =
     \<lparr> tb_session_id = hsp_session_id hsp, tb_rand_value = hsp_rand_value hsp,
       tb_hsp_commitment = hsp_commitment hsp,
       tb_qp_transcript_commitment = qr_transcript_commitment qr,
       tb_pgp_commitment = pgp_commitment pgp,
       tb_binding_digest = ch_finalize H (tb_hasher (hsp_session_id hsp) (hsp_rand_value hsp)
         (hsp_commitment hsp) (qr_transcript_commitment qr) (pgp_commitment pgp)) \<rparr>"

definition verify_transcript_consistency ::
  "sha \<Rightarrow> HSPProof \<Rightarrow> QueryRecord \<Rightarrow> PGPProof \<Rightarrow> (DctlsError, TranscriptBinding) result" where
  "verify_transcript_consistency H hsp qr pgp =
     (if hsp_session_id hsp \<noteq> qr_session_id qr
      then Inl (ProofBindingMismatch ''HSP session_id does not match QP session_id'')
      else if hsp_session_id hsp \<noteq> pgp_session_id pgp
      then Inl (ProofBindingMismatch ''HSP session_id does not match PGP session_id'')
      else if hsp_rand_value hsp \<noteq> qr_rand_value qr then Inl RandMismatch
      else if pgp_qp_transcript_commitment pgp \<noteq> qr_transcript_commitment qr
      then Inl (ProofBindingMismatch ''PGP qp_transcript_commitment does not match QP transcript'')
      else if pgp_hsp_proof_digest pgp \<noteq> proof_digest H hsp
      then Inl (ProofBindingMismatch ''PGP hsp_proof_digest does not match HSP proof'')
      else Inr (tb_build H hsp qr pgp))"

record DctlsEvidence =
  de_hsp_proof :: HSPProof
  de_query_record :: QueryRecord
  de_pgp_proof :: PGPProof

definition de_hasher :: "DigestBytes \<Rightarrow> DigestBytes \<Rightarrow> DigestBytes \<Rightarrow> CanonicalHasher" where
  "de_hasher pd qpt pc = update_digest pc (update_digest qpt (update_digest pd
     (ch_new ''tls-attestation/dctls-evidence/v1'')))"

definition de_evidence_digest :: "sha \<Rightarrow> DctlsEvidence \<Rightarrow> DigestBytes" where
  "de_evidence_digest H e = ch_finalize H (de_hasher (proof_digest H (de_hsp_proof e))
     (qr_transcript_commitment (de_query_record e)) (pgp_commitment (de_pgp_proof e)))"

definition verify_all ::
  "sha \<Rightarrow> u64 \<Rightarrow> DctlsEvidence \<Rightarrow> DigestBytes \<Rightarrow> DigestBytes \<Rightarrow> byte list \<Rightarrow> byte list \<Rightarrow>
   (DctlsError, TranscriptBinding) result" where
  "verify_all H now e rnd cert query response =
     rbind (verify_hsp_proof H now (de_hsp_proof e) rnd cert)
       (\<lambda>_. rbind (verify_query_record H (de_query_record e) query response)
         (\<lambda>_. rbind (verify_pgp_proof H (de_pgp_proof e) rnd (de_hsp_proof e))
           (\<lambda>_. verify_transcript_consistency H (de_hsp_proof e) (de_query_record e) (de_pgp_proof e))))"

section \<open>The prototype engine\<close>

definition exporter_hasher :: "SessionId \<Rightarrow> DigestBytes \<Rightarrow> CanonicalHasher" where
  "exporter_hasher sid rnd = update_digest rnd (update_fixed (sid_enc sid)
     (ch_new ''tls-attestation/prototype-exporter/v1''))"

definition session_nonce_hasher :: "SessionId \<Rightarrow> CanonicalHasher" where
  "session_nonce_hasher sid = update_fixed (sid_enc sid)
     (ch_new ''tls-attestation/prototype-session-nonce/v1'')"

definition dctls_execute_dctls ::
  "sha \<Rightarrow> (DctlsEvidence \<Rightarrow> byte list option) \<Rightarrow> SessionContext \<Rightarrow> DigestBytes \<Rightarrow> byte list \<Rightarrow>
   byte list \<Rightarrow> DigestBytes \<Rightarrow>
   (AttestationError, TranscriptCommitments \<times> ExportableEvidence \<times> DctlsEvidence) result" where
  "dctls_execute_dctls H to_vec session rnd query response cert =
     (let sid = session_id session;
          sps = \<lparr> sps_dvrf_exporter = ch_finalize H (exporter_hasher sid rnd),
                  sps_session_nonce = ch_finalize H (session_nonce_hasher sid) \<rparr>;
          spp = \<lparr> spp_server_cert_hash = cert, spp_tls_version = 0x0304,
                  spp_server_name = ''prototype-server/'' @ sid_display sid,
                  spp_established_at = secs (created_at session) \<rparr>;
          hsp = hsp_generate H sid rnd sps spp;
          qr = qr_build H sid rnd query response;
          st = stm_derive H (str_bytes ''attested-session'') ''dx-dctls/prototype-statement/v1''
                 (qr_transcript_commitment qr);
          pgp = pgp_generate H sid rnd qr st hsp;
          de = \<lparr> de_hsp_proof = hsp, de_query_record = qr, de_pgp_proof = pgp \<rparr>;
          bs = (case to_vec de of Some b \<Rightarrow> b | None \<Rightarrow> str_bytes ''{}'')
      in Inr (tcs_build H sid rnd query response, evidence_new H DCTLS_ENGINE_TAG bs, de))"

definition dctls_execute ::
  "sha \<Rightarrow> (DctlsEvidence \<Rightarrow> byte list option) \<Rightarrow> SessionContext \<Rightarrow> DigestBytes \<Rightarrow> byte list \<Rightarrow>
   byte list \<Rightarrow> (AttestationError, TranscriptCommitments \<times> ExportableEvidence) result" where
  "dctls_execute H to_vec session rnd query response =
     rbind (dctls_execute_dctls H to_vec session rnd query response ZERO)
       (\<lambda>(tc, ev, _). Inr (tc, ev))"

section \<open>What the checks accept\<close>

lemma hsp_check_commitments_eq_Inr [result_simps]:
  "hsp_check_commitments H p = Inr u \<longleftrightarrow>
     hsp_handshake_transcript_hash p =
       compute_handshake_transcript_hash H (hsp_server_cert_hash p) (hsp_tls_version p)
         (hsp_server_name p) (hsp_established_at p) \<and>
     hsp_commitment p =
       hsp_compute_commitment H (hsp_session_id p) (hsp_rand_value p) (hsp_dvrf_exporter p)
         (hsp_server_cert_hash p) (hsp_handshake_transcript_hash p)"
  by (simp add: hsp_check_commitments_def)

lemma verify_hsp_proof_eq_Inr [result_simps]:
  "verify_hsp_proof H now p rnd cert = Inr u \<longleftrightarrow>
     hsp_engine_tag p = DCTLS_ENGINE_TAG \<and> hsp_rand_value p = rnd \<and> hsp_server_cert_hash p = cert \<and>
     hsp_zk_proof p = None \<and> \<not> hsp_expired now p \<and> hsp_check_commitments H p = Inr ()"
  by (auto simp: verify_hsp_proof_def)

lemma verify_query_record_eq_Inr [result_simps]:
  "verify_query_record H r q s = Inr u \<longleftrightarrow>
     qr_query_commitment r = ch_finalize H (query_hasher (qr_session_id r) (qr_rand_value r) q) \<and>
     qr_response_commitment r = ch_finalize H (response_hasher (qr_session_id r) (qr_rand_value r) s) \<and>
     qr_transcript_commitment r =
       ch_finalize H (qpt_hasher (qr_query_commitment r) (qr_response_commitment r))"
  by (simp add: verify_query_record_def)

lemma verify_pgp_proof_eq_Inr [result_simps]:
  "verify_pgp_proof H p rnd hsp = Inr u \<longleftrightarrow>
     pgp_commitment p = pgp_compute_commitment H (pgp_session_id p) rnd
       (pgp_qp_transcript_commitment p) (stm_statement_digest (pgp_statement p)) (hsp_commitment hsp) \<and>
     pgp_hsp_proof_digest p = proof_digest H hsp \<and>
     stm_statement_digest (pgp_statement p) =
       ch_finalize H (stm_hasher (stm_derivation_tag (pgp_statement p))
         (pgp_qp_transcript_commitment p) (stm_content (pgp_statement p)))"
  by (simp add: verify_pgp_proof_def)

lemma verify_transcript_consistency_eq_Inr [result_simps]:
  "verify_transcript_consistency H hsp qr pgp = Inr b \<longleftrightarrow>
     hsp_session_id hsp = qr_session_id qr \<and> hsp_session_id hsp = pgp_session_id pgp \<and>
     hsp_rand_value hsp = qr_rand_value qr \<and>
     pgp_qp_transcript_commitment pgp = qr_transcript_commitment qr \<and>
     pgp_hsp_proof_digest pgp = proof_digest H hsp \<and> b = tb_build H hsp qr pgp"
  by (auto simp: verify_transcript_consistency_def)

lemma verify_all_eq_Inr:
  "verify_all H now e rnd cert q r = Inr b \<longleftrightarrow>
     verify_hsp_proof H now (de_hsp_proof e) rnd cert = Inr () \<and>
     verify_query_record H (de_query_record e) q r = Inr () \<and>
     verify_pgp_proof H (de_pgp_proof e) rnd (de_hsp_proof e) = Inr () \<and>
     verify_transcript_consistency H (de_hsp_proof e) (de_query_record e) (de_pgp_proof e) = Inr b"
  by (simp add: verify_all_def rbind_eq_Inr)

section \<open>Binding\<close>

lemma ucast_u16_u64_eq_iff [simp]:
  fixes a b :: u16
  shows "(ucast a :: u64) = ucast b \<longleftrightarrow> a = b"
proof
  assume eq: "(ucast a :: u64) = ucast b"
  show "a = b"
  proof (rule bit_word_eqI)
    fix n
    assume "n < LENGTH(16)"
    then show "bit a n = bit b n" using arg_cong[OF eq, of "\<lambda>w. bit w n"] by (simp add: bit_ucast_iff)
  qed
qed simp

definition ht_pre :: "DigestBytes \<times> u16 \<times> string \<times> u64 \<Rightarrow> byte list" where
  "ht_pre = (\<lambda>(cert, ver, name, at). absorbed (ht_hasher cert ver name at))"

definition ht_fits :: "DigestBytes \<times> u16 \<times> string \<times> u64 \<Rightarrow> bool" where
  "ht_fits = (\<lambda>(cert, ver, name, at). length name < 2 ^ 64)"

interpretation htb: binding ht_pre ht_fits
  by standard (auto simp: ht_pre_def ht_fits_def ht_hasher_def enc_inject)

type_synonym five = "SessionId \<times> DigestBytes \<times> DigestBytes \<times> DigestBytes \<times> DigestBytes"

definition hsp_pre :: "five \<Rightarrow> byte list" where
  "hsp_pre = (\<lambda>(sid, rnd, ex, cert, ht). absorbed (hsp_hasher sid rnd ex cert ht))"

interpretation hspb: binding hsp_pre "\<lambda>_. True"
  by standard (auto simp: hsp_pre_def hsp_hasher_def enc_inject)

definition hpd_pre :: "five \<Rightarrow> byte list" where
  "hpd_pre = (\<lambda>(sid, rnd, c, cert, ht). absorbed (hsp_proof_hasher sid rnd c cert ht))"

interpretation hpdb: binding hpd_pre "\<lambda>_. True"
  by standard (auto simp: hpd_pre_def hsp_proof_hasher_def enc_inject)

definition qp_pre :: "string \<times> SessionId \<times> DigestBytes \<times> byte list \<Rightarrow> byte list" where
  "qp_pre = (\<lambda>(dm, sid, rnd, data). absorbed (qp_hasher dm sid rnd data))"

definition qp_fits :: "string \<times> SessionId \<times> DigestBytes \<times> byte list \<Rightarrow> bool" where
  "qp_fits = (\<lambda>(dm, sid, rnd, data). length dm < 2 ^ 32 \<and> length data < 2 ^ 64)"

interpretation qpb: binding qp_pre qp_fits
  by standard (auto simp: qp_pre_def qp_fits_def qp_hasher_def enc_inject)

definition qpt_pre :: "DigestBytes \<times> DigestBytes \<Rightarrow> byte list" where
  "qpt_pre = (\<lambda>(qc, rc). absorbed (qpt_hasher qc rc))"

interpretation qptb: binding qpt_pre "\<lambda>_. True"
  by standard (auto simp: qpt_pre_def qpt_hasher_def enc_inject)

definition stm_pre :: "string \<times> DigestBytes \<times> byte list \<Rightarrow> byte list" where
  "stm_pre = (\<lambda>(tag, tcm, content). absorbed (stm_hasher tag tcm content))"

interpretation stmb: binding stm_pre st_fits
  by standard (auto simp: stm_pre_def st_fits_def stm_hasher_def enc_inject)

definition pgp_pre :: "five \<Rightarrow> byte list" where
  "pgp_pre = (\<lambda>(sid, rnd, qpt, sd, hc). absorbed (pgp_hasher sid rnd qpt sd hc))"

interpretation pgpb: binding pgp_pre "\<lambda>_. True"
  by standard (auto simp: pgp_pre_def pgp_hasher_def enc_inject)

definition sp_pre :: "DigestBytes \<times> DigestBytes \<Rightarrow> byte list" where
  "sp_pre = (\<lambda>(c, d). absorbed (sp_hasher c d))"

interpretation spb: binding sp_pre "\<lambda>_. True"
  by standard (auto simp: sp_pre_def sp_hasher_def enc_inject)

definition tb_pre :: "five \<Rightarrow> byte list" where
  "tb_pre = (\<lambda>(sid, rnd, hc, qpt, pc). absorbed (tb_hasher sid rnd hc qpt pc))"

interpretation tbb: binding tb_pre "\<lambda>_. True"
  by standard (auto simp: tb_pre_def tb_hasher_def enc_inject)

text \<open>The byte strings that are hashed for one item of evidence, from the value that is signed down
  to query and response.\<close>

definition hsp_pres :: "HSPProof \<Rightarrow> byte list list" where
  "hsp_pres p =
     [hsp_pre (hsp_session_id p, hsp_rand_value p, hsp_dvrf_exporter p, hsp_server_cert_hash p,
        hsp_handshake_transcript_hash p),
      ht_pre (hsp_server_cert_hash p, hsp_tls_version p, hsp_server_name p, hsp_established_at p)]"

definition qr_pres :: "QueryRecord \<Rightarrow> byte list \<Rightarrow> byte list \<Rightarrow> byte list list" where
  "qr_pres r q s =
     [qpt_pre (qr_query_commitment r, qr_response_commitment r),
      qp_pre (''tls-attestation/query-commitment/v1'', qr_session_id r, qr_rand_value r, q),
      qp_pre (''tls-attestation/response-commitment/v1'', qr_session_id r, qr_rand_value r, s)]"

definition pgp_pres :: "PGPProof \<Rightarrow> HSPProof \<Rightarrow> byte list list" where
  "pgp_pres p hsp =
     [sp_pre (pgp_commitment p, pgp_hsp_proof_digest p),
      pgp_pre (pgp_session_id p, hsp_rand_value hsp, pgp_qp_transcript_commitment p,
        stm_statement_digest (pgp_statement p), hsp_commitment hsp),
      stm_pre (stm_derivation_tag (pgp_statement p), pgp_qp_transcript_commitment p,
        stm_content (pgp_statement p))]"

definition de_pres :: "DctlsEvidence \<Rightarrow> byte list \<Rightarrow> byte list \<Rightarrow> byte list list" where
  "de_pres e q r = pgp_pres (de_pgp_proof e) (de_hsp_proof e) @ hsp_pres (de_hsp_proof e) @
     qr_pres (de_query_record e) q r"

definition de_fits :: "DctlsEvidence \<Rightarrow> byte list \<Rightarrow> byte list \<Rightarrow> bool" where
  "de_fits e q r \<longleftrightarrow> length q < 2 ^ 64 \<and> length r < 2 ^ 64 \<and>
     length (hsp_server_name (de_hsp_proof e)) < 2 ^ 64 \<and>
     length (stm_content (pgp_statement (de_pgp_proof e))) < 2 ^ 64 \<and>
     length (stm_derivation_tag (pgp_statement (de_pgp_proof e))) < 2 ^ 64"

text \<open>Everything an item of evidence says of the attested TLS session.\<close>

definition de_session ::
  "DctlsEvidence \<Rightarrow> SessionId \<times> DigestBytes \<times> DigestBytes \<times> DigestBytes \<times> u16 \<times> string \<times> u64" where
  "de_session e = (let p = de_hsp_proof e in
     (hsp_session_id p, hsp_rand_value p, hsp_dvrf_exporter p, hsp_server_cert_hash p,
      hsp_tls_version p, hsp_server_name p, hsp_established_at p))"

definition de_statement :: "DctlsEvidence \<Rightarrow> byte list \<times> string" where
  "de_statement e = (stm_content (pgp_statement (de_pgp_proof e)),
     stm_derivation_tag (pgp_statement (de_pgp_proof e)))"

lemma hsp_pres_bind:
  assumes "hsp_check_commitments H p = Inr ()" "hsp_check_commitments H p' = Inr ()"
    and "hsp_commitment p = hsp_commitment p'"
    and "length (hsp_server_name p) < 2 ^ 64" "length (hsp_server_name p') < 2 ^ 64"
    and nc: "\<not> collides H (hsp_pres p) (hsp_pres p')"
  shows "hsp_session_id p = hsp_session_id p' \<and> hsp_rand_value p = hsp_rand_value p' \<and>
    hsp_dvrf_exporter p = hsp_dvrf_exporter p' \<and> hsp_server_cert_hash p = hsp_server_cert_hash p' \<and>
    hsp_tls_version p = hsp_tls_version p' \<and> hsp_server_name p = hsp_server_name p' \<and>
    hsp_established_at p = hsp_established_at p'"
proof -
  have d: "hsp_commitment r = DigestBytes (H (hsp_pre (hsp_session_id r, hsp_rand_value r,
        hsp_dvrf_exporter r, hsp_server_cert_hash r, hsp_handshake_transcript_hash r)))"
      "hsp_handshake_transcript_hash r = DigestBytes (H (ht_pre (hsp_server_cert_hash r,
        hsp_tls_version r, hsp_server_name r, hsp_established_at r)))"
    if "r = p \<or> r = p'" for r
    using that assms(1,2)
    by (auto simp: hsp_check_commitments_eq_Inr hsp_compute_commitment_def ch_finalize_def hsp_pre_def
        compute_handshake_transcript_hash_def ht_pre_def)
  note free = nc[unfolded hsp_pres_def collides_simps de_Morgan_disj not_collision]
  have "hsp_pre (hsp_session_id p, hsp_rand_value p, hsp_dvrf_exporter p, hsp_server_cert_hash p,
        hsp_handshake_transcript_hash p) = hsp_pre (hsp_session_id p', hsp_rand_value p',
        hsp_dvrf_exporter p', hsp_server_cert_hash p', hsp_handshake_transcript_hash p')"
    using free d(1)[of p] d(1)[of p'] assms(3) by simp
  from hspb.pre_inject[OF TrueI TrueI this]
  have h: "hsp_session_id p = hsp_session_id p'" "hsp_rand_value p = hsp_rand_value p'"
    "hsp_dvrf_exporter p = hsp_dvrf_exporter p'" "hsp_server_cert_hash p = hsp_server_cert_hash p'"
    "hsp_handshake_transcript_hash p = hsp_handshake_transcript_hash p'" by simp_all
  have "ht_pre (hsp_server_cert_hash p, hsp_tls_version p, hsp_server_name p, hsp_established_at p) =
      ht_pre (hsp_server_cert_hash p', hsp_tls_version p', hsp_server_name p', hsp_established_at p')"
    using free d(2)[of p] d(2)[of p'] h(5) by simp
  from htb.pre_inject[OF _ _ this] assms(4,5) h show ?thesis by (simp add: ht_fits_def)
qed

lemma qr_pres_bind:
  assumes "verify_query_record H r q s = Inr ()" "verify_query_record H r' q' s' = Inr ()"
    and "qr_transcript_commitment r = qr_transcript_commitment r'"
    and "length q < 2 ^ 64" "length s < 2 ^ 64" "length q' < 2 ^ 64" "length s' < 2 ^ 64"
    and nc: "\<not> collides H (qr_pres r q s) (qr_pres r' q' s')"
  shows "qr_session_id r = qr_session_id r' \<and> qr_rand_value r = qr_rand_value r' \<and> q = q' \<and> s = s'"
proof -
  let ?q = "''tls-attestation/query-commitment/v1''" and ?r = "''tls-attestation/response-commitment/v1''"
  have d: "qr_transcript_commitment t = DigestBytes (H (qpt_pre (qr_query_commitment t,
          qr_response_commitment t)))"
      "qr_query_commitment t = DigestBytes (H (qp_pre (?q, qr_session_id t, qr_rand_value t, a)))"
      "qr_response_commitment t = DigestBytes (H (qp_pre (?r, qr_session_id t, qr_rand_value t, b)))"
    if "verify_query_record H t a b = Inr ()" for t a b
    using that by (simp_all add: verify_query_record_eq_Inr ch_finalize_def qpt_pre_def qp_pre_def)
  note d1 = d[OF assms(1)] and d2 = d[OF assms(2)]
  note free = nc[unfolded qr_pres_def collides_simps de_Morgan_disj not_collision]
  have "qpt_pre (qr_query_commitment r, qr_response_commitment r) =
      qpt_pre (qr_query_commitment r', qr_response_commitment r')"
    using free d1(1) d2(1) assms(3) by simp
  from qptb.pre_inject[OF TrueI TrueI this]
  have c: "qr_query_commitment r = qr_query_commitment r'"
    "qr_response_commitment r = qr_response_commitment r'" by simp_all
  have "qp_pre (?q, qr_session_id r, qr_rand_value r, q) = qp_pre (?q, qr_session_id r', qr_rand_value r', q')"
    using free c(1) unfolding d1(2) d2(2) DigestBytes.inject by blast
  moreover have "qp_pre (?r, qr_session_id r, qr_rand_value r, s) = qp_pre (?r, qr_session_id r', qr_rand_value r', s')"
    using free c(2) unfolding d1(3) d2(3) DigestBytes.inject by blast
  ultimately show ?thesis
    using assms(4-7) qpb.pre_inject[of "(?q, qr_session_id r, qr_rand_value r, q)"
        "(?q, qr_session_id r', qr_rand_value r', q')"]
      qpb.pre_inject[of "(?r, qr_session_id r, qr_rand_value r, s)"
        "(?r, qr_session_id r', qr_rand_value r', s')"]
    by (simp add: qp_fits_def)
qed

lemma pgp_pres_bind:
  assumes "verify_pgp_proof H p rnd hsp = Inr ()" "verify_pgp_proof H p' rnd' hsp' = Inr ()"
    and rnd: "rnd = hsp_rand_value hsp" "rnd' = hsp_rand_value hsp'"
    and "signing_preimage H p = signing_preimage H p'"
    and fits: "length (stm_derivation_tag (pgp_statement p)) < 2 ^ 64"
      "length (stm_content (pgp_statement p)) < 2 ^ 64"
      "length (stm_derivation_tag (pgp_statement p')) < 2 ^ 64"
      "length (stm_content (pgp_statement p')) < 2 ^ 64"
    and nc: "\<not> collides H (pgp_pres p hsp) (pgp_pres p' hsp')"
  shows "hsp_commitment hsp = hsp_commitment hsp' \<and>
    pgp_qp_transcript_commitment p = pgp_qp_transcript_commitment p' \<and>
    stm_content (pgp_statement p) = stm_content (pgp_statement p') \<and>
    stm_derivation_tag (pgp_statement p) = stm_derivation_tag (pgp_statement p')"
proof -
  have d: "pgp_commitment t = DigestBytes (H (pgp_pre (pgp_session_id t, v,
          pgp_qp_transcript_commitment t, stm_statement_digest (pgp_statement t), hsp_commitment h)))"
      "stm_statement_digest (pgp_statement t) = DigestBytes (H (stm_pre (stm_derivation_tag (pgp_statement t),
          pgp_qp_transcript_commitment t, stm_content (pgp_statement t))))"
    if "verify_pgp_proof H t v h = Inr ()" for t v h
    using that by (simp_all add: verify_pgp_proof_eq_Inr pgp_compute_commitment_def ch_finalize_def
        pgp_pre_def stm_pre_def)
  note d1 = d[OF assms(1), unfolded rnd] and d2 = d[OF assms(2), unfolded rnd]
  note free = nc[unfolded pgp_pres_def collides_simps de_Morgan_disj not_collision]
  have "sp_pre (pgp_commitment p, pgp_hsp_proof_digest p) = sp_pre (pgp_commitment p', pgp_hsp_proof_digest p')"
    using free assms(5) by (simp add: signing_preimage_def ch_finalize_def sp_pre_def)
  from spb.pre_inject[OF TrueI TrueI this] have c: "pgp_commitment p = pgp_commitment p'" by simp
  from free have "H (pgp_pre (pgp_session_id p, hsp_rand_value hsp, pgp_qp_transcript_commitment p,
        stm_statement_digest (pgp_statement p), hsp_commitment hsp)) =
      H (pgp_pre (pgp_session_id p', hsp_rand_value hsp', pgp_qp_transcript_commitment p',
        stm_statement_digest (pgp_statement p'), hsp_commitment hsp')) \<longrightarrow>
      pgp_pre (pgp_session_id p, hsp_rand_value hsp, pgp_qp_transcript_commitment p,
        stm_statement_digest (pgp_statement p), hsp_commitment hsp) =
      pgp_pre (pgp_session_id p', hsp_rand_value hsp', pgp_qp_transcript_commitment p',
        stm_statement_digest (pgp_statement p'), hsp_commitment hsp')" by blast
  from this[THEN mp] c d1(1) d2(1)
  have "pgp_pre (pgp_session_id p, hsp_rand_value hsp, pgp_qp_transcript_commitment p,
        stm_statement_digest (pgp_statement p), hsp_commitment hsp) =
      pgp_pre (pgp_session_id p', hsp_rand_value hsp', pgp_qp_transcript_commitment p',
        stm_statement_digest (pgp_statement p'), hsp_commitment hsp')" by simp
  from pgpb.pre_inject[OF TrueI TrueI this]
  have h: "pgp_qp_transcript_commitment p = pgp_qp_transcript_commitment p'"
    "stm_statement_digest (pgp_statement p) = stm_statement_digest (pgp_statement p')"
    "hsp_commitment hsp = hsp_commitment hsp'" by simp_all
  have "stm_pre (stm_derivation_tag (pgp_statement p), pgp_qp_transcript_commitment p,
        stm_content (pgp_statement p)) = stm_pre (stm_derivation_tag (pgp_statement p'),
        pgp_qp_transcript_commitment p', stm_content (pgp_statement p'))"
    using free h(2) unfolding d1(2) d2(2) DigestBytes.inject by blast
  from stmb.pre_inject[OF _ _ this] fits h show ?thesis by (simp add: st_fits_def)
qed

lemma verify_all_parts:
  assumes "verify_all H now e rnd cert q r = Inr b"
  shows "hsp_check_commitments H (de_hsp_proof e) = Inr ()"
    "verify_query_record H (de_query_record e) q r = Inr ()"
    "verify_pgp_proof H (de_pgp_proof e) (hsp_rand_value (de_hsp_proof e)) (de_hsp_proof e) = Inr ()"
    "pgp_qp_transcript_commitment (de_pgp_proof e) = qr_transcript_commitment (de_query_record e)"
    "rnd = hsp_rand_value (de_hsp_proof e)" "cert = hsp_server_cert_hash (de_hsp_proof e)"
    "qr_session_id (de_query_record e) = hsp_session_id (de_hsp_proof e)"
    "qr_rand_value (de_query_record e) = hsp_rand_value (de_hsp_proof e)"
proof -
  have v: "verify_hsp_proof H now (de_hsp_proof e) rnd cert = Inr ()"
    "verify_query_record H (de_query_record e) q r = Inr ()"
    "verify_pgp_proof H (de_pgp_proof e) rnd (de_hsp_proof e) = Inr ()"
    "verify_transcript_consistency H (de_hsp_proof e) (de_query_record e) (de_pgp_proof e) = Inr b"
    using assms by (simp_all only: verify_all_eq_Inr)
  show "hsp_check_commitments H (de_hsp_proof e) = Inr ()"
    and rnd: "rnd = hsp_rand_value (de_hsp_proof e)" and "cert = hsp_server_cert_hash (de_hsp_proof e)"
    using v(1) by (simp_all only: verify_hsp_proof_eq_Inr)
  show "verify_query_record H (de_query_record e) q r = Inr ()" by (rule v(2))
  show "verify_pgp_proof H (de_pgp_proof e) (hsp_rand_value (de_hsp_proof e)) (de_hsp_proof e) = Inr ()"
    using v(3) by (simp only: rnd)
  show "pgp_qp_transcript_commitment (de_pgp_proof e) = qr_transcript_commitment (de_query_record e)"
    "qr_session_id (de_query_record e) = hsp_session_id (de_hsp_proof e)"
    "qr_rand_value (de_query_record e) = hsp_rand_value (de_hsp_proof e)"
    using v(4) by (simp_all only: verify_transcript_consistency_eq_Inr)
qed

lemma verified_evidence_binds:
  assumes v: "verify_all H now e rnd cert q r = Inr b" "verify_all H now' e' rnd' cert' q' r' = Inr b'"
    and sp: "signing_preimage H (de_pgp_proof e) = signing_preimage H (de_pgp_proof e')"
    and fits: "de_fits e q r" "de_fits e' q' r'"
    and nc: "\<not> collides H (de_pres e q r) (de_pres e' q' r')"
  shows "de_session e = de_session e' \<and> de_statement e = de_statement e' \<and> q = q' \<and> r = r'"
proof -
  have nc': "\<not> collides H (pgp_pres (de_pgp_proof e) (de_hsp_proof e)) (pgp_pres (de_pgp_proof e') (de_hsp_proof e'))"
    "\<not> collides H (hsp_pres (de_hsp_proof e)) (hsp_pres (de_hsp_proof e'))"
    "\<not> collides H (qr_pres (de_query_record e) q r) (qr_pres (de_query_record e') q' r')"
    using nc by (simp_all add: de_pres_def pgp_pres_def hsp_pres_def qr_pres_def)
  note w1 = verify_all_parts[OF v(1)] and w2 = verify_all_parts[OF v(2)]
  note f = fits[unfolded de_fits_def]
  have p: "hsp_commitment (de_hsp_proof e) = hsp_commitment (de_hsp_proof e')"
    "qr_transcript_commitment (de_query_record e) = qr_transcript_commitment (de_query_record e')"
    "de_statement e = de_statement e'"
    using pgp_pres_bind[OF w1(3) w2(3) refl refl sp _ _ _ _ nc'(1)] f w1(4) w2(4)
    by (auto simp: de_statement_def)
  moreover have "de_session e = de_session e'"
    using hsp_pres_bind[OF w1(1) w2(1) p(1) _ _ nc'(2)] f by (simp add: de_session_def Let_def)
  moreover have "q = q' \<and> r = r'"
    using qr_pres_bind[OF w1(2) w2(2) p(2) _ _ _ _ nc'(3)] f by blast
  ultimately show ?thesis by blast
qed

section \<open>The prototype engine produces verifiable evidence\<close>

text \<open>The age computation does not wrap around.\<close>

lemma hsp_expired_iff:
  "hsp_expired now p \<longleftrightarrow> 0 < unat (hsp_established_at p) \<and>
     unat (hsp_established_at p) + 86400 < unat now"
proof -
  have "unat (now - at) = unat now - unat at" if "at \<le> now" for at :: u64
    using that by (simp add: unat_sub word_le_nat_alt)
  then show ?thesis
    by (auto simp: hsp_expired_def HSP_PROOF_MAX_AGE_SECS_def word_less_nat_alt word_le_nat_alt)
qed

lemma generated_evidence_verifies:
  assumes "hsp = hsp_generate H sid rnd sps spp" "qr = qr_build H sid rnd q r"
    and "pgp = pgp_generate H sid rnd qr (stm_derive H content tag (qr_transcript_commitment qr)) hsp"
    and "\<not> hsp_expired now hsp"
  shows "verify_all H now \<lparr> de_hsp_proof = hsp, de_query_record = qr, de_pgp_proof = pgp \<rparr> rnd
      (spp_server_cert_hash spp) q r = Inr (tb_build H hsp qr pgp)"
proof -
  have "verify_hsp_proof H now hsp rnd (spp_server_cert_hash spp) = Inr ()"
    using assms(4) unfolding verify_hsp_proof_eq_Inr hsp_check_commitments_eq_Inr assms(1)
    by (simp add: hsp_generate_def Let_def)
  moreover have "verify_query_record H qr q r = Inr ()"
    unfolding verify_query_record_eq_Inr assms(2) by (simp add: qr_build_def Let_def)
  moreover have "verify_pgp_proof H pgp rnd hsp = Inr ()"
    unfolding verify_pgp_proof_eq_Inr assms(3) by (simp add: pgp_generate_def stm_derive_def)
  moreover have "verify_transcript_consistency H hsp qr pgp = Inr (tb_build H hsp qr pgp)"
    unfolding verify_transcript_consistency_eq_Inr
    by (simp add: assms(1-3) pgp_generate_def qr_build_def hsp_generate_def Let_def)
  ultimately show ?thesis by (simp add: verify_all_eq_Inr)
qed

locale dctls_engine = attestation_engine H execute engine_tag
  for H :: sha and execute engine_tag +
  fixes execute_dctls :: "SessionContext \<Rightarrow> DigestBytes \<Rightarrow> byte list \<Rightarrow> byte list \<Rightarrow> DigestBytes \<Rightarrow>
      (AttestationError, TranscriptCommitments \<times> ExportableEvidence \<times> DctlsEvidence) result"
  assumes execute_via: "execute c rnd q r = rbind (execute_dctls c rnd q r ZERO) (\<lambda>(tc, ev, _). Inr (tc, ev))"
    and dctls_ok: "execute_dctls c rnd q r cert = Inr (tc, ev, de) \<Longrightarrow>
      \<not> hsp_expired now (de_hsp_proof de) \<Longrightarrow>
      \<exists>b. verify_all H now de rnd cert q r = Inr b \<and> tb_session_id b = session_id c"
    and dctls_established: "execute_dctls c rnd q r cert = Inr (tc, ev, de) \<Longrightarrow>
      hsp_established_at (de_hsp_proof de) = secs (created_at c)"
begin

lemma fresh_at_creation: "execute_dctls c rnd q r cert = Inr (tc, ev, de) \<Longrightarrow>
    \<exists>b. verify_all H (secs (created_at c)) de rnd cert q r = Inr b \<and> tb_session_id b = session_id c"
  using dctls_ok[of c rnd q r cert tc ev de "secs (created_at c)"] dctls_established
  by (simp add: hsp_expired_def)

lemma same_signature_same_transcript:
  assumes "execute_dctls c rnd q r cert = Inr (tc, ev, de)"
    and "execute_dctls c' rnd' q' r' cert' = Inr (tc', ev', de')"
    and "signing_preimage H (de_pgp_proof de) = signing_preimage H (de_pgp_proof de')"
    and "de_fits de q r" "de_fits de' q' r'" "\<not> collides H (de_pres de q r) (de_pres de' q' r')"
  shows "q = q' \<and> r = r' \<and> rnd = rnd' \<and> cert = cert'"
proof -
  obtain b b' where b: "verify_all H (secs (created_at c)) de rnd cert q r = Inr b"
      "verify_all H (secs (created_at c')) de' rnd' cert' q' r' = Inr b'"
    using fresh_at_creation[OF assms(1)] fresh_at_creation[OF assms(2)] by auto
  have "de_session de = de_session de' \<and> de_statement de = de_statement de' \<and> q = q' \<and> r = r'"
    by (rule verified_evidence_binds[OF b assms(3-6)])
  then show ?thesis using verify_all_parts(5,6)[OF b(1)] verify_all_parts(5,6)[OF b(2)]
    by (simp add: de_session_def Let_def)
qed

end

lemma execute_dctls_eq_Inr:
  assumes "dctls_execute_dctls H to_vec c rnd q r cert = Inr (tc, ev, de)"
  shows "tc = tcs_build H (session_id c) rnd q r" "evidence_consistent H ev"
    "ev_engine_tag ev = DCTLS_ENGINE_TAG" "hsp_established_at (de_hsp_proof de) = secs (created_at c)"
    "\<not> hsp_expired now (de_hsp_proof de) \<Longrightarrow>
       \<exists>b. verify_all H now de rnd cert q r = Inr b \<and> tb_session_id b = session_id c"
proof -
  note d = assms[unfolded dctls_execute_dctls_def Let_def]
  show "tc = tcs_build H (session_id c) rnd q r" using d by simp
  show "evidence_consistent H ev" "ev_engine_tag ev = DCTLS_ENGINE_TAG"
    using d by (auto simp: evidence_consistent_def evidence_new_def)
  show "hsp_established_at (de_hsp_proof de) = secs (created_at c)"
    using d by (auto simp: hsp_generate_def Let_def)
  show "\<exists>b. verify_all H now de rnd cert q r = Inr b \<and> tb_session_id b = session_id c"
    if fresh: "\<not> hsp_expired now (de_hsp_proof de)"
  proof -
    obtain sps spp where e: "de = \<lparr> de_hsp_proof = hsp_generate H (session_id c) rnd sps spp,
        de_query_record = qr_build H (session_id c) rnd q r,
        de_pgp_proof = pgp_generate H (session_id c) rnd (qr_build H (session_id c) rnd q r)
          (stm_derive H (str_bytes ''attested-session'') ''dx-dctls/prototype-statement/v1''
            (qr_transcript_commitment (qr_build H (session_id c) rnd q r)))
          (hsp_generate H (session_id c) rnd sps spp) \<rparr>" and "spp_server_cert_hash spp = cert"
      using d by auto
    then show ?thesis
      using generated_evidence_verifies[OF refl refl refl, of now H "session_id c" rnd sps spp] fresh
      by (simp add: tb_build_def) (simp add: hsp_generate_def Let_def)
  qed
qed

lemma execute_dctls_accepted:
  "\<exists>tc ev de b. dctls_execute_dctls H to_vec c rnd q r cert = Inr (tc, ev, de) \<and>
     verify_all H (secs (created_at c)) de rnd cert q r = Inr b"
proof -
  obtain tc ev de where e: "dctls_execute_dctls H to_vec c rnd q r cert = Inr (tc, ev, de)"
    by (auto simp: dctls_execute_dctls_def Let_def)
  have "\<not> hsp_expired (secs (created_at c)) (de_hsp_proof de)"
    by (simp add: hsp_expired_iff execute_dctls_eq_Inr(4)[OF e])
  with execute_dctls_eq_Inr(5)[OF e] e show ?thesis by blast
qed

interpretation pdctls: dctls_engine H "dctls_execute H to_vec" DCTLS_ENGINE_TAG "dctls_execute_dctls H to_vec"
  for H :: sha and to_vec
proof
  fix c rnd q r tcs ev
  show "\<exists>tcs ev. dctls_execute H to_vec c rnd q r = Inr (tcs, ev)"
    by (simp add: dctls_execute_def dctls_execute_dctls_def Let_def)
  assume "dctls_execute H to_vec c rnd q r = Inr (tcs, ev)"
  then obtain de where "dctls_execute_dctls H to_vec c rnd q r ZERO = Inr (tcs, ev, de)"
    by (auto simp: dctls_execute_def rbind_eq_Inr)
  from execute_dctls_eq_Inr(1-3)[OF this]
  show "tcs = tcs_build H (session_id c) rnd q r \<and> evidence_consistent H ev \<and>
      ev_engine_tag ev = DCTLS_ENGINE_TAG" by blast
next
  fix c rnd q r cert tc ev de now
  assume "dctls_execute_dctls H to_vec c rnd q r cert = Inr (tc, ev, de)"
  note e = execute_dctls_eq_Inr[OF this]
  show "hsp_established_at (de_hsp_proof de) = secs (created_at c)" by (rule e(4))
  show "\<exists>b. verify_all H now de rnd cert q r = Inr b \<and> tb_session_id b = session_id c"
    if "\<not> hsp_expired now (de_hsp_proof de)" by (rule e(5)[OF that])
qed (simp add: dctls_execute_def)

section \<open>Properties\<close>

definition de_ex :: DctlsEvidence where
  "de_ex = (let hsp = hsp_generate (\<lambda>_. 7) (SessionId 1) (DigestBytes 9)
        \<lparr> sps_dvrf_exporter = DigestBytes 7, sps_session_nonce = DigestBytes 7 \<rparr>
        \<lparr> spp_server_cert_hash = ZERO, spp_tls_version = 0x0304, spp_server_name = ''srv'',
          spp_established_at = 1000 \<rparr>;
      qr = qr_build (\<lambda>_. 7) (SessionId 1) (DigestBytes 9) [1, 2] [3]
    in \<lparr> de_hsp_proof = hsp, de_query_record = qr,
         de_pgp_proof = pgp_generate (\<lambda>_. 7) (SessionId 1) (DigestBytes 9) qr
           (stm_derive (\<lambda>_. 7) [5] ''t'' (qr_transcript_commitment qr)) hsp \<rparr>)"

lemma de_ex_established [simp]: "hsp_established_at (de_hsp_proof de_ex) = 1000"
  by (simp add: de_ex_def hsp_generate_def Let_def)

lemma de_ex_verifies:
  assumes "unat now \<le> 87400"
  shows "\<exists>b. verify_all (\<lambda>_. 7) now de_ex (DigestBytes 9) ZERO [1, 2] [3] = Inr b"
proof -
  have "\<not> hsp_expired now (de_hsp_proof de_ex)"
    using assms unfolding hsp_expired_iff by simp
  then have "\<not> hsp_expired now (hsp_generate (\<lambda>_. 7) (SessionId 1) (DigestBytes 9)
        \<lparr> sps_dvrf_exporter = DigestBytes 7, sps_session_nonce = DigestBytes 7 \<rparr>
        \<lparr> spp_server_cert_hash = ZERO, spp_tls_version = 0x0304, spp_server_name = ''srv'',
          spp_established_at = 1000 \<rparr>)"
    by (simp add: de_ex_def Let_def)
  from generated_evidence_verifies[OF refl refl refl this, of "[1, 2]" "[3]" "[5]" "''t''"]
  show ?thesis by (simp add: de_ex_def Let_def)
qed

text \<open>C37. What is signed determines the attested session.  When \<open>verify_all\<close> accepts two items of
  evidence whose statement proofs have the same signing preimage, both were checked against the
  same randomness and server certificate, and they agree on session identifier, exporter, TLS
  version, server name, time, statement, query and response, unless two corresponding hashed byte
  strings of the two items are a collision.\<close>

theorem signing_preimage_binds_evidence:
  assumes "verify_all H now e rnd cert q r = Inr b" "verify_all H now' e' rnd' cert' q' r' = Inr b'"
    and "signing_preimage H (de_pgp_proof e) = signing_preimage H (de_pgp_proof e')"
    and "de_fits e q r" "de_fits e' q' r'"
  shows "de_session e = de_session e' \<and> de_statement e = de_statement e' \<and> q = q' \<and> r = r' \<and>
      rnd = rnd' \<and> cert = cert' \<or> collides H (de_pres e q r) (de_pres e' q' r')"
proof (cases "collides H (de_pres e q r) (de_pres e' q' r')")
  case False
  then have "de_session e = de_session e' \<and> de_statement e = de_statement e' \<and> q = q' \<and> r = r'"
    by (rule verified_evidence_binds[OF assms])
  moreover from this have "rnd = rnd' \<and> cert = cert'"
    using verify_all_parts(5,6)[OF assms(1)] verify_all_parts(5,6)[OF assms(2)]
    by (simp add: de_session_def Let_def)
  ultimately show ?thesis by blast
qed simp

theorem signing_preimage_binds_evidence_witness:
  "\<exists>b. verify_all (\<lambda>_. 7) 1000 de_ex (DigestBytes 9) ZERO [1, 2] [3] = Inr b \<and>
     (de_session de_ex = de_session de_ex \<and> de_statement de_ex = de_statement de_ex \<or>
      collides (\<lambda>_. 7 :: bytes32) (de_pres de_ex [1, 2] [3]) (de_pres de_ex [1, 2] [3]))"
proof -
  obtain b where b: "verify_all (\<lambda>_. 7) 1000 de_ex (DigestBytes 9) ZERO [1, 2] [3] = Inr b"
    using de_ex_verifies[of 1000] by auto
  moreover have "de_fits de_ex [1, 2] [3]"
    by (simp add: de_fits_def de_ex_def Let_def hsp_generate_def pgp_generate_def stm_derive_def)
  ultimately show ?thesis
    using signing_preimage_binds_evidence[OF b b refl] by auto
qed

text \<open>Completeness of the prototype engine.  \<open>execute_dctls\<close> always returns; its transcript
  commitments are those of the query and response, its evidence carries the digest of its own
  bytes, and \<open>verify_all\<close> accepts the proofs against the same randomness, certificate, query and
  response, naming this session, at every time up to 24 hours after the session was created.\<close>

theorem execute_dctls_verifies:
  "\<exists>ev de. dctls_execute_dctls H to_vec c rnd q r cert =
       Inr (tcs_build H (session_id c) rnd q r, ev, de) \<and>
     evidence_consistent H ev \<and> ev_engine_tag ev = DCTLS_ENGINE_TAG \<and>
     (\<forall>now. unat now \<le> unat (secs (created_at c)) + 86400 \<longrightarrow>
        (\<exists>b. verify_all H now de rnd cert q r = Inr b \<and> tb_session_id b = session_id c \<and>
           tb_rand_value b = rnd))"
proof -
  obtain tc ev de where e: "dctls_execute_dctls H to_vec c rnd q r cert = Inr (tc, ev, de)"
    by (auto simp: dctls_execute_dctls_def Let_def)
  note d = execute_dctls_eq_Inr[OF e]
  have "\<exists>b. verify_all H now de rnd cert q r = Inr b \<and> tb_session_id b = session_id c \<and>
      tb_rand_value b = rnd"
    if "unat now \<le> unat (secs (created_at c)) + 86400" for now
  proof -
    have "\<not> hsp_expired now (de_hsp_proof de)" using that by (simp add: hsp_expired_iff d(4))
    then obtain b where b: "verify_all H now de rnd cert q r = Inr b" "tb_session_id b = session_id c"
      using d(5) by blast
    then have "b = tb_build H (de_hsp_proof de) (de_query_record de) (de_pgp_proof de)"
      by (simp add: verify_all_eq_Inr verify_transcript_consistency_eq_Inr)
    then show ?thesis using b verify_all_parts(5)[OF b(1)] by (simp add: tb_build_def)
  qed
  then show ?thesis using e d(1-3) by blast
qed

theorem execute_dctls_verifies_witness:
  "\<exists>ev de b. dctls_execute_dctls (\<lambda>_. 7) (\<lambda>_. None) ctx_ex (DigestBytes 9) [1] [2] ZERO =
       Inr (tcs_build (\<lambda>_. 7) (SessionId 1) (DigestBytes 9) [1] [2], ev, de) \<and>
     verify_all (\<lambda>_. 7) (secs (created_at ctx_ex)) de (DigestBytes 9) ZERO [1] [2] = Inr b"
proof -
  have "session_id ctx_ex = SessionId 1" by (simp add: ctx_ex_def)
  moreover have "unat (secs (created_at ctx_ex)) \<le> unat (secs (created_at ctx_ex)) + 86400" by simp
  ultimately show ?thesis
    using execute_dctls_verifies[of "\<lambda>_. 7" "\<lambda>_. None" ctx_ex "DigestBytes 9" "[1]" "[2]" ZERO]
    by metis
qed

text \<open>The age window of a handshake proof.  A proof accepted at one time is accepted at another
  exactly when that is at most 24 hours after the handshake, computed without wrap-around; a proof
  whose handshake time is 0 is accepted at every time.\<close>

theorem hsp_freshness_window:
  assumes "verify_hsp_proof H t p rnd cert = Inr ()"
  shows "verify_hsp_proof H now p rnd cert = Inr () \<longleftrightarrow>
    hsp_established_at p = 0 \<or> unat now \<le> unat (hsp_established_at p) + 86400"
  using assms unfolding verify_hsp_proof_eq_Inr hsp_expired_iff by (auto simp: unat_eq_0)

theorem hsp_freshness_window_witness:
  "verify_hsp_proof (\<lambda>_. 7) 87400 (de_hsp_proof de_ex) (DigestBytes 9) ZERO = Inr () \<and>
   verify_hsp_proof (\<lambda>_. 7) 87401 (de_hsp_proof de_ex) (DigestBytes 9) ZERO \<noteq> Inr ()"
proof -
  have "verify_hsp_proof (\<lambda>_. 7) 1000 (de_hsp_proof de_ex) (DigestBytes 9) ZERO = Inr ()"
    using de_ex_verifies[of 1000] by (auto simp: verify_all_eq_Inr)
  note w = hsp_freshness_window[OF this]
  show ?thesis unfolding w by simp
qed

text \<open>Proofs with an embedded zero-knowledge part are never accepted: \<open>verify_hsp_proof\<close> refuses
  them and asks for \<open>verify_hsp_proof_with_zk\<close>, which accepts no proof at all because its
  verification routine is not connected.\<close>

theorem zk_backed_proofs_never_accepted:
  assumes "hsp_zk_proof p \<noteq> None"
  shows "\<not> is_ok (verify_hsp_proof H now p rnd cert) \<and>
    \<not> is_ok (verify_hsp_proof_with_zk H p rnd cert pvk)"
proof -
  have "verify_hsp_proof H now p rnd cert \<noteq> Inr u" for u
    using assms unfolding verify_hsp_proof_eq_Inr by simp
  moreover have "verify_hsp_proof_with_zk H p rnd cert pvk \<noteq> Inr u" for u
    unfolding verify_hsp_proof_with_zk_def verify_groth16_hsp_bytes_def
    by (auto simp: rbind_eq_Inr split: option.splits if_splits)
  ultimately show ?thesis by (auto simp: is_ok_iff)
qed

theorem zk_backed_proofs_never_accepted_witness:
  "\<not> is_ok (verify_hsp_proof_with_zk (\<lambda>_. 7)
     (de_hsp_proof de_ex \<lparr> hsp_zk_proof := Some [], hsp_zk_binding := Some ZERO \<rparr>) (DigestBytes 9) ZERO [])"
  using zk_backed_proofs_never_accepted[of "de_hsp_proof de_ex \<lparr> hsp_zk_proof := Some [], hsp_zk_binding := Some ZERO \<rparr>"]
  by simp

end
