(* ===== verification/Frost_Aux.thy ===== *)
theory Frost_Aux
  imports Messages Co_Snark Dctls
begin

text \<open>
  The auxiliary verifier of the distributed signing protocol (\<open>node/src/frost_aux.rs\<close>): the cache of
  nonces between the two rounds, the admission checks of round 1, the consumption of the nonces in
  round 2, and the same pair of rounds for the handshake binding.

  The node is a record; each method returns its result and the node after it.  The clock readings
  of a call (\<open>now\<close> of the caller, the wall clock of the evidence check, the two readings of the
  monotonic clock, in nanoseconds) and the random bytes it draws are arguments.  \<open>hj\<close> and \<open>ej\<close> are
  the JSON decoders of the handshake proof and of the session evidence.

  Every method takes a cache lock at most once, except the first handshake-binding round, which
  takes it twice: its two critical sections are separate definitions, so that the interleavings can
  be stated.
\<close>

section \<open>State\<close>

definition PENDING_TTL :: nat where
  "PENDING_TTL = 300 * 10 ^ 9"

record 'n PendingRound =
  pend_nonces :: 'n
  pend_signer_set :: "VerifierId list"
  pend_signed_digest :: DigestBytes
  pend_registry_epoch :: RegistryEpoch
  pend_inserted_at :: nat

type_synonym 'n round_cache = "SessionId \<rightharpoonup> 'n PendingRound"

text \<open>\<open>duration_since\<close> saturates at zero.\<close>

definition evict_expired :: "nat \<Rightarrow> 'n round_cache \<Rightarrow> 'n round_cache" where
  "evict_expired now cache = (\<lambda>s. case cache s of
     None \<Rightarrow> None
   | Some v \<Rightarrow> if now - pend_inserted_at v < PENDING_TTL then Some v else None)"

record ('kp, 'n) FrostAuxiliaryNode =
  fa_participant :: "'kp FrostParticipant"
  fa_registry :: "ParticipantRegistry option"
  fa_pending :: "'n round_cache"
  fa_hb_pending :: "'n round_cache"

definition frost_aux_new :: "'kp FrostParticipant \<Rightarrow> ('kp, 'n) FrostAuxiliaryNode" where
  "frost_aux_new p = \<lparr> fa_participant = p, fa_registry = None, fa_pending = Map.empty,
     fa_hb_pending = Map.empty \<rparr>"

definition frost_aux_with_registry :: "'kp FrostParticipant \<Rightarrow> ParticipantRegistry \<Rightarrow>
    ('kp, 'n) FrostAuxiliaryNode" where
  "frost_aux_with_registry p r = \<lparr> fa_participant = p, fa_registry = Some r, fa_pending = Map.empty,
     fa_hb_pending = Map.empty \<rparr>"

definition fa_verifier_id :: "('kp, 'n) FrostAuxiliaryNode \<Rightarrow> VerifierId" where
  "fa_verifier_id n = fp_verifier_id (fa_participant n)"

section \<open>Round 1\<close>

text \<open>Registry admission, with the texts of the two protocols as arguments.\<close>

definition registry_admission :: "ParticipantRegistry option \<Rightarrow> RegistryEpoch \<Rightarrow> VerifierId list \<Rightarrow>
    (RegistryEpoch \<Rightarrow> string) \<Rightarrow> (VerifierId \<Rightarrow> RegistryError \<Rightarrow> string) \<Rightarrow> (NodeError, unit) result" where
  "registry_admission reg ep signers mismatch denied = (case reg of
     None \<Rightarrow> Inr ()
   | Some registry \<Rightarrow>
       if ep \<noteq> registry_GENESIS \<and> ep \<noteq> reg_epoch registry
       then Inl (SigningAdmission (mismatch (reg_epoch registry)))
       else if ep \<noteq> registry_GENESIS
       then each_ok (\<lambda>vid. map_err (\<lambda>e. SigningAdmission (denied vid e))
              (rbind (get_active registry vid) (\<lambda>_. Inr ()))) signers
       else Inr ())"

definition admission_checks :: "sha \<Rightarrow> ('kp, 'n) FrostAuxiliaryNode \<Rightarrow> FrostRound1Request \<Rightarrow> UnixTimestamp \<Rightarrow>
    (NodeError, unit) result" where
  "admission_checks H n req now = (
     let sid = sid_display (r1_session_id req); my_id = fa_verifier_id n in
     if secs (r1_round_expires_at req) < secs now
     then Inl (FrostProtocol (''round-1 request expired for session '' @ sid @ '': expires_at='' @
            dec_str (unat (secs (r1_round_expires_at req))) @ '' now='' @ dec_str (unat (secs now))))
     else if my_id \<notin> set (r1_signer_set req)
     then Inl (FrostProtocol (''verifier '' @ vid_display my_id @
            '' is not in the signer set for session '' @ sid))
     else rbind (registry_admission (fa_registry n) (r1_registry_epoch req) (r1_signer_set req)
            (\<lambda>re. ''registry epoch mismatch for session '' @ sid @ '': request carries epoch '' @
               epoch_debug (r1_registry_epoch req) @ '', registry is at epoch '' @ epoch_debug re)
            (\<lambda>vid e. ''signing admission denied for session '' @ sid @ '': signer '' @ vid_display vid @
               '' rejected by registry: '' @ registry_error_display e)) (\<lambda>_.
     if r1_signed_digest req \<noteq> approval_signed_digest H (r1_envelope_digest req)
     then Inl (FrostProtocol (''signed_digest mismatch in round-1 for session '' @ sid @
            '': coordinator-supplied value does not equal approval_signed_digest(envelope_digest)''))
     else Inr ()))"

definition greek_pi :: string where
  "greek_pi = [CHR 0xCF, CHR 0x80]"

definition co_snark_error_debug :: "CoSnarkError \<Rightarrow> string" where
  "co_snark_error_debug e = (case e of
     CoSetup m \<Rightarrow> ''Setup('' @ str_debug m @ '')''
   | CoProve m \<Rightarrow> ''Prove('' @ str_debug m @ '')''
   | CoVerify \<Rightarrow> ''Verify''
   | CoSerialize m \<Rightarrow> ''Serialize('' @ str_debug m @ '')'')"

text \<open>Step 5: the handshake proof, when both of its byte fields are present.\<close>

definition hsp_check :: "('b, 'u8, 'u32, 'f, 'fr) r1cs \<Rightarrow> ('fr, 'gpk, 'vk, 'pvk, 'pf, 'rng) groth \<Rightarrow>
    (byte list \<Rightarrow> (string, HspZkProof) result) \<Rightarrow> FrostRound1Request \<Rightarrow> (NodeError, unit) result" where
  "hsp_check G K hj req = (
     let sid = sid_display (r1_session_id req) in
     if r1_hsp_proof_bytes req \<noteq> [] \<and> r1_hsp_pvk_bytes req \<noteq> [] then
       rbind (map_err (\<lambda>e. FrostProtocol (greek_pi @ ''_HSP deserialization failed for session '' @ sid @
          '': '' @ e)) (hj (r1_hsp_proof_bytes req))) (\<lambda>proof.
       rbind (map_err (\<lambda>e. FrostProtocol (''HSP verifying key deserialization failed for session '' @ sid @
          '': '' @ e)) (pvk_deserialize K (r1_hsp_pvk_bytes req))) (\<lambda>pvk.
       map_err (\<lambda>e. FrostProtocol (''ZKP.Verify('' @ greek_pi @ ''_HSP, rand) failed for session '' @ sid @
          '': '' @ co_snark_error_debug e)) (co_snark_verify G K pvk proof None)))
     else Inr ())"

text \<open>Step 5b: the session evidence, when present.\<close>

definition dctls_check :: "sha \<Rightarrow> (byte list \<Rightarrow> (string, DctlsEvidence) result) \<Rightarrow> u64 \<Rightarrow> FrostRound1Request \<Rightarrow>
    (NodeError, unit) result" where
  "dctls_check H ej clock req = (
     let sid = sid_display (r1_session_id req) in
     if r1_dctls_evidence_bytes req \<noteq> [] then
       rbind (map_err (\<lambda>e. FrostProtocol (''DctlsEvidence deserialization failed for session '' @ sid @
          '': '' @ e)) (ej (r1_dctls_evidence_bytes req))) (\<lambda>evidence.
       rbind (ok_or (FrostProtocol (''rand_value_bytes must be 32 bytes for session '' @ sid))
          (try_into_array 32 (r1_rand_value_bytes req))) (\<lambda>rand_value.
       rbind (ok_or (FrostProtocol (''server_cert_hash_bytes must be 32 bytes for session '' @ sid))
          (try_into_array 32 (r1_server_cert_hash_bytes req))) (\<lambda>server_cert_hash.
       rbind (map_err (\<lambda>e. FrostProtocol (''ZKP.Verify('' @ greek_pi @
            ''_DCTLS, rand): verify_hsp_proof failed for session '' @ sid @ '': '' @ dctls_error_display e))
          (verify_hsp_proof H clock (de_hsp_proof evidence) (DigestBytes rand_value)
             (DigestBytes server_cert_hash))) (\<lambda>_.
       rbind (map_err (\<lambda>e. FrostProtocol (''ZKP.Verify('' @ greek_pi @
            ''_pgp, b): verify_pgp_proof failed for session '' @ sid @ '': '' @ dctls_error_display e))
          (verify_pgp_proof H (de_pgp_proof evidence) (DigestBytes rand_value)
             (de_hsp_proof evidence))) (\<lambda>_.
       rbind (map_err (\<lambda>e. FrostProtocol (''ZKP.Verify('' @ greek_pi @
            ''_DCTLS): transcript consistency failed for session '' @ sid @ '': '' @ dctls_error_display e))
          (verify_transcript_consistency H (de_hsp_proof evidence) (de_query_record evidence)
             (de_pgp_proof evidence))) (\<lambda>_. Inr ()))))))
     else Inr ())"

definition frost_round1 :: "sha \<Rightarrow> ('kp, 'n, 'c, 's, 'sp, 'pk) frost \<Rightarrow>
    ('b, 'u8, 'u32, 'f, 'fr) r1cs \<Rightarrow> ('fr, 'gpk, 'vk, 'pvk, 'pf, 'rng) groth \<Rightarrow>
    (byte list \<Rightarrow> (string, HspZkProof) result) \<Rightarrow> (byte list \<Rightarrow> (string, DctlsEvidence) result) \<Rightarrow>
    ('kp, 'n) FrostAuxiliaryNode \<Rightarrow> FrostRound1Request \<Rightarrow> UnixTimestamp \<Rightarrow> u64 \<Rightarrow> nat \<Rightarrow> nat \<Rightarrow> rng \<Rightarrow>
    (NodeError, FrostRound1Response) result \<times> ('kp, 'n) FrostAuxiliaryNode" where
  "frost_round1 H F G K hj ej n req now clock evict_at insert_at g =
     (case rbind (admission_checks H n req now) (\<lambda>_. rbind (hsp_check G K hj req) (\<lambda>_.
             dctls_check H ej clock req)) of
        Inl e \<Rightarrow> (Inl e, n)
      | Inr _ \<Rightarrow>
          let (nonces, commitment) = round1 F (fa_participant n) g;
              commitment_bytes = fc_to_bytes F commitment;
              cache = evict_expired evict_at (fa_pending n)
          in if cache (r1_session_id req) \<noteq> None
             then (Inl (FrostProtocol (''round-1 already completed for session '' @
                     sid_display (r1_session_id req) @ '' '' @ em_dash @
                     '' refusing duplicate nonce generation'')), n\<lparr> fa_pending := cache \<rparr>)
             else (map_err Crypto (rbind commitment_bytes (\<lambda>b.
                     Inr \<lparr> s1_session_id = r1_session_id req, s1_verifier_id = fa_verifier_id n,
                           s1_commitment_bytes = b \<rparr>)),
                   n\<lparr> fa_pending := cache(r1_session_id req \<mapsto>
                     \<lparr> pend_nonces = nonces, pend_signer_set = r1_signer_set req,
                       pend_signed_digest = r1_signed_digest req,
                       pend_registry_epoch = r1_registry_epoch req,
                       pend_inserted_at = insert_at \<rparr>) \<rparr>))"

section \<open>Round 2\<close>

definition frost_round2 :: "('kp, 'n, 'c, 's, 'sp, 'pk) frost \<Rightarrow> ('kp, 'n) FrostAuxiliaryNode \<Rightarrow>
    FrostRound2Request \<Rightarrow> (NodeError, FrostRound2Response) result \<times> ('kp, 'n) FrostAuxiliaryNode" where
  "frost_round2 F n req = (
     let sid = sid_display (r2_session_id req) in
     case fa_pending n (r2_session_id req) of
       None \<Rightarrow> (Inl (FrostProtocol (''nonces missing for session '' @ sid @ '' '' @ em_dash @
          '' round-1 may not have run, or the node restarted between rounds'')), n)
     | Some pending \<Rightarrow>
         (if r2_signer_set req \<noteq> pend_signer_set pending
          then Inl (FrostProtocol (''signer-set mismatch for session '' @ sid @
            '': round-2 signer set differs from round-1 commitment''))
          else rbind (map_err Crypto (sp_from_bytes F (r2_signing_package_bytes req))) (\<lambda>signing_package.
            if message_bytes F signing_package \<noteq> digest_enc (pend_signed_digest pending)
            then Inl (FrostProtocol (''signing package message mismatch for session '' @ sid @
              '': the message embedded in the signing package does not match the signed_digest committed to in round-1''))
            else rbind (map_err Crypto (round2 F (fa_participant n) signing_package (pend_nonces pending))) (\<lambda>share.
              rbind (map_err Crypto (fs_to_bytes F share)) (\<lambda>b.
              Inr \<lparr> s2_session_id = r2_session_id req, s2_verifier_id = fa_verifier_id n,
                    s2_signature_share_bytes = b \<rparr>))),
          n\<lparr> fa_pending := (fa_pending n)(r2_session_id req := None) \<rparr>))"

definition pending_session_count :: "('kp, 'n) FrostAuxiliaryNode \<Rightarrow> nat" where
  "pending_session_count n = card (dom (fa_pending n))"

section \<open>Handshake binding\<close>

definition hb_request_checks :: "('kp, 'n) FrostAuxiliaryNode \<Rightarrow> HandshakeBindingRound1Request \<Rightarrow>
    UnixTimestamp \<Rightarrow> (NodeError, unit) result" where
  "hb_request_checks n req now = (
     let sid = sid_display (hb1_session_id req); my_id = fa_verifier_id n; gap = replicate 22 (CHR '' '') in
     if secs (hb1_round_expires_at req) < secs now
     then Inl (FrostProtocol (''handshake-binding round-1 expired for session '' @ sid @ '': expires_at='' @
            dec_str (unat (secs (hb1_round_expires_at req))) @ '' now='' @ dec_str (unat (secs now))))
     else if my_id \<notin> set (hb1_signer_set req)
     then Inl (FrostProtocol (''verifier '' @ vid_display my_id @
            '' not in signer set for handshake-binding session '' @ sid))
     else registry_admission (fa_registry n) (hb1_registry_epoch req) (hb1_signer_set req)
            (\<lambda>re. ''registry epoch mismatch in handshake-binding for session '' @ sid @ '':'' @ gap @
               ''request='' @ epoch_debug (hb1_registry_epoch req) @ '', registry='' @ epoch_debug re)
            (\<lambda>vid e. ''handshake-binding admission denied for session '' @ sid @ '':'' @
               replicate 30 (CHR '' '') @ ''signer '' @ vid_display vid @ '' rejected: '' @
               registry_error_display e))"

text \<open>The first critical section: the duplicate guard.\<close>

definition hb_guard :: "('kp, 'n) FrostAuxiliaryNode \<Rightarrow> HandshakeBindingRound1Request \<Rightarrow>
    (NodeError, unit) result" where
  "hb_guard n req = (if fa_hb_pending n (hb1_session_id req) \<noteq> None
     then Inl (FrostProtocol (''handshake-binding round-1 already completed for session '' @
            sid_display (hb1_session_id req)))
     else Inr ())"

text \<open>The second critical section, and the response.\<close>

definition hb_insert :: "('kp, 'n, 'c, 's, 'sp, 'pk) frost \<Rightarrow> ('kp, 'n) FrostAuxiliaryNode \<Rightarrow>
    HandshakeBindingRound1Request \<Rightarrow> nat \<Rightarrow> nat \<Rightarrow> rng \<Rightarrow>
    (NodeError, HandshakeBindingRound1Response) result \<times> ('kp, 'n) FrostAuxiliaryNode" where
  "hb_insert F n req evict_at insert_at g = (
     let (nonces, commitment) = round1 F (fa_participant n) g;
         commitment_bytes = fc_to_bytes F commitment;
         cache = evict_expired evict_at (fa_hb_pending n)
     in (map_err Crypto (rbind commitment_bytes (\<lambda>b.
           Inr \<lparr> hs1_session_id = hb1_session_id req, hs1_verifier_id = fa_verifier_id n,
                 hs1_commitment_bytes = b \<rparr>)),
         n\<lparr> fa_hb_pending := cache(hb1_session_id req \<mapsto>
           \<lparr> pend_nonces = nonces, pend_signer_set = hb1_signer_set req,
             pend_signed_digest = hb1_binding_input req, pend_registry_epoch = hb1_registry_epoch req,
             pend_inserted_at = insert_at \<rparr>) \<rparr>))"

definition handshake_binding_round1 :: "('kp, 'n, 'c, 's, 'sp, 'pk) frost \<Rightarrow>
    ('kp, 'n) FrostAuxiliaryNode \<Rightarrow> HandshakeBindingRound1Request \<Rightarrow> UnixTimestamp \<Rightarrow> nat \<Rightarrow> nat \<Rightarrow> rng \<Rightarrow>
    (NodeError, HandshakeBindingRound1Response) result \<times> ('kp, 'n) FrostAuxiliaryNode" where
  "handshake_binding_round1 F n req now evict_at insert_at g =
     (case rbind (hb_request_checks n req now) (\<lambda>_. hb_guard n req) of
        Inl e \<Rightarrow> (Inl e, n)
      | Inr _ \<Rightarrow> hb_insert F n req evict_at insert_at g)"

definition handshake_binding_round2 :: "('kp, 'n, 'c, 's, 'sp, 'pk) frost \<Rightarrow>
    ('kp, 'n) FrostAuxiliaryNode \<Rightarrow> HandshakeBindingRound2Request \<Rightarrow>
    (NodeError, HandshakeBindingRound2Response) result \<times> ('kp, 'n) FrostAuxiliaryNode" where
  "handshake_binding_round2 F n req = (
     let sid = sid_display (hb2_session_id req) in
     case fa_hb_pending n (hb2_session_id req) of
       None \<Rightarrow> (Inl (FrostProtocol (''handshake-binding nonces missing for session '' @ sid @ '' '' @
          em_dash @ replicate 22 (CHR '' '') @ ''round-1 may not have run or node restarted'')), n)
     | Some pending \<Rightarrow>
         (if hb2_signer_set req \<noteq> pend_signer_set pending
          then Inl (FrostProtocol (''handshake-binding signer-set mismatch for session '' @ sid))
          else rbind (map_err Crypto (sp_from_bytes F (hb2_signing_package_bytes req))) (\<lambda>signing_package.
            if message_bytes F signing_package \<noteq> digest_enc (pend_signed_digest pending)
            then Inl (FrostProtocol (''handshake-binding message mismatch for session '' @ sid @ '':'' @
              replicate 18 (CHR '' '') @
              ''signing package does not embed the binding_input from round-1''))
            else rbind (map_err Crypto (round2 F (fa_participant n) signing_package (pend_nonces pending))) (\<lambda>share.
              rbind (map_err Crypto (fs_to_bytes F share)) (\<lambda>b.
              Inr \<lparr> hs2_session_id = hb2_session_id req, hs2_verifier_id = fa_verifier_id n,
                    hs2_signature_share_bytes = b \<rparr>))),
          n\<lparr> fa_hb_pending := (fa_hb_pending n)(hb2_session_id req := None) \<rparr>))"

section \<open>The coordinator's helpers\<close>

definition assemble_signing_package_from_responses :: "('kp, 'n, 'c, 's, 'sp, 'pk) frost \<Rightarrow>
    FrostRound1Response list \<Rightarrow> DigestBytes \<Rightarrow> 'pk FrostGroupKey \<Rightarrow> (NodeError, 'sp \<times> byte list) result" where
  "assemble_signing_package_from_responses F responses signed_digest gk =
     map_err Crypto (build_signing_package F
       (map (\<lambda>r. (s1_verifier_id r, s1_commitment_bytes r)) responses) signed_digest gk)"

definition assemble_hb_signing_package_from_responses :: "('kp, 'n, 'c, 's, 'sp, 'pk) frost \<Rightarrow>
    HandshakeBindingRound1Response list \<Rightarrow> DigestBytes \<Rightarrow> 'pk FrostGroupKey \<Rightarrow>
    (NodeError, 'sp \<times> byte list) result" where
  "assemble_hb_signing_package_from_responses F responses binding_input gk =
     map_err Crypto (build_signing_package F
       (map (\<lambda>r. (hs1_verifier_id r, hs1_commitment_bytes r)) responses) binding_input gk)"


section \<open>Runs of a node\<close>

datatype 'n cache_event = Cached SessionId "'n PendingRound" | Consumed SessionId "'n PendingRound"

fun event_session :: "'n cache_event \<Rightarrow> SessionId" where
  "event_session (Cached s p) = s"
| "event_session (Consumed s p) = s"

text \<open>The last event of a session, in a log that has the newest event first.\<close>

definition latest :: "SessionId \<Rightarrow> 'n cache_event list \<Rightarrow> 'n cache_event option" where
  "latest s log = find (\<lambda>e. event_session e = s) log"

lemma latest_simps [simp]:
  "latest s [] = None"
  "latest s (e # log) = (if event_session e = s then Some e else latest s log)"
  by (simp_all add: latest_def)

text \<open>One operation changes a cache by at most one logged entry; entries may also be evicted.\<close>

definition cache_effect :: "'n round_cache \<Rightarrow> 'n cache_event list \<Rightarrow> 'n round_cache \<Rightarrow> bool" where
  "cache_effect c evs c' \<longleftrightarrow> (case evs of
     [] \<Rightarrow> c' \<subseteq>\<^sub>m c
   | [Cached s p] \<Rightarrow> c' \<subseteq>\<^sub>m c(s \<mapsto> p)
   | [Consumed s p] \<Rightarrow> c s = Some p \<and> c' \<subseteq>\<^sub>m c(s := None)
   | _ \<Rightarrow> False)"

inductive cache_run :: "('st \<Rightarrow> 'n cache_event list \<Rightarrow> 'st \<Rightarrow> bool) \<Rightarrow> ('st \<Rightarrow> bool) \<Rightarrow> 'st \<Rightarrow>
    'n cache_event list \<Rightarrow> bool" for step init where
  start: "init s \<Longrightarrow> cache_run step init s []"
| move: "cache_run step init s log \<Longrightarrow> step s evs t \<Longrightarrow> cache_run step init t (evs @ log)"

locale nonce_rounds =
  fixes step :: "'st \<Rightarrow> 'n cache_event list \<Rightarrow> 'st \<Rightarrow> bool" and init :: "'st \<Rightarrow> bool"
    and cache :: "'st \<Rightarrow> 'n round_cache"
  assumes init_empty: "init s \<Longrightarrow> cache s = Map.empty"
    and step_effect: "step s evs t \<Longrightarrow> cache_effect (cache s) evs (cache t)"
begin

lemma step_cases:
  assumes "step s evs t"
  obtains (quiet) "evs = []" "cache t \<subseteq>\<^sub>m cache s"
  | (caches) sid p where "evs = [Cached sid p]" "cache t \<subseteq>\<^sub>m (cache s)(sid \<mapsto> p)"
  | (consumes) sid p where "evs = [Consumed sid p]" "cache s sid = Some p"
      "cache t \<subseteq>\<^sub>m (cache s)(sid := None)"
  using step_effect[OF assms]
  by (cases evs rule: remdups_adj.cases) (auto simp: cache_effect_def split: cache_event.splits)

lemma cached_is_latest:
  "cache_run step init s log \<Longrightarrow> cache s sid = Some p \<Longrightarrow> latest sid log = Some (Cached sid p)"
proof (induction arbitrary: sid p rule: cache_run.induct)
  case (move s log evs t)
  from move.hyps(2) show ?case
  proof (cases rule: step_cases)
    case quiet
    then have "cache s sid = Some p" using move.prems by (force simp: map_le_def)
    then show ?thesis using move.IH quiet(1) by simp
  next
    case (caches sid' p')
    then have "((cache s)(sid' \<mapsto> p')) sid = Some p" using move.prems by (force simp: map_le_def)
    then show ?thesis using move.IH caches(1) by (auto split: if_splits)
  next
    case (consumes sid' p')
    then have "((cache s)(sid' := None)) sid = Some p" using move.prems by (force simp: map_le_def)
    then show ?thesis using move.IH consumes(1) by (auto split: if_splits)
  qed
qed (simp add: init_empty)

lemma consumed_after_cached:
  "cache_run step init s log \<Longrightarrow> log = pre @ Consumed sid p # older \<Longrightarrow>
     latest sid older = Some (Cached sid p)"
proof (induction arbitrary: pre rule: cache_run.induct)
  case (move s log evs t)
  from move.hyps(2) show ?case
  proof (cases rule: step_cases)
    case (consumes sid' p')
    show ?thesis
    proof (cases pre)
      case Nil
      then have "sid' = sid" "p' = p" "older = log" using move.prems consumes(1) by auto
      then show ?thesis using cached_is_latest[OF move.hyps(1)] consumes(2) by simp
    next
      case (Cons e pre')
      then show ?thesis using move.IH[of pre'] move.prems consumes(1) by simp
    qed
  next
    case (caches sid' p')
    then show ?thesis using move.IH[of "tl pre"] move.prems by (cases pre) auto
  qed (use move in simp)
qed simp

end

text \<open>The entry an operation of session \<open>s\<close> has added.\<close>

definition added :: "'n round_cache \<Rightarrow> 'n round_cache \<Rightarrow> SessionId \<Rightarrow> 'n cache_event list" where
  "added c c' s = (case c' s of None \<Rightarrow> [] | Some p \<Rightarrow> if c s = Some p then [] else [Cached s p])"

definition taken :: "'n round_cache \<Rightarrow> SessionId \<Rightarrow> 'n cache_event list" where
  "taken c s = (case c s of None \<Rightarrow> [] | Some p \<Rightarrow> [Consumed s p])"

text \<open>The operations of a node, as they can interleave, with the events on the two caches.  The
  second half of a handshake-binding round 1 needs the guard to have held at some earlier state
  \<open>n0\<close> only.  A restart loses both caches.\<close>

inductive aux_step :: "sha \<Rightarrow> ('kp, 'n, 'c, 's, 'sp, 'pk) frost \<Rightarrow>
    ('b, 'u8, 'u32, 'f, 'fr) r1cs \<Rightarrow> ('fr, 'gpk, 'vk, 'pvk, 'pf, 'rng) groth \<Rightarrow>
    (byte list \<Rightarrow> (string, HspZkProof) result) \<Rightarrow> (byte list \<Rightarrow> (string, DctlsEvidence) result) \<Rightarrow>
    ('kp, 'n) FrostAuxiliaryNode \<Rightarrow> 'n cache_event list \<Rightarrow> 'n cache_event list \<Rightarrow>
    ('kp, 'n) FrostAuxiliaryNode \<Rightarrow> bool" for H F G K hj ej where
  Frost1: "frost_round1 H F G K hj ej n req now clock te ti g = (r, n') \<Longrightarrow>
     aux_step H F G K hj ej n (added (fa_pending n) (fa_pending n') (r1_session_id req)) [] n'"
| Frost2: "frost_round2 F n req = (r, n') \<Longrightarrow>
     aux_step H F G K hj ej n (taken (fa_pending n) (r2_session_id req)) [] n'"
| Binding1: "hb_request_checks n hreq now = Inr () \<Longrightarrow> hb_guard (n0 :: ('kp, 'n) FrostAuxiliaryNode) hreq = Inr () \<Longrightarrow>
     hb_insert F n hreq te ti g = (r, n') \<Longrightarrow>
     aux_step H F G K hj ej n [] (added (fa_hb_pending n) (fa_hb_pending n') (hb1_session_id hreq)) n'"
| Binding2: "handshake_binding_round2 F n hreq = (r, n') \<Longrightarrow>
     aux_step H F G K hj ej n [] (taken (fa_hb_pending n) (hb2_session_id hreq)) n'"
| Restart: "aux_step H F G K hj ej n [] [] (n\<lparr> fa_pending := Map.empty, fa_hb_pending := Map.empty \<rparr>)"

inductive_cases aux_stepE: "aux_step H F G K hj ej n fe he n'"

definition aux_start :: "'kp FrostParticipant \<Rightarrow> ParticipantRegistry option \<Rightarrow> ('kp, 'n) FrostAuxiliaryNode" where
  "aux_start p reg = (case reg of None \<Rightarrow> frost_aux_new p | Some r \<Rightarrow> frost_aux_with_registry p r)"

lemma aux_start_simps [simp]:
  "fa_participant (aux_start p reg) = p" "fa_registry (aux_start p reg) = reg"
  "fa_pending (aux_start p reg) = Map.empty" "fa_hb_pending (aux_start p reg) = Map.empty"
  by (auto simp: aux_start_def frost_aux_new_def frost_aux_with_registry_def split: option.splits)

text \<open>What each operation does to the caches.\<close>

lemma evict_le: "evict_expired now c \<subseteq>\<^sub>m c"
  by (auto simp: evict_expired_def map_le_def split: option.splits if_splits)

lemma frost_round1_cases:
  assumes "frost_round1 H F G K hj ej n req now clock te ti g = (r, n')"
  obtains (unchanged) "n' = n"
  | (duplicate) "n' = n\<lparr> fa_pending := evict_expired te (fa_pending n) \<rparr>"
  | (cached) p where "admission_checks H n req now = Inr ()" "hsp_check G K hj req = Inr ()"
      "dctls_check H ej clock req = Inr ()"
      "n' = n\<lparr> fa_pending := (evict_expired te (fa_pending n))(r1_session_id req \<mapsto> p) \<rparr>"
      "pend_signer_set p = r1_signer_set req" "pend_signed_digest p = r1_signed_digest req"
      "pend_registry_epoch p = r1_registry_epoch req"
      "pend_nonces p = fst (round1 F (fa_participant n) g)"
proof (cases "rbind (admission_checks H n req now) (\<lambda>_. rbind (hsp_check G K hj req) (\<lambda>_.
    dctls_check H ej clock req))")
  case (Inl e)
  then show ?thesis using assms unchanged by (simp add: frost_round1_def)
next
  case (Inr u)
  then have checks: "admission_checks H n req now = Inr ()" "hsp_check G K hj req = Inr ()"
      "dctls_check H ej clock req = Inr ()"
    by (auto simp: rbind_eq_Inr)
  obtain nn cc where r1: "round1 F (fa_participant n) g = (nn, cc)" by fastforce
  show ?thesis
  proof (cases "evict_expired te (fa_pending n) (r1_session_id req) = None")
    case False
    then show ?thesis using assms Inr r1 duplicate by (simp add: frost_round1_def)
  next
    case True
    with assms Inr r1 have "n' = n\<lparr> fa_pending := (evict_expired te (fa_pending n))(r1_session_id req \<mapsto>
        \<lparr> pend_nonces = nn, pend_signer_set = r1_signer_set req,
          pend_signed_digest = r1_signed_digest req,
          pend_registry_epoch = r1_registry_epoch req, pend_inserted_at = ti \<rparr>) \<rparr>"
      by (simp add: frost_round1_def)
    then show ?thesis by (rule cached[OF checks]) (simp_all add: r1)
  qed
qed

lemma added_effect:
  assumes "c' = c1(s \<mapsto> p)" "c1 \<subseteq>\<^sub>m c"
  shows "cache_effect c (added c c' s) c'"
proof (cases "c s = Some p")
  case True
  then have "c1(s \<mapsto> p) \<subseteq>\<^sub>m c" using assms(2) by (auto simp: map_le_def)
  then show ?thesis using assms(1) True by (simp add: added_def cache_effect_def)
next
  case False
  have "c1(s \<mapsto> p) \<subseteq>\<^sub>m c(s \<mapsto> p)" using assms(2) by (auto simp: map_le_def)
  then show ?thesis using assms(1) False by (simp add: added_def cache_effect_def)
qed

lemma quiet_effect: "c' \<subseteq>\<^sub>m c \<Longrightarrow> cache_effect c (added c c' s) c'"
  by (cases "c' s") (auto simp: added_def cache_effect_def map_le_def dest!: bspec[where x = s])

lemma taken_effect: "cache_effect c (taken c s) (c(s := None))"
  by (auto simp: taken_def cache_effect_def map_le_def split: option.splits)

lemma round2_node: "frost_round2 F n req = (r, n') \<Longrightarrow>
    n' = n\<lparr> fa_pending := (fa_pending n)(r2_session_id req := None) \<rparr>"
  by (auto simp: frost_round2_def Let_def fun_upd_idem split: option.splits)

lemma hb_round2_node: "handshake_binding_round2 F n req = (r, n') \<Longrightarrow>
    n' = n\<lparr> fa_hb_pending := (fa_hb_pending n)(hb2_session_id req := None) \<rparr>"
  by (auto simp: handshake_binding_round2_def Let_def fun_upd_idem split: option.splits)

lemma aux_step_frost_effect:
  assumes "aux_step H F G K hj ej n fe he n'"
  shows "cache_effect (fa_pending n) fe (fa_pending n')"
  using assms
proof (cases rule: aux_step.cases)
  case (Frost1 req now clock te ti g r)
  from Frost1(3) show ?thesis
  proof (cases rule: frost_round1_cases)
    case (cached p)
    then show ?thesis using added_effect[OF refl evict_le] by (simp add: Frost1(1))
  qed (simp_all add: Frost1(1) quiet_effect evict_le)
next
  case (Frost2 req r)
  then show ?thesis using taken_effect by (simp add: round2_node[OF Frost2(3)])
next
  case (Binding1 hreq now n0 te ti g r)
  then show ?thesis by (auto simp: hb_insert_def Let_def cache_effect_def split: prod.splits)
next
  case (Binding2 hreq r)
  then show ?thesis by (simp add: hb_round2_node[OF Binding2(3)] cache_effect_def)
qed (simp add: cache_effect_def)

lemma aux_step_hb_effect:
  assumes "aux_step H F G K hj ej n fe he n'"
  shows "cache_effect (fa_hb_pending n) he (fa_hb_pending n')"
  using assms
proof (cases rule: aux_step.cases)
  case (Frost1 req now clock te ti g r)
  from Frost1(3) show ?thesis
    by (cases rule: frost_round1_cases) (auto simp: Frost1(2) cache_effect_def)
next
  case (Frost2 req r)
  then show ?thesis by (simp add: round2_node[OF Frost2(3)] cache_effect_def)
next
  case (Binding1 hreq now n0 te ti g r)
  then show ?thesis
    by (auto simp: hb_insert_def Let_def split: prod.splits intro!: added_effect evict_le)
next
  case (Binding2 hreq r)
  then show ?thesis using taken_effect by (simp add: hb_round2_node[OF Binding2(3)])
qed (simp add: cache_effect_def)

section \<open>Each cached nonce is used once\<close>

definition frost_step :: "sha \<Rightarrow> ('kp, 'n, 'c, 's, 'sp, 'pk) frost \<Rightarrow>
    ('b, 'u8, 'u32, 'f, 'fr) r1cs \<Rightarrow> ('fr, 'gpk, 'vk, 'pvk, 'pf, 'rng) groth \<Rightarrow>
    (byte list \<Rightarrow> (string, HspZkProof) result) \<Rightarrow> (byte list \<Rightarrow> (string, DctlsEvidence) result) \<Rightarrow>
    ('kp, 'n) FrostAuxiliaryNode \<Rightarrow> 'n cache_event list \<Rightarrow> ('kp, 'n) FrostAuxiliaryNode \<Rightarrow> bool" where
  "frost_step H F G K hj ej n fe n' \<longleftrightarrow> (\<exists>he. aux_step H F G K hj ej n fe he n')"

definition hb_step :: "sha \<Rightarrow> ('kp, 'n, 'c, 's, 'sp, 'pk) frost \<Rightarrow>
    ('b, 'u8, 'u32, 'f, 'fr) r1cs \<Rightarrow> ('fr, 'gpk, 'vk, 'pvk, 'pf, 'rng) groth \<Rightarrow>
    (byte list \<Rightarrow> (string, HspZkProof) result) \<Rightarrow> (byte list \<Rightarrow> (string, DctlsEvidence) result) \<Rightarrow>
    ('kp, 'n) FrostAuxiliaryNode \<Rightarrow> 'n cache_event list \<Rightarrow> ('kp, 'n) FrostAuxiliaryNode \<Rightarrow> bool" where
  "hb_step H F G K hj ej n he n' \<longleftrightarrow> (\<exists>fe. aux_step H F G K hj ej n fe he n')"

interpretation frost_rounds: nonce_rounds "frost_step H F G K hj ej" "\<lambda>n. n = aux_start p reg" fa_pending
  for H F G K hj ej p reg
  by unfold_locales (auto simp: frost_step_def dest: aux_step_frost_effect)

interpretation binding_rounds: nonce_rounds "hb_step H F G K hj ej" "\<lambda>n. n = aux_start p reg" fa_hb_pending
  for H F G K hj ej p reg
  by unfold_locales (auto simp: hb_step_def dest: aux_step_hb_effect)

text \<open>What round 1 has established of a cached entry.\<close>

definition admitted_round :: "sha \<Rightarrow> ParticipantRegistry option \<Rightarrow> VerifierId \<Rightarrow> 'n PendingRound \<Rightarrow> bool" where
  "admitted_round H reg v p \<longleftrightarrow>
     v \<in> set (pend_signer_set p) \<and>
     (\<exists>d. pend_signed_digest p = approval_signed_digest H d) \<and>
     (case reg of None \<Rightarrow> True | Some r \<Rightarrow> pend_registry_epoch p = registry_GENESIS \<or>
        pend_registry_epoch p = reg_epoch r \<and>
        list_all (\<lambda>w. case get_active r w of Inl _ \<Rightarrow> False | Inr _ \<Rightarrow> True) (pend_signer_set p))"

lemma registry_admission_eq_Inr:
  "registry_admission reg ep vs f g = Inr () \<longleftrightarrow> (case reg of None \<Rightarrow> True | Some r \<Rightarrow>
     ep = registry_GENESIS \<or> ep = reg_epoch r \<and>
       list_all (\<lambda>w. case get_active r w of Inl _ \<Rightarrow> False | Inr _ \<Rightarrow> True) vs)"
proof -
  have "each_ok (\<lambda>vid. map_err (\<lambda>e. SigningAdmission (g vid e)) (rbind (get_active r vid) (\<lambda>_. Inr ()))) vs = Inr ()
      \<longleftrightarrow> list_all (\<lambda>w. case get_active r w of Inl _ \<Rightarrow> False | Inr _ \<Rightarrow> True) vs" for r
    by (induction vs) (auto simp: rbind_eq_Inr split: sum.splits)
  then show ?thesis by (auto simp: registry_admission_def split: option.splits)
qed

lemma admission_checks_eq_Inr:
  "admission_checks H n req now = Inr () \<longleftrightarrow>
     secs now \<le> secs (r1_round_expires_at req) \<and> fa_verifier_id n \<in> set (r1_signer_set req) \<and>
     (case fa_registry n of None \<Rightarrow> True | Some r \<Rightarrow> r1_registry_epoch req = registry_GENESIS \<or>
        r1_registry_epoch req = reg_epoch r \<and>
        list_all (\<lambda>w. case get_active r w of Inl _ \<Rightarrow> False | Inr _ \<Rightarrow> True) (r1_signer_set req)) \<and>
     r1_signed_digest req = approval_signed_digest H (r1_envelope_digest req)"
  by (auto simp: admission_checks_def Let_def rbind_eq_Inr registry_admission_eq_Inr not_less)

lemma aux_step_admitted:
  assumes "aux_step H F G K hj ej n fe he n'"
  shows "fa_participant n' = fa_participant n \<and> fa_registry n' = fa_registry n \<and>
    (\<forall>s p. Cached s p \<in> set fe \<longrightarrow> admitted_round H (fa_registry n) (fa_verifier_id n) p)"
  using assms
proof (cases rule: aux_step.cases)
  case (Frost1 req now clock te ti g r)
  from Frost1(3) show ?thesis
  proof (cases rule: frost_round1_cases)
    case (cached p)
    have "admitted_round H (fa_registry n) (fa_verifier_id n) p"
      using cached(1) unfolding admitted_round_def cached(5-7) admission_checks_eq_Inr by blast
    then show ?thesis using cached(4) by (simp add: Frost1(1) added_def)
  qed (auto simp: Frost1(1) added_def evict_expired_def split: option.splits if_splits)
next
  case (Frost2 req r)
  then show ?thesis by (simp add: round2_node[OF Frost2(3)] taken_def split: option.splits)
next
  case (Binding1 hreq now n0 te ti g r)
  then show ?thesis by (auto simp: hb_insert_def Let_def split: prod.splits)
next
  case (Binding2 hreq r)
  then show ?thesis by (simp add: hb_round2_node[OF Binding2(3)])
qed simp

lemma frost_run_admitted:
  "cache_run (frost_step H F G K hj ej) (\<lambda>n. n = aux_start part reg) n log \<Longrightarrow>
     fa_participant n = part \<and> fa_registry n = reg \<and>
     (\<forall>s p. Cached s p \<in> set log \<longrightarrow> admitted_round H reg (fp_verifier_id part) p)"
proof (induction rule: cache_run.induct)
  case (move s log evs t)
  then show ?case using aux_step_admitted[of H F G K hj ej s evs _ t]
    by (auto simp: frost_step_def fa_verifier_id_def)
qed simp

lemma latest_mem: "latest s log = Some e \<Longrightarrow> e \<in> set log"
  by (auto simp: latest_def find_Some_iff)

lemma frost_round2_eq_Inr:
  "frost_round2 F n req = (Inr resp, n') \<Longrightarrow> \<exists>p sp. fa_pending n (r2_session_id req) = Some p \<and>
     r2_signer_set req = pend_signer_set p \<and> sp_from_bytes F (r2_signing_package_bytes req) = Inr sp \<and>
     message_bytes F sp = digest_enc (pend_signed_digest p) \<and>
     (\<exists>share. round2 F (fa_participant n) sp (pend_nonces p) = Inr share \<and>
        fs_to_bytes F share = Inr (s2_signature_share_bytes resp)) \<and>
     n' = n\<lparr> fa_pending := (fa_pending n)(r2_session_id req := None) \<rparr>"
  by (auto simp: frost_round2_def Let_def rbind_eq_Inr map_err_eq_Inr split: option.splits if_splits)

lemma hb_request_checks_cache:
  "hb_request_checks (n\<lparr> fa_hb_pending := c \<rparr>) = hb_request_checks n"
  by (intro ext) (simp add: hb_request_checks_def fa_verifier_id_def Let_def)

lemma frost_round2_missing:
  "fa_pending n (r2_session_id req) = None \<Longrightarrow> \<exists>m. frost_round2 F n req = (Inl (FrostProtocol m), n)"
  by (simp add: frost_round2_def Let_def)

section \<open>A run on concrete values\<close>

definition r1_ex :: "DigestBytes \<Rightarrow> FrostRound1Request" where
  "r1_ex d = \<lparr> r1_session_id = SessionId 5, r1_coordinator_id = VerifierId 9,
     r1_signed_digest = approval_signed_digest (\<lambda>_. 7) d, r1_envelope_digest = d,
     r1_signer_set = [VerifierId 1, VerifierId 2], r1_round_expires_at = UnixTimestamp 100,
     r1_registry_epoch = registry_GENESIS, r1_hsp_proof_bytes = [], r1_hsp_pvk_bytes = [],
     r1_dctls_evidence_bytes = [], r1_rand_value_bytes = [], r1_server_cert_hash_bytes = [] \<rparr>"

definition r2_ex :: "DigestBytes \<Rightarrow> FrostRound2Request" where
  "r2_ex d = \<lparr> r2_session_id = SessionId 5, r2_coordinator_id = VerifierId 9,
     r2_signing_package_bytes = 2 # digest_enc (approval_signed_digest (\<lambda>_. 7) d),
     r2_signer_set = [VerifierId 1, VerifierId 2] \<rparr>"

definition pend_ex :: "DigestBytes \<Rightarrow> unit PendingRound" where
  "pend_ex d = \<lparr> pend_nonces = (), pend_signer_set = [VerifierId 1, VerifierId 2],
     pend_signed_digest = approval_signed_digest (\<lambda>_. 7) d, pend_registry_epoch = registry_GENESIS,
     pend_inserted_at = 0 \<rparr>"

definition aux_ex :: "DigestBytes \<Rightarrow> (nat, unit) FrostAuxiliaryNode" where
  "aux_ex d = (aux_start (fp_ex 1) None)\<lparr> fa_pending := [SessionId 5 \<mapsto> pend_ex d] \<rparr>"

lemma frost_round1_ex:
  "frost_round1 (\<lambda>_. 7) frost_ex r1cs_ex groth_ex hj ej (aux_start (fp_ex 1) None) (r1_ex d)
     (UnixTimestamp 50) clock 0 0 g =
   (Inr \<lparr> s1_session_id = SessionId 5, s1_verifier_id = VerifierId 1, s1_commitment_bytes = [] \<rparr>, aux_ex d)"
proof -
  have "admission_checks (\<lambda>_. 7) (aux_start (fp_ex 1) None :: (nat, unit) FrostAuxiliaryNode)
      (r1_ex d) (UnixTimestamp 50) = Inr ()"
    by (simp add: admission_checks_eq_Inr r1_ex_def fa_verifier_id_def fp_ex_def)
  moreover have "hsp_check r1cs_ex groth_ex hj (r1_ex d) = Inr ()" "dctls_check (\<lambda>_. 7) ej clock (r1_ex d) = Inr ()"
    by (simp_all add: hsp_check_def dctls_check_def r1_ex_def)
  ultimately show ?thesis
    by (simp add: frost_round1_def round1_def evict_expired_def fc_to_bytes_def r1_ex_def aux_ex_def
        fa_verifier_id_def fp_ex_def pend_ex_def)
qed

lemma frost_run_ex:
  "cache_run (frost_step (\<lambda>_. 7) frost_ex r1cs_ex groth_ex hj ej) (\<lambda>n. n = aux_start (fp_ex 1) None)
     (aux_ex d) [Cached (SessionId 5) (pend_ex d)]"
proof -
  have "aux_step (\<lambda>_. 7) frost_ex r1cs_ex groth_ex hj ej (aux_start (fp_ex 1) None)
      [Cached (SessionId 5) (pend_ex d)] [] (aux_ex d)"
    using aux_step.Frost1[OF frost_round1_ex[of hj ej d 0 "\<lambda>_. 0"]]
    by (simp add: added_def aux_ex_def r1_ex_def)
  then have "frost_step (\<lambda>_. 7) frost_ex r1cs_ex groth_ex hj ej (aux_start (fp_ex 1) None)
      [Cached (SessionId 5) (pend_ex d)] (aux_ex d)"
    by (auto simp: frost_step_def)
  from cache_run.move[OF cache_run.start[of "\<lambda>n. n = aux_start (fp_ex 1) None" _ "frost_step (\<lambda>_. 7) frost_ex r1cs_ex groth_ex hj ej", OF refl] this] show ?thesis by simp
qed

lemma frost_round2_ex:
  "frost_round2 frost_ex (aux_ex d) (r2_ex d) =
     (Inr \<lparr> s2_session_id = SessionId 5, s2_verifier_id = VerifierId 1, s2_signature_share_bytes = [] \<rparr>,
      aux_start (fp_ex 1) None)"
  by (simp add: frost_round2_def aux_ex_def r2_ex_def pend_ex_def sp_from_bytes_def message_bytes_def
      round2_def fs_to_bytes_def fa_verifier_id_def fp_ex_def aux_start_def frost_aux_new_def)

lemma frost_run_consumed_ex:
  "cache_run (frost_step (\<lambda>_. 7) frost_ex r1cs_ex groth_ex hj ej) (\<lambda>n. n = aux_start (fp_ex 1) None)
     (aux_start (fp_ex 1) None) ([] @ Consumed (SessionId 5) (pend_ex d) # [Cached (SessionId 5) (pend_ex d)])"
proof -
  have "frost_step (\<lambda>_. 7) frost_ex r1cs_ex groth_ex hj ej (aux_ex d)
      [Consumed (SessionId 5) (pend_ex d)] (aux_start (fp_ex 1) None)"
    using aux_step.Frost2[OF frost_round2_ex[of d], of "\<lambda>_. 7" r1cs_ex groth_ex hj ej]
    by (auto simp: frost_step_def taken_def aux_ex_def r2_ex_def)
  from cache_run.move[OF frost_run_ex this] show ?thesis by simp
qed

definition hb1_ex :: "DigestBytes \<Rightarrow> HandshakeBindingRound1Request" where
  "hb1_ex d = \<lparr> hb1_session_id = SessionId 5, hb1_coordinator_id = VerifierId 9,
     hb1_binding_input = approval_signed_digest (\<lambda>_. 7) d,
     hb1_signer_set = [VerifierId 1, VerifierId 2], hb1_round_expires_at = UnixTimestamp 100,
     hb1_registry_epoch = registry_GENESIS \<rparr>"

definition hb2_ex :: "DigestBytes \<Rightarrow> HandshakeBindingRound2Request" where
  "hb2_ex d = \<lparr> hb2_session_id = SessionId 5, hb2_coordinator_id = VerifierId 9,
     hb2_signing_package_bytes = 2 # digest_enc (approval_signed_digest (\<lambda>_. 7) d),
     hb2_signer_set = [VerifierId 1, VerifierId 2] \<rparr>"

definition hb_aux_ex :: "DigestBytes \<Rightarrow> (nat, unit) FrostAuxiliaryNode" where
  "hb_aux_ex d = (aux_start (fp_ex 1) None)\<lparr> fa_hb_pending := [SessionId 5 \<mapsto> pend_ex d] \<rparr>"

lemma hb_checks_ex:
  "hb_request_checks (aux_start (fp_ex 1) None :: (nat, unit) FrostAuxiliaryNode) (hb1_ex d)
     (UnixTimestamp 50) = Inr ()"
  by (simp add: hb_request_checks_def hb1_ex_def fa_verifier_id_def fp_ex_def registry_admission_def)

lemma hb_insert_ex:
  "hb_insert frost_ex (aux_start (fp_ex 1) None) (hb1_ex d) 0 0 g =
     (Inr \<lparr> hs1_session_id = SessionId 5, hs1_verifier_id = VerifierId 1, hs1_commitment_bytes = [] \<rparr>,
      hb_aux_ex d)"
  by (simp add: hb_insert_def round1_def evict_expired_def fc_to_bytes_def hb1_ex_def hb_aux_ex_def
      fa_verifier_id_def fp_ex_def pend_ex_def)

lemma hb_round2_ex:
  "handshake_binding_round2 frost_ex (hb_aux_ex d) (hb2_ex d) =
     (Inr \<lparr> hs2_session_id = SessionId 5, hs2_verifier_id = VerifierId 1, hs2_signature_share_bytes = [] \<rparr>,
      aux_start (fp_ex 1) None)"
  by (simp add: handshake_binding_round2_def hb_aux_ex_def hb2_ex_def pend_ex_def sp_from_bytes_def
      message_bytes_def round2_def fs_to_bytes_def fa_verifier_id_def fp_ex_def aux_start_def frost_aux_new_def)

lemma hb_run_consumed_ex:
  "cache_run (hb_step (\<lambda>_. 7) frost_ex r1cs_ex groth_ex hj ej) (\<lambda>n. n = aux_start (fp_ex 1) None)
     (aux_start (fp_ex 1) None) ([] @ Consumed (SessionId 5) (pend_ex d) # [Cached (SessionId 5) (pend_ex d)])"
proof -
  have g: "hb_guard (aux_start (fp_ex 1) None :: (nat, unit) FrostAuxiliaryNode) (hb1_ex d) = Inr ()"
    by (simp add: hb_guard_def)
  have 1: "hb_step (\<lambda>_. 7) frost_ex r1cs_ex groth_ex hj ej (aux_start (fp_ex 1) None)
      [Cached (SessionId 5) (pend_ex d)] (hb_aux_ex d)"
    using aux_step.Binding1[OF hb_checks_ex g hb_insert_ex[of d "\<lambda>_. 0"], of "\<lambda>_. 7" r1cs_ex groth_ex hj ej]
    by (auto simp: hb_step_def added_def hb_aux_ex_def hb1_ex_def)
  have 2: "hb_step (\<lambda>_. 7) frost_ex r1cs_ex groth_ex hj ej (hb_aux_ex d)
      [Consumed (SessionId 5) (pend_ex d)] (aux_start (fp_ex 1) None)"
    using aux_step.Binding2[OF hb_round2_ex[of d], of "\<lambda>_. 7" r1cs_ex groth_ex hj ej]
    by (auto simp: hb_step_def taken_def hb_aux_ex_def hb2_ex_def)
  from cache_run.move[OF cache_run.move[OF cache_run.start[of "\<lambda>n. n = aux_start (fp_ex 1) None" _ "hb_step (\<lambda>_. 7) frost_ex r1cs_ex groth_ex hj ej", OF refl] 1] 2] show ?thesis by simp
qed

section \<open>Properties\<close>

text \<open>C4. In every run of a node (signing rounds, handshake-binding rounds and restarts in
  any order) a signature share is released only for the entry the latest event of its session has
  cached: the signer sets of the two rounds agree, the node is one of the signers, the message of the
  signing package is the approval digest of some envelope, and, when the node holds a registry and
  the request names an epoch other than genesis, the epoch is the registry's and every signer is
  active.  Afterwards the entry is gone and a second round 2 of the session fails.\<close>

theorem frost_share_bound_to_round1:
  assumes run: "cache_run (frost_step H F G K hj ej) (\<lambda>n. n = aux_start part reg) n log"
    and share: "frost_round2 F n req = (Inr resp, n')"
  shows "(\<exists>p sp. latest (r2_session_id req) log = Some (Cached (r2_session_id req) p) \<and>
      admitted_round H reg (fp_verifier_id part) p \<and> r2_signer_set req = pend_signer_set p \<and>
      sp_from_bytes F (r2_signing_package_bytes req) = Inr sp \<and>
      message_bytes F sp = digest_enc (pend_signed_digest p)) \<and>
    (\<exists>m. frost_round2 F n' req = (Inl (FrostProtocol m), n'))"
proof -
  obtain p sp where c: "fa_pending n (r2_session_id req) = Some p"
      and ps: "r2_signer_set req = pend_signer_set p"
        "sp_from_bytes F (r2_signing_package_bytes req) = Inr sp"
        "message_bytes F sp = digest_enc (pend_signed_digest p)"
      and n': "n' = n\<lparr> fa_pending := (fa_pending n)(r2_session_id req := None) \<rparr>"
    using frost_round2_eq_Inr[OF share] by blast
  note l = frost_rounds.cached_is_latest[OF run c]
  have "admitted_round H reg (fp_verifier_id part) p"
    using frost_run_admitted[OF run] latest_mem[OF l] by blast
  moreover have "\<exists>m. frost_round2 F n' req = (Inl (FrostProtocol m), n')"
    by (rule frost_round2_missing) (simp add: n')
  ultimately show ?thesis using l ps by blast
qed

theorem frost_share_bound_to_round1_witness:
  "(\<exists>p sp. latest (SessionId 5) [Cached (SessionId 5) (pend_ex (DigestBytes 3))] = Some (Cached (SessionId 5) p) \<and>
      admitted_round (\<lambda>_. 7) None (VerifierId 1) p \<and>
      [VerifierId 1, VerifierId 2] = pend_signer_set p \<and>
      sp_from_bytes frost_ex (r2_signing_package_bytes (r2_ex (DigestBytes 3))) = Inr sp \<and>
      message_bytes frost_ex sp = digest_enc (pend_signed_digest p)) \<and>
   (\<exists>m. frost_round2 frost_ex (aux_start (fp_ex 1) None) (r2_ex (DigestBytes 3)) =
      (Inl (FrostProtocol m), aux_start (fp_ex 1) None))"
  using frost_share_bound_to_round1[OF frost_run_ex[of "\<lambda>_. Inl []" "\<lambda>_. Inl []" "DigestBytes 3"] frost_round2_ex[of "DigestBytes 3"]]
  unfolding r2_ex_def fp_ex_def by force

text \<open>C5. No nonce pair is used twice.  In every run the consumption of a
  cached entry is preceded, among the events of its session, by the caching of that very entry, so
  between two consumptions of one session there is always a fresh round 1; this holds for the cache
  of the signing rounds and for the cache of the handshake binding, restarts and evictions included.\<close>

theorem nonces_used_once:
  "(cache_run (frost_step H F G K hj ej) (\<lambda>n. n = aux_start part reg) n
      (pre @ Consumed sid p # older) \<longrightarrow> latest sid older = Some (Cached sid p)) \<and>
   (cache_run (hb_step H F G K hj ej) (\<lambda>n. n = aux_start part reg) n
      (pre @ Consumed sid p # older) \<longrightarrow> latest sid older = Some (Cached sid p))"
  by (intro conjI impI)
    (rule frost_rounds.consumed_after_cached[OF _ refl], assumption,
     rule binding_rounds.consumed_after_cached[OF _ refl], assumption)

theorem nonces_used_once_witness:
  "latest (SessionId 5) [Cached (SessionId 5) (pend_ex (DigestBytes 3))] =
     Some (Cached (SessionId 5) (pend_ex (DigestBytes 3)))"
  using nonces_used_once[THEN conjunct1, THEN mp,
      OF frost_run_consumed_ex[of "\<lambda>_. Inl []" "\<lambda>_. Inl []" "DigestBytes 3"]]
    nonces_used_once[THEN conjunct2, THEN mp,
      OF hb_run_consumed_ex[of "\<lambda>_. Inl []" "\<lambda>_. Inl []" "DigestBytes 3"]]
  by simp

text \<open>The handshake binding signs any digest it is given with the key of the approvals.
  Its round 1 passes the deadline, membership and registry checks only, so when a coordinator sends
  the approval digest of an envelope as binding input, the node returns the commitment, and then, for
  a signing package over that digest, exactly the share that the signing rounds return after checking
  the handshake proof and the session evidence.\<close>

theorem handshake_binding_signs_approvals:
  assumes "hb_request_checks n req now = Inr ()" "fa_hb_pending n (hb1_session_id req) = None"
    and "hb1_binding_input req = approval_signed_digest H d"
    and "round1 F (fa_participant n) g = (nonces, c)" "fc_to_bytes F c = Inr cb"
    and "sp_from_bytes F pb = Inr sp" "message_bytes F sp = digest_enc (approval_signed_digest H d)"
    and "round2 F (fa_participant n) sp nonces = Inr share" "fs_to_bytes F share = Inr sb"
  shows "\<exists>n1 n2. handshake_binding_round1 F n req now te ti g =
      (Inr \<lparr> hs1_session_id = hb1_session_id req, hs1_verifier_id = fa_verifier_id n,
             hs1_commitment_bytes = cb \<rparr>, n1) \<and>
    handshake_binding_round2 F n1 \<lparr> hb2_session_id = hb1_session_id req, hb2_coordinator_id = v,
        hb2_signing_package_bytes = pb, hb2_signer_set = hb1_signer_set req \<rparr> =
      (Inr \<lparr> hs2_session_id = hb1_session_id req, hs2_verifier_id = fa_verifier_id n,
             hs2_signature_share_bytes = sb \<rparr>, n2)"
  using assms
  by (simp add: handshake_binding_round1_def hb_guard_def hb_insert_def handshake_binding_round2_def
      fa_verifier_id_def)

theorem handshake_binding_signs_approvals_witness:
  "\<exists>n1 n2. handshake_binding_round1 frost_ex (aux_start (fp_ex 1) None :: (nat, unit) FrostAuxiliaryNode)
      (hb1_ex (DigestBytes 3)) (UnixTimestamp 50) 0 0 (\<lambda>_. 0) =
      (Inr \<lparr> hs1_session_id = SessionId 5, hs1_verifier_id = VerifierId 1, hs1_commitment_bytes = [] \<rparr>, n1) \<and>
    handshake_binding_round2 frost_ex n1 (hb2_ex (DigestBytes 3)) =
      (Inr \<lparr> hs2_session_id = SessionId 5, hs2_verifier_id = VerifierId 1,
             hs2_signature_share_bytes = [] \<rparr>, n2)"
proof -
  have 1: "fa_hb_pending (aux_start (fp_ex 1) None :: (nat, unit) FrostAuxiliaryNode)
      (hb1_session_id (hb1_ex (DigestBytes 3))) = None" by simp
  have 2: "hb1_binding_input (hb1_ex (DigestBytes 3)) = approval_signed_digest (\<lambda>_. 7) (DigestBytes 3)"
    by (simp add: hb1_ex_def)
  have 3: "round1 frost_ex (fa_participant (aux_start (fp_ex 1) None :: (nat, unit) FrostAuxiliaryNode)) (\<lambda>_. 0) =
      ((), \<lparr> fc_identifier = 1, fc_inner = () \<rparr>)" by (simp add: round1_def fp_ex_def)
  have 4: "fc_to_bytes frost_ex \<lparr> fc_identifier = 1, fc_inner = () \<rparr> = Inr []" by (simp add: fc_to_bytes_def)
  let ?pb = "2 # digest_enc (approval_signed_digest (\<lambda>_. 7) (DigestBytes 3)) :: byte list"
  have 5: "sp_from_bytes frost_ex ?pb = Inr ?pb" by (simp add: sp_from_bytes_def)
  have 6: "message_bytes frost_ex ?pb = digest_enc (approval_signed_digest (\<lambda>_. 7) (DigestBytes 3))"
    by (simp add: message_bytes_def)
  have 7: "round2 frost_ex (fa_participant (aux_start (fp_ex 1) None :: (nat, unit) FrostAuxiliaryNode)) ?pb () =
      Inr \<lparr> fs_identifier = 1, fs_inner = () \<rparr>" by (simp add: round2_def fp_ex_def)
  have 8: "fs_to_bytes frost_ex \<lparr> fs_identifier = 1, fs_inner = () \<rparr> = Inr []" by (simp add: fs_to_bytes_def)
  show ?thesis
    using handshake_binding_signs_approvals[OF hb_checks_ex 1 2 3 4 5 6 7 8, of 0 0 "VerifierId 9"]
    by (simp add: hb1_ex_def hb2_ex_def fa_verifier_id_def fp_ex_def)
qed

text \<open>C40. Two first handshake-binding rounds of one session, run one after the other, give one
  answer: the second is refused.  When the guard of the second runs before the insertion of the first, both
  callers receive a commitment, and the nonces of the first are replaced by those of the second, so
  the round 2 that belongs to the first commitment signs with other nonces.\<close>

theorem hb_round1_race:
  assumes "hb_request_checks n req now = Inr ()" "hb_request_checks n req' now' = Inr ()"
    and "hb1_session_id req' = hb1_session_id req" "hb_guard n req = Inr ()"
    and "fc_to_bytes F (snd (round1 F (fa_participant n) g)) = Inr b"
    and "fc_to_bytes F (snd (round1 F (fa_participant n) g')) = Inr b'"
  shows "\<exists>n1 n2 resp resp' e.
    handshake_binding_round1 F n req now te ti g = (Inr resp, n1) \<and> hs1_commitment_bytes resp = b \<and>
    handshake_binding_round1 F n1 req' now' te' ti' g' = (Inl (FrostProtocol e), n1) \<and>
    hb_guard n req' = Inr () \<and>
    hb_insert F n1 req' te' ti' g' = (Inr resp', n2) \<and> hs1_commitment_bytes resp' = b' \<and>
    map_option pend_nonces (fa_hb_pending n2 (hb1_session_id req)) = Some (fst (round1 F (fa_participant n) g'))"
proof -
  obtain nn c nn' c' where r: "round1 F (fa_participant n) g = (nn, c)" "round1 F (fa_participant n) g' = (nn', c')"
    by fastforce
  then show ?thesis
    using assms
    by (simp add: handshake_binding_round1_def hb_guard_def hb_insert_def hb_request_checks_cache
        split: if_splits)
qed

theorem hb_round1_race_witness:
  "\<exists>n1 n2 resp resp' e.
    handshake_binding_round1 frost_ex (aux_start (fp_ex 1) None) (hb1_ex (DigestBytes 3)) (UnixTimestamp 50) 0 0
      (\<lambda>_. 0) = (Inr resp, n1) \<and> hs1_commitment_bytes resp = [] \<and>
    handshake_binding_round1 frost_ex n1 (hb1_ex (DigestBytes 4)) (UnixTimestamp 50) 0 0 (\<lambda>_. 1) =
      (Inl (FrostProtocol e), n1) \<and>
    hb_guard (aux_start (fp_ex 1) None :: (nat, unit) FrostAuxiliaryNode) (hb1_ex (DigestBytes 4)) = Inr () \<and>
    hb_insert frost_ex n1 (hb1_ex (DigestBytes 4)) 0 0 (\<lambda>_. 1) = (Inr resp', n2) \<and>
    hs1_commitment_bytes resp' = [] \<and>
    map_option pend_nonces (fa_hb_pending n2 (SessionId 5)) = Some ()"
proof -
  have 1: "hb1_session_id (hb1_ex (DigestBytes 4)) = hb1_session_id (hb1_ex (DigestBytes 3))"
    by (simp add: hb1_ex_def)
  have 2: "hb_guard (aux_start (fp_ex 1) None :: (nat, unit) FrostAuxiliaryNode) (hb1_ex (DigestBytes 3)) = Inr ()"
    by (simp add: hb_guard_def)
  have 3: "fc_to_bytes frost_ex (snd (round1 frost_ex (fa_participant
      (aux_start (fp_ex 1) None :: (nat, unit) FrostAuxiliaryNode)) g)) = Inr []" for g
    by (simp add: round1_def fc_to_bytes_def)
  show ?thesis
    using hb_round1_race[OF hb_checks_ex hb_checks_ex 1 2 3 3, of 0 0 "\<lambda>_. 0" 0 0 "\<lambda>_. 1"]
    by (simp add: hb1_ex_def)
qed

end
