(* ===== verification/Actions.thy ===== *)
theory Actions
  imports Prelude
begin

text \<open>
  Fallible operations on a state: an operation returns its result and the state after it, and an
  error leaves the state the operation had reached.  \<open>abind\<close> is the \<open>?\<close> operator, \<open>run_fst\<close> and
  \<open>run_snd\<close> run an operation on one half of a pair of states.  \<open>wp m Q s\<close> says that \<open>Q\<close> holds of the
  result and of the final state of \<open>m\<close>, on every path, errors included; the collection \<open>wp_simps\<close>
  pushes it through the combinators.
\<close>

type_synonym ('s, 'e, 'a) action = "'s \<Rightarrow> ('e, 'a) result \<times> 's"

named_theorems wp_simps

definition abind :: "('s, 'e, 'a) action \<Rightarrow> ('a \<Rightarrow> ('s, 'e, 'b) action) \<Rightarrow> ('s, 'e, 'b) action" where
  "abind m f s = (case m s of (Inl e, s') \<Rightarrow> (Inl e, s') | (Inr a, s') \<Rightarrow> f a s')"

definition alift :: "('e, 'a) result \<Rightarrow> ('s, 'e, 'a) action" where
  "alift r s = (r, s)"

definition aget :: "('s \<Rightarrow> 'a) \<Rightarrow> ('s, 'e, 'a) action" where
  "aget f s = (Inr (f s), s)"

definition amap_err :: "('e \<Rightarrow> 'f) \<Rightarrow> ('s, 'e, 'a) action \<Rightarrow> ('s, 'f, 'a) action" where
  "amap_err g m s = (case m s of (r, s') \<Rightarrow> (map_err g r, s'))"

definition run_fst :: "('s, 'e, 'a) action \<Rightarrow> ('s \<times> 't, 'e, 'a) action" where
  "run_fst m st = (case m (fst st) of (r, s') \<Rightarrow> (r, (s', snd st)))"

definition run_snd :: "('t, 'e, 'a) action \<Rightarrow> ('s \<times> 't, 'e, 'a) action" where
  "run_snd m st = (case m (snd st) of (r, t') \<Rightarrow> (r, (fst st, t')))"

text \<open>The loop \<open>for x in xs { f(x)?; }\<close> and the loop that pushes every \<open>f(x)?\<close> to a vector.\<close>

fun aeach :: "('a \<Rightarrow> ('s, 'e, unit) action) \<Rightarrow> 'a list \<Rightarrow> ('s, 'e, unit) action" where
  "aeach f [] = alift (Inr ())"
| "aeach f (x # xs) = abind (f x) (\<lambda>_. aeach f xs)"

fun acollect :: "('a \<Rightarrow> ('s, 'e, 'b) action) \<Rightarrow> 'a list \<Rightarrow> ('s, 'e, 'b list) action" where
  "acollect f [] = alift (Inr [])"
| "acollect f (x # xs) = abind (f x) (\<lambda>y. abind (acollect f xs) (\<lambda>ys. alift (Inr (y # ys))))"

lemma map_err_eq_Inl: "map_err g r = Inl e \<longleftrightarrow> (\<exists>e'. r = Inl e' \<and> e = g e')"
  by (cases r) auto

lemma abind_cong [fundef_cong]:
  "m = m' \<Longrightarrow> s = s' \<Longrightarrow> (\<And>a t. m' s' = (Inr a, t) \<Longrightarrow> f a t = g a t) \<Longrightarrow> abind m f s = abind m' g s'"
  by (auto simp: abind_def split: prod.splits sum.splits)

lemma abind_eq_Inr:
  "abind m f s = (Inr b, t) \<longleftrightarrow> (\<exists>a s1. m s = (Inr a, s1) \<and> f a s1 = (Inr b, t))"
  by (auto simp: abind_def split: prod.splits sum.splits)

lemma amap_err_eq_Inr [simp]: "amap_err g m s = (Inr a, t) \<longleftrightarrow> m s = (Inr a, t)"
  by (auto simp: amap_err_def map_err_def split: prod.splits sum.splits)

lemma alift_eq [simp]: "alift r s = (r', t) \<longleftrightarrow> r' = r \<and> t = s"
  by (auto simp: alift_def)

lemma aget_eq [simp]: "aget f s = (r, t) \<longleftrightarrow> r = Inr (f s) \<and> t = s"
  by (auto simp: aget_def)

lemma run_fst_eq [simp]:
  "run_fst m st = (r, st') \<longleftrightarrow> (\<exists>s'. m (fst st) = (r, s') \<and> st' = (s', snd st))"
  by (auto simp: run_fst_def split: prod.splits)

lemma run_snd_eq [simp]:
  "run_snd m st = (r, st') \<longleftrightarrow> (\<exists>t'. m (snd st) = (r, t') \<and> st' = (fst st, t'))"
  by (auto simp: run_snd_def split: prod.splits)

definition wp :: "('s, 'e, 'a) action \<Rightarrow> (('e, 'a) result \<Rightarrow> 's \<Rightarrow> bool) \<Rightarrow> 's \<Rightarrow> bool" where
  "wp m Q s \<longleftrightarrow> (case m s of (r, s') \<Rightarrow> Q r s')"

lemma wp_abind [wp_simps]:
  "wp (abind m f) Q s \<longleftrightarrow> wp m (\<lambda>r s'. case r of Inl e \<Rightarrow> Q (Inl e) s' | Inr a \<Rightarrow> wp (f a) Q s') s"
  by (auto simp: wp_def abind_def split: prod.splits sum.splits)

lemma wp_alift [wp_simps]: "wp (alift r) Q s \<longleftrightarrow> Q r s"
  by (simp add: wp_def alift_def)

lemma wp_aget [wp_simps]: "wp (aget f) Q s \<longleftrightarrow> Q (Inr (f s)) s"
  by (simp add: wp_def aget_def)

lemma wp_amap_err [wp_simps]: "wp (amap_err g m) Q s \<longleftrightarrow> wp m (\<lambda>r. Q (map_err g r)) s"
  by (auto simp: wp_def amap_err_def split: prod.splits)

lemma wp_run_fst [wp_simps]: "wp (run_fst m) Q st \<longleftrightarrow> wp m (\<lambda>r s'. Q r (s', snd st)) (fst st)"
  by (auto simp: wp_def run_fst_def split: prod.splits)

lemma wp_run_snd [wp_simps]: "wp (run_snd m) Q st \<longleftrightarrow> wp m (\<lambda>r t'. Q r (fst st, t')) (snd st)"
  by (auto simp: wp_def run_snd_def split: prod.splits)

lemma wp_mono: "wp m P s \<Longrightarrow> (\<And>r s'. P r s' \<Longrightarrow> Q r s') \<Longrightarrow> wp m Q s"
  by (auto simp: wp_def split: prod.splits)

lemma wpD: "wp m Q s \<Longrightarrow> m s = (r, s') \<Longrightarrow> Q r s'"
  by (simp add: wp_def)

lemma wpI: "(\<And>r s'. m s = (r, s') \<Longrightarrow> Q r s') \<Longrightarrow> wp m Q s"
  by (cases "m s") (simp add: wp_def)

lemma wp_aeach:
  assumes "P [] s"
    and "\<And>past x rest s. xs = past @ x # rest \<Longrightarrow> P past s \<Longrightarrow>
      wp (f x) (\<lambda>r s'. case r of Inl e \<Rightarrow> Q (Inl e) s' | Inr _ \<Rightarrow> P (past @ [x]) s') s"
    and "\<And>s. P xs s \<Longrightarrow> Q (Inr ()) s"
  shows "wp (aeach f xs) Q s"
proof -
  have "wp (aeach f rest) Q s" if "xs = past @ rest" "P past s" for past rest s
    using that
  proof (induction rest arbitrary: past s)
    case Nil
    then show ?case using assms(3) by (simp add: wp_simps)
  next
    case (Cons x rest)
    have "wp (f x) (\<lambda>r s'. case r of Inl e \<Rightarrow> Q (Inl e) s' | Inr _ \<Rightarrow> P (past @ [x]) s') s"
      by (rule assms(2)[OF Cons.prems])
    then show ?case
      unfolding aeach.simps wp_abind
      by (rule wp_mono) (use Cons.IH[of "past @ [x]"] Cons.prems(1) in \<open>auto split: sum.splits\<close>)
  qed
  from this[of "[]" xs s] assms(1) show ?thesis by simp
qed

end
