(* ===== verification/Node_Iface.thy ===== *)
theory Node_Iface
  imports Frost_Aux Actions
begin

text \<open>
  The texts of the node errors (\<open>error.rs\<close> of the core, attestation, storage and node crates), the
  interface through which a coordinator reaches an auxiliary node (the trait \<open>FrostNodeTransport\<close> of
  \<open>node/src/transport.rs\<close>) and its in-process implementation.

  A handle is a record of operations on a world \<open>'w\<close>.  In process the world is the heap of the
  nodes: a handle refers to its node by address, so that two handles may share a node.
\<close>

section \<open>Errors as text\<close>

definition core_error_display :: "CoreError \<Rightarrow> string" where
  "core_error_display e = (case e of
     InvalidQuorum r \<Rightarrow> ''invalid quorum: '' @ r
   | Serialization m \<Rightarrow> ''serialization error: '' @ m
   | InvalidIdentifier m \<Rightarrow> ''invalid identifier: '' @ m)"

definition attestation_error_display :: "AttestationError \<Rightarrow> string" where
  "attestation_error_display e = (case e of
     CoreErr c \<Rightarrow> ''session error: '' @ core_error_display c
   | InvalidTransition from to \<Rightarrow> ''invalid state transition: cannot move from '' @ from @ '' to '' @ to
   | SessionExpired \<Rightarrow> ''session expired''
   | RandomnessBindingMismatch r \<Rightarrow> ''randomness binding mismatch: '' @ r
   | TranscriptMismatch r \<Rightarrow> ''transcript commitment mismatch: '' @ r
   | StatementDigestMismatch \<Rightarrow> ''statement digest mismatch''
   | PackageDigestMismatch \<Rightarrow> ''package digest mismatch''
   | EvidenceVerificationFailed r \<Rightarrow> ''evidence verification failed: '' @ r
   | AttQuorumNotSatisfied need have' \<Rightarrow> ''quorum not satisfied: need '' @ dec_str need @ '', have '' @
       dec_str have'
   | UnknownSession \<Rightarrow> ''unknown session''
   | DuplicateSession \<Rightarrow> ''replay detected: session ID already exists''
   | SessionAlreadyTerminal \<Rightarrow> ''replay detected: session is already in a terminal state''
   | DuplicateVerifierApproval v \<Rightarrow> ''replay detected: verifier '' @ [CHR 0x27] @ v @ [CHR 0x27] @
       '' already approved this session''
   | TlsConnection r \<Rightarrow> ''TLS connection error: '' @ r
   | AttCrypto m \<Rightarrow> ''cryptographic operation failed: '' @ m)"

definition storage_error_display :: "StorageError \<Rightarrow> string" where
  "storage_error_display e = (case e of
     NotFound \<Rightarrow> ''session not found''
   | AlreadyExists \<Rightarrow> ''session already exists (replay protection)''
   | SessionTerminated \<Rightarrow> ''session is in a terminal state and cannot be modified''
   | DuplicateApproval v \<Rightarrow> ''verifier '' @ [CHR 0x27] @ v @ [CHR 0x27] @ '' has already approved this session''
   | StoreIo m \<Rightarrow> ''storage I/O error: '' @ m)"

definition node_error_display :: "NodeError \<Rightarrow> string" where
  "node_error_display e = (case e of
     Attestation a \<Rightarrow> ''attestation error: '' @ attestation_error_display a
   | Crypto c \<Rightarrow> ''crypto error: '' @ crypto_error_display c
   | Network n \<Rightarrow> ''network error: '' @ network_error_display n
   | Storage s \<Rightarrow> ''storage error: '' @ storage_error_display s
   | QuorumNotMet received required \<Rightarrow> ''quorum not met: received '' @ dec_str received @ '' of '' @
       dec_str required @ '' approvals''
   | NoResponse v \<Rightarrow> ''no response from verifier: '' @ v
   | SessionNotFound s \<Rightarrow> ''session not found: '' @ s
   | FrostProtocol m \<Rightarrow> ''FROST protocol violation: '' @ m
   | DkgProtocol m \<Rightarrow> ''DKG protocol error: '' @ m
   | DkgKeyAnnouncement m \<Rightarrow> ''DKG key-announcement error: '' @ m
   | SigningAdmission m \<Rightarrow> ''signing admission error: '' @ m)"

section \<open>Handles\<close>

record 'w FrostNodeTransport =
  tr_verifier_id :: "'w \<Rightarrow> VerifierId"
  tr_frost_round1 :: "FrostRound1Request \<Rightarrow> UnixTimestamp \<Rightarrow> ('w, NodeError, FrostRound1Response) action"
  tr_frost_round2 :: "FrostRound2Request \<Rightarrow> ('w, NodeError, FrostRound2Response) action"
  tr_handshake_binding_round1 :: "HandshakeBindingRound1Request \<Rightarrow> UnixTimestamp \<Rightarrow>
    ('w, NodeError, HandshakeBindingRound1Response) action"
  tr_handshake_binding_round2 :: "HandshakeBindingRound2Request \<Rightarrow>
    ('w, NodeError, HandshakeBindingRound2Response) action"

type_synonym ('kp, 'n) heap = "nat \<Rightarrow> ('kp, 'n) FrostAuxiliaryNode"

text \<open>An operation of the node at address \<open>a\<close>.\<close>

definition at_node :: "nat \<Rightarrow> (('kp, 'n) FrostAuxiliaryNode, NodeError, 'r) action \<Rightarrow>
    (('kp, 'n) heap, NodeError, 'r) action" where
  "at_node a f w = (case f (w a) of (r, n') \<Rightarrow> (r, w(a := n')))"

text \<open>The readings of the clocks and the random bytes of the calls through one handle.\<close>

record node_inputs =
  ni_clock :: u64
  ni_evict_at :: nat
  ni_insert_at :: nat
  ni_rng :: rng

definition InProcessTransport :: "sha \<Rightarrow> ('kp, 'n, 'c, 's, 'sp, 'pk) frost \<Rightarrow>
    ('b, 'u8, 'u32, 'f, 'fr) r1cs \<Rightarrow> ('fr, 'gpk, 'vk, 'pvk, 'pf, 'rng) groth \<Rightarrow>
    (byte list \<Rightarrow> (string, HspZkProof) result) \<Rightarrow> (byte list \<Rightarrow> (string, DctlsEvidence) result) \<Rightarrow>
    nat \<Rightarrow> node_inputs \<Rightarrow> ('kp, 'n) heap FrostNodeTransport" where
  "InProcessTransport H F G K hj ej a i = \<lparr>
     tr_verifier_id = (\<lambda>w. fa_verifier_id (w a)),
     tr_frost_round1 = (\<lambda>req now. at_node a (\<lambda>n.
       frost_round1 H F G K hj ej n req now (ni_clock i) (ni_evict_at i) (ni_insert_at i) (ni_rng i))),
     tr_frost_round2 = (\<lambda>req. at_node a (\<lambda>n. frost_round2 F n req)),
     tr_handshake_binding_round1 = (\<lambda>req now. at_node a (\<lambda>n.
       handshake_binding_round1 F n req now (ni_evict_at i) (ni_insert_at i) (ni_rng i))),
     tr_handshake_binding_round2 = (\<lambda>req. at_node a (\<lambda>n. handshake_binding_round2 F n req)) \<rparr>"

lemma at_node_eq:
  "at_node a f w = (r, w') \<longleftrightarrow> (\<exists>n'. f (w a) = (r, n') \<and> w' = w(a := n'))"
  by (auto simp: at_node_def split: prod.splits)

lemma wp_at_node [wp_simps]: "wp (at_node a f) Q w \<longleftrightarrow> wp f (\<lambda>r n'. Q r (w(a := n'))) (w a)"
  by (auto simp: wp_def at_node_def split: prod.splits)

end
