(* ===== verification/Dvrf.thy ===== *)
theory Dvrf
  imports Frost
begin

text \<open>
  The distributed verifiable random function (\<open>crates/crypto/src/dvrf.rs\<close>): a threshold signature
  over the session input with deterministic nonces, whose hash is the session randomness.
\<close>

record DvRFInput =
  dv_bytes :: DigestBytes

definition dvrf_input_hasher ::
  "SessionId \<Rightarrow> ProverId \<Rightarrow> Nonce \<Rightarrow> Epoch \<Rightarrow> DigestBytes \<Rightarrow> CanonicalHasher" where
  "dvrf_input_hasher sid pid n ep qh =
     update_digest qh (update_u64 (epoch_u64 ep) (update_fixed (nonce_enc n) (update_fixed (pid_enc pid)
       (update_fixed (sid_enc sid) (ch_new ''tls-attestation/dvrf-input/v1'')))))"

definition for_session ::
  "sha \<Rightarrow> SessionId \<Rightarrow> ProverId \<Rightarrow> Nonce \<Rightarrow> Epoch \<Rightarrow> DigestBytes \<Rightarrow> DvRFInput" where
  "for_session H sid pid n ep qh = \<lparr> dv_bytes = ch_finalize H (dvrf_input_hasher sid pid n ep qh) \<rparr>"

record DvRFProof =
  dp_aggregate_signature :: bytes64
  dp_group_verifying_key :: bytes32
  dp_alpha_bytes :: bytes32

record DvRFOutput =
  do_value :: DigestBytes
  do_proof :: DvRFProof

datatype DvRFError =
    InsufficientShares nat nat
  | DvrfVerificationFailed string
  | EvaluationFailed string

definition dvrf_error_display :: "DvRFError \<Rightarrow> string" where
  "dvrf_error_display e =
     (case e of
        InsufficientShares needed got \<Rightarrow>
          ''insufficient shares: need '' @ dec_str needed @ '', got '' @ dec_str got
      | DvrfVerificationFailed r \<Rightarrow> ''DVRF verification failed: '' @ r
      | EvaluationFailed m \<Rightarrow> ''DVRF evaluation failed: '' @ m)"

definition dvrf_of_crypto_error :: "CryptoError \<Rightarrow> DvRFError" where
  "dvrf_of_crypto_error e = EvaluationFailed (crypto_error_display e)"

definition dvrf_output_hasher :: "bytes64 \<Rightarrow> CanonicalHasher" where
  "dvrf_output_hasher sg = update_fixed (be_bytes 64 sg) (ch_new ''tls-attestation/dvrf-output/v1'')"

record 'pk FrostDvRF =
  fd_group_key :: "'pk FrostGroupKey"

definition commitment_pair ::
  "('kp, 'n, 'c, 's, 'sp, 'pk) frost \<Rightarrow> 'kp FrostParticipant \<times> 'n \<times> 'c FrostCommitment \<Rightarrow>
   (CryptoError, VerifierId \<times> byte list) result" where
  "commitment_pair F = (\<lambda>(p, _, c). rbind (fc_to_bytes F c) (\<lambda>b. Inr (fp_verifier_id p, b)))"

definition share_entry ::
  "('kp, 'n, 'c, 's, 'sp, 'pk) frost \<Rightarrow> 'sp \<Rightarrow> 'kp FrostParticipant \<times> 'n \<times> 'c FrostCommitment \<Rightarrow>
   (CryptoError, VerifierId \<times> byte list) result" where
  "share_entry F sp = (\<lambda>(p, n, _). rbind (round2 F p sp n)
     (\<lambda>s. rbind (fs_to_bytes F s) (\<lambda>b. Inr (fp_verifier_id p, b))))"

definition evaluate ::
  "sha \<Rightarrow> ('kp, 'n, 'c, 's, 'sp, 'pk) frost \<Rightarrow> 'pk FrostDvRF \<Rightarrow> DvRFInput \<Rightarrow> 'kp FrostParticipant list \<Rightarrow>
   (DvRFError, DvRFOutput) result" where
  "evaluate H F d alpha ps =
     (if ps = [] then Inl (InsufficientShares 1 0)
      else let outs = map (\<lambda>p. (p, round1_dvrf H F p (digest_enc (dv_bytes alpha)))) ps;
               gk = fd_group_key d
      in map_err dvrf_of_crypto_error
        (rbind (collect_ok (commitment_pair F) outs)
          (\<lambda>pairs. rbind (build_signing_package F pairs (dv_bytes alpha) gk)
            (\<lambda>(sp, _). rbind (collect_ok (share_entry F sp) outs)
              (\<lambda>shares. rbind (aggregate_signature_shares F sp shares gk (dv_bytes alpha))
                (\<lambda>a. let sg = fta_aggregate_signature_bytes a in
                   Inr \<lparr> do_value = ch_finalize H (dvrf_output_hasher sg),
                         do_proof = \<lparr> dp_aggregate_signature = sg,
                           dp_group_verifying_key = verifying_key_bytes F gk,
                           dp_alpha_bytes = digest_bytes (dv_bytes alpha) \<rparr> \<rparr>))))))"

definition dvrf_verify ::
  "sha \<Rightarrow> ('kp, 'n, 'c, 's, 'sp, 'pk) frost \<Rightarrow> DvRFInput \<Rightarrow> DvRFOutput \<Rightarrow> (DvRFError, unit) result" where
  "dvrf_verify H F alpha out =
     (if dp_alpha_bytes (do_proof out) \<noteq> digest_bytes (dv_bytes alpha)
      then Inl (DvrfVerificationFailed (''proof alpha_bytes does not match provided DVRF input '' @
             [CHR 0xCE, CHR 0xB1]))
      else rbind (map_err DvrfVerificationFailed (fr_vk_deserialize F (dp_group_verifying_key (do_proof out))))
        (\<lambda>vk. rbind (map_err DvrfVerificationFailed (fr_sig_deserialize F (dp_aggregate_signature (do_proof out))))
          (\<lambda>sg. rbind (map_err DvrfVerificationFailed (fr_verify F vk (digest_enc (dv_bytes alpha)) sg))
            (\<lambda>_. if do_value out \<noteq> ch_finalize H (dvrf_output_hasher (dp_aggregate_signature (do_proof out)))
                 then Inl (DvrfVerificationFailed ''DVRF output value does not match signature hash'')
                 else Inr ()))))"

section \<open>What the check accepts\<close>

lemma dvrf_verify_eq_Inr [result_simps]:
  "dvrf_verify H F alpha out = Inr u \<longleftrightarrow>
     dp_alpha_bytes (do_proof out) = digest_bytes (dv_bytes alpha) \<and>
     (\<exists>vk sg. fr_vk_deserialize F (dp_group_verifying_key (do_proof out)) = Inr vk \<and>
        fr_sig_deserialize F (dp_aggregate_signature (do_proof out)) = Inr sg \<and>
        fr_verify F vk (digest_enc (dv_bytes alpha)) sg = Inr ()) \<and>
     do_value out = ch_finalize H (dvrf_output_hasher (dp_aggregate_signature (do_proof out)))"
  by (auto simp: dvrf_verify_def result_simps)

lemma dvrf_verify_signature:
  "dvrf_verify H F alpha out = Inr () \<longleftrightarrow>
     dp_alpha_bytes (do_proof out) = digest_bytes (dv_bytes alpha) \<and>
     verify_signature F \<lparr> fta_signed_digest = dv_bytes alpha,
       fta_aggregate_signature_bytes = dp_aggregate_signature (do_proof out),
       fta_group_verifying_key_bytes = dp_group_verifying_key (do_proof out) \<rparr> = Inr () \<and>
     do_value out = ch_finalize H (dvrf_output_hasher (dp_aggregate_signature (do_proof out)))"
  by (auto simp: result_simps)

lemma evaluate_eq_Inr:
  assumes "evaluate H F d alpha ps = Inr out"
  obtains pairs sp bytes shares a where
    "build_signing_package F pairs (dv_bytes alpha) (fd_group_key d) = Inr (sp, bytes)"
    "aggregate_signature_shares F sp shares (fd_group_key d) (dv_bytes alpha) = Inr a"
    "out = \<lparr> do_value = ch_finalize H (dvrf_output_hasher (fta_aggregate_signature_bytes a)),
       do_proof = \<lparr> dp_aggregate_signature = fta_aggregate_signature_bytes a,
         dp_group_verifying_key = verifying_key_bytes F (fd_group_key d),
         dp_alpha_bytes = digest_bytes (dv_bytes alpha) \<rparr> \<rparr>"
  using assms by (auto simp: evaluate_def Let_def result_simps split: if_splits)

definition dvi_pre :: "SessionId \<times> ProverId \<times> Nonce \<times> Epoch \<times> DigestBytes \<Rightarrow> byte list" where
  "dvi_pre = (\<lambda>(sid, pid, n, ep, qh). absorbed (dvrf_input_hasher sid pid n ep qh))"

interpretation dvib: binding dvi_pre "\<lambda>_. True"
  by standard (auto simp: dvi_pre_def dvrf_input_hasher_def enc_inject intro: Epoch.expand)

lemma for_session_pre: "dv_bytes (for_session H sid pid n ep qh) = DigestBytes (H (dvi_pre (sid, pid, n, ep, qh)))"
  by (simp add: for_session_def dvi_pre_def ch_finalize_def)

lemma dvrf_verify_alpha:
  assumes "dvrf_verify H F alpha out = Inr ()" "dvrf_verify H F alpha' out = Inr ()"
  shows "alpha = alpha'"
proof -
  have "digest_bytes (dv_bytes alpha) = digest_bytes (dv_bytes alpha')"
    using assms by (simp only: dvrf_verify_signature)
  then show ?thesis by (cases alpha; cases alpha') (auto intro: DigestBytes.expand)
qed

text \<open>An evaluated output verifies.  When \<open>evaluate\<close> returns an output for the group, \<open>verify\<close>
  accepts it for the same input, the proof carries the group's key and this input, the value is the
  hash of the aggregate signature, and \<open>verify\<close> accepts the output for no other input.\<close>

lemma evaluate_accepted:
  assumes "frost_ok F" and "evaluate H F d alpha ps = Inr out"
  shows "dvrf_verify H F alpha out = Inr () \<and>
    dp_group_verifying_key (do_proof out) = verifying_key_bytes F (fd_group_key d) \<and>
    do_value out = ch_finalize H (dvrf_output_hasher (dp_aggregate_signature (do_proof out))) \<and>
    (\<forall>alpha'. dvrf_verify H F alpha' out = Inr () \<longleftrightarrow> alpha' = alpha)"
proof -
  obtain pairs sp bytes shares a where
    b: "build_signing_package F pairs (dv_bytes alpha) (fd_group_key d) = Inr (sp, bytes)"
    and g: "aggregate_signature_shares F sp shares (fd_group_key d) (dv_bytes alpha) = Inr a"
    and out: "out = \<lparr> do_value = ch_finalize H (dvrf_output_hasher (fta_aggregate_signature_bytes a)),
       do_proof = \<lparr> dp_aggregate_signature = fta_aggregate_signature_bytes a,
         dp_group_verifying_key = verifying_key_bytes F (fd_group_key d),
         dp_alpha_bytes = digest_bytes (dv_bytes alpha) \<rparr> \<rparr>"
    using assms(2) by (rule evaluate_eq_Inr)
  note v = distributed_approval_verifies(1-3)[OF assms(1) b g]
  have "a = \<lparr> fta_signed_digest = dv_bytes alpha, fta_aggregate_signature_bytes = fta_aggregate_signature_bytes a,
      fta_group_verifying_key_bytes = verifying_key_bytes F (fd_group_key d) \<rparr>"
    using v(2,3) by (cases a) simp
  then have ok: "dvrf_verify H F alpha out = Inr ()"
    using v(1) by (simp add: dvrf_verify_signature out)
  then show ?thesis using dvrf_verify_alpha[OF ok] by (auto simp: out)
qed

lemma dvrf_verify_value:
  "dvrf_verify H F alpha out = Inr () \<Longrightarrow> dvrf_verify H F alpha (out\<lparr> do_value := v \<rparr>) = Inr () \<longleftrightarrow> v = do_value out"
  by (auto simp: dvrf_verify_signature)

section \<open>Properties\<close>

definition alpha_ex :: DvRFInput where
  "alpha_ex = for_session (\<lambda>_. 7) (SessionId 1) (ProverId 2) (Nonce 6) GENESIS (DigestBytes 3)"

definition dvout_ex :: "bytes32 \<Rightarrow> DvRFOutput" where
  "dvout_ex vk = \<lparr> do_value = DigestBytes 7, do_proof = \<lparr>
     dp_aggregate_signature = sig_ex vk (digest_enc (DigestBytes 7)),
     dp_group_verifying_key = vk, dp_alpha_bytes = 7 \<rparr> \<rparr>"

lemma alpha_ex_bytes [simp]: "dv_bytes alpha_ex = DigestBytes 7"
  by (simp add: alpha_ex_def for_session_pre)

lemma dvout_ex_verifies: "dvrf_verify (\<lambda>_. 7) frost_ex alpha_ex (dvout_ex vk) = Inr ()"
  by (simp add: dvrf_verify_eq_Inr dvout_ex_def ch_finalize_def)

text \<open>The same participants under the group key \<open>vk\<close>.\<close>

definition gk_of :: "bytes32 \<Rightarrow> bytes32 FrostGroupKey" where
  "gk_of vk = gk_ex\<lparr> gk_pub_key_package := vk \<rparr>"

lemma evaluate_ex:
  "evaluate (\<lambda>_. 7) frost_ex \<lparr> fd_group_key = gk_of vk \<rparr> alpha_ex [fp_ex 1, fp_ex 2] = Inr (dvout_ex vk)"
proof -
  let ?cm = "[1 \<mapsto> (), 2 \<mapsto> ()] :: bytes32 \<rightharpoonup> unit" and ?d = "DigestBytes 7"
  let ?vs = "[(fp_verifier_id (fp_ex 1), []), (fp_verifier_id (fp_ex 2), [])]"
  let ?a = "\<lparr> fta_signed_digest = ?d, fta_aggregate_signature_bytes = sig_ex vk (digest_enc ?d),
     fta_group_verifying_key_bytes = vk \<rparr>"
  have two: "card (dom ?cm) = 2" by simp
  have id: "verifier_to_identifier (gk_of vk) (fp_verifier_id (fp_ex 1)) = Some 1"
    "verifier_to_identifier (gk_of vk) (fp_verifier_id (fp_ex 2)) = Some 2"
    by (simp_all add: verifier_to_identifier_def gk_of_def gk_ex_def fp_ex_def)
  have key: "fp_key_package (fp_ex i) = 2" for i by (simp add: fp_ex_def)
  have pk: "fr_package_new frost_ex ?cm (digest_enc ?d) = 2 # digest_enc ?d"
    unfolding frost_ex_simps two by simp
  have cl: "commitments_loop frost_ex (gk_of vk) ?vs Map.empty = Inr ?cm"
    "shares_loop frost_ex (gk_of vk) ?vs Map.empty = Inr ?cm"
    by (simp_all add: fc_from_bytes_def fs_from_bytes_def id)
  have bp: "build_signing_package frost_ex ?vs ?d (gk_of vk) = Inr (2 # digest_enc ?d, 2 # digest_enc ?d)"
    by (simp only: build_signing_package_def cl rbind_simps Let_def pk)
      (simp add: sp_to_bytes_def)
  have ag: "aggregate_signature_shares frost_ex (2 # digest_enc ?d) ?vs (gk_of vk) ?d = Inr ?a"
    by (simp only: aggregate_signature_shares_def cl rbind_simps frost_ex_simps two)
      (simp add: gk_of_def verifying_key_bytes_def)
  have r1: "round1_dvrf (\<lambda>_. 7) frost_ex p m = ((), \<lparr> fc_identifier = fp_identifier p, fc_inner = () \<rparr>)" for p m
    by (simp add: round1_dvrf_def round1_def)
  have "collect_ok (commitment_pair frost_ex) (map (\<lambda>p. (p, round1_dvrf (\<lambda>_. 7) frost_ex p (digest_enc ?d))) [fp_ex 1, fp_ex 2]) = Inr ?vs"
    by (simp add: commitment_pair_def fc_to_bytes_def r1)
  moreover have "collect_ok (share_entry frost_ex (2 # digest_enc ?d))
      (map (\<lambda>p. (p, round1_dvrf (\<lambda>_. 7) frost_ex p (digest_enc ?d))) [fp_ex 1, fp_ex 2]) = Inr ?vs"
    by (simp add: share_entry_def round2_def fs_to_bytes_def r1 key)
  moreover have "verifying_key_bytes frost_ex (gk_of vk) = vk" by (simp add: verifying_key_bytes_def gk_of_def)
  ultimately show ?thesis
    by (simp only: evaluate_def list.distinct if_False Let_def alpha_ex_bytes rbind_simps bp ag prod.case
        map_err_simps FrostDvRF.select_convs)
      (simp add: dvout_ex_def ch_finalize_def)
qed

text \<open>The input of the random function binds the session: when one output is accepted for the
  inputs of two sessions, both have the same session identifier, prover, nonce, epoch and quorum
  hash, up to an explicit collision of the hash.\<close>

theorem dvrf_output_binds_session:
  assumes "dvrf_verify H F (for_session H sid pid n ep qh) out = Inr ()"
    and "dvrf_verify H F (for_session H sid' pid' n' ep' qh') out = Inr ()"
  shows "(sid, pid, n, ep, qh) = (sid', pid', n', ep', qh') \<or>
    collision H (dvi_pre (sid, pid, n, ep, qh)) (dvi_pre (sid', pid', n', ep', qh'))"
proof -
  have "for_session H sid pid n ep qh = for_session H sid' pid' n' ep' qh'"
    by (rule dvrf_verify_alpha[OF assms])
  then have "dv_bytes (for_session H sid pid n ep qh) = dv_bytes (for_session H sid' pid' n' ep' qh')"
    by (rule arg_cong)
  then have "H (dvi_pre (sid, pid, n, ep, qh)) = H (dvi_pre (sid', pid', n', ep', qh'))"
    by (simp only: for_session_pre DigestBytes.inject)
  then show ?thesis by (rule dvib.digest_binds[OF TrueI TrueI])
qed

theorem dvrf_output_binds_session_witness:
  "(SessionId 1, ProverId 2, Nonce 6, GENESIS, DigestBytes 3) =
     (SessionId 1, ProverId 2, Nonce 6, GENESIS, DigestBytes 3) \<or>
   collision (\<lambda>_. 7 :: bytes32) (dvi_pre (SessionId 1, ProverId 2, Nonce 6, GENESIS, DigestBytes 3))
     (dvi_pre (SessionId 1, ProverId 2, Nonce 6, GENESIS, DigestBytes 3))"
  using dvrf_output_binds_session[OF dvout_ex_verifies[of 77, unfolded alpha_ex_def]
      dvout_ex_verifies[of 77, unfolded alpha_ex_def]] by blast

text \<open>C38. One input has an accepted output for every group.  When two groups, whatever their keys and participants, evaluate
  the same input, both outputs are accepted for this input, each under the key of its own group, since the verifying
  key is read from the proof and is not compared with any expected one.  What verification does fix is the
  rest: for each output no other value and no other input is accepted.\<close>

theorem dvrf_accepts_every_group:
  assumes "frost_ok F" "evaluate H F d alpha ps = Inr out" "evaluate H F d' alpha ps' = Inr out'"
  shows "dvrf_verify H F alpha out = Inr () \<and> dvrf_verify H F alpha out' = Inr () \<and>
    dp_group_verifying_key (do_proof out) = verifying_key_bytes F (fd_group_key d) \<and>
    dp_group_verifying_key (do_proof out') = verifying_key_bytes F (fd_group_key d') \<and>
    (\<forall>v. dvrf_verify H F alpha (out\<lparr> do_value := v \<rparr>) = Inr () \<longleftrightarrow> v = do_value out) \<and>
    (\<forall>alpha'. dvrf_verify H F alpha' out = Inr () \<longleftrightarrow> alpha' = alpha)"
  using evaluate_accepted[OF assms(1,2)] evaluate_accepted[OF assms(1,3)] dvrf_verify_value[of H F alpha out] by blast

theorem dvrf_accepts_every_group_witness:
  "dvrf_verify (\<lambda>_. 7) frost_ex alpha_ex (dvout_ex 77) = Inr () \<and>
   dvrf_verify (\<lambda>_. 7) frost_ex alpha_ex (dvout_ex 78) = Inr () \<and>
   dp_group_verifying_key (do_proof (dvout_ex 77)) \<noteq> dp_group_verifying_key (do_proof (dvout_ex 78))"
  using dvrf_accepts_every_group[OF frost_ex_ok evaluate_ex[of 77] evaluate_ex[of 78]] by (simp add: dvout_ex_def)

end
