(* ===== verification/Aux_Verify.thy ===== *)
theory Aux_Verify
  imports Dctls Dvrf
begin

text \<open>
  The auxiliary verifier (\<open>crates/attestation/src/verify.rs\<close>): the nine checks of a package and the
  extended check with the proofs of the random function and of the TLS session.  The time \<open>now\<close> is
  the caller's, \<open>clock\<close> is the system clock that the handshake check reads.
\<close>

record VerificationPolicy =
  vp_allowed_engine_tags :: "string list"
  vp_allowed_statement_tags :: "string list"
  vp_max_session_duration_secs :: u64

definition permissive :: VerificationPolicy where
  "permissive = \<lparr> vp_allowed_engine_tags = [''prototype-attestation/v1'', ''dx-dctls/commitment-v1''],
     vp_allowed_statement_tags = [], vp_max_session_duration_secs = 3600 \<rparr>"

record VerificationResult =
  vr_verifier_id :: VerifierId
  vr_package_digest :: DigestBytes
  vr_approved :: bool
  vr_failure_reason :: "string option"

record AuxiliaryVerifier =
  av_verifier_id :: VerifierId
  av_policy :: VerificationPolicy

definition saturating_sub :: "u64 \<Rightarrow> u64 \<Rightarrow> u64" where
  "saturating_sub a b = (if b \<le> a then a - b else 0)"

definition vr_fail :: "AuxiliaryVerifier \<Rightarrow> AttestationPackage \<Rightarrow> string \<Rightarrow> VerificationResult" where
  "vr_fail v p reason = \<lparr> vr_verifier_id = av_verifier_id v, vr_package_digest = pk_package_digest p,
     vr_approved = False, vr_failure_reason = Some reason \<rparr>"

definition vr_ok :: "AuxiliaryVerifier \<Rightarrow> AttestationPackage \<Rightarrow> VerificationResult" where
  "vr_ok v p = \<lparr> vr_verifier_id = av_verifier_id v, vr_package_digest = pk_package_digest p,
     vr_approved = True, vr_failure_reason = None \<rparr>"

definition check ::
  "sha \<Rightarrow> AuxiliaryVerifier \<Rightarrow> AttestationPackage \<Rightarrow> StatementPayload \<Rightarrow> UnixTimestamp \<Rightarrow> VerificationResult" where
  "check H v package statement now =
     (let sc = pk_session_context package; tc = pk_transcript_commitments package;
          ev = pk_evidence package; pol = av_policy v;
          duration = saturating_sub (secs (expires_at sc)) (secs (created_at sc)) in
      if ctx_is_expired sc now then vr_fail v package ''session has expired''
      else if session_digest sc \<noteq> ch_finalize H (ctx_hasher (session_id sc) (prover_id sc)
          (coordinator_id sc) (quorum sc) (epoch sc) (created_at sc) (expires_at sc) (nonce sc))
      then vr_fail v package ''session digest mismatch''
      else if \<not> statement_verify_digest H statement (session_transcript_digest tc)
      then vr_fail v package ''statement digest does not match transcript''
      else if pk_package_digest package \<noteq> package_compute_digest H (session_digest sc)
          (pk_randomness_value package) (session_transcript_digest tc) (ev_evidence_digest ev)
      then vr_fail v package ''package digest mismatch''
      else if ev_engine_tag ev \<notin> set (vp_allowed_engine_tags pol)
      then vr_fail v package (''engine tag '' @ [CHR 0x27] @ ev_engine_tag ev @ [CHR 0x27] @ '' is not in policy'')
      else if vp_allowed_statement_tags pol \<noteq> [] \<and>
          st_derivation_tag statement \<notin> set (vp_allowed_statement_tags pol)
      then vr_fail v package (''statement tag '' @ [CHR 0x27] @ st_derivation_tag statement @ [CHR 0x27] @
             '' is not in policy'')
      else if duration > vp_max_session_duration_secs pol
      then vr_fail v package (''session duration '' @ dec_str (unat duration) @ ''s exceeds policy maximum '' @
             dec_str (unat (vp_max_session_duration_secs pol)) @ ''s'')
      else if session_transcript_digest tc \<noteq> ch_finalize H (std_hasher (session_id sc)
          (tc_digest (tcs_query tc)) (tc_digest (tcs_response tc)))
      then vr_fail v package
             ''session transcript digest is inconsistent with query/response commitments''
      else if ev_evidence_digest ev \<noteq> ch_finalize H (evidence_hasher (ev_engine_tag ev) (ev_bytes ev))
      then vr_fail v package ''evidence digest is inconsistent with engine tag and bytes''
      else vr_ok v package)"

definition check_full ::
  "sha \<Rightarrow> ('kp, 'n, 'c, 's, 'sp, 'pk) frost \<Rightarrow> u64 \<Rightarrow> AuxiliaryVerifier \<Rightarrow> AttestationPackage \<Rightarrow>
   StatementPayload \<Rightarrow> DctlsEvidence \<Rightarrow> DvRFOutput \<Rightarrow> DvRFInput \<Rightarrow> DigestBytes \<Rightarrow> byte list \<Rightarrow>
   byte list \<Rightarrow> UnixTimestamp \<Rightarrow> VerificationResult" where
  "check_full H F clock v package statement de out inp cert query response now =
     (let basic = check H v package statement now in
      if \<not> vr_approved basic then basic
      else case dvrf_verify H F inp out of
        Inl e \<Rightarrow> vr_fail v package (''DVRF proof verification failed: '' @ dvrf_error_display e)
      | Inr _ \<Rightarrow>
        (case verify_hsp_proof H clock (de_hsp_proof de) (do_value out) cert of
           Inl e \<Rightarrow> vr_fail v package (''HSP proof verification failed: '' @ dctls_error_display e)
         | Inr _ \<Rightarrow>
        (case verify_query_record H (de_query_record de) query response of
           Inl e \<Rightarrow> vr_fail v package (''QP proof verification failed: '' @ dctls_error_display e)
         | Inr _ \<Rightarrow>
        (case verify_pgp_proof H (de_pgp_proof de) (do_value out) (de_hsp_proof de) of
           Inl e \<Rightarrow> vr_fail v package (''PGP proof verification failed: '' @ dctls_error_display e)
         | Inr _ \<Rightarrow>
             if pk_randomness_value package \<noteq> do_value out
             then vr_fail v package ''package randomness_value does not match DVRF output''
             else
        (case verify_transcript_consistency H (de_hsp_proof de) (de_query_record de) (de_pgp_proof de) of
           Inl e \<Rightarrow> vr_fail v package (''transcript binding consistency check failed: '' @ dctls_error_display e)
         | Inr _ \<Rightarrow> vr_ok v package)))))"

section \<open>What the checks establish\<close>

lemma vr_simps [simp]: "vr_approved (vr_ok v p)" "\<not> vr_approved (vr_fail v p r)"
  by (simp_all add: vr_ok_def vr_fail_def)

text \<open>A package whose digests are all those of its own contents.\<close>

definition package_consistent :: "sha \<Rightarrow> AttestationPackage \<Rightarrow> StatementPayload \<Rightarrow> bool" where
  "package_consistent H p st \<longleftrightarrow>
     ctx_consistent H (pk_session_context p) \<and>
     statement_verify_digest H st (session_transcript_digest (pk_transcript_commitments p)) \<and>
     pk_package_digest p = DigestBytes (H (pk_pre (session_digest (pk_session_context p),
       pk_randomness_value p, session_transcript_digest (pk_transcript_commitments p),
       ev_evidence_digest (pk_evidence p)))) \<and>
     session_transcript_digest (pk_transcript_commitments p) = DigestBytes (H (std_pre (
       session_id (pk_session_context p), tc_digest (tcs_query (pk_transcript_commitments p)),
       tc_digest (tcs_response (pk_transcript_commitments p))))) \<and>
     evidence_consistent H (pk_evidence p)"

definition policy_allows :: "VerificationPolicy \<Rightarrow> AttestationPackage \<Rightarrow> StatementPayload \<Rightarrow> bool" where
  "policy_allows pol p st \<longleftrightarrow>
     ev_engine_tag (pk_evidence p) \<in> set (vp_allowed_engine_tags pol) \<and>
     (vp_allowed_statement_tags pol = [] \<or>
      st_derivation_tag st \<in> set (vp_allowed_statement_tags pol)) \<and>
     unat (secs (expires_at (pk_session_context p))) \<le>
       unat (secs (created_at (pk_session_context p))) + unat (vp_max_session_duration_secs pol)"

lemma saturating_sub_le:
  "saturating_sub a b > m \<longleftrightarrow> unat b + unat m < unat a"
proof (cases "b \<le> a")
  case True
  then have "unat (a - b) = unat a - unat b" by (simp add: unat_sub word_le_nat_alt)
  with True show ?thesis by (auto simp: saturating_sub_def word_less_nat_alt word_le_nat_alt)
next
  case False
  then show ?thesis by (auto simp: saturating_sub_def word_le_nat_alt)
qed

lemma check_approved_iff:
  "vr_approved (check H v p st now) \<longleftrightarrow>
     \<not> ctx_is_expired (pk_session_context p) now \<and> package_consistent H p st \<and>
     policy_allows (av_policy v) p st"
proof -
  have digests: "ch_finalize H (ctx_hasher (session_id c) (prover_id c) (coordinator_id c) (quorum c)
        (epoch c) (created_at c) (expires_at c) (nonce c)) = DigestBytes (H (ctx_fields_pre (ctx_fields c)))" for c
    by (simp add: ctx_fields_pre_def ctx_fields_def ch_finalize_def)
  have std: "ch_finalize H (std_hasher a b c) = DigestBytes (H (std_pre (a, b, c)))" for a b c
    by (simp add: std_pre_def ch_finalize_def)
  show ?thesis
    by (simp add: check_def Let_def digests std package_digest_pre saturating_sub_le
        package_consistent_def policy_allows_def ctx_consistent_def evidence_consistent_def not_less)
qed

lemma check_full_approved_iff:
  "vr_approved (check_full H F clock v p st de out inp cert q r now) \<longleftrightarrow>
     vr_approved (check H v p st now) \<and> dvrf_verify H F inp out = Inr () \<and>
     (\<exists>b. verify_all H clock de (do_value out) cert q r = Inr b) \<and>
     pk_randomness_value p = do_value out"
proof -
  have "(\<exists>b. verify_all H clock de (do_value out) cert q r = Inr b) \<longleftrightarrow>
      verify_hsp_proof H clock (de_hsp_proof de) (do_value out) cert = Inr () \<and>
      verify_query_record H (de_query_record de) q r = Inr () \<and>
      verify_pgp_proof H (de_pgp_proof de) (do_value out) (de_hsp_proof de) = Inr () \<and>
      (\<exists>b. verify_transcript_consistency H (de_hsp_proof de) (de_query_record de) (de_pgp_proof de) = Inr b)"
    by (simp only: verify_all_eq_Inr) blast
  then show ?thesis
    unfolding check_full_def Let_def
    by (cases "dvrf_verify H F inp out";
        cases "verify_hsp_proof H clock (de_hsp_proof de) (do_value out) cert";
        cases "verify_query_record H (de_query_record de) q r";
        cases "verify_pgp_proof H (de_pgp_proof de) (do_value out) (de_hsp_proof de)";
        cases "verify_transcript_consistency H (de_hsp_proof de) (de_query_record de) (de_pgp_proof de)")
      simp_all
qed

section \<open>Binding\<close>

text \<open>The byte strings hashed for one package.\<close>

definition pk_pres :: "AttestationPackage \<Rightarrow> byte list list" where
  "pk_pres p =
     [pk_pre (session_digest (pk_session_context p), pk_randomness_value p,
        session_transcript_digest (pk_transcript_commitments p), ev_evidence_digest (pk_evidence p)),
      ctx_fields_pre (ctx_fields (pk_session_context p)),
      std_pre (session_id (pk_session_context p), tc_digest (tcs_query (pk_transcript_commitments p)),
        tc_digest (tcs_response (pk_transcript_commitments p))),
      ev_pre (ev_engine_tag (pk_evidence p), ev_bytes (pk_evidence p))]"

definition pk_fits :: "AttestationPackage \<Rightarrow> bool" where
  "pk_fits p \<longleftrightarrow> quorum_fits (quorum (pk_session_context p)) \<and>
     ev_fits (ev_engine_tag (pk_evidence p), ev_bytes (pk_evidence p))"

lemma package_consistent_binds:
  assumes con: "package_consistent H p st" "package_consistent H p' st'"
    and dg: "pk_package_digest p = pk_package_digest p'"
    and fits: "pk_fits p" "pk_fits p'"
    and nc: "\<not> collides H (pk_pres p) (pk_pres p')"
  shows "pk_session_context p = pk_session_context p' \<and> pk_randomness_value p = pk_randomness_value p' \<and>
    tc_digest (tcs_query (pk_transcript_commitments p)) = tc_digest (tcs_query (pk_transcript_commitments p')) \<and>
    tc_digest (tcs_response (pk_transcript_commitments p)) = tc_digest (tcs_response (pk_transcript_commitments p')) \<and>
    pk_evidence p = pk_evidence p'"
proof -
  note free = nc[unfolded pk_pres_def collides_simps de_Morgan_disj not_collision]
  note c = con[unfolded package_consistent_def]
  have "pk_pre (session_digest (pk_session_context p), pk_randomness_value p,
        session_transcript_digest (pk_transcript_commitments p), ev_evidence_digest (pk_evidence p)) =
      pk_pre (session_digest (pk_session_context p'), pk_randomness_value p',
        session_transcript_digest (pk_transcript_commitments p'), ev_evidence_digest (pk_evidence p'))"
    using free[THEN conjunct1] dg c by simp
  from pkb.pre_inject[OF TrueI TrueI this]
  have f: "session_digest (pk_session_context p) = session_digest (pk_session_context p')"
    "pk_randomness_value p = pk_randomness_value p'"
    "session_transcript_digest (pk_transcript_commitments p) = session_transcript_digest (pk_transcript_commitments p')"
    "ev_evidence_digest (pk_evidence p) = ev_evidence_digest (pk_evidence p')" by simp_all
  have ctx: "pk_session_context p = pk_session_context p'"
    using ctx_consistent_binds[of H "pk_session_context p" "pk_session_context p'"] c f(1) fits
      free[THEN conjunct2, THEN conjunct1] by (auto simp: pk_fits_def collision_def)
  have "std_pre (session_id (pk_session_context p), tc_digest (tcs_query (pk_transcript_commitments p)),
        tc_digest (tcs_response (pk_transcript_commitments p))) =
      std_pre (session_id (pk_session_context p'), tc_digest (tcs_query (pk_transcript_commitments p')),
        tc_digest (tcs_response (pk_transcript_commitments p')))"
    using free[THEN conjunct2, THEN conjunct2, THEN conjunct1] c f(3) by simp
  from stdb.pre_inject[OF TrueI TrueI this]
  have tr: "tc_digest (tcs_query (pk_transcript_commitments p)) = tc_digest (tcs_query (pk_transcript_commitments p'))"
    "tc_digest (tcs_response (pk_transcript_commitments p)) = tc_digest (tcs_response (pk_transcript_commitments p'))"
    by simp_all
  have evd: "ev_evidence_digest (pk_evidence t) = DigestBytes (H (ev_pre (ev_engine_tag (pk_evidence t), ev_bytes (pk_evidence t))))"
    if "evidence_consistent H (pk_evidence t)" for t
    using that by (simp add: evidence_consistent_def ev_pre_def ch_finalize_def)
  have "ev_pre (ev_engine_tag (pk_evidence p), ev_bytes (pk_evidence p)) =
      ev_pre (ev_engine_tag (pk_evidence p'), ev_bytes (pk_evidence p'))"
    using free[THEN conjunct2, THEN conjunct2, THEN conjunct2, THEN conjunct1] f(4) evd[of p] evd[of p'] c by simp
  from evb.pre_inject[OF _ _ this] fits f(4)
  have "pk_evidence p = pk_evidence p'" by (cases "pk_evidence p"; cases "pk_evidence p'") (simp add: pk_fits_def)
  with ctx f tr show ?thesis by blast
qed

section \<open>Properties\<close>

definition pkg_ex :: "DigestBytes \<Rightarrow> byte list \<Rightarrow> AttestationPackage" where
  "pkg_ex rnd q = package_build (\<lambda>_. 7) ctx_ex rnd (tcs_build (\<lambda>_. 7) (SessionId 1) rnd q [3])
     (evidence_new (\<lambda>_. 7) DCTLS_ENGINE_TAG [])"

definition stm_ex :: StatementPayload where
  "stm_ex = statement_new (\<lambda>_. 7) [3] ''t'' (DigestBytes 7)"

definition av_ex :: AuxiliaryVerifier where
  "av_ex = \<lparr> av_verifier_id = VerifierId 4, av_policy = permissive \<rparr>"

lemma ctx_ex_facts [simp]:
  "ctx_consistent (\<lambda>_. 7) ctx_ex" "secs (expires_at ctx_ex) = 2000" "secs (created_at ctx_ex) = 1000"
  "session_id ctx_ex = SessionId 1" "quorum_fits (quorum ctx_ex)"
  by (simp add: ctx_ex_def ctx_new_consistent)
    (simp_all add: ctx_ex_def ctx_new_def Let_def quorum_fits_def word_le_nat_alt)

lemma check_ex: "vr_approved (check (\<lambda>_. 7) av_ex (pkg_ex rnd q) stm_ex (UnixTimestamp 1500))"
  unfolding check_approved_iff
  by (simp add: package_consistent_def policy_allows_def pkg_ex_def package_build_def ctx_is_expired_def
      has_expired_def stm_ex_def statement_verify_digest_def statement_new_def statement_digest_pre
      std_digest_pre package_digest_pre av_ex_def permissive_def evidence_new_def DCTLS_ENGINE_TAG_def
      word_less_nat_alt) (simp add: evidence_consistent_def ch_finalize_def)

text \<open>What an auxiliary verifier approves is determined by the package digest.  When \<open>check\<close>
  approves two packages with the same package digest, their session contexts, randomness values,
  query and response digests and evidence (tag and bytes) are equal, unless two corresponding
  hashed byte strings of the packages are a collision; and the session has not expired and lasts no
  longer than the policy allows.\<close>

theorem approved_package_digest_binds:
  assumes "vr_approved (check H v p st now)" "vr_approved (check H v' p' st' now')"
    and "pk_package_digest p = pk_package_digest p'" "pk_fits p" "pk_fits p'"
  shows "(pk_session_context p = pk_session_context p' \<and> pk_randomness_value p = pk_randomness_value p' \<and>
      tc_digest (tcs_query (pk_transcript_commitments p)) = tc_digest (tcs_query (pk_transcript_commitments p')) \<and>
      tc_digest (tcs_response (pk_transcript_commitments p)) = tc_digest (tcs_response (pk_transcript_commitments p')) \<and>
      pk_evidence p = pk_evidence p' \<or> collides H (pk_pres p) (pk_pres p')) \<and>
    unat (secs now) \<le> unat (secs (expires_at (pk_session_context p))) \<and>
    unat (secs (expires_at (pk_session_context p))) \<le>
      unat (secs (created_at (pk_session_context p))) + unat (vp_max_session_duration_secs (av_policy v))"
proof -
  note a = assms(1,2)[unfolded check_approved_iff]
  have "unat (secs now) \<le> unat (secs (expires_at (pk_session_context p)))"
    using a(1) by (simp add: ctx_is_expired_def has_expired_def word_less_nat_alt)
  moreover have "unat (secs (expires_at (pk_session_context p))) \<le>
      unat (secs (created_at (pk_session_context p))) + unat (vp_max_session_duration_secs (av_policy v))"
    using a(1) by (simp add: policy_allows_def)
  ultimately show ?thesis
    using package_consistent_binds[of H p st p' st'] a assms(3-5) by blast
qed

theorem approved_package_digest_binds_witness:
  "(pk_evidence (pkg_ex (DigestBytes 9) [1]) = pk_evidence (pkg_ex (DigestBytes 9) [1]) \<or>
     collides (\<lambda>_. 7 :: bytes32) (pk_pres (pkg_ex (DigestBytes 9) [1])) (pk_pres (pkg_ex (DigestBytes 9) [1]))) \<and>
   unat (secs (UnixTimestamp 1500)) \<le> unat (secs (expires_at (pk_session_context (pkg_ex (DigestBytes 9) [1]))))"
proof -
  have "pk_fits (pkg_ex (DigestBytes 9) [1])"
    by (simp add: pk_fits_def pkg_ex_def package_build_def ev_fits_def evidence_new_def DCTLS_ENGINE_TAG_def)
  then show ?thesis using approved_package_digest_binds[OF check_ex check_ex refl] by blast
qed

text \<open>C39. The proofs of the TLS session are not tied to the package.  Evidence that \<open>check_full\<close>
  accepted for one package is accepted for every other package that passes the nine basic checks
  and has the same randomness value, even when that package belongs to another session or commits
  to another query and response.\<close>

theorem check_full_evidence_transplant:
  assumes "vr_approved (check_full H F clock v p st de out inp cert q r now)"
    and "vr_approved (check H v' p' st' now')" and "pk_randomness_value p' = pk_randomness_value p"
  shows "vr_approved (check_full H F clock v' p' st' de out inp cert q r now')"
  using assms unfolding check_full_approved_iff by simp

theorem check_full_evidence_transplant_witness:
  "\<exists>de. vr_approved (check_full (\<lambda>_. 7) frost_ex 1000 av_ex (pkg_ex (DigestBytes 7) [9, 9]) stm_ex de
      (dvout_ex 77) alpha_ex ZERO [1, 2] [3] (UnixTimestamp 1500)) \<and>
     verify_query_record (\<lambda>_. 7) (de_query_record de) [1, 2] [3] = Inr ()"
proof -
  obtain de b where de: "verify_all (\<lambda>_. 7) 1000 de (DigestBytes 7) ZERO [1, 2] [3] = Inr b"
    using execute_dctls_accepted[of "\<lambda>_. 7" "\<lambda>_. None" ctx_ex "DigestBytes 7" "[1, 2]" "[3]" ZERO] by auto
  have rv: "pk_randomness_value (pkg_ex rnd q) = rnd" for rnd q by (simp add: pkg_ex_def package_build_def)
  have "vr_approved (check_full (\<lambda>_. 7) frost_ex 1000 av_ex (pkg_ex (DigestBytes 7) [1, 2]) stm_ex de
      (dvout_ex 77) alpha_ex ZERO [1, 2] [3] (UnixTimestamp 1500))"
    using de unfolding check_full_approved_iff
    by (simp add: check_ex dvout_ex_verifies rv) (simp add: dvout_ex_def)
  from check_full_evidence_transplant[OF this check_ex, of "DigestBytes 7" "[9, 9]"]
  have "vr_approved (check_full (\<lambda>_. 7) frost_ex 1000 av_ex (pkg_ex (DigestBytes 7) [9, 9]) stm_ex de
      (dvout_ex 77) alpha_ex ZERO [1, 2] [3] (UnixTimestamp 1500))" by (simp add: rv)
  then show ?thesis using verify_all_parts(2)[OF de] by blast
qed

end
