(* ===== verification/Coordinator.thy ===== *)
theory Coordinator
  imports Node_Iface Aux_Verify
begin

text \<open>
  The coordinator (\<open>node/src/coordinator.rs\<close>) and the auxiliary verifier of the prototype path
  (\<open>node/src/auxiliary.rs\<close>).

  The coordinator is generic over a session store, a randomness engine and an attestation engine:
  \<open>SessionStore\<close> is the trait of \<open>storage/src/traits.rs\<close> as a record of operations on the store state
  \<open>'st\<close>, and \<open>cn_generate\<close> and \<open>cn_execute\<close> are the methods of the two engines.  Wall clock, session
  identifier and nonce of a call are its \<open>session_inputs\<close>.  Every entry point is an action on the
  store, in the distributed paths on the store and on the world of the nodes.
\<close>

section \<open>State\<close>

record 'st SessionStore =
  st_insert :: "Session \<Rightarrow> 'st store_action"
  st_get :: "SessionId \<Rightarrow> 'st \<Rightarrow> (StorageError, Session) result"
  st_update_state :: "SessionId \<Rightarrow> SessionState \<Rightarrow> 'st store_action"
  st_record_approval :: "SessionId \<Rightarrow> VerifierId \<Rightarrow> 'st store_action"
  st_has_approved :: "SessionId \<Rightarrow> VerifierId \<Rightarrow> 'st \<Rightarrow> bool"
  st_remove :: "SessionId \<Rightarrow> 'st store_action"
  st_contains :: "SessionId \<Rightarrow> 'st \<Rightarrow> bool"

definition mem_store :: "InMemorySessionStore SessionStore" where
  "mem_store = \<lparr> st_insert = mem_insert, st_get = mem_get, st_update_state = mem_update_state,
     st_record_approval = mem_record_approval, st_has_approved = mem_has_approved,
     st_remove = mem_remove, st_contains = mem_contains \<rparr>"

record CoordinatorConfig =
  cfg_coordinator_id :: VerifierId
  cfg_epoch :: Epoch
  cfg_quorum :: QuorumSpec
  cfg_default_ttl_secs :: u64
  cfg_verifier_public_keys :: key_list

definition config_from_registry :: "VerifierId \<Rightarrow> QuorumSpec \<Rightarrow> u64 \<Rightarrow> ParticipantRegistry \<Rightarrow>
    CoordinatorConfig" where
  "config_from_registry coordinator q ttl registry = \<lparr> cfg_coordinator_id = coordinator,
     cfg_epoch = Epoch (re_u64 (reg_epoch registry)), cfg_quorum = q, cfg_default_ttl_secs = ttl,
     cfg_verifier_public_keys = active_verifier_keys registry \<rparr>"

record PreparedSession =
  ps_session_id :: SessionId
  ps_session_ctx :: SessionContext
  ps_session :: Session
  ps_now :: UnixTimestamp
  ps_expires_at :: UnixTimestamp
  ps_randomness_output :: RandomnessOutput
  ps_transcript_commitments :: TranscriptCommitments
  ps_evidence :: ExportableEvidence
  ps_package :: AttestationPackage
  ps_statement :: StatementPayload
  ps_randomness_binding :: RandomnessBinding
  ps_coordinator_evidence :: CoordinatorEvidence
  ps_envelope_digest :: DigestBytes
  ps_signed_digest :: DigestBytes

record 'st CoordinatorNode =
  cn_config :: CoordinatorConfig
  cn_store :: "'st SessionStore"
  cn_generate :: "SessionId \<Rightarrow> Nonce \<Rightarrow> Epoch \<Rightarrow> VerifierId list \<Rightarrow> (CryptoError, RandomnessOutput) result"
  cn_execute :: "SessionContext \<Rightarrow> DigestBytes \<Rightarrow> byte list \<Rightarrow> byte list \<Rightarrow>
    (AttestationError, TranscriptCommitments \<times> ExportableEvidence) result"

record session_inputs =
  in_now :: UnixTimestamp
  in_session_id :: SessionId
  in_nonce :: Nonce

section \<open>Session setup\<close>

definition session_context :: "sha \<Rightarrow> CoordinatorConfig \<Rightarrow> session_inputs \<Rightarrow> AttestationRequest \<Rightarrow> SessionContext" where
  "session_context H cfg i req = ctx_new H (in_session_id i) (ar_prover_id req) (cfg_coordinator_id cfg)
     (cfg_quorum cfg) (cfg_epoch cfg) (in_now i)
     (UnixTimestamp (secs (in_now i) + min (ar_requested_ttl_secs req) (cfg_default_ttl_secs cfg)))
     (in_nonce i)"

definition prepare_session :: "sha \<Rightarrow> 'st CoordinatorNode \<Rightarrow> session_inputs \<Rightarrow> AttestationRequest \<Rightarrow>
    byte list \<Rightarrow> ('st, NodeError, PreparedSession) action" where
  "prepare_session H C i req response = (
     let cfg = cn_config C; S = cn_store C; now = in_now i;
         expires_at = UnixTimestamp (secs now + min (ar_requested_ttl_secs req) (cfg_default_ttl_secs cfg));
         sid = in_session_id i;
         session_ctx = session_context H cfg i req;
         session0 = session_new session_ctx in
     abind (amap_err Storage (st_insert S session0)) (\<lambda>_.
     abind (alift (map_err Attestation (transition Active session0))) (\<lambda>session1.
     abind (amap_err Storage (st_update_state S sid Active)) (\<lambda>_.
     abind (alift (map_err Crypto (cn_generate C sid (in_nonce i) (cfg_epoch cfg) (verifiers (cfg_quorum cfg)))))
       (\<lambda>randomness_output.
     abind (alift (map_err Attestation (transition Attesting session1))) (\<lambda>session2.
     abind (amap_err Storage (st_update_state S sid Attesting)) (\<lambda>_.
     abind (alift (map_err Attestation (cn_execute C session_ctx (ro_value randomness_output) (ar_query req) response)))
       (\<lambda>(transcript_commitments, evidence).
     let package = package_build H session_ctx (ro_value randomness_output) transcript_commitments evidence;
         statement = statement_new H response (ar_statement_tag req)
           (session_transcript_digest transcript_commitments);
         randomness_binding = \<lparr> rb_id = ro_id randomness_output, rb_value = ro_value randomness_output,
           rb_epoch = ro_epoch randomness_output,
           rb_session_binding = ro_session_binding randomness_output \<rparr>;
         coordinator_evidence = \<lparr> ce_engine_tag = ev_engine_tag evidence,
           ce_evidence_digest = ev_evidence_digest evidence,
           ce_package_digest = pk_package_digest package \<rparr>;
         envelope_digest = envelope_compute_digest H session_ctx randomness_binding transcript_commitments
           statement coordinator_evidence
     in alift (Inr \<lparr> ps_session_id = sid, ps_session_ctx = session_ctx, ps_session = session2, ps_now = now,
          ps_expires_at = expires_at, ps_randomness_output = randomness_output,
          ps_transcript_commitments = transcript_commitments, ps_evidence = evidence, ps_package = package,
          ps_statement = statement, ps_randomness_binding = randomness_binding,
          ps_coordinator_evidence = coordinator_evidence, ps_envelope_digest = envelope_digest,
          ps_signed_digest = approval_signed_digest H envelope_digest \<rparr>)))))))))"

text \<open>The two calls that move a session: \<open>session.transition(s)?\<close> and \<open>store.update_state(id, s)?\<close>.\<close>

definition advance :: "'st SessionStore \<Rightarrow> SessionId \<Rightarrow> SessionState \<Rightarrow> Session \<Rightarrow> ('st, NodeError, Session) action" where
  "advance S sid s session = abind (alift (map_err Attestation (transition s session))) (\<lambda>session'.
     abind (amap_err Storage (st_update_state S sid s)) (\<lambda>_. alift (Inr session')))"

section \<open>The prototype path\<close>

record ThresholdSigner =
  ts_verifier_id :: VerifierId
  ts_sign_partial :: "byte list \<Rightarrow> (CryptoError, PartialSignature) result"

fun collect_partials :: "'st SessionStore \<Rightarrow> SessionId \<Rightarrow> DigestBytes \<Rightarrow> ThresholdSigner list \<Rightarrow>
    PartialSignature list \<Rightarrow> ('st, NodeError, PartialSignature list) action" where
  "collect_partials S sid sd [] partials = alift (Inr partials)"
| "collect_partials S sid sd (signer # rest) partials = (\<lambda>m.
     if st_has_approved S sid (ts_verifier_id signer) m then collect_partials S sid sd rest partials m
     else (case ts_sign_partial signer (digest_enc sd) of
        Inr partial \<Rightarrow> abind (amap_err Storage (st_record_approval S sid (ts_verifier_id signer)))
          (\<lambda>_. collect_partials S sid sd rest (partials @ [partial])) m
      | Inl e \<Rightarrow> collect_partials S sid sd rest partials m))"

definition attest :: "sha \<Rightarrow> ed25519 \<Rightarrow> 'st CoordinatorNode \<Rightarrow> session_inputs \<Rightarrow> AttestationRequest \<Rightarrow>
    byte list \<Rightarrow> ThresholdSigner list \<Rightarrow> ('st, NodeError, AttestationResponse) action" where
  "attest H ed C i req response aux_signers =
     abind (prepare_session H C i req response) (\<lambda>p.
     abind (advance (cn_store C) (ps_session_id p) Collecting (ps_session p)) (\<lambda>session.
     abind (collect_partials (cn_store C) (ps_session_id p) (ps_signed_digest p) aux_signers []) (\<lambda>partials.
     abind (alift (map_err Crypto (aggregate_signatures H ed partials (cfg_quorum (cn_config C))
        (ps_envelope_digest p) (cfg_verifier_public_keys (cn_config C))))) (\<lambda>threshold_approval.
     let envelope = envelope_assemble H (ps_session_ctx p) (ps_randomness_binding p)
           (ps_transcript_commitments p) (ps_statement p) (ps_coordinator_evidence p) threshold_approval in
     abind (advance (cn_store C) (ps_session_id p) Finalized session) (\<lambda>_. alift (Inr (Success envelope)))))))"

section \<open>The FROST paths\<close>

record FrostAttestationEnvelope =
  fae_session :: SessionContext
  fae_randomness :: RandomnessBinding
  fae_transcript :: TranscriptCommitments
  fae_statement :: StatementPayload
  fae_coordinator_evidence :: CoordinatorEvidence
  fae_frost_approval :: FrostThresholdApproval
  fae_envelope_digest :: DigestBytes

definition frost_envelope :: "PreparedSession \<Rightarrow> FrostThresholdApproval \<Rightarrow> FrostAttestationEnvelope" where
  "frost_envelope p a = \<lparr> fae_session = ps_session_ctx p, fae_randomness = ps_randomness_binding p,
     fae_transcript = ps_transcript_commitments p, fae_statement = ps_statement p,
     fae_coordinator_evidence = ps_coordinator_evidence p, fae_frost_approval = a,
     fae_envelope_digest = ps_envelope_digest p \<rparr>"

text \<open>The failure exits: the store is told the reason, then the error is returned.\<close>

definition fail_with :: "'st SessionStore \<Rightarrow> SessionId \<Rightarrow> string \<Rightarrow> NodeError \<Rightarrow> ('st, NodeError, 'a) action" where
  "fail_with S sid reason e =
     abind (amap_err Storage (st_update_state S sid (Failed reason))) (\<lambda>_. alift (Inl e))"

definition quorum_guard :: "'st CoordinatorNode \<Rightarrow> SessionId \<Rightarrow> string \<Rightarrow> nat \<Rightarrow> ('st, NodeError, unit) action" where
  "quorum_guard C sid what n = (let t = threshold (cfg_quorum (cn_config C)) in
     if n < t
     then fail_with (cn_store C) sid (''insufficient '' @ what @ '': need '' @ dec_str t @ '', got '' @ dec_str n)
       (QuorumNotMet n t)
     else alift (Inr ()))"

definition record_approvals :: "'st SessionStore \<Rightarrow> SessionId \<Rightarrow> VerifierId list \<Rightarrow> ('st, NodeError, unit) action" where
  "record_approvals S sid = aeach (\<lambda>v. amap_err Storage (st_record_approval S sid v))"

definition attest_frost :: "sha \<Rightarrow> ('kp, 'n, 'c, 's, 'sp, 'pk) frost \<Rightarrow> 'st CoordinatorNode \<Rightarrow> session_inputs \<Rightarrow>
    (nat \<Rightarrow> rng) \<Rightarrow> AttestationRequest \<Rightarrow> byte list \<Rightarrow> 'kp FrostParticipant list \<Rightarrow> 'pk FrostGroupKey \<Rightarrow>
    ('st, NodeError, FrostAttestationEnvelope) action" where
  "attest_frost H F C i g req response frost_signers gk =
     abind (prepare_session H C i req response) (\<lambda>p.
     abind (advance (cn_store C) (ps_session_id p) Collecting (ps_session p)) (\<lambda>session.
     abind (quorum_guard C (ps_session_id p) ''FROST signers'' (length frost_signers)) (\<lambda>_.
     abind (alift (map_err Crypto (frost_collect_approval F g frost_signers (ps_signed_digest p) gk
        (cfg_quorum (cn_config C))))) (\<lambda>frost_approval.
     abind (record_approvals (cn_store C) (ps_session_id p) (map fp_verifier_id frost_signers)) (\<lambda>_.
     abind (advance (cn_store C) (ps_session_id p) Finalized session) (\<lambda>_.
     alift (Inr (frost_envelope p frost_approval))))))))"

text \<open>The two loops over the nodes; a failure carries the node's identity.\<close>

fun round1_all :: "'w FrostNodeTransport list \<Rightarrow> FrostRound1Request \<Rightarrow> UnixTimestamp \<Rightarrow>
    ('w, VerifierId \<times> NodeError, FrostRound1Response list) action" where
  "round1_all [] req now = alift (Inr [])"
| "round1_all (t # ts) req now = abind (\<lambda>w. amap_err (\<lambda>e. (tr_verifier_id t w, e)) (tr_frost_round1 t req now) w)
     (\<lambda>resp. abind (round1_all ts req now) (\<lambda>rest. alift (Inr (resp # rest))))"

fun round2_all :: "'w FrostNodeTransport list \<Rightarrow> FrostRound2Request \<Rightarrow>
    ('w, VerifierId \<times> NodeError, (VerifierId \<times> byte list) list) action" where
  "round2_all [] req = alift (Inr [])"
| "round2_all (t # ts) req = abind (\<lambda>w. amap_err (\<lambda>e. (tr_verifier_id t w, e)) (tr_frost_round2 t req) w)
     (\<lambda>resp. abind (round2_all ts req) (\<lambda>rest.
        alift (Inr ((s2_verifier_id resp, s2_signature_share_bytes resp) # rest))))"

text \<open>A loop over the nodes; when it fails, the session is failed before the error is returned.\<close>

definition or_fail :: "'st SessionStore \<Rightarrow> SessionId \<Rightarrow> string \<Rightarrow> ('w, VerifierId \<times> NodeError, 'a) action \<Rightarrow>
    ('st \<times> 'w, NodeError, 'a) action" where
  "or_fail S sid round m st = (case m (snd st) of
     (Inr a, w') \<Rightarrow> (Inr a, (fst st, w'))
   | (Inl (v, e), w') \<Rightarrow> run_fst (fail_with S sid
        (round @ '' failed for verifier '' @ vid_display v @ '': '' @ node_error_display e) e) (fst st, w'))"

definition round1_request :: "CoordinatorConfig \<Rightarrow> PreparedSession \<Rightarrow> VerifierId list \<Rightarrow> RegistryEpoch \<Rightarrow>
    FrostRound1Request" where
  "round1_request cfg p signer_set ep = \<lparr> r1_session_id = ps_session_id p, r1_coordinator_id = cfg_coordinator_id cfg,
     r1_signed_digest = ps_signed_digest p, r1_envelope_digest = ps_envelope_digest p,
     r1_signer_set = signer_set, r1_round_expires_at = ps_expires_at p, r1_registry_epoch = ep,
     r1_hsp_proof_bytes = [], r1_hsp_pvk_bytes = [], r1_dctls_evidence_bytes = [],
     r1_rand_value_bytes = [], r1_server_cert_hash_bytes = [] \<rparr>"

text \<open>The common part of the distributed paths, from the \<open>Collecting\<close> state on.\<close>

definition distributed_signing :: "('kp, 'n, 'c, 's, 'sp, 'pk) frost \<Rightarrow> 'st CoordinatorNode \<Rightarrow> string \<Rightarrow>
    'w FrostNodeTransport list \<Rightarrow> 'pk FrostGroupKey \<Rightarrow> RegistryEpoch \<Rightarrow> PreparedSession \<Rightarrow>
    ('st \<times> 'w, NodeError, FrostAttestationEnvelope) action" where
  "distributed_signing F C what transports gk ep p = (
     let S = cn_store C; sid = ps_session_id p in
     abind (run_fst (advance S sid Collecting (ps_session p))) (\<lambda>session.
     abind (run_fst (quorum_guard C sid what (length transports))) (\<lambda>_.
     abind (aget (\<lambda>st. map (\<lambda>t. tr_verifier_id t (snd st)) transports)) (\<lambda>signer_set.
     abind (or_fail S sid ''round-1'' (round1_all transports (round1_request (cn_config C) p signer_set ep) (ps_now p)))
       (\<lambda>round1_responses.
     abind (alift (assemble_signing_package_from_responses F round1_responses (ps_signed_digest p) gk))
       (\<lambda>(signing_package, signing_package_bytes).
     abind (or_fail S sid ''round-2'' (round2_all transports \<lparr> r2_session_id = sid,
         r2_coordinator_id = cfg_coordinator_id (cn_config C),
         r2_signing_package_bytes = signing_package_bytes, r2_signer_set = signer_set \<rparr>)) (\<lambda>share_entries.
     abind (alift (map_err Crypto (aggregate_signature_shares F signing_package share_entries gk (ps_signed_digest p))))
       (\<lambda>frost_approval.
     abind (run_fst (record_approvals S sid signer_set)) (\<lambda>_.
     abind (run_fst (advance S sid Finalized session)) (\<lambda>_.
     alift (Inr (frost_envelope p frost_approval))))))))))))"

definition attest_frost_distributed_over_transport :: "sha \<Rightarrow> ('kp, 'n, 'c, 's, 'sp, 'pk) frost \<Rightarrow>
    'st CoordinatorNode \<Rightarrow> session_inputs \<Rightarrow> AttestationRequest \<Rightarrow> byte list \<Rightarrow> 'w FrostNodeTransport list \<Rightarrow>
    'pk FrostGroupKey \<Rightarrow> ('st \<times> 'w, NodeError, FrostAttestationEnvelope) action" where
  "attest_frost_distributed_over_transport H F C i req response transports gk =
     abind (run_fst (prepare_session H C i req response))
       (distributed_signing F C ''transports'' transports gk registry_GENESIS)"

text \<open>Direct calls: a node is given by its address and the inputs of its calls, and is reached
  through its in-process handle.\<close>

definition direct :: "sha \<Rightarrow> ('kp, 'n, 'c, 's, 'sp, 'pk) frost \<Rightarrow>
    ('b, 'u8, 'u32, 'f, 'fr) r1cs \<Rightarrow> ('fr, 'gpk, 'vk, 'pvk, 'pf, 'rng) groth \<Rightarrow>
    (byte list \<Rightarrow> (string, HspZkProof) result) \<Rightarrow> (byte list \<Rightarrow> (string, DctlsEvidence) result) \<Rightarrow>
    (nat \<times> node_inputs) list \<Rightarrow> ('kp, 'n) heap FrostNodeTransport list" where
  "direct H F G K hj ej = map (\<lambda>(a, ni). InProcessTransport H F G K hj ej a ni)"

definition attest_frost_distributed_inner :: "sha \<Rightarrow> ('kp, 'n, 'c, 's, 'sp, 'pk) frost \<Rightarrow>
    ('b, 'u8, 'u32, 'f, 'fr) r1cs \<Rightarrow> ('fr, 'gpk, 'vk, 'pvk, 'pf, 'rng) groth \<Rightarrow>
    (byte list \<Rightarrow> (string, HspZkProof) result) \<Rightarrow> (byte list \<Rightarrow> (string, DctlsEvidence) result) \<Rightarrow>
    'st CoordinatorNode \<Rightarrow> session_inputs \<Rightarrow> AttestationRequest \<Rightarrow> byte list \<Rightarrow> (nat \<times> node_inputs) list \<Rightarrow>
    'pk FrostGroupKey \<Rightarrow> RegistryEpoch \<Rightarrow> ('st \<times> ('kp, 'n) heap, NodeError, FrostAttestationEnvelope) action" where
  "attest_frost_distributed_inner H F G K hj ej C i req response aux_nodes gk ep =
     abind (run_fst (prepare_session H C i req response))
       (distributed_signing F C ''aux nodes'' (direct H F G K hj ej aux_nodes) gk ep)"

definition attest_frost_distributed :: "sha \<Rightarrow> ('kp, 'n, 'c, 's, 'sp, 'pk) frost \<Rightarrow>
    ('b, 'u8, 'u32, 'f, 'fr) r1cs \<Rightarrow> ('fr, 'gpk, 'vk, 'pvk, 'pf, 'rng) groth \<Rightarrow>
    (byte list \<Rightarrow> (string, HspZkProof) result) \<Rightarrow> (byte list \<Rightarrow> (string, DctlsEvidence) result) \<Rightarrow>
    'st CoordinatorNode \<Rightarrow> session_inputs \<Rightarrow> AttestationRequest \<Rightarrow> byte list \<Rightarrow> (nat \<times> node_inputs) list \<Rightarrow>
    'pk FrostGroupKey \<Rightarrow> ('st \<times> ('kp, 'n) heap, NodeError, FrostAttestationEnvelope) action" where
  "attest_frost_distributed H F G K hj ej C i req response aux_nodes gk =
     attest_frost_distributed_inner H F G K hj ej C i req response aux_nodes gk registry_GENESIS"

definition attest_frost_distributed_with_registry :: "sha \<Rightarrow> ('kp, 'n, 'c, 's, 'sp, 'pk) frost \<Rightarrow>
    ('b, 'u8, 'u32, 'f, 'fr) r1cs \<Rightarrow> ('fr, 'gpk, 'vk, 'pvk, 'pf, 'rng) groth \<Rightarrow>
    (byte list \<Rightarrow> (string, HspZkProof) result) \<Rightarrow> (byte list \<Rightarrow> (string, DctlsEvidence) result) \<Rightarrow>
    'st CoordinatorNode \<Rightarrow> session_inputs \<Rightarrow> AttestationRequest \<Rightarrow> byte list \<Rightarrow> (nat \<times> node_inputs) list \<Rightarrow>
    'pk FrostGroupKey \<Rightarrow> ParticipantRegistry \<Rightarrow> RegistryEpoch \<Rightarrow>
    ('st \<times> ('kp, 'n) heap, NodeError, FrostAttestationEnvelope) action" where
  "attest_frost_distributed_with_registry H F G K hj ej C i req response aux_nodes gk registry expected_epoch = (\<lambda>st.
     if expected_epoch \<noteq> reg_epoch registry
     then (Inl (SigningAdmission (''registry epoch mismatch: expected '' @ epoch_debug expected_epoch @
             '', registry is at '' @ epoch_debug (reg_epoch registry))), st)
     else (case check_ceremony_admission registry expected_epoch
             (map (\<lambda>(a, _). fa_verifier_id (snd st a)) aux_nodes) of
        Inl e \<Rightarrow> (Inl (SigningAdmission (''signing admission failed: '' @ registry_error_display e)), st)
      | Inr _ \<Rightarrow> attest_frost_distributed_inner H F G K hj ej C i req response aux_nodes gk expected_epoch st))"

section \<open>The auxiliary verifier of the prototype path\<close>

record AuxiliaryVerifierNode =
  avn_verifier :: AuxiliaryVerifier
  avn_signer :: VerifierKeyPair

definition avn_new :: "VerifierKeyPair \<Rightarrow> VerificationPolicy \<Rightarrow> AuxiliaryVerifierNode" where
  "avn_new signer policy = \<lparr> avn_verifier = \<lparr> av_verifier_id = kp_verifier_id signer, av_policy = policy \<rparr>,
     avn_signer = signer \<rparr>"

definition avn_verifier_id :: "AuxiliaryVerifierNode \<Rightarrow> VerifierId" where
  "avn_verifier_id n = kp_verifier_id (avn_signer n)"

definition verify_and_sign :: "sha \<Rightarrow> ed25519 \<Rightarrow> AuxiliaryVerifierNode \<Rightarrow> AttestationPackage \<Rightarrow>
    StatementPayload \<Rightarrow> DigestBytes \<Rightarrow> UnixTimestamp \<Rightarrow> (NodeError, PartialSignature) result" where
  "verify_and_sign H ed n package statement claimed now = (
     let result = check H (avn_verifier n) package statement now in
     if \<not> vr_approved result
     then Inl (Attestation (EvidenceVerificationFailed
            (case vr_failure_reason result of None \<Rightarrow> [] | Some r \<Rightarrow> r)))
     else map_err Crypto (sign_partial ed (avn_signer n) (digest_enc (approval_signed_digest H claimed))))"

definition avn_signer_iface :: "ed25519 \<Rightarrow> AuxiliaryVerifierNode \<Rightarrow> ThresholdSigner" where
  "avn_signer_iface ed n = \<lparr> ts_verifier_id = avn_verifier_id n, ts_sign_partial = sign_partial ed (avn_signer n) \<rparr>"

section \<open>The coordinator as a client of the store contract\<close>

text \<open>The store is in order, holds the session \<open>s\<close> with the approvals \<open>ap\<close> under \<open>sid\<close>, and is otherwise
  \<open>base\<close>.\<close>

definition holds :: "('st \<Rightarrow> bool) \<Rightarrow> ('st \<Rightarrow> astore) \<Rightarrow> astore \<Rightarrow> SessionId \<Rightarrow> Session \<Rightarrow> VerifierId set \<Rightarrow> 'st \<Rightarrow> bool" where
  "holds ok view base sid s ap m \<longleftrightarrow> ok m \<and> view m = base(sid \<mapsto> (s, ap))"

definition prepared :: "sha \<Rightarrow> 'st CoordinatorNode \<Rightarrow> session_inputs \<Rightarrow> AttestationRequest \<Rightarrow> byte list \<Rightarrow>
    PreparedSession \<Rightarrow> bool" where
  "prepared H C i req response p \<longleftrightarrow>
     ps_session_id p = in_session_id i \<and> ps_session_ctx p = session_context H (cn_config C) i req \<and>
     ps_session p = \<lparr> s_context = session_context H (cn_config C) i req, s_state = Attesting \<rparr> \<and>
     ps_now p = in_now i \<and>
     ps_expires_at p = UnixTimestamp (secs (in_now i) +
       min (ar_requested_ttl_secs req) (cfg_default_ttl_secs (cn_config C))) \<and>
     cn_generate C (in_session_id i) (in_nonce i) (cfg_epoch (cn_config C)) (verifiers (cfg_quorum (cn_config C))) =
       Inr (ps_randomness_output p) \<and>
     cn_execute C (ps_session_ctx p) (ro_value (ps_randomness_output p)) (ar_query req) response =
       Inr (ps_transcript_commitments p, ps_evidence p) \<and>
     rb_value (ps_randomness_binding p) = ro_value (ps_randomness_output p) \<and>
     ps_statement p = statement_new H response (ar_statement_tag req)
       (session_transcript_digest (ps_transcript_commitments p)) \<and>
     ps_envelope_digest p = envelope_compute_digest H (ps_session_ctx p) (ps_randomness_binding p)
       (ps_transcript_commitments p) (ps_statement p) (ps_coordinator_evidence p) \<and>
     ps_signed_digest p = approval_signed_digest H (ps_envelope_digest p)"

text \<open>Both engines return a value.\<close>

definition engines_succeed :: "sha \<Rightarrow> 'st CoordinatorNode \<Rightarrow> session_inputs \<Rightarrow> AttestationRequest \<Rightarrow> byte list \<Rightarrow> bool" where
  "engines_succeed H C i req response \<longleftrightarrow>
     (case cn_generate C (in_session_id i) (in_nonce i) (cfg_epoch (cn_config C)) (verifiers (cfg_quorum (cn_config C))) of
        Inl _ \<Rightarrow> False
      | Inr out \<Rightarrow> is_ok (cn_execute C (session_context H (cn_config C) i req) (ro_value out) (ar_query req) response))"

text \<open>The two rounds of a distributed signing and its aggregation succeed, for different signers, enough of them.\<close>

definition signing_succeeds :: "('kp, 'n, 'c, 's, 'sp, 'pk) frost \<Rightarrow> 'st CoordinatorNode \<Rightarrow>
    'w FrostNodeTransport list \<Rightarrow> 'pk FrostGroupKey \<Rightarrow> RegistryEpoch \<Rightarrow> PreparedSession \<Rightarrow> 'w \<Rightarrow> bool" where
  "signing_succeeds F C ts gk ep p w \<longleftrightarrow> (
     let ids = map (\<lambda>t. tr_verifier_id t w) ts in
     threshold (cfg_quorum (cn_config C)) \<le> length ts \<and> distinct ids \<and>
     (case round1_all ts (round1_request (cn_config C) p ids ep) (ps_now p) w of
        (Inl _, _) \<Rightarrow> False
      | (Inr rs, w1) \<Rightarrow> (case assemble_signing_package_from_responses F rs (ps_signed_digest p) gk of
          Inl _ \<Rightarrow> False
        | Inr (sp, bytes) \<Rightarrow> (case round2_all ts \<lparr> r2_session_id = ps_session_id p,
              r2_coordinator_id = cfg_coordinator_id (cn_config C),
              r2_signing_package_bytes = bytes, r2_signer_set = ids \<rparr> w1 of
            (Inl _, _) \<Rightarrow> False
          | (Inr ss, _) \<Rightarrow> is_ok (aggregate_signature_shares F sp ss gk (ps_signed_digest p))))))"

text \<open>The signers whose partial signatures the collecting loop keeps, as a pure function.\<close>

fun used_signers :: "VerifierId set \<Rightarrow> DigestBytes \<Rightarrow> ThresholdSigner list \<Rightarrow> (VerifierId \<times> PartialSignature) list" where
  "used_signers ap sd [] = []"
| "used_signers ap sd (t # ts) =
     (if ts_verifier_id t \<in> ap then used_signers ap sd ts
      else (case ts_sign_partial t (digest_enc sd) of
         Inr p \<Rightarrow> (ts_verifier_id t, p) # used_signers (insert (ts_verifier_id t) ap) sd ts
       | Inl e \<Rightarrow> used_signers ap sd ts))"

locale stored_sessions = session_store "st_insert S" "st_get S" "st_update_state S" "st_record_approval S"
    "st_has_approved S" "st_remove S" "st_contains S" inv abs
  for S :: "'st SessionStore" and inv :: "'st \<Rightarrow> bool" and abs :: "'st \<Rightarrow> astore"
begin

abbreviation hold :: "astore \<Rightarrow> SessionId \<Rightarrow> Session \<Rightarrow> VerifierId set \<Rightarrow> 'st \<Rightarrow> bool" where
  "hold \<equiv> holds inv abs"

lemma wp_insert:
  assumes "inv m" "abs m (sid_of s) = None" "\<And>m'. hold (abs m) (sid_of s) s {} m' \<Longrightarrow> Q (Inr ()) m'"
  shows "wp (st_insert S s) Q m"
  using insert_sim[OF assms(1), of s] assms(2)
  by (cases "st_insert S s m") (auto simp: a_insert_def holds_def wp_def intro!: assms(3))

lemma wp_update:
  assumes "hold base sid s ap m" "\<not> is_terminal (s_state s)"
    "\<And>m'. hold base sid (s\<lparr> s_state := st \<rparr>) ap m' \<Longrightarrow> Q (Inr ()) m'"
  shows "wp (st_update_state S sid st) Q m"
  using update_sim[of m sid st] assms(1,2)
  by (cases "st_update_state S sid st m") (auto simp: a_update_state_def holds_def wp_def intro!: assms(3))

lemma wp_approval:
  assumes "hold base sid s ap m" "\<not> is_terminal (s_state s)"
    "v \<notin> ap \<Longrightarrow> (\<And>m'. hold base sid s (insert v ap) m' \<Longrightarrow> Q (Inr ()) m')"
    "v \<in> ap \<Longrightarrow> (\<And>m'. hold base sid s ap m' \<Longrightarrow> Q (Inl (DuplicateApproval (vid_display v))) m')"
  shows "wp (st_record_approval S sid v) Q m"
  using approval_sim[of m sid v] assms(1,2)
  by (cases "st_record_approval S sid v m"; cases "v \<in> ap")
    (auto simp: a_record_approval_def holds_def wp_def intro!: assms(3,4))

lemma has_approved_holds: "hold base sid s ap m \<Longrightarrow> st_has_approved S sid v m \<longleftrightarrow> v \<in> ap"
  by (auto simp: holds_def has_approved_sim a_has_approved_def)

lemma wp_advance:
  assumes "hold base sid s ap m" "can_transition_to (s_state s) st"
    "\<And>m'. hold base sid (s\<lparr> s_state := st \<rparr>) ap m' \<Longrightarrow> Q (Inr (s\<lparr> s_state := st \<rparr>)) m'"
  shows "wp (advance S sid st s) Q m"
proof -
  have "\<not> is_terminal (s_state s)" using assms(2) by (auto simp: can_transition_to_def split: if_splits)
  then show ?thesis
    using assms by (auto simp: advance_def transition_def wp_simps intro!: wp_update[OF assms(1)])
qed

lemma wp_collect_partials:
  "hold base sid s ap m \<Longrightarrow> \<not> is_terminal (s_state s) \<Longrightarrow>
   (\<And>m'. hold base sid s (ap \<union> fst ` set (used_signers ap sd ts)) m' \<Longrightarrow>
      Q (Inr (ps @ map snd (used_signers ap sd ts))) m') \<Longrightarrow>
   wp (collect_partials S sid sd ts ps) Q m"
proof (induction ts arbitrary: ap ps m)
  case Nil
  then show ?case by (simp add: wp_simps)
next
  case (Cons t ts)
  note H = has_approved_holds[OF Cons.prems(1)]
  show ?case
  proof (cases "ts_verifier_id t \<in> ap")
    case True
    then have "wp (collect_partials S sid sd (t # ts) ps) Q m = wp (collect_partials S sid sd ts ps) Q m"
      using H by (simp add: wp_def)
    with True show ?thesis using Cons.IH[OF Cons.prems(1,2), of ps] Cons.prems(3) by simp
  next
    case False
    show ?thesis
    proof (cases "ts_sign_partial t (digest_enc sd)")
      case (Inl e)
      then have "wp (collect_partials S sid sd (t # ts) ps) Q m = wp (collect_partials S sid sd ts ps) Q m"
        using H False by (simp add: wp_def)
      with Inl False show ?thesis using Cons.IH[OF Cons.prems(1,2), of ps] Cons.prems(3) by simp
    next
      case (Inr p)
      have *: "wp (collect_partials S sid sd (t # ts) ps) Q m =
          wp (abind (amap_err Storage (st_record_approval S sid (ts_verifier_id t)))
            (\<lambda>_. collect_partials S sid sd ts (ps @ [p]))) Q m"
        using H False Inr by (simp add: wp_def)
      have "wp (collect_partials S sid sd ts (ps @ [p])) Q m'"
        if "hold base sid s (insert (ts_verifier_id t) ap) m'" for m'
        by (rule Cons.IH[OF that Cons.prems(2)]) (use Cons.prems(3) False Inr in simp)
      then show ?thesis
        unfolding * wp_simps by (intro wp_approval[OF Cons.prems(1,2)]) (use False in auto)
    qed
  qed
qed

lemma wp_prepare:
  assumes "inv m" "abs m (in_session_id i) = None" "cn_store C = S"
  shows "wp (prepare_session H C i req response) (\<lambda>r m'. case r of
      Inr p \<Rightarrow> prepared H C i req response p \<and>
        hold (abs m) (in_session_id i) \<lparr> s_context = session_context H (cn_config C) i req, s_state = Attesting \<rparr> {} m'
    | Inl e \<Rightarrow> \<exists>st. \<not> is_terminal st \<and> \<not> engines_succeed H C i req response \<and>
        hold (abs m) (in_session_id i) \<lparr> s_context = session_context H (cn_config C) i req, s_state = st \<rparr> {} m') m"
proof -
  have sid: "sid_of \<lparr> s_context = session_context H (cn_config C) i req, s_state = st \<rparr> = in_session_id i" for st
    by (simp add: sid_of_def session_context_def ctx_new_def Let_def)
  note steps = transition_def can_transition_to_def session_new_def
  show ?thesis
    unfolding prepare_session_def Let_def assms(3) wp_simps
    apply (rule wp_insert[OF assms(1)])
     apply (simp add: sid assms(2) session_new_def)
    apply (simp add: sid steps)
    apply (rule wp_update, assumption, simp)
    apply (cases "cn_generate C (in_session_id i) (in_nonce i) (cfg_epoch (cn_config C)) (verifiers (cfg_quorum (cn_config C)))")
     apply (simp add: engines_succeed_def exI[of _ Active])
    apply (simp add: steps)
    apply (rule wp_update, assumption, simp)
    apply (simp add: prepared_def engines_succeed_def wp_simps split: sum.split prod.split)
    apply (intro conjI allI impI exI[of _ Attesting])
     apply (auto simp: map_err_eq_Inr map_err_eq_Inl)
    done
qed

lemma wp_attest:
  assumes "inv m" "abs m (in_session_id i) = None" "cn_store C = S"
  shows "wp (attest H ed C i req response ts) (\<lambda>r m'. case r of
      Inr resp \<Rightarrow> \<exists>p a. prepared H C i req response p \<and>
        aggregate_signatures H ed (map snd (used_signers {} (ps_signed_digest p) ts)) (cfg_quorum (cn_config C))
          (ps_envelope_digest p) (cfg_verifier_public_keys (cn_config C)) = Inr a \<and>
        resp = Success (envelope_assemble H (ps_session_ctx p) (ps_randomness_binding p)
          (ps_transcript_commitments p) (ps_statement p) (ps_coordinator_evidence p) a) \<and>
        hold (abs m) (in_session_id i) \<lparr> s_context = session_context H (cn_config C) i req, s_state = Finalized \<rparr>
          (fst ` set (used_signers {} (ps_signed_digest p) ts)) m'
    | Inl e \<Rightarrow> \<exists>st ap. \<not> is_terminal st \<and>
        (\<not> engines_succeed H C i req response \<or> (\<exists>p e'. prepared H C i req response p \<and>
          aggregate_signatures H ed (map snd (used_signers {} (ps_signed_digest p) ts)) (cfg_quorum (cn_config C))
            (ps_envelope_digest p) (cfg_verifier_public_keys (cn_config C)) = Inl e')) \<and>
        hold (abs m) (in_session_id i) \<lparr> s_context = session_context H (cn_config C) i req, s_state = st \<rparr> ap m') m"
    (is "wp _ ?Q m")
proof -
  let ?c = "session_context H (cn_config C) i req"
  have collect: "wp (abind (advance S (ps_session_id p) Collecting (ps_session p)) (\<lambda>session.
     abind (collect_partials S (ps_session_id p) (ps_signed_digest p) ts []) (\<lambda>partials.
     abind (alift (map_err Crypto (aggregate_signatures H ed partials (cfg_quorum (cn_config C))
        (ps_envelope_digest p) (cfg_verifier_public_keys (cn_config C))))) (\<lambda>a.
     let envelope = envelope_assemble H (ps_session_ctx p) (ps_randomness_binding p)
           (ps_transcript_commitments p) (ps_statement p) (ps_coordinator_evidence p) a in
     abind (advance S (ps_session_id p) Finalized session) (\<lambda>_. alift (Inr (Success envelope))))))) ?Q m'"
    if p: "prepared H C i req response p" and h: "hold (abs m) (in_session_id i) \<lparr> s_context = ?c, s_state = Attesting \<rparr> {} m'"
    for p m'
  proof -
    have f: "ps_session_id p = in_session_id i" "ps_session p = \<lparr> s_context = ?c, s_state = Attesting \<rparr>"
      using p by (auto simp: prepared_def)
    show ?thesis
      unfolding wp_simps f Let_def
      apply (rule wp_advance[OF h], simp add: can_transition_to_def)
      apply simp
      apply (rule wp_collect_partials, assumption, simp)
      apply (simp split: sum.split)
      apply (intro conjI allI impI)
       apply (intro exI[of _ Collecting] exI conjI, simp)
        apply (use p in \<open>auto simp: map_err_eq_Inl\<close>)[1]
       apply assumption
      apply (rule wp_advance, assumption, simp add: can_transition_to_def)
      apply (simp add: wp_simps map_err_eq_Inr)
      using p apply blast
      done
  qed
  show ?thesis
    unfolding attest_def wp_abind[of "prepare_session H C i req response"] assms(3) Let_def
    apply (rule wp_mono[OF wp_prepare[OF assms, of H req response]])
    subgoal for r s'
      by (cases r) (auto intro!: collect[unfolded Let_def])
    done
qed

lemma wp_fail_with:
  assumes "hold base sid s ap m" "\<not> is_terminal (s_state s)"
    "\<And>reason m'. hold base sid (s\<lparr> s_state := Failed reason \<rparr>) ap m' \<Longrightarrow> Q (Inl e) m'"
  shows "wp (fail_with S sid reason e) Q m"
  unfolding fail_with_def wp_simps by (rule wp_update[OF assms(1,2)]) (simp add: assms(3) wp_simps)

lemma wp_quorum_guard:
  assumes "hold base sid s ap m" "\<not> is_terminal (s_state s)" "cn_store C = S"
    "threshold (cfg_quorum (cn_config C)) \<le> n \<Longrightarrow> Q (Inr ()) m"
    "\<And>e reason m'. n < threshold (cfg_quorum (cn_config C)) \<Longrightarrow>
       hold base sid (s\<lparr> s_state := Failed reason \<rparr>) ap m' \<Longrightarrow> Q (Inl e) m'"
  shows "wp (quorum_guard C sid what n) Q m"
proof (cases "n < threshold (cfg_quorum (cn_config C))")
  case True
  show ?thesis
    unfolding quorum_guard_def Let_def assms(3) if_P[OF True] by (rule wp_fail_with[OF assms(1,2)]) (rule assms(5)[OF True])
next
  case False
  then show ?thesis using assms(4) by (simp add: quorum_guard_def wp_simps Let_def)
qed

lemma wp_or_fail:
  assumes "hold base sid s ap m" "\<not> is_terminal (s_state s)"
    "\<And>a w'. act w = (Inr a, w') \<Longrightarrow> Q (Inr a) (m, w')"
    "\<And>ve e reason m' w'. act w = (Inl ve, w') \<Longrightarrow>
       hold base sid (s\<lparr> s_state := Failed reason \<rparr>) ap m' \<Longrightarrow> Q (Inl e) (m', w')"
  shows "wp (or_fail S sid round act) Q (m, w)"
proof (cases "act w")
  case (Pair r w')
  show ?thesis
  proof (cases r)
    case (Inr a)
    then show ?thesis using Pair assms(3) by (simp add: wp_def or_fail_def)
  next
    case (Inl ve)
    obtain v e where ve: "ve = (v, e)" by fastforce
    let ?why = "round @ '' failed for verifier '' @ vid_display v @ '': '' @ node_error_display e"
    have "wp (run_fst (fail_with S sid ?why e)) Q (m, w')"
      unfolding wp_simps fst_conv snd_conv by (rule wp_fail_with[OF assms(1,2)]) (rule assms(4)[OF Pair[unfolded Inl]])
    then show ?thesis using Pair Inl ve by (simp add: wp_def or_fail_def)
  qed
qed

lemma wp_record_approvals:
  "hold base sid s ap m \<Longrightarrow> \<not> is_terminal (s_state s) \<Longrightarrow>
   (\<And>m'. distinct vs \<Longrightarrow> set vs \<inter> ap = {} \<Longrightarrow> hold base sid s (ap \<union> set vs) m' \<Longrightarrow> Q (Inr ()) m') \<Longrightarrow>
   (\<And>e ap' m'. \<not> (distinct vs \<and> set vs \<inter> ap = {}) \<Longrightarrow> hold base sid s ap' m' \<Longrightarrow> Q (Inl e) m') \<Longrightarrow>
   wp (record_approvals S sid vs) Q m"
proof (induction vs arbitrary: ap m)
  case Nil
  then show ?case by (simp add: record_approvals_def wp_simps)
next
  case (Cons v vs)
  have "wp (record_approvals S sid vs) Q m'" if "v \<notin> ap" "hold base sid s (insert v ap) m'" for m'
    by (rule Cons.IH[OF that(2) Cons.prems(2)]) (use that(1) Cons.prems(3,4) in auto)
  then show ?case
    using Cons.prems(4) by (auto simp: record_approvals_def wp_simps intro!: wp_approval[OF Cons.prems(1,2)])
qed

lemma wp_distributed:
  assumes p: "prepared H C i req response p" and "cn_store C = S" and ok: "frost_ok F"
    and h: "hold base (in_session_id i) \<lparr> s_context = session_context H (cn_config C) i req, s_state = Attesting \<rparr> {} m"
  shows "wp (distributed_signing F C what ts gk ep p) (\<lambda>r st. case r of
      Inr env \<Rightarrow> \<exists>a rs bytes ss w1.
        env = frost_envelope p a \<and> verify_signature F a = Inr () \<and> fta_signed_digest a = ps_signed_digest p \<and>
        fta_group_verifying_key_bytes a = verifying_key_bytes F gk \<and>
        round1_all ts (round1_request (cn_config C) p (map (\<lambda>t. tr_verifier_id t w) ts) ep) (ps_now p) w = (Inr rs, w1) \<and>
        round2_all ts \<lparr> r2_session_id = in_session_id i, r2_coordinator_id = cfg_coordinator_id (cn_config C),
          r2_signing_package_bytes = bytes, r2_signer_set = map (\<lambda>t. tr_verifier_id t w) ts \<rparr> w1 = (Inr ss, snd st) \<and>
        distinct (map (\<lambda>t. tr_verifier_id t w) ts) \<and> threshold (cfg_quorum (cn_config C)) \<le> length ts \<and>
        hold base (in_session_id i) \<lparr> s_context = session_context H (cn_config C) i req, s_state = Finalized \<rparr>
          (set (map (\<lambda>t. tr_verifier_id t w) ts)) (fst st)
    | Inl e \<Rightarrow> \<exists>s ap. s \<noteq> Finalized \<and> \<not> signing_succeeds F C ts gk ep p w \<and>
        hold base (in_session_id i) \<lparr> s_context = session_context H (cn_config C) i req, s_state = s \<rparr> ap (fst st)) (m, w)"
    (is "wp _ ?Q _")
proof -
  let ?c = "session_context H (cn_config C) i req"
  let ?ids = "map (\<lambda>t. tr_verifier_id t w) ts"
  obtain Q where Q: "Q = ?Q" by blast
  have f: "ps_session_id p = in_session_id i" "ps_session p = \<lparr> s_context = ?c, s_state = Attesting \<rparr>"
    using p by (auto simp: prepared_def)
  have failed: "Q (Inl e) (m', w')" if "hold base (in_session_id i) \<lparr> s_context = ?c, s_state = s \<rparr> ap m'" "s \<noteq> Finalized"
      "\<not> signing_succeeds F C ts gk ep p w"
    for e s ap m' w' using that by (auto simp: Q)
  have close: "wp (abind (run_fst (record_approvals S (in_session_id i) ?ids)) (\<lambda>_.
       abind (run_fst (advance S (in_session_id i) Finalized \<lparr> s_context = ?c, s_state = Collecting \<rparr>)) (\<lambda>_.
       alift (Inr (frost_envelope p a))))) Q (m', w2)"
    if "hold base (in_session_id i) \<lparr> s_context = ?c, s_state = Collecting \<rparr> {} m'"
      and "build_signing_package F (map (\<lambda>r. (s1_verifier_id r, s1_commitment_bytes r)) rs) (ps_signed_digest p) gk = Inr (sp, bytes)"
      and "aggregate_signature_shares F sp ss gk (ps_signed_digest p) = Inr a"
      and "round1_all ts (round1_request (cn_config C) p ?ids ep) (ps_now p) w = (Inr rs, w1)"
      and "round2_all ts \<lparr> r2_session_id = in_session_id i, r2_coordinator_id = cfg_coordinator_id (cn_config C),
          r2_signing_package_bytes = bytes, r2_signer_set = ?ids \<rparr> w1 = (Inr ss, w2)"
      and "threshold (cfg_quorum (cn_config C)) \<le> length ts" for m' a rs w1 ss w2 bytes sp
    unfolding wp_simps fst_conv snd_conv
    apply (rule wp_record_approvals[OF that(1)], simp)
     apply simp
     apply (rule wp_advance, assumption, simp add: can_transition_to_def)
     apply (simp add: wp_simps Q)
    using that(4-) distributed_approval_verifies[OF ok that(2,3)] apply blast
    apply simp
    apply (erule failed, simp)
    apply (simp add: signing_succeeds_def Let_def)
    done
  note fails = signing_succeeds_def Let_def f map_err_eq_Inl
  have "wp (distributed_signing F C what ts gk ep p) Q (m, w)"
    unfolding distributed_signing_def Let_def assms(2) f
    unfolding wp_abind wp_run_fst wp_alift wp_aget fst_conv snd_conv
    apply (rule wp_advance[OF h], simp add: can_transition_to_def)
    apply simp
    apply (rule wp_quorum_guard[OF _ _ assms(2)], assumption, simp)
     apply simp
     apply (rule wp_or_fail, assumption, simp)
      apply (simp split: sum.split prod.split)
      apply (intro conjI allI impI)
       apply (erule failed, simp, simp add: fails)
      apply (subst wp_abind)
      apply (rule wp_or_fail, assumption, simp)
       apply (simp add: wp_abind[of "alift _"] wp_alift split: sum.split)
       apply (intro conjI allI impI)
        apply (erule failed, simp, auto simp add: fails)[1]
       apply (rule close, assumption)
           apply (simp_all add: assemble_signing_package_from_responses_def map_err_eq_Inr)
      apply (erule failed, simp, auto simp add: fails assemble_signing_package_from_responses_def)[1]
     apply (erule failed, simp, auto simp add: fails)[1]
    apply (erule failed, simp, auto simp add: fails)[1]
    done
  then show ?thesis by (simp only: Q)
qed

lemma wp_prepare_distributed:
  assumes "inv m" "abs m (in_session_id i) = None" "cn_store C = S" "frost_ok F"
  shows "wp (abind (run_fst (prepare_session H C i req response)) (distributed_signing F C what ts gk ep)) (\<lambda>r st. case r of
      Inr env \<Rightarrow> \<exists>p a rs bytes ss w1. prepared H C i req response p \<and>
        env = frost_envelope p a \<and> verify_signature F a = Inr () \<and> fta_signed_digest a = ps_signed_digest p \<and>
        fta_group_verifying_key_bytes a = verifying_key_bytes F gk \<and>
        round1_all ts (round1_request (cn_config C) p (map (\<lambda>t. tr_verifier_id t w) ts) ep) (ps_now p) w = (Inr rs, w1) \<and>
        round2_all ts \<lparr> r2_session_id = in_session_id i, r2_coordinator_id = cfg_coordinator_id (cn_config C),
          r2_signing_package_bytes = bytes, r2_signer_set = map (\<lambda>t. tr_verifier_id t w) ts \<rparr> w1 = (Inr ss, snd st) \<and>
        distinct (map (\<lambda>t. tr_verifier_id t w) ts) \<and> threshold (cfg_quorum (cn_config C)) \<le> length ts \<and>
        hold (abs m) (in_session_id i) \<lparr> s_context = session_context H (cn_config C) i req, s_state = Finalized \<rparr>
          (set (map (\<lambda>t. tr_verifier_id t w) ts)) (fst st)
    | Inl e \<Rightarrow> \<exists>s ap. s \<noteq> Finalized \<and>
        (\<not> engines_succeed H C i req response \<or>
         (\<exists>p. prepared H C i req response p \<and> \<not> signing_succeeds F C ts gk ep p w)) \<and>
        hold (abs m) (in_session_id i) \<lparr> s_context = session_context H (cn_config C) i req, s_state = s \<rparr> ap (fst st)) (m, w)"
  unfolding wp_abind wp_run_fst fst_conv snd_conv
  apply (rule wp_mono[OF wp_prepare[OF assms(1-3), of H req response]])
  subgoal for r s'
    apply (cases r)
     apply (auto; metis is_terminal.simps(1))
    apply simp
    apply (rule wp_mono[OF wp_distributed[OF _ assms(3,4)]], blast, blast)
    subgoal for p ra sa
      by (cases ra) (simp, blast, simp, rule exI[of _ p], simp)
    done
  done

end

interpretation mem_sessions: stored_sessions mem_store mem_inv mem_abs
  using mems.session_store_axioms by (simp add: stored_sessions_def mem_store_def)

section \<open>The nodes in the direct paths\<close>

lemma get_active_admitted: "(case get_active r v of Inl _ \<Rightarrow> False | Inr _ \<Rightarrow> True) \<longleftrightarrow> is_admitted r v"
  by (auto simp: get_active_def is_admitted_def split: option.splits ParticipantStatus.splits)

lemma admission_checks_cong:
  "fa_participant n' = fa_participant n \<Longrightarrow> fa_registry n' = fa_registry n \<Longrightarrow>
     admission_checks H n' req now = admission_checks H n req now"
  by (simp add: admission_checks_def fa_verifier_id_def Let_def)

lemma frost_round1_eq_Inr:
  assumes "frost_round1 H F G K hj ej n req now clock te ti g = (Inr resp, n')"
  shows "admission_checks H n req now = Inr ()" "s1_verifier_id resp = fa_verifier_id n"
    "fa_participant n' = fa_participant n" "fa_registry n' = fa_registry n"
  using assms
  by (auto simp: frost_round1_def rbind_eq_Inr map_err_eq_Inr Let_def split: sum.splits prod.splits if_splits)

lemma round1_direct:
  "round1_all (direct H F G K hj ej as) req now w = (Inr rs, w') \<Longrightarrow>
     (\<forall>a. fa_participant (w' a) = fa_participant (w a) \<and> fa_registry (w' a) = fa_registry (w a)) \<and>
     (\<forall>a \<in> fst ` set as. admission_checks H (w a) req now = Inr ()) \<and> (\<forall>a. a \<notin> fst ` set as \<longrightarrow> w' a = w a)"
proof (induction as arbitrary: w rs)
  case Nil
  then show ?case by (simp add: direct_def)
next
  case (Cons x as)
  obtain a ni where x: "x = (a, ni)" by fastforce
  obtain resp n1 rs' where
    1: "frost_round1 H F G K hj ej (w a) req now (ni_clock ni) (ni_evict_at ni) (ni_insert_at ni) (ni_rng ni) = (Inr resp, n1)"
    and 2: "round1_all (direct H F G K hj ej as) req now (w(a := n1)) = (Inr rs', w')"
    using Cons.prems
    by (auto simp: direct_def x InProcessTransport_def abind_eq_Inr at_node_eq)
  note r = frost_round1_eq_Inr[OF 1]
  have "admission_checks H ((w(a := n1)) b) req now = admission_checks H (w b) req now" for b
    using admission_checks_cong[OF r(3,4), of H req now] by simp
  then show ?case using Cons.IH[OF 2] r by (auto simp: x)
qed

lemma frost_round2_effect:
  assumes "frost_round2 F n req = (Inr resp, n')"
  shows "s2_verifier_id resp = fa_verifier_id n" "fa_verifier_id n' = fa_verifier_id n"
    "fa_pending n' = (fa_pending n)(r2_session_id req := None)"
  using assms
  by (auto simp: frost_round2_def Let_def rbind_eq_Inr map_err_eq_Inr fa_verifier_id_def
      split: option.splits if_splits)

lemma round2_direct:
  "round2_all (direct H F G K hj ej as) req w = (Inr ss, w') \<Longrightarrow>
     map fst ss = map (\<lambda>(a, _). fa_verifier_id (w a)) as \<and>
     (\<forall>a. fa_pending (w' a) = (if a \<in> fst ` set as then (fa_pending (w a))(r2_session_id req := None) else fa_pending (w a))) \<and>
     (\<forall>a. a \<notin> fst ` set as \<longrightarrow> w' a = w a)"
proof (induction as arbitrary: w ss)
  case Nil
  then show ?case by (simp add: direct_def)
next
  case (Cons x as)
  obtain a ni where x: "x = (a, ni)" by fastforce
  obtain resp n1 ss' where 1: "frost_round2 F (w a) req = (Inr resp, n1)"
    and 2: "round2_all (direct H F G K hj ej as) req (w(a := n1)) = (Inr ss', w')"
    and ss: "ss = (s2_verifier_id resp, s2_signature_share_bytes resp) # ss'"
    using Cons.prems by (auto simp: direct_def x InProcessTransport_def abind_eq_Inr at_node_eq)
  note r = frost_round2_effect[OF 1]
  have "fa_verifier_id ((w(a := n1)) b) = fa_verifier_id (w b)" for b using r(2) by simp
  then show ?case using Cons.IH[OF 2] r by (auto simp: x ss case_prod_beta)
qed

lemma direct_ids: "map (\<lambda>t. tr_verifier_id t w) (direct H F G K hj ej as) = map (\<lambda>(a, _). fa_verifier_id (w a)) as"
  by (induction as) (auto simp: direct_def InProcessTransport_def)

section \<open>A coordinator on concrete values\<close>

definition cfg_ex :: CoordinatorConfig where
  "cfg_ex = \<lparr> cfg_coordinator_id = VerifierId 9, cfg_epoch = Epoch 1, cfg_quorum = q_ex,
     cfg_default_ttl_secs = 100, cfg_verifier_public_keys = pks_ex \<rparr>"

definition coord_ex :: "InMemorySessionStore CoordinatorNode" where
  "coord_ex = \<lparr> cn_config = cfg_ex, cn_store = mem_store,
     cn_generate = proto_generate (\<lambda>_. 7) dvrf_ex (RandomnessId 1), cn_execute = prototype_execute (\<lambda>_. 7) \<rparr>"

definition in_ex :: session_inputs where
  "in_ex = \<lparr> in_now = UnixTimestamp 50, in_session_id = SessionId 5, in_nonce = Nonce 6 \<rparr>"

definition ar_ex :: AttestationRequest where
  "ar_ex = \<lparr> ar_prover_id = ProverId 1, ar_client_nonce = Nonce 2, ar_statement_tag = ''tag'', ar_query = [1],
     ar_requested_ttl_secs = 60 \<rparr>"

definition signer_ex :: "bytes32 \<Rightarrow> ThresholdSigner" where
  "signer_ex k = avn_signer_iface ed_ex
     (avn_new \<lparr> kp_verifier_id = VerifierId k, kp_signing_key = k + 10 \<rparr> permissive)"

definition ni_ex :: node_inputs where
  "ni_ex = \<lparr> ni_clock = 0, ni_evict_at = 0, ni_insert_at = 0, ni_rng = (\<lambda>_. 0) \<rparr>"

definition heap_ex :: "(nat, unit) heap" where
  "heap_ex a = aux_start (fp_ex (of_nat a)) (Some reg_ex)"

lemma engines_ex: "engines_succeed (\<lambda>_. 7) coord_ex in_ex ar_ex response"
  by (simp add: engines_succeed_def coord_ex_def cfg_ex_def q_ex_def proto_generate_def partial_for_def dvrf_ex_def
      prototype_execute_def)

lemma mem_get_new [simp]: "mem_get s mem_new = Inl NotFound"
  by (simp add: mem_get_def mem_new_def)

lemma aggregate_ex_any:
  "\<exists>a. aggregate_signatures (\<lambda>_. 7) ed_ex (map snd (used_signers {} (approval_signed_digest (\<lambda>_. 7) e) [signer_ex 1, signer_ex 2]))
     q_ex e pks_ex = Inr a"
  by (simp add: aggregate_signatures_def check_signature_def find_key_def q_ex_def pks_ex_def
      is_satisfied_by_def Let_def signer_ex_def avn_signer_iface_def avn_new_def avn_verifier_id_def sign_partial_def)

lemma frost_round1_runs:
  assumes "admission_checks H n req now = Inr ()" "fa_pending n = Map.empty"
    "r1_hsp_proof_bytes req = []" "r1_dctls_evidence_bytes req = []"
  shows "frost_round1 H frost_ex G K hj ej n req now clock te ti g =
    (Inr \<lparr> s1_session_id = r1_session_id req, s1_verifier_id = fa_verifier_id n, s1_commitment_bytes = [] \<rparr>,
     n\<lparr> fa_pending := [r1_session_id req \<mapsto> \<lparr> pend_nonces = (), pend_signer_set = r1_signer_set req,
        pend_signed_digest = r1_signed_digest req, pend_registry_epoch = r1_registry_epoch req,
        pend_inserted_at = ti \<rparr>] \<rparr>)"
  using assms
  by (simp add: frost_round1_def hsp_check_def dctls_check_def round1_def evict_expired_def fc_to_bytes_def)

lemma admitted_ex:
  assumes "prepared (\<lambda>_. 7) coord_ex in_ex ar_ex response p" "a = 1 \<or> a = 2" "ep = registry_GENESIS \<or> ep = RegistryEpoch 1"
  shows "admission_checks (\<lambda>_. 7) (heap_ex a)
    (round1_request cfg_ex p [VerifierId 1, VerifierId 2] ep) (UnixTimestamp 50) = Inr ()"
proof -
  have "is_admitted reg_ex (VerifierId 1)" "is_admitted reg_ex (VerifierId 2)"
    by (simp_all add: is_admitted_def reg_ex_def reg_get_def rp_active_def)
  then show ?thesis
    using assms
    by (auto simp: admission_checks_eq_Inr get_active_admitted round1_request_def heap_ex_def fa_verifier_id_def
        fp_ex_def prepared_def in_ex_def ar_ex_def coord_ex_def cfg_ex_def reg_ex_def)
qed

lemma signing_ex:
  assumes p: "prepared (\<lambda>_. 7) coord_ex in_ex ar_ex response p" and ep: "ep = registry_GENESIS \<or> ep = RegistryEpoch 1"
  shows "signing_succeeds frost_ex coord_ex (direct (\<lambda>_. 7) frost_ex r1cs_ex groth_ex hj ej [(1, ni_ex), (2, ni_ex)])
    gk_ex ep p heap_ex"
proof -
  let ?ts = "direct (\<lambda>_. 7) frost_ex r1cs_ex groth_ex hj ej [(1, ni_ex), (2, ni_ex)]"
  let ?ids = "[VerifierId 1, VerifierId 2]"
  let ?req = "round1_request cfg_ex p ?ids ep"
  let ?pend = "\<lparr> pend_nonces = (), pend_signer_set = ?ids, pend_signed_digest = ps_signed_digest p,
        pend_registry_epoch = ep, pend_inserted_at = 0 \<rparr>"
  let ?n = "\<lambda>a. heap_ex a \<lparr> fa_pending := [ps_session_id p \<mapsto> ?pend] \<rparr>"
  let ?w1 = "heap_ex(1 := ?n 1, 2 := ?n 2)"
  let ?msg = "digest_enc (ps_signed_digest p)"
  let ?r2 = "\<lparr> r2_session_id = ps_session_id p, r2_coordinator_id = VerifierId 9,
      r2_signing_package_bytes = 2 # ?msg, r2_signer_set = ?ids \<rparr>"
  have now: "ps_now p = UnixTimestamp 50" using p by (simp add: prepared_def in_ex_def)
  have one: "tr_frost_round1 (InProcessTransport (\<lambda>_. 7) frost_ex r1cs_ex groth_ex hj ej a ni_ex) ?req (UnixTimestamp 50) w =
      (Inr \<lparr> s1_session_id = ps_session_id p, s1_verifier_id = VerifierId (of_nat a), s1_commitment_bytes = [] \<rparr>,
       w(a := ?n a))" if "a = 1 \<or> a = 2" "w a = heap_ex a" for a w
    using frost_round1_runs[OF admitted_ex[OF p that(1) ep], of r1cs_ex groth_ex hj ej 0 0 0 "\<lambda>_. 0"] that
    by (auto simp: InProcessTransport_def at_node_def ni_ex_def round1_request_def heap_ex_def fa_verifier_id_def fp_ex_def)
  have r1: "round1_all ?ts ?req (UnixTimestamp 50) heap_ex = (Inr [
      \<lparr> s1_session_id = ps_session_id p, s1_verifier_id = VerifierId 1, s1_commitment_bytes = [] \<rparr>,
      \<lparr> s1_session_id = ps_session_id p, s1_verifier_id = VerifierId 2, s1_commitment_bytes = [] \<rparr>], ?w1)"
    using one[of 1 heap_ex] one[of 2 "heap_ex(1 := ?n 1)"]
    by (simp add: direct_def abind_def amap_err_def alift_def)
  have cm: "card (dom ([1 \<mapsto> (), 2 \<mapsto> ()] :: bytes32 \<rightharpoonup> unit)) = 2" by simp
  have gk: "verifier_to_identifier gk_ex (VerifierId 1) = Some 1" "verifier_to_identifier gk_ex (VerifierId 2) = Some 2"
    by (simp_all add: verifier_to_identifier_def gk_ex_def)
  have sp: "build_signing_package frost_ex [(VerifierId 1, []), (VerifierId 2, [])] (ps_signed_digest p) gk_ex =
      Inr (2 # ?msg, 2 # ?msg)"
    using cm by (simp add: build_signing_package_def fc_from_bytes_def gk sp_to_bytes_def Let_def del: dom_fun_upd)
  have "\<exists>w2. round2_all ?ts ?r2 ?w1 = (Inr [(VerifierId 1, []), (VerifierId 2, [])], w2)"
    by (simp add: direct_def InProcessTransport_def abind_def amap_err_def alift_def at_node_def frost_round2_def
        sp_from_bytes_def message_bytes_def round2_def fs_to_bytes_def fa_verifier_id_def heap_ex_def fp_ex_def)
  then obtain w2 where r2: "round2_all ?ts ?r2 ?w1 = (Inr [(VerifierId 1, []), (VerifierId 2, [])], w2)" by blast
  have ag: "is_ok (aggregate_signature_shares frost_ex (2 # ?msg) [(VerifierId 1, []), (VerifierId 2, [])] gk_ex
      (ps_signed_digest p))"
    using cm by (simp add: aggregate_signature_shares_def fs_from_bytes_def gk del: dom_fun_upd)
  have ids: "map (\<lambda>t. tr_verifier_id t heap_ex) ?ts = ?ids"
    by (simp add: direct_ids heap_ex_def fa_verifier_id_def fp_ex_def)
  have cfg: "cn_config coord_ex = cfg_ex" "cfg_coordinator_id cfg_ex = VerifierId 9" "threshold (cfg_quorum cfg_ex) = 2"
    "length ?ts = 2"
    by (simp_all add: coord_ex_def cfg_ex_def q_ex_def direct_def)
  show ?thesis
    unfolding signing_succeeds_def Let_def ids cfg now r1 assemble_signing_package_from_responses_def
    by (simp add: sp r2 ag del: fun_upd_apply One_nat_def)
qed

section \<open>Properties\<close>

lemma mem_get_holds:
  "holds mem_inv mem_abs base sid s ap m \<Longrightarrow> mem_get sid m = Inr s"
  "holds mem_inv mem_abs base sid s ap m \<Longrightarrow> mem_has_approved sid v m \<longleftrightarrow> v \<in> ap"
  by (auto simp: holds_def mems.get_sim mems.has_approved_sim a_get_def a_has_approved_def)

lemma mem_get_other:
  "holds mem_inv mem_abs (mem_abs m) sid s ap m' \<Longrightarrow> mem_inv m \<Longrightarrow> j \<noteq> sid \<Longrightarrow> mem_get j m' = mem_get j m"
  by (simp add: holds_def mems.get_sim a_get_def)

lemma mem_get_fresh: "mem_inv m \<Longrightarrow> mem_get sid m = Inl NotFound \<Longrightarrow> mem_abs m sid = None"
  by (auto simp: mems.get_sim a_get_def split: option.splits)

lemma aggregate_verifies:
  assumes "aggregate_signatures H ed ps q e pks = Inr a" "distinct (verifiers q)"
  shows "verify_threshold_approval H ed a e pks = Inr () \<and> distinct (ta_signers a) \<and>
    set (ta_signers a) \<subseteq> set (verifiers q) \<and> threshold q \<le> card (set (ta_signers a))"
proof -
  note e = aggregate_entries[OF assms(1)]
  have ids: "distinct (ta_signers a)" "set (ta_signers a) \<subseteq> set (verifiers q)"
    using e(1,2) by (auto simp: valid_entries_def)
  have all: "filter (\<lambda>(v, _). v \<in> set (verifiers (ta_quorum a))) (ta_signatures a) = ta_signatures a"
    using e(1,4) by (auto simp: valid_entries_def filter_id_conv)
  have count: "threshold q \<le> length (ta_signers a)" using quorum_count[OF assms(2) ids] e(3) by simp
  have "verify_threshold_approval H ed a e pks = Inr ()"
    unfolding verify_eq_Inr all using e count by (auto simp: valid_entries_def)
  then show ?thesis using ids count by (simp add: distinct_card)
qed

text \<open>C3. The prototype path end to end, on the in-memory store.  For a fresh session
  identifier \<open>attest\<close> either returns an envelope, and then its digest is the digest of its fields, it is
  over the context of this request, its approval passes \<open>verify_threshold_approval\<close> under the
  configured keys and has at least \<open>threshold\<close> different signers of the quorum, and the stored session
  is \<open>Finalized\<close>; or it returns an error, which happens exactly when an engine or the aggregation
  fails, and then the stored session is not terminal.  No other session changes.\<close>

theorem attest_end_to_end:
  assumes "mem_inv m" "mem_get (in_session_id i) m = Inl NotFound" "cn_store C = mem_store"
    and "distinct (verifiers (cfg_quorum (cn_config C)))"
    and run: "attest H ed C i req response signers m = (r, m')"
  shows "(\<forall>j. j \<noteq> in_session_id i \<longrightarrow> mem_get j m' = mem_get j m) \<and> (case r of
      Inr resp \<Rightarrow> \<exists>env. resp = Success env \<and> envelope_verify_digest H env \<and>
        env_session env = session_context H (cn_config C) i req \<and>
        verify_threshold_approval H ed (env_threshold_approval env) (env_envelope_digest env)
          (cfg_verifier_public_keys (cn_config C)) = Inr () \<and>
        set (ta_signers (env_threshold_approval env)) \<subseteq> set (verifiers (cfg_quorum (cn_config C))) \<and>
        threshold (cfg_quorum (cn_config C)) \<le> card (set (ta_signers (env_threshold_approval env))) \<and>
        mem_get (in_session_id i) m' = Inr \<lparr> s_context = env_session env, s_state = Finalized \<rparr>
    | Inl e \<Rightarrow> (\<exists>st. \<not> is_terminal st \<and>
          mem_get (in_session_id i) m' = Inr \<lparr> s_context = session_context H (cn_config C) i req, s_state = st \<rparr>) \<and>
        (\<not> engines_succeed H C i req response \<or> (\<exists>p e'. prepared H C i req response p \<and>
          aggregate_signatures H ed (map snd (used_signers {} (ps_signed_digest p) signers))
            (cfg_quorum (cn_config C)) (ps_envelope_digest p) (cfg_verifier_public_keys (cn_config C)) = Inl e')))"
proof -
  note out = wpD[OF mem_sessions.wp_attest[OF assms(1) mem_get_fresh[OF assms(1,2)] assms(3)] run]
  show ?thesis
  proof (cases r)
    case (Inl e)
    then show ?thesis using out mem_get_holds(1) mem_get_other[OF _ assms(1)] by fastforce
  next
    case (Inr resp)
    then obtain p a where p: "prepared H C i req response p"
      and a: "aggregate_signatures H ed (map snd (used_signers {} (ps_signed_digest p) signers)) (cfg_quorum (cn_config C))
          (ps_envelope_digest p) (cfg_verifier_public_keys (cn_config C)) = Inr a"
      and resp: "resp = Success (envelope_assemble H (ps_session_ctx p) (ps_randomness_binding p)
          (ps_transcript_commitments p) (ps_statement p) (ps_coordinator_evidence p) a)"
      and h: "holds mem_inv mem_abs (mem_abs m) (in_session_id i)
          \<lparr> s_context = session_context H (cn_config C) i req, s_state = Finalized \<rparr>
          (fst ` set (used_signers {} (ps_signed_digest p) signers)) m'"
      using out by auto
    show ?thesis
      using Inr resp aggregate_verifies[OF a assms(4)] mem_get_holds(1)[OF h] mem_get_other[OF h assms(1)] p
      by (auto simp: envelope_assemble_def envelope_verify_digest_def prepared_def)
  qed
qed

theorem attest_end_to_end_witness:
  "\<exists>env m'. attest (\<lambda>_. 7) ed_ex coord_ex in_ex ar_ex [1, 2] [signer_ex 1, signer_ex 2] mem_new = (Inr (Success env), m') \<and>
     verify_threshold_approval (\<lambda>_. 7) ed_ex (env_threshold_approval env) (env_envelope_digest env) pks_ex = Inr () \<and>
     mem_get (SessionId 5) m' = Inr \<lparr> s_context = env_session env, s_state = Finalized \<rparr>"
proof -
  obtain r m' where run: "attest (\<lambda>_. 7) ed_ex coord_ex in_ex ar_ex [1, 2] [signer_ex 1, signer_ex 2] mem_new = (r, m')"
    by fastforce
  have C: "cn_store coord_ex = mem_store" "distinct (verifiers (cfg_quorum (cn_config coord_ex)))"
    "cfg_quorum (cn_config coord_ex) = q_ex" "cfg_verifier_public_keys (cn_config coord_ex) = pks_ex"
    by (simp_all add: coord_ex_def cfg_ex_def q_ex_def)
  have agg: "\<not> (\<exists>p e'. prepared (\<lambda>_. 7) coord_ex in_ex ar_ex [1, 2] p \<and>
      aggregate_signatures (\<lambda>_. 7) ed_ex (map snd (used_signers {} (ps_signed_digest p) [signer_ex 1, signer_ex 2]))
        q_ex (ps_envelope_digest p) pks_ex = Inl e')"
    using aggregate_ex_any by (auto simp: prepared_def) (metis Inl_Inr_False)
  have sid: "in_session_id in_ex = SessionId 5" by (simp add: in_ex_def)
  show ?thesis
    using attest_end_to_end[OF mem_inv_new mem_get_new C(1,2) run] agg engines_ex run
    unfolding C(3,4) sid by (cases r) auto
qed

text \<open>C1. Distributed signing end to end, against arbitrary peers.  Whatever the transports
  answer, for a fresh session identifier an envelope that the coordinator returns has the digest of its
  fields, an approval that is bound to that digest, verifies, and carries the configured group key;
  the signers are pairwise different, at least \<open>threshold\<close> many, exactly they are recorded as
  approvers, and the stored session is \<open>Finalized\<close>.  After an error the stored session is not
  \<open>Finalized\<close>, and an error occurs only when an engine, a round or the aggregation fails, or when there
  are too few or repeated signers.  No other session changes.\<close>

theorem distributed_signing_sound:
  assumes "frost_ok F" "mem_inv m" "mem_get (in_session_id i) m = Inl NotFound" "cn_store C = mem_store"
    and run: "attest_frost_distributed_over_transport H F C i req response ts gk (m, w) = (r, (m', w'))"
  shows "(\<forall>j. j \<noteq> in_session_id i \<longrightarrow> mem_get j m' = mem_get j m) \<and> (case r of
      Inr env \<Rightarrow> fae_session env = session_context H (cn_config C) i req \<and>
        fae_envelope_digest env = envelope_compute_digest H (fae_session env) (fae_randomness env)
          (fae_transcript env) (fae_statement env) (fae_coordinator_evidence env) \<and>
        verify_binding H (fae_frost_approval env) (fae_envelope_digest env) = Inr () \<and>
        verify_signature F (fae_frost_approval env) = Inr () \<and>
        fta_group_verifying_key_bytes (fae_frost_approval env) = verifying_key_bytes F gk \<and>
        distinct (map (\<lambda>t. tr_verifier_id t w) ts) \<and> threshold (cfg_quorum (cn_config C)) \<le> length ts \<and>
        (\<forall>v. mem_has_approved (in_session_id i) v m' \<longleftrightarrow> v \<in> set (map (\<lambda>t. tr_verifier_id t w) ts)) \<and>
        mem_get (in_session_id i) m' = Inr \<lparr> s_context = fae_session env, s_state = Finalized \<rparr>
    | Inl e \<Rightarrow> (\<exists>s. s \<noteq> Finalized \<and>
          mem_get (in_session_id i) m' = Inr \<lparr> s_context = session_context H (cn_config C) i req, s_state = s \<rparr>) \<and>
        (\<not> engines_succeed H C i req response \<or>
         (\<exists>p. prepared H C i req response p \<and> \<not> signing_succeeds F C ts gk registry_GENESIS p w)))"
proof -
  note out = wpD[OF mem_sessions.wp_prepare_distributed[OF assms(2) mem_get_fresh[OF assms(2,3)] assms(4,1),
      of H req response "''transports''" ts gk registry_GENESIS w]
      run[unfolded attest_frost_distributed_over_transport_def]]
  show ?thesis
  proof (cases r)
    case (Inl e)
    with out obtain s ap where "s \<noteq> Finalized" and h: "holds mem_inv mem_abs (mem_abs m) (in_session_id i)
        \<lparr> s_context = session_context H (cn_config C) i req, s_state = s \<rparr> ap m'"
      and "\<not> engines_succeed H C i req response \<or>
         (\<exists>p. prepared H C i req response p \<and> \<not> signing_succeeds F C ts gk registry_GENESIS p w)"
      by auto
    then show ?thesis using Inl mem_get_holds(1)[OF h] mem_get_other[OF h assms(2)] by auto
  next
    case (Inr env)
    with out obtain p a where p: "prepared H C i req response p" and env: "env = frost_envelope p a"
      and a: "verify_signature F a = Inr ()" "fta_signed_digest a = ps_signed_digest p"
        "fta_group_verifying_key_bytes a = verifying_key_bytes F gk"
      and ids: "distinct (map (\<lambda>t. tr_verifier_id t w) ts)" "threshold (cfg_quorum (cn_config C)) \<le> length ts"
      and h: "holds mem_inv mem_abs (mem_abs m) (in_session_id i)
          \<lparr> s_context = session_context H (cn_config C) i req, s_state = Finalized \<rparr>
          (set (map (\<lambda>t. tr_verifier_id t w) ts)) m'"
      by auto
    show ?thesis
      using Inr env a ids mem_get_holds[OF h] mem_get_other[OF h assms(2)] p
      by (simp add: frost_envelope_def prepared_def verify_binding_eq_Inr)
  qed
qed

theorem distributed_signing_sound_witness:
  "\<exists>env m' w'. attest_frost_distributed_over_transport (\<lambda>_. 7) frost_ex coord_ex in_ex ar_ex [1, 2]
      (direct (\<lambda>_. 7) frost_ex r1cs_ex groth_ex (\<lambda>_. Inl []) (\<lambda>_. Inl []) [(1, ni_ex), (2, ni_ex)]) gk_ex (mem_new, heap_ex) =
        (Inr env, (m', w')) \<and>
     verify_signature frost_ex (fae_frost_approval env) = Inr () \<and>
     mem_get (SessionId 5) m' = Inr \<lparr> s_context = fae_session env, s_state = Finalized \<rparr>"
proof -
  let ?ts = "direct (\<lambda>_. 7) frost_ex r1cs_ex groth_ex (\<lambda>_. Inl []) (\<lambda>_. Inl []) [(1, ni_ex), (2, ni_ex)]"
  obtain r m' w' where run: "attest_frost_distributed_over_transport (\<lambda>_. 7) frost_ex coord_ex in_ex ar_ex [1, 2]
      ?ts gk_ex (mem_new, heap_ex) = (r, (m', w'))"
    by (metis surj_pair)
  have C: "cn_store coord_ex = mem_store" and sid: "in_session_id in_ex = SessionId 5"
    by (simp_all add: coord_ex_def in_ex_def)
  have "\<not> (\<exists>p. prepared (\<lambda>_. 7) coord_ex in_ex ar_ex [1, 2] p \<and>
      \<not> signing_succeeds frost_ex coord_ex ?ts gk_ex registry_GENESIS p heap_ex)"
    using signing_ex by blast
  then show ?thesis
    using distributed_signing_sound[OF frost_ex_ok mem_inv_new mem_get_new C run] engines_ex[of "[1, 2]"] run
    unfolding sid by (cases r) auto
qed

text \<open>C2. Registry-gated distributed signing.  When the coordinator returns an envelope, the epoch
  is the registry's, every signer is active in it, every node has itself admitted the signer set
  against its own registry (unless the epoch is genesis), the nodes are pairwise different, and
  afterwards no involved node holds nonces for the session and no other node has changed.\<close>

theorem registry_gated_signing:
  assumes "frost_ok F" "mem_inv m" "mem_get (in_session_id i) m = Inl NotFound" "cn_store C = mem_store"
    and run: "attest_frost_distributed_with_registry H F G K hj ej C i req response nodes gk registry ep (m, w) =
      (Inr env, (m', w'))"
  shows "ep = reg_epoch registry \<and>
    (\<forall>a \<in> fst ` set nodes. is_admitted registry (fa_verifier_id (w a)) \<and>
      (case fa_registry (w a) of None \<Rightarrow> True | Some r \<Rightarrow> ep = registry_GENESIS \<or> ep = reg_epoch r \<and>
        (\<forall>b \<in> fst ` set nodes. is_admitted r (fa_verifier_id (w b)))) \<and>
      fa_pending (w' a) (in_session_id i) = None) \<and>
    distinct (map fst nodes) \<and> (\<forall>a. a \<notin> fst ` set nodes \<longrightarrow> w' a = w a) \<and>
    verify_binding H (fae_frost_approval env) (fae_envelope_digest env) = Inr () \<and>
    verify_signature F (fae_frost_approval env) = Inr ()"
proof -
  let ?ts = "direct H F G K hj ej nodes"
  have ep: "ep = reg_epoch registry"
    and adm: "\<forall>a \<in> fst ` set nodes. is_admitted registry (fa_verifier_id (w a))"
    and inner: "attest_frost_distributed_inner H F G K hj ej C i req response nodes gk ep (m, w) = (Inr env, (m', w'))"
    using run
    by (auto simp: attest_frost_distributed_with_registry_def check_admission_eq_Inr split: if_splits sum.splits)
  obtain p a rs bytes ss w1 where p: "prepared H C i req response p" and env: "env = frost_envelope p a"
      and a: "verify_signature F a = Inr ()" "fta_signed_digest a = ps_signed_digest p"
      and r1: "round1_all ?ts (round1_request (cn_config C) p (map (\<lambda>t. tr_verifier_id t w) ?ts) ep) (ps_now p) w = (Inr rs, w1)"
      and r2: "round2_all ?ts \<lparr> r2_session_id = in_session_id i, r2_coordinator_id = cfg_coordinator_id (cn_config C),
          r2_signing_package_bytes = bytes, r2_signer_set = map (\<lambda>t. tr_verifier_id t w) ?ts \<rparr> w1 = (Inr ss, w')"
      and dist: "distinct (map (\<lambda>t. tr_verifier_id t w) ?ts)"
    using wpD[OF mem_sessions.wp_prepare_distributed[OF assms(2) mem_get_fresh[OF assms(2,3)] assms(4,1)]
        inner[unfolded attest_frost_distributed_inner_def]]
    by auto
  note n1 = round1_direct[OF r1] and n2 = round2_direct[OF r2]
  have own: "case fa_registry (w b) of None \<Rightarrow> True | Some r \<Rightarrow> ep = registry_GENESIS \<or> ep = reg_epoch r \<and>
        (\<forall>c \<in> fst ` set nodes. is_admitted r (fa_verifier_id (w c)))" if "b \<in> fst ` set nodes" for b
  proof -
    have "admission_checks H (w b) (round1_request (cn_config C) p (map (\<lambda>t. tr_verifier_id t w) ?ts) ep) (ps_now p) = Inr ()"
      using n1 that by blast
    then show ?thesis
      by (auto simp: admission_checks_eq_Inr round1_request_def direct_ids get_active_admitted
          list_all_iff case_prod_beta split: option.splits)
  qed
  have "distinct (map (fa_verifier_id \<circ> w) (map fst nodes))"
    using dist by (simp add: direct_ids comp_def split_def)
  then have "distinct (map fst nodes)" by (metis distinct_map)
  then show ?thesis
    using ep adm own n1 n2 a p env
    by (simp add: frost_envelope_def prepared_def verify_binding_eq_Inr)
qed

theorem registry_gated_signing_witness:
  "\<exists>env m' w'. attest_frost_distributed_with_registry (\<lambda>_. 7) frost_ex r1cs_ex groth_ex (\<lambda>_. Inl []) (\<lambda>_. Inl []) coord_ex
      in_ex ar_ex [1, 2] [(1, ni_ex), (2, ni_ex)] gk_ex reg_ex (RegistryEpoch 1) (mem_new, heap_ex) = (Inr env, (m', w')) \<and>
     fa_pending (w' 1) (SessionId 5) = None \<and> verify_signature frost_ex (fae_frost_approval env) = Inr ()"
proof -
  let ?ts = "direct (\<lambda>_. 7) frost_ex r1cs_ex groth_ex (\<lambda>_. Inl []) (\<lambda>_. Inl []) [(1, ni_ex), (2, ni_ex)]"
  have C: "cn_store coord_ex = mem_store" and sid: "in_session_id in_ex = SessionId 5"
    by (simp_all add: coord_ex_def in_ex_def)
  obtain r m' w' where inner: "attest_frost_distributed_inner (\<lambda>_. 7) frost_ex r1cs_ex groth_ex (\<lambda>_. Inl []) (\<lambda>_. Inl [])
      coord_ex in_ex ar_ex [1, 2] [(1, ni_ex), (2, ni_ex)] gk_ex (RegistryEpoch 1) (mem_new, heap_ex) = (r, (m', w'))"
    by (metis surj_pair)
  have "\<not> (\<exists>p. prepared (\<lambda>_. 7) coord_ex in_ex ar_ex [1, 2] p \<and>
      \<not> signing_succeeds frost_ex coord_ex ?ts gk_ex (RegistryEpoch 1) p heap_ex)"
    using signing_ex by blast
  then have "\<exists>env. r = Inr env"
    using wpD[OF mem_sessions.wp_prepare_distributed[OF mem_inv_new mem_get_fresh[OF mem_inv_new mem_get_new] C frost_ex_ok]
        inner[unfolded attest_frost_distributed_inner_def]] engines_ex[of "[1, 2]"]
    by (cases r) auto
  then obtain env where r: "r = Inr env" by blast
  have "check_ceremony_admission reg_ex (RegistryEpoch 1)
      (map (\<lambda>(a, _). fa_verifier_id (snd (mem_new, heap_ex) a)) [(1, ni_ex), (2, ni_ex)]) = Inr ()"
    by (simp add: check_admission_eq_Inr is_admitted_def reg_ex_def reg_get_def rp_active_def heap_ex_def
        fa_verifier_id_def fp_ex_def)
  then have run: "attest_frost_distributed_with_registry (\<lambda>_. 7) frost_ex r1cs_ex groth_ex (\<lambda>_. Inl []) (\<lambda>_. Inl []) coord_ex
      in_ex ar_ex [1, 2] [(1, ni_ex), (2, ni_ex)] gk_ex reg_ex (RegistryEpoch 1) (mem_new, heap_ex) = (Inr env, (m', w'))"
    using inner r by (simp add: attest_frost_distributed_with_registry_def reg_ex_def)
  show ?thesis
    using registry_gated_signing[OF frost_ex_ok mem_inv_new mem_get_new C run] run unfolding sid by auto
qed

end
