(* ===== verification/Codec.thy ===== *)
theory Codec
  imports Messages
begin

text \<open>
  The length-prefixed framing of \<open>network/src/codec.rs\<close>.  A sink is the list of the bytes it has
  received, with the operating-system errors of its three operations as a function \<open>io\<close>; a source is
  the bytes that will arrive and the error, if any, that follows them instead of the end of the
  stream.  The JSON library is a pair of functions \<open>to\<close> and \<open>from\<close>.
\<close>

definition MAX_FRAME_BYTES :: u32 where
  "MAX_FRAME_BYTES = 4 * 1024 * 1024"

datatype NodeRequest =
    ReqFrostRound1 FrostRound1Request
  | ReqFrostRound2 FrostRound2Request
  | ReqHandshakeBindingRound1 HandshakeBindingRound1Request
  | ReqHandshakeBindingRound2 HandshakeBindingRound2Request

datatype NodeResponse =
    RespFrostRound1 FrostRound1Response
  | RespFrostRound2 FrostRound2Response
  | RespHandshakeBindingRound1 HandshakeBindingRound1Response
  | RespHandshakeBindingRound2 HandshakeBindingRound2Response
  | RespError string

record 'a serde =
  serde_to :: "'a \<Rightarrow> (string, byte list) result"
  serde_from :: "byte list \<Rightarrow> (string, 'a) result"

definition serde_ok :: "'a serde \<Rightarrow> bool" where
  "serde_ok J \<longleftrightarrow> (\<forall>a b. serde_to J a = Inr b \<longrightarrow> serde_from J b = Inr a)"

section \<open>Sinks and sources\<close>

type_synonym io_faults = "nat \<Rightarrow> string option"

record source =
  src_bytes :: "byte list"
  src_error :: "string option"

definition stream :: "byte list \<Rightarrow> source" where
  "stream bs = \<lparr> src_bytes = bs, src_error = None \<rparr>"

datatype io_error = UnexpectedEof | IoError string

definition io_error_display :: "io_error \<Rightarrow> string" where
  "io_error_display e = (case e of UnexpectedEof \<Rightarrow> ''failed to fill whole buffer'' | IoError m \<Rightarrow> m)"

definition read_exact :: "nat \<Rightarrow> source \<Rightarrow> (io_error, byte list) result \<times> source" where
  "read_exact n s =
     (if n \<le> length (src_bytes s)
      then (Inr (take n (src_bytes s)), s\<lparr> src_bytes := drop n (src_bytes s) \<rparr>)
      else (Inl (case src_error s of None \<Rightarrow> UnexpectedEof | Some m \<Rightarrow> IoError m), s\<lparr> src_bytes := [] \<rparr>))"

definition io :: "io_faults \<Rightarrow> nat \<Rightarrow> (NetworkError, unit) result" where
  "io fs k = (case fs k of None \<Rightarrow> Inr () | Some e \<Rightarrow> Inl (NetSerialization e))"

section \<open>Frames\<close>

definition write_frame :: "'a serde \<Rightarrow> io_faults \<Rightarrow> 'a \<Rightarrow> byte list \<Rightarrow> (NetworkError, unit) result \<times> byte list" where
  "write_frame J fs v sink =
     (case serde_to J v of
        Inl e \<Rightarrow> (Inl (NetSerialization e), sink)
      | Inr json \<Rightarrow>
          let len = (of_nat (length json) :: u32) in
          if MAX_FRAME_BYTES < len
          then (Inl (NetSerialization (''frame too large: '' @ dec_str (unat len) @ '' bytes (max '' @
                 dec_str (unat MAX_FRAME_BYTES) @ '')'')), sink)
          else (case io fs 0 of
             Inl e \<Rightarrow> (Inl e, sink)
           | Inr _ \<Rightarrow> (case io fs 1 of
               Inl e \<Rightarrow> (Inl e, sink @ be_bytes 4 len)
             | Inr _ \<Rightarrow> (io fs 2, sink @ be_bytes 4 len @ json))))"

definition read_frame :: "'a serde \<Rightarrow> source \<Rightarrow> (NetworkError, 'a) result \<times> source" where
  "read_frame J s =
     (case read_exact 4 s of
        (Inl UnexpectedEof, s1) \<Rightarrow> (Inl ChannelClosed, s1)
      | (Inl (IoError m), s1) \<Rightarrow> (Inl (NetSerialization m), s1)
      | (Inr len_buf, s1) \<Rightarrow>
          let len = (be_word len_buf :: u32) in
          if MAX_FRAME_BYTES < len
          then (Inl (NetSerialization (''incoming frame too large: '' @ dec_str (unat len) @ '' bytes (max '' @
                 dec_str (unat MAX_FRAME_BYTES) @ '')'')), s1)
          else (case read_exact (unat len) s1 of
             (Inl e, s2) \<Rightarrow> (Inl (NetSerialization (io_error_display e)), s2)
           | (Inr body, s2) \<Rightarrow> (map_err (\<lambda>e. NetSerialization (''JSON decode: '' @ e)) (serde_from J body), s2)))"

section \<open>What a frame is\<close>

definition frame :: "byte list \<Rightarrow> byte list" where
  "frame json = be_bytes 4 (of_nat (length json) :: u32) @ json"

lemma max_frame: "unat MAX_FRAME_BYTES = 4194304" "MAX_FRAME_BYTES < len \<longleftrightarrow> 4194304 < unat len"
  by (simp_all add: MAX_FRAME_BYTES_def word_less_nat_alt)

lemma unat_frame_length: "length json \<le> 4194304 \<Longrightarrow> unat (of_nat (length json) :: u32) = length json"
  by (simp add: unat_of_nat)

lemma write_frame_eq:
  "write_frame J (\<lambda>_. None) v sink = (Inr (), sink') \<longleftrightarrow> (\<exists>json. serde_to J v = Inr json \<and>
     unat (of_nat (length json) :: u32) \<le> 4194304 \<and> sink' = sink @ frame json)"
  by (auto simp: write_frame_def Let_def max_frame io_def frame_def split: sum.splits)

lemma read_frame_cases:
  assumes "read_frame J s = (Inr v, s')"
  obtains len body where "length (src_bytes s) \<ge> 4 + length body" "length body \<le> 4194304"
    "src_bytes s = take 4 (src_bytes s) @ body @ src_bytes s'" "len = (be_word (take 4 (src_bytes s)) :: u32)"
    "unat len = length body" "serde_from J body = Inr v" "src_error s' = src_error s"
proof -
  let ?b = "src_bytes s"
  let ?len = "be_word (take 4 ?b) :: u32"
  have four: "4 \<le> length ?b"
    using assms by (auto simp: read_frame_def read_exact_def split: option.splits if_splits)
  have small: "unat ?len \<le> 4194304"
    using assms four by (auto simp: read_frame_def read_exact_def Let_def max_frame not_less split: if_splits)
  have n: "unat ?len \<le> length (drop 4 ?b)"
    using assms four small
    by (auto simp: read_frame_def read_exact_def[of _ "s\<lparr>src_bytes := _\<rparr>"] read_exact_def[of 4] Let_def max_frame
        split: option.splits if_splits)
  let ?body = "take (unat ?len) (drop 4 ?b)"
  have v: "serde_from J ?body = Inr v" and s': "s' = s\<lparr> src_bytes := drop (unat ?len) (drop 4 ?b) \<rparr>"
    using assms four small n by (auto simp: read_frame_def read_exact_def Let_def max_frame map_err_eq_Inr)
  show ?thesis
  proof (rule that[of ?body ?len])
    have "src_bytes s' = drop (unat ?len) (drop 4 ?b)" by (simp add: s' del: drop_drop)
    then show "?b = take 4 ?b @ ?body @ src_bytes s'" by (simp only: append_take_drop_id)
  qed (use four n small v s' in auto)
qed

lemma read_frame_frame:
  assumes "length json \<le> 4194304" "serde_from J json = Inr v"
  shows "read_frame J \<lparr> src_bytes = frame json @ rest, src_error = e \<rparr> =
    (Inr v, \<lparr> src_bytes = rest, src_error = e \<rparr>)"
proof -
  have "be_word (be_bytes 4 (of_nat (length json) :: u32)) = (of_nat (length json) :: u32)"
    by (rule be_word_be_bytes) simp
  then show ?thesis
    using assms by (simp add: read_frame_def read_exact_def frame_def Let_def max_frame unat_frame_length)
qed

lemma read_frame_shorter:
  assumes "read_frame J s = (Inr v, s')"
  shows "length (src_bytes s') < length (src_bytes s)"
proof -
  obtain body where long: "4 + length body \<le> length (src_bytes s)"
      and split: "src_bytes s = take 4 (src_bytes s) @ body @ src_bytes s'"
    using assms by (rule read_frame_cases)
  have "length (src_bytes s) = length (take 4 (src_bytes s)) + length body + length (src_bytes s')"
    using arg_cong[OF split, of length] by (simp only: length_append add.assoc)
  then show ?thesis using long by simp
qed

text \<open>The messages of a stream that the peer closes between two frames.\<close>

function read_frames :: "'a serde \<Rightarrow> source \<Rightarrow> (NetworkError, 'a list) result" where
  "read_frames J s = (case read_frame J s of
     (Inl ChannelClosed, _) \<Rightarrow> Inr []
   | (Inl e, _) \<Rightarrow> Inl e
   | (Inr v, s') \<Rightarrow> rbind (read_frames J s') (\<lambda>vs. Inr (v # vs)))"
  by auto
termination
  by (relation "measure (\<lambda>(J, s). length (src_bytes s))") (auto dest!: read_frame_shorter[OF sym])

declare read_frames.simps [simp del]

fun write_frames :: "'a serde \<Rightarrow> 'a list \<Rightarrow> byte list \<Rightarrow> (NetworkError, unit) result \<times> byte list" where
  "write_frames J [] sink = (Inr (), sink)"
| "write_frames J (v # vs) sink = (case write_frame J (\<lambda>_. None) v sink of
     (Inl e, sink') \<Rightarrow> (Inl e, sink')
   | (Inr _, sink') \<Rightarrow> write_frames J vs sink')"

section \<open>Properties\<close>

lemma write_frames_concat:
  assumes "\<forall>v \<in> set vs. \<exists>json. serde_to J v = Inr json \<and> length json \<le> 4194304"
  shows "\<exists>js. list_all2 (\<lambda>v json. serde_to J v = Inr json \<and> length json \<le> 4194304) vs js \<and>
    write_frames J vs sink = (Inr (), sink @ concat (map frame js))"
  using assms
proof (induction vs arbitrary: sink)
  case (Cons v vs)
  obtain json where j: "serde_to J v = Inr json" "length json \<le> 4194304" using Cons.prems by auto
  then have w: "write_frame J (\<lambda>_. None) v sink = (Inr (), sink @ frame json)"
    by (simp add: write_frame_eq unat_frame_length)
  obtain js where "list_all2 (\<lambda>v json. serde_to J v = Inr json \<and> length json \<le> 4194304) vs js"
      "write_frames J vs (sink @ frame json) = (Inr (), (sink @ frame json) @ concat (map frame js))"
    using Cons.IH[of "sink @ frame json"] Cons.prems by auto
  then show ?case using j w by (intro exI[of _ "json # js"]) simp
qed simp

lemma read_frames_concat:
  assumes "serde_ok J" "list_all2 (\<lambda>v json. serde_to J v = Inr json \<and> length json \<le> 4194304) vs js"
  shows "read_frames J (stream (concat (map frame js))) = Inr vs"
  using assms(2)
proof (induction rule: list_all2_induct)
  case Nil
  then show ?case by (subst read_frames.simps) (simp add: read_frame_def read_exact_def stream_def)
next
  case (Cons v vs json js)
  then have "serde_from J json = Inr v" using assms(1) by (auto simp: serde_ok_def)
  then have "read_frame J (stream (frame json @ concat (map frame js))) = (Inr v, stream (concat (map frame js)))"
    using read_frame_frame[of json J v "concat (map frame js)" None] Cons.hyps(1) by (simp add: stream_def)
  then show ?case using Cons.IH by (simp add: read_frames.simps[of J "stream (frame json @ _)"])
qed

text \<open>Framing is transparent.  Writing any sequence of messages, each at most 4 MiB long as
  JSON, to a sink succeeds, and reading frames from the resulting byte stream until it ends returns
  exactly these messages in this order: no frame runs into the next one.\<close>

theorem framing_roundtrip:
  assumes "serde_ok J" "\<forall>v \<in> set vs. \<exists>json. serde_to J v = Inr json \<and> length json \<le> 4194304"
  shows "fst (write_frames J vs []) = Inr () \<and> read_frames J (stream (snd (write_frames J vs []))) = Inr vs"
proof -
  obtain js where "list_all2 (\<lambda>v json. serde_to J v = Inr json \<and> length json \<le> 4194304) vs js"
      "write_frames J vs [] = (Inr (), [] @ concat (map frame js))"
    using write_frames_concat[OF assms(2)] by blast
  then show ?thesis using read_frames_concat[OF assms(1)] by simp
qed

definition serde_ex :: "byte list serde" where
  "serde_ex = \<lparr> serde_to = Inr, serde_from = Inr \<rparr>"

lemma serde_ex_simps [simp]: "serde_to serde_ex v = Inr v" "serde_from serde_ex v = Inr v" "serde_ok serde_ex"
  by (simp_all add: serde_ex_def serde_ok_def)

theorem framing_roundtrip_witness:
  "read_frames serde_ex (stream (snd (write_frames serde_ex [[1, 2, 3], [], [0, 0, 0, 1, 9]] []))) =
     Inr [[1, 2, 3], [], [0, 0, 0, 1, 9]]"
  using framing_roundtrip[of serde_ex "[[1, 2, 3], [], [0, 0, 0, 1, 9]]"] by simp

text \<open>A peer cannot make a reader take an unbounded frame: whatever the bytes of the
  stream, one \<open>read_frame\<close> takes at most the four bytes of the length and 4 MiB from it, and a length
  above the limit is refused before any byte of the body is read.\<close>

theorem read_frame_bounded:
  assumes "read_frame J s = (r, s')"
  shows "length (src_bytes s) \<le> length (src_bytes s') + 4 + 4194304 \<and>
    (4 \<le> length (src_bytes s) \<and> 4194304 < unat (be_word (take 4 (src_bytes s)) :: u32) \<longrightarrow>
       (\<exists>m. r = Inl (NetSerialization m)) \<and> src_bytes s' = drop 4 (src_bytes s))"
  using assms
  by (auto simp: read_frame_def read_exact_def Let_def max_frame not_less split: option.splits if_splits)

theorem read_frame_bounded_witness:
  "\<exists>m. fst (read_frame serde_ex (stream [255, 255, 255, 255, 1])) = Inl (NetSerialization m)"
proof -
  obtain r s' where run: "read_frame serde_ex (stream [255, 255, 255, 255, 1]) = (r, s')" by fastforce
  have "unat (be_word (take 4 (src_bytes (stream [255, 255, 255, 255, 1]))) :: u32) = 4294967295"
    by (simp add: stream_def be_word_def)
  then show ?thesis using read_frame_bounded[OF run] run by (simp add: stream_def)
qed

end
