(* ===== verification/Signed_Envelope.thy ===== *)
theory Signed_Envelope
  imports Codec Aux_Verify
begin

text \<open>
  Signed message envelopes (\<open>network/src/signed_envelope.rs\<close>) and the node identities and key
  registries that produce and check them (\<open>node/src/auth.rs\<close>).  The ed25519 operations are those of
  \<open>ed25519\<close>; a signature is its bytes.  The clock of \<open>seal\<close> is an argument.
\<close>

definition TIMESTAMP_TOLERANCE_SECS :: u64 where
  "TIMESTAMP_TOLERANCE_SECS = 30"

definition ENVELOPE_DOMAIN :: "byte list" where
  "ENVELOPE_DOMAIN = str_bytes ''tls-attestation/signed-envelope/v1'' @ [0]"

record SignedEnvelope =
  se_sender_id :: VerifierId
  se_timestamp :: u64
  se_payload :: "byte list"
  se_signature :: "byte list"

definition signing_bytes :: "VerifierId \<Rightarrow> u64 \<Rightarrow> byte list \<Rightarrow> byte list" where
  "signing_bytes sender timestamp payload = ENVELOPE_DOMAIN @ vid_enc sender @ be64 timestamp @ payload"

record EnvelopeKeyRegistry =
  ekr_keys :: "VerifierId \<rightharpoonup> bytes32"

definition ekr_new :: "key_list \<Rightarrow> EnvelopeKeyRegistry" where
  "ekr_new entries = \<lparr> ekr_keys = fold (\<lambda>(v, k) m. m(v \<mapsto> k)) entries Map.empty \<rparr>"

definition ekr_lookup :: "EnvelopeKeyRegistry \<Rightarrow> VerifierId \<Rightarrow> bytes32 option" where
  "ekr_lookup r v = ekr_keys r v"

definition ekr_len :: "EnvelopeKeyRegistry \<Rightarrow> nat" where
  "ekr_len r = card (dom (ekr_keys r))"

definition ekr_is_empty :: "EnvelopeKeyRegistry \<Rightarrow> bool" where
  "ekr_is_empty r \<longleftrightarrow> ekr_keys r = Map.empty"

definition seal :: "ed25519 \<Rightarrow> 'a serde \<Rightarrow> VerifierId \<Rightarrow> bytes32 \<Rightarrow> u64 \<Rightarrow> 'a \<Rightarrow> (NetworkError, SignedEnvelope) result" where
  "seal ed J sender signing_key clock message =
     rbind (map_err (\<lambda>e. NetSerialization (''seal: serialize payload: '' @ e)) (serde_to J message)) (\<lambda>payload.
     let timestamp = clock in
     Inr \<lparr> se_sender_id = sender, se_timestamp = timestamp, se_payload = payload,
           se_signature = ed_sign ed signing_key (signing_bytes sender timestamp payload) \<rparr>)"

definition open_envelope :: "ed25519 \<Rightarrow> 'a serde \<Rightarrow> SignedEnvelope \<Rightarrow> EnvelopeKeyRegistry \<Rightarrow> u64 \<Rightarrow>
    (NetworkError, 'a) result" where
  "open_envelope ed J env registry now =
     rbind (case ekr_lookup registry (se_sender_id env) of
        None \<Rightarrow> Inl (AuthFailed (''unknown sender: '' @ vid_display (se_sender_id env)))
      | Some vk \<Rightarrow> Inr vk) (\<lambda>verifying_key.
     let age = saturating_sub now (se_timestamp env); skew = saturating_sub (se_timestamp env) now in
     if TIMESTAMP_TOLERANCE_SECS < age \<or> TIMESTAMP_TOLERANCE_SECS < skew
     then Inl (AuthFailed (''timestamp out of range: envelope_ts='' @ dec_str (unat (se_timestamp env)) @
            '' now='' @ dec_str (unat now) @ '' (tolerance='' @ dec_str (unat TIMESTAMP_TOLERANCE_SECS) @ ''s)''))
     else if \<not> ed_verify ed verifying_key
            (signing_bytes (se_sender_id env) (se_timestamp env) (se_payload env)) (se_signature env)
     then Inl (AuthFailed ''signature verification failed'')
     else map_err (\<lambda>e. NetSerialization (''open: deserialize payload: '' @ e)) (serde_from J (se_payload env)))"

section \<open>Identities\<close>

record NodeIdentity =
  nid_verifier_id :: VerifierId
  nid_signing_key :: bytes32

definition identity_from_signing_key :: "sha \<Rightarrow> ed25519 \<Rightarrow> bytes32 \<Rightarrow> NodeIdentity" where
  "identity_from_signing_key H ed sk =
     \<lparr> nid_verifier_id = vid_from_public_key H (arr32 (ed_public ed sk)), nid_signing_key = sk \<rparr>"

text \<open>\<open>generate\<close> draws the signing key first.\<close>

definition identity_generate :: "sha \<Rightarrow> ed25519 \<Rightarrow> bytes32 \<Rightarrow> NodeIdentity" where
  "identity_generate H ed drawn = (let signing_key = drawn; verifying_key = ed_public ed signing_key in
     \<lparr> nid_verifier_id = vid_from_public_key H (arr32 verifying_key), nid_signing_key = signing_key \<rparr>)"

definition nid_verifying_key :: "ed25519 \<Rightarrow> NodeIdentity \<Rightarrow> bytes32" where
  "nid_verifying_key ed n = ed_public ed (nid_signing_key n)"

record NodeKeyRegistry =
  nkr_inner :: EnvelopeKeyRegistry

definition nkr_new :: "key_list \<Rightarrow> NodeKeyRegistry" where
  "nkr_new entries = \<lparr> nkr_inner = ekr_new entries \<rparr>"

definition nkr_from_identities :: "ed25519 \<Rightarrow> NodeIdentity list \<Rightarrow> NodeKeyRegistry" where
  "nkr_from_identities ed ids = nkr_new (map (\<lambda>n. (nid_verifier_id n, nid_verifying_key ed n)) ids)"

section \<open>What opening establishes\<close>

lemma tolerance:
  fixes now ts :: u64
  shows "\<not> (TIMESTAMP_TOLERANCE_SECS < saturating_sub now ts \<or> TIMESTAMP_TOLERANCE_SECS < saturating_sub ts now) \<longleftrightarrow>
    unat now \<le> unat ts + 30 \<and> unat ts \<le> unat now + 30"
  by (auto simp: saturating_sub_def TIMESTAMP_TOLERANCE_SECS_def word_less_nat_alt word_le_nat_alt unat_sub)

lemma open_eq_Inr:
  "open_envelope ed J env reg now = Inr m \<longleftrightarrow> (\<exists>vk. ekr_lookup reg (se_sender_id env) = Some vk \<and>
     unat now \<le> unat (se_timestamp env) + 30 \<and> unat (se_timestamp env) \<le> unat now + 30 \<and>
     ed_verify ed vk (signing_bytes (se_sender_id env) (se_timestamp env) (se_payload env)) (se_signature env) \<and>
     serde_from J (se_payload env) = Inr m)"
  using tolerance[of now "se_timestamp env"]
  by (auto simp: open_envelope_def Let_def rbind_eq_Inr map_err_eq_Inr split: option.splits)

lemma signing_bytes_inject:
  "signing_bytes s t p = signing_bytes s' t' p' \<longleftrightarrow> s = s' \<and> t = t' \<and> p = p'"
  by (auto simp: signing_bytes_def vid_enc_def be_bytes_append_inject VerifierId.expand)

text \<open>What the ed25519 library promises: a signature made with a key verifies under its public key.\<close>

definition ed_ok :: "ed25519 \<Rightarrow> bool" where
  "ed_ok ed \<longleftrightarrow> (\<forall>sk msg. ed_verify ed (ed_public ed sk) msg (ed_sign ed sk msg))"

lemma registered_identity:
  assumes "distinct (map nid_verifier_id ids)" "n \<in> set ids"
  shows "ekr_lookup (nkr_inner (nkr_from_identities ed ids)) (nid_verifier_id n) = Some (nid_verifying_key ed n)"
  using assms
proof -
  let ?es = "map (\<lambda>n. (nid_verifier_id n, nid_verifying_key ed n)) ids"
  have "fold (\<lambda>(v, k) m. m(v \<mapsto> k)) ?es m (nid_verifier_id n) = Some (nid_verifying_key ed n)" for m
    using assms
  proof (induction ids arbitrary: m)
    case (Cons x ids)
    have other: "fold (\<lambda>(v, k) m. m(v \<mapsto> k)) (map (\<lambda>n. (nid_verifier_id n, nid_verifying_key ed n)) ids) m v = m v"
      if "v \<notin> nid_verifier_id ` set ids" for v and m :: "VerifierId \<rightharpoonup> bytes32"
      using that by (induction ids arbitrary: m) auto
    show ?case
    proof (cases "n \<in> set ids")
      case True
      then show ?thesis using Cons by simp
    next
      case False
      then show ?thesis using Cons.prems by (auto simp: other fun_upd_same simp del: fun_upd_apply)
    qed
  qed simp
  then show ?thesis by (simp add: ekr_lookup_def nkr_from_identities_def nkr_new_def ekr_new_def)
qed

section \<open>Properties\<close>

text \<open>A sealed message opens.  For peers with different identifiers, what a registered
  identity seals is opened by every holder of the registry to the same message, as long as the two
  clocks differ by at most 30 seconds.\<close>

theorem envelope_roundtrip:
  assumes "ed_ok ed" "serde_ok J" "distinct (map nid_verifier_id ids)" "n \<in> set ids"
    and "seal ed J (nid_verifier_id n) (nid_signing_key n) clock message = Inr env"
    and "unat now \<le> unat clock + 30" "unat clock \<le> unat now + 30"
  shows "open_envelope ed J env (nkr_inner (nkr_from_identities ed ids)) now = Inr message"
  using assms registered_identity[OF assms(3,4), of ed]
  by (auto simp: seal_def open_eq_Inr rbind_eq_Inr map_err_eq_Inr Let_def serde_ok_def ed_ok_def nid_verifying_key_def)

definition nid_ex :: NodeIdentity where
  "nid_ex = identity_from_signing_key (\<lambda>_. 7) ed_ex 5"

lemma ed_ex_ok: "ed_ok ed_ex"
  by (simp add: ed_ok_def)

theorem envelope_roundtrip_witness:
  "\<exists>env. seal ed_ex serde_ex (nid_verifier_id nid_ex) (nid_signing_key nid_ex) 1000 [1, 2] = Inr env \<and>
     open_envelope ed_ex serde_ex env (nkr_inner (nkr_from_identities ed_ex [nid_ex])) 1030 = Inr [1, 2]"
proof -
  obtain env where s: "seal ed_ex serde_ex (nid_verifier_id nid_ex) (nid_signing_key nid_ex) 1000 [1, 2] = Inr env"
    by (simp add: seal_def Let_def)
  then show ?thesis using envelope_roundtrip[OF ed_ex_ok serde_ex_simps(3) _ _ s, of "[nid_ex]" 1030] by simp
qed

text \<open>The strings that an identity has signed by sealing the messages of its log, and a forgery against them: a signature
  that verifies for a string outside.\<close>

definition sealed_strings :: "ed25519 \<Rightarrow> 'a serde \<Rightarrow> NodeIdentity \<Rightarrow> (u64 \<times> 'a) list \<Rightarrow> byte list set" where
  "sealed_strings ed J n log = {signing_bytes (se_sender_id e) (se_timestamp e) (se_payload e) | e clock message.
     (clock, message) \<in> set log \<and> seal ed J (nid_verifier_id n) (nid_signing_key n) clock message = Inr e}"

definition forgery :: "ed25519 \<Rightarrow> bytes32 \<Rightarrow> byte list set \<Rightarrow> byte list \<Rightarrow> byte list \<Rightarrow> bool" where
  "forgery ed vk strings msg sg \<longleftrightarrow> ed_verify ed vk msg sg \<and> msg \<notin> strings"

lemma sealed_stringD:
  assumes "serde_ok J" "signing_bytes s t p \<in> sealed_strings ed J n log"
  obtains message where "(t, message) \<in> set log" "s = nid_verifier_id n" "serde_from J p = Inr message"
  using assms
  by (auto simp: sealed_strings_def seal_def Let_def rbind_eq_Inr map_err_eq_Inr signing_bytes_inject serde_ok_def)

text \<open>C26. An opened message is authentic.  Let peers with different identifiers share a registry, and let one of them
  have sealed the messages of a log.  When an envelope in the name of this peer opens, then its clock reading is at most
  30 seconds away from the receiver's clock, and either the peer has sealed exactly this message at exactly this
  time, or the string and the signature of the envelope are an explicit forgery under the peer's key: a signature that
  verifies for a string the peer has not signed.\<close>

theorem envelope_authentic:
  assumes "serde_ok J" "distinct (map nid_verifier_id ids)" "n \<in> set ids"
    and opened: "open_envelope ed J env (nkr_inner (nkr_from_identities ed ids)) now = Inr m"
    and "se_sender_id env = nid_verifier_id n"
  shows "unat now \<le> unat (se_timestamp env) + 30 \<and> unat (se_timestamp env) \<le> unat now + 30 \<and>
    ((se_timestamp env, m) \<in> set log \<or>
     forgery ed (nid_verifying_key ed n) (sealed_strings ed J n log)
       (signing_bytes (se_sender_id env) (se_timestamp env) (se_payload env)) (se_signature env))"
proof -
  let ?msg = "signing_bytes (se_sender_id env) (se_timestamp env) (se_payload env)"
  from opened have window: "unat now \<le> unat (se_timestamp env) + 30" "unat (se_timestamp env) \<le> unat now + 30"
    and v: "ed_verify ed (nid_verifying_key ed n) ?msg (se_signature env)" and m: "serde_from J (se_payload env) = Inr m"
    using registered_identity[OF assms(2,3), of ed] assms(5) by (auto simp: open_eq_Inr)
  have "(se_timestamp env, m) \<in> set log" if "?msg \<in> sealed_strings ed J n log"
    using sealed_stringD[OF assms(1) that] m by (metis Inr_inject)
  with window v show ?thesis unfolding forgery_def by blast
qed

lemma seal_ex: "\<exists>env. seal ed_ex serde_ex (nid_verifier_id nid_ex) (nid_signing_key nid_ex) 1000 [1, 2] = Inr env \<and>
    se_sender_id env = nid_verifier_id nid_ex \<and> se_timestamp env = 1000 \<and>
    open_envelope ed_ex serde_ex env (nkr_inner (nkr_from_identities ed_ex [nid_ex])) 1010 = Inr [1, 2]"
  using registered_identity[of "[nid_ex]" nid_ex ed_ex] ed_ex_ok
  by (simp add: seal_def Let_def open_eq_Inr nid_verifying_key_def ed_ok_def)

theorem envelope_authentic_witness:
  "\<exists>env. open_envelope ed_ex serde_ex env (nkr_inner (nkr_from_identities ed_ex [nid_ex])) 1010 = Inr [1, 2] \<and>
     unat (1010 :: u64) \<le> unat (se_timestamp env) + 30 \<and>
     ((se_timestamp env, [1, 2]) \<in> set [(1000, [1, 2])] \<or>
      forgery ed_ex (nid_verifying_key ed_ex nid_ex) (sealed_strings ed_ex serde_ex nid_ex [(1000, [1, 2])])
        (signing_bytes (se_sender_id env) (se_timestamp env) (se_payload env)) (se_signature env))"
proof -
  obtain env where e: "se_sender_id env = nid_verifier_id nid_ex"
    "open_envelope ed_ex serde_ex env (nkr_inner (nkr_from_identities ed_ex [nid_ex])) 1010 = Inr [1, 2]"
    using seal_ex by blast
  from envelope_authentic[OF serde_ex_simps(3) _ _ e(2,1), of "[(1000, [1, 2])]"] e(2) show ?thesis by auto
qed

text \<open>An envelope is accepted again: the window does not reject a frame that is replayed while
  it lasts.  Whatever opens at one time opens, to the same message, at every time within 30 seconds
  of its timestamp.\<close>

theorem envelope_replay_in_window:
  assumes "open_envelope ed J env reg now = Inr m"
    and "unat later \<le> unat (se_timestamp env) + 30" "unat (se_timestamp env) \<le> unat later + 30"
  shows "open_envelope ed J env reg later = Inr m"
  using assms by (auto simp: open_eq_Inr)

theorem envelope_replay_in_window_witness:
  "\<exists>env. open_envelope ed_ex serde_ex env (nkr_inner (nkr_from_identities ed_ex [nid_ex])) 1029 = Inr [1, 2]"
proof -
  obtain env where e: "se_timestamp env = 1000"
    "open_envelope ed_ex serde_ex env (nkr_inner (nkr_from_identities ed_ex [nid_ex])) 1010 = Inr [1, 2]"
    using seal_ex by blast
  from envelope_replay_in_window[OF e(2), of 1029] e(1) show ?thesis by auto
qed

end
