(* ===== verification/Tcp_Transport.thy ===== *)
theory Tcp_Transport
  imports Node_Iface Signed_Envelope
begin

text \<open>
  The network transports of \<open>node/src/transport.rs\<close>: plain TCP, TCP with signed envelopes, and mutual
  TLS, each with its client side (an implementation of \<open>FrostNodeTransport\<close>) and the handler of one
  connection on its server side.

  A connection is a \<open>peer\<close>: the outcome of the calls that open it, the errors of its sink, and what the
  other side sends back for the bytes it receives, which may change the world \<open>'w\<close>.  \<open>JQ\<close>, \<open>JR\<close> and \<open>JE\<close>
  are the JSON codecs of requests, responses and envelopes, and \<open>dbg\<close> is the derived debug text of a
  response.  The accept loops and their threads are not modelled: each connection is one call of its
  handler.
\<close>

section \<open>Connections\<close>

record 'w peer =
  peer_addr :: string
  peer_connect :: "('w, string, unit) action"
  peer_set_read_timeout :: "('w, string, unit) action"
  peer_try_clone :: "('w, string, unit) action"
  peer_tls_client :: "('w, string, unit) action"
  peer_io :: io_faults
  peer_reply :: "byte list \<Rightarrow> 'w \<Rightarrow> source \<times> 'w"

definition proto :: "string \<Rightarrow> string \<Rightarrow> NodeError" where
  "proto what e = FrostProtocol (what @ e)"

definition tcp_connect :: "'w peer \<Rightarrow> ('w, NodeError, unit) action" where
  "tcp_connect p = abind (amap_err (proto (''TCP connect to '' @ peer_addr p @ '': '')) (peer_connect p)) (\<lambda>_.
     amap_err (proto ''set_read_timeout: '') (peer_set_read_timeout p))"

definition connect_tls :: "'w peer \<Rightarrow> ('w, NodeError, unit) action" where
  "connect_tls p = abind (amap_err (proto (''mTLS TCP connect to '' @ peer_addr p @ '': '')) (peer_connect p)) (\<lambda>_.
     abind (amap_err (proto ''set_read_timeout: '') (peer_set_read_timeout p)) (\<lambda>_.
     amap_err (proto ''TLS client init: '') (peer_tls_client p)))"

text \<open>Write one frame, read one frame.\<close>

definition exchange :: "string \<Rightarrow> string \<Rightarrow> 'w peer \<Rightarrow> 'q serde \<Rightarrow> 'r serde \<Rightarrow> 'q \<Rightarrow> ('w, NodeError, 'r) action" where
  "exchange writing reading p JQ JR req w =
     (case write_frame JQ (peer_io p) req [] of
        (Inl e, out) \<Rightarrow> (Inl (proto writing (network_error_display e)), snd (peer_reply p out w))
      | (Inr _, out) \<Rightarrow> (case peer_reply p out w of
          (src, w') \<Rightarrow> (map_err (\<lambda>e. proto reading (network_error_display e)) (fst (read_frame JR src)), w')))"

section \<open>Plain TCP\<close>

definition tcp_call :: "string \<Rightarrow> string \<Rightarrow> string \<Rightarrow> 'w peer \<Rightarrow> NodeRequest serde \<Rightarrow> NodeResponse serde \<Rightarrow> NodeRequest \<Rightarrow>
    ('w, NodeError, NodeResponse) action" where
  "tcp_call cloning writing reading p JQ JR req = abind (tcp_connect p) (\<lambda>_.
     abind (amap_err (proto cloning) (peer_try_clone p)) (\<lambda>_. exchange writing reading p JQ JR req))"

text \<open>The answer to a request: the response of its kind, the error of the peer, or neither.\<close>

definition expect_frost_round1 :: "(NodeResponse \<Rightarrow> string) \<Rightarrow> string \<Rightarrow> string \<Rightarrow> NodeResponse \<Rightarrow>
    (NodeError, FrostRound1Response) result" where
  "expect_frost_round1 dbg rejected unexpected resp = (case resp of
     RespFrostRound1 r \<Rightarrow> Inr r
   | RespError reason \<Rightarrow> Inl (FrostProtocol (rejected @ reason))
   | other \<Rightarrow> Inl (FrostProtocol (unexpected @ dbg other)))"

definition expect_frost_round2 :: "(NodeResponse \<Rightarrow> string) \<Rightarrow> string \<Rightarrow> string \<Rightarrow> NodeResponse \<Rightarrow>
    (NodeError, FrostRound2Response) result" where
  "expect_frost_round2 dbg rejected unexpected resp = (case resp of
     RespFrostRound2 r \<Rightarrow> Inr r
   | RespError reason \<Rightarrow> Inl (FrostProtocol (rejected @ reason))
   | other \<Rightarrow> Inl (FrostProtocol (unexpected @ dbg other)))"

definition expect_handshake_binding_round1 :: "(NodeResponse \<Rightarrow> string) \<Rightarrow> string \<Rightarrow> string \<Rightarrow> NodeResponse \<Rightarrow>
    (NodeError, HandshakeBindingRound1Response) result" where
  "expect_handshake_binding_round1 dbg rejected unexpected resp = (case resp of
     RespHandshakeBindingRound1 r \<Rightarrow> Inr r
   | RespError reason \<Rightarrow> Inl (FrostProtocol (rejected @ reason))
   | other \<Rightarrow> Inl (FrostProtocol (unexpected @ dbg other)))"

definition expect_handshake_binding_round2 :: "(NodeResponse \<Rightarrow> string) \<Rightarrow> string \<Rightarrow> string \<Rightarrow> NodeResponse \<Rightarrow>
    (NodeError, HandshakeBindingRound2Response) result" where
  "expect_handshake_binding_round2 dbg rejected unexpected resp = (case resp of
     RespHandshakeBindingRound2 r \<Rightarrow> Inr r
   | RespError reason \<Rightarrow> Inl (FrostProtocol (rejected @ reason))
   | other \<Rightarrow> Inl (FrostProtocol (unexpected @ dbg other)))"

definition TcpNodeTransport :: "(NodeResponse \<Rightarrow> string) \<Rightarrow> NodeRequest serde \<Rightarrow> NodeResponse serde \<Rightarrow> VerifierId \<Rightarrow> 'w peer \<Rightarrow>
    'w FrostNodeTransport" where
  "TcpNodeTransport dbg JQ JR vid p = \<lparr>
     tr_verifier_id = (\<lambda>_. vid),
     tr_frost_round1 = (\<lambda>req _. abind (tcp_call ''stream clone for write: '' ''write round-1 request: '' ''read round-1 response: '' p JQ JR
       (ReqFrostRound1 req)) (\<lambda>resp.
       alift (expect_frost_round1 dbg ''aux node rejected round-1: '' ''unexpected response type for round-1: '' resp))),
     tr_frost_round2 = (\<lambda>req. abind (tcp_call ''stream clone for write: '' ''write round-2 request: '' ''read round-2 response: '' p JQ JR
       (ReqFrostRound2 req)) (\<lambda>resp.
       alift (expect_frost_round2 dbg ''aux node rejected round-2: '' ''unexpected response type for round-2: '' resp))),
     tr_handshake_binding_round1 = (\<lambda>req _. abind (tcp_call ''stream clone: '' ''write hb-round1 req: '' ''read hb-round1 resp: '' p JQ JR
       (ReqHandshakeBindingRound1 req)) (\<lambda>resp.
       alift (expect_handshake_binding_round1 dbg ''aux node rejected hb-round1: '' ''unexpected hb-round1 response: '' resp))),
     tr_handshake_binding_round2 = (\<lambda>req. abind (tcp_call ''stream clone: '' ''write hb-round2 req: '' ''read hb-round2 resp: '' p JQ JR
       (ReqHandshakeBindingRound2 req)) (\<lambda>resp.
       alift (expect_handshake_binding_round2 dbg ''aux node rejected hb-round2: '' ''unexpected hb-round2 response: '' resp))) \<rparr>"

text \<open>The server: one request, handled by the node, one response.\<close>

definition dispatch :: "sha \<Rightarrow> ('kp, 'n, 'c, 's, 'sp, 'pk) frost \<Rightarrow>
    ('b, 'u8, 'u32, 'f, 'fr) r1cs \<Rightarrow> ('fr, 'gpk, 'vk, 'pvk, 'pf, 'rng) groth \<Rightarrow>
    (byte list \<Rightarrow> (string, HspZkProof) result) \<Rightarrow> (byte list \<Rightarrow> (string, DctlsEvidence) result) \<Rightarrow>
    node_inputs \<Rightarrow> UnixTimestamp \<Rightarrow> NodeRequest \<Rightarrow> ('kp, 'n) FrostAuxiliaryNode \<Rightarrow>
    NodeResponse \<times> ('kp, 'n) FrostAuxiliaryNode" where
  "dispatch H F G K hj ej ni now request n = (case request of
       ReqFrostRound1 req \<Rightarrow> (case frost_round1 H F G K hj ej n req now (ni_clock ni) (ni_evict_at ni) (ni_insert_at ni) (ni_rng ni) of
         (Inr resp, n') \<Rightarrow> (RespFrostRound1 resp, n') | (Inl e, n') \<Rightarrow> (RespError (node_error_display e), n'))
     | ReqFrostRound2 req \<Rightarrow> (case frost_round2 F n req of
         (Inr resp, n') \<Rightarrow> (RespFrostRound2 resp, n') | (Inl e, n') \<Rightarrow> (RespError (node_error_display e), n'))
     | ReqHandshakeBindingRound1 req \<Rightarrow> (case handshake_binding_round1 F n req now (ni_evict_at ni) (ni_insert_at ni) (ni_rng ni) of
         (Inr resp, n') \<Rightarrow> (RespHandshakeBindingRound1 resp, n') | (Inl e, n') \<Rightarrow> (RespError (node_error_display e), n'))
     | ReqHandshakeBindingRound2 req \<Rightarrow> (case handshake_binding_round2 F n req of
         (Inr resp, n') \<Rightarrow> (RespHandshakeBindingRound2 resp, n') | (Inl e, n') \<Rightarrow> (RespError (node_error_display e), n')))"

text \<open>The handler of a connection returns its result, the bytes it has written and the node.\<close>

definition tcp_handle_connection :: "sha \<Rightarrow> ('kp, 'n, 'c, 's, 'sp, 'pk) frost \<Rightarrow>
    ('b, 'u8, 'u32, 'f, 'fr) r1cs \<Rightarrow> ('fr, 'gpk, 'vk, 'pvk, 'pf, 'rng) groth \<Rightarrow>
    (byte list \<Rightarrow> (string, HspZkProof) result) \<Rightarrow> (byte list \<Rightarrow> (string, DctlsEvidence) result) \<Rightarrow>
    NodeRequest serde \<Rightarrow> NodeResponse serde \<Rightarrow> io_faults \<Rightarrow> node_inputs \<Rightarrow> UnixTimestamp \<Rightarrow> source \<Rightarrow>
    ('kp, 'n) FrostAuxiliaryNode \<Rightarrow> (NetworkError, unit) result \<times> byte list \<times> ('kp, 'n) FrostAuxiliaryNode" where
  "tcp_handle_connection H F G K hj ej JQ JR fs ni now src n =
     (case fst (read_frame JQ src) of
        Inl ChannelClosed \<Rightarrow> (Inr (), [], n)
      | Inl e \<Rightarrow> (Inl e, [], n)
      | Inr request \<Rightarrow> (case dispatch H F G K hj ej ni now request n of
          (response, n') \<Rightarrow> (case write_frame JR fs response [] of (r, out) \<Rightarrow> (r, out, n'))))"

section \<open>TCP with signed envelopes\<close>

definition send_recv :: "ed25519 \<Rightarrow> NodeRequest serde \<Rightarrow> NodeResponse serde \<Rightarrow> SignedEnvelope serde \<Rightarrow> NodeIdentity \<Rightarrow>
    NodeKeyRegistry \<Rightarrow> u64 \<Rightarrow> u64 \<Rightarrow> 'w peer \<Rightarrow> NodeRequest \<Rightarrow> ('w, NodeError, NodeResponse) action" where
  "send_recv ed JQ JR JE identity registry clock now p request =
     abind (alift (map_err (\<lambda>e. proto ''sign request: '' (network_error_display e))
        (seal ed JQ (nid_verifier_id identity) (nid_signing_key identity) clock request))) (\<lambda>envelope.
     abind (tcp_connect p) (\<lambda>_.
     abind (amap_err (proto ''stream clone: '') (peer_try_clone p)) (\<lambda>_.
     abind (exchange ''write envelope: '' ''read response envelope: '' p JE JE envelope) (\<lambda>resp_env.
     alift (map_err (\<lambda>e. proto ''verify response: '' (network_error_display e))
        (open_envelope ed JR resp_env (nkr_inner registry) now))))))"

definition AuthTcpNodeTransport :: "ed25519 \<Rightarrow> (NodeResponse \<Rightarrow> string) \<Rightarrow> NodeRequest serde \<Rightarrow> NodeResponse serde \<Rightarrow> SignedEnvelope serde \<Rightarrow>
    NodeIdentity \<Rightarrow> NodeKeyRegistry \<Rightarrow> u64 \<Rightarrow> u64 \<Rightarrow> VerifierId \<Rightarrow> 'w peer \<Rightarrow> 'w FrostNodeTransport" where
  "AuthTcpNodeTransport ed dbg JQ JR JE identity registry clock now vid p = \<lparr>
     tr_verifier_id = (\<lambda>_. vid),
     tr_frost_round1 = (\<lambda>req _. abind (send_recv ed JQ JR JE identity registry clock now p (ReqFrostRound1 req)) (\<lambda>resp.
       alift (expect_frost_round1 dbg ''auth aux node rejected round-1: '' ''unexpected response for round-1: '' resp))),
     tr_frost_round2 = (\<lambda>req. abind (send_recv ed JQ JR JE identity registry clock now p (ReqFrostRound2 req)) (\<lambda>resp.
       alift (expect_frost_round2 dbg ''auth aux node rejected round-2: '' ''unexpected response for round-2: '' resp))),
     tr_handshake_binding_round1 = (\<lambda>req _. abind (send_recv ed JQ JR JE identity registry clock now p (ReqHandshakeBindingRound1 req)) (\<lambda>resp.
       alift (expect_handshake_binding_round1 dbg ''auth aux node rejected hb-round1: '' ''unexpected auth response for hb-round1: '' resp))),
     tr_handshake_binding_round2 = (\<lambda>req. abind (send_recv ed JQ JR JE identity registry clock now p (ReqHandshakeBindingRound2 req)) (\<lambda>resp.
       alift (expect_handshake_binding_round2 dbg ''auth aux node rejected hb-round2: '' ''unexpected auth response for hb-round2: '' resp))) \<rparr>"

definition auth_handle_connection :: "sha \<Rightarrow> ('kp, 'n, 'c, 's, 'sp, 'pk) frost \<Rightarrow>
    ('b, 'u8, 'u32, 'f, 'fr) r1cs \<Rightarrow> ('fr, 'gpk, 'vk, 'pvk, 'pf, 'rng) groth \<Rightarrow>
    (byte list \<Rightarrow> (string, HspZkProof) result) \<Rightarrow> (byte list \<Rightarrow> (string, DctlsEvidence) result) \<Rightarrow>
    ed25519 \<Rightarrow> NodeRequest serde \<Rightarrow> NodeResponse serde \<Rightarrow> SignedEnvelope serde \<Rightarrow> NodeIdentity \<Rightarrow> NodeKeyRegistry \<Rightarrow>
    io_faults \<Rightarrow> node_inputs \<Rightarrow> u64 \<Rightarrow> UnixTimestamp \<Rightarrow> u64 \<Rightarrow> source \<Rightarrow>
    ('kp, 'n) FrostAuxiliaryNode \<Rightarrow> (NetworkError, unit) result \<times> byte list \<times> ('kp, 'n) FrostAuxiliaryNode" where
  "auth_handle_connection H F G K hj ej ed JQ JR JE identity registry fs ni now ts clock src n =
     (case fst (read_frame JE src) of
        Inl ChannelClosed \<Rightarrow> (Inr (), [], n)
      | Inl e \<Rightarrow> (Inl e, [], n)
      | Inr req_env \<Rightarrow> (case open_envelope ed JQ req_env (nkr_inner registry) now of
          Inl e \<Rightarrow> (Inl (AuthFailed (''request auth failed: '' @ network_error_display e)), [], n)
        | Inr request \<Rightarrow> (case dispatch H F G K hj ej ni ts request n of
            (inner_response, n') \<Rightarrow>
              (case seal ed JR (nid_verifier_id identity) (nid_signing_key identity) clock inner_response of
                 Inl e \<Rightarrow> (Inl e, [], n')
               | Inr resp_env \<Rightarrow> (case write_frame JE fs resp_env [] of (r, out) \<Rightarrow> (r, out, n'))))))"

section \<open>Mutual TLS\<close>

text \<open>The frames travel inside the TLS session, whose errors are those of the sink and the source.\<close>

definition mtls_call :: "string \<Rightarrow> string \<Rightarrow> 'w peer \<Rightarrow> NodeRequest serde \<Rightarrow> NodeResponse serde \<Rightarrow> NodeRequest \<Rightarrow>
    ('w, NodeError, NodeResponse) action" where
  "mtls_call writing reading p JQ JR req = abind (connect_tls p) (\<lambda>_. exchange writing reading p JQ JR req)"

definition MtlsTcpNodeTransport :: "(NodeResponse \<Rightarrow> string) \<Rightarrow> NodeRequest serde \<Rightarrow> NodeResponse serde \<Rightarrow> VerifierId \<Rightarrow> 'w peer \<Rightarrow>
    'w FrostNodeTransport" where
  "MtlsTcpNodeTransport dbg JQ JR vid p = \<lparr>
     tr_verifier_id = (\<lambda>_. vid),
     tr_frost_round1 = (\<lambda>req _. abind (mtls_call ''mTLS write round-1: '' ''mTLS read round-1: '' p JQ JR (ReqFrostRound1 req)) (\<lambda>resp.
       alift (expect_frost_round1 dbg ''mTLS aux node rejected round-1: '' ''unexpected mTLS response for round-1: '' resp))),
     tr_frost_round2 = (\<lambda>req. abind (mtls_call ''mTLS write round-2: '' ''mTLS read round-2: '' p JQ JR (ReqFrostRound2 req)) (\<lambda>resp.
       alift (expect_frost_round2 dbg ''mTLS aux node rejected round-2: '' ''unexpected mTLS response for round-2: '' resp))),
     tr_handshake_binding_round1 = (\<lambda>req _. abind (mtls_call ''mTLS write hb-round1: '' ''mTLS read hb-round1: '' p JQ JR (ReqHandshakeBindingRound1 req)) (\<lambda>resp.
       alift (expect_handshake_binding_round1 dbg ''mTLS aux node rejected hb-round1: '' ''unexpected mTLS hb-round1 response: '' resp))),
     tr_handshake_binding_round2 = (\<lambda>req. abind (mtls_call ''mTLS write hb-round2: '' ''mTLS read hb-round2: '' p JQ JR (ReqHandshakeBindingRound2 req)) (\<lambda>resp.
       alift (expect_handshake_binding_round2 dbg ''mTLS aux node rejected hb-round2: '' ''unexpected mTLS hb-round2 response: '' resp))) \<rparr>"

definition mtls_handle_connection :: "sha \<Rightarrow> ('kp, 'n, 'c, 's, 'sp, 'pk) frost \<Rightarrow>
    ('b, 'u8, 'u32, 'f, 'fr) r1cs \<Rightarrow> ('fr, 'gpk, 'vk, 'pvk, 'pf, 'rng) groth \<Rightarrow>
    (byte list \<Rightarrow> (string, HspZkProof) result) \<Rightarrow> (byte list \<Rightarrow> (string, DctlsEvidence) result) \<Rightarrow>
    NodeRequest serde \<Rightarrow> NodeResponse serde \<Rightarrow> (string, unit) result \<Rightarrow> io_faults \<Rightarrow> node_inputs \<Rightarrow> UnixTimestamp \<Rightarrow> source \<Rightarrow>
    ('kp, 'n) FrostAuxiliaryNode \<Rightarrow> (NetworkError, unit) result \<times> byte list \<times> ('kp, 'n) FrostAuxiliaryNode" where
  "mtls_handle_connection H F G K hj ej JQ JR tls fs ni now src n =
     (case tls of
        Inl e \<Rightarrow> (Inl (NetSerialization (''TLS server init: '' @ e)), [], n)
      | Inr _ \<Rightarrow> (case fst (read_frame JQ src) of
          Inl ChannelClosed \<Rightarrow> (Inr (), [], n)
        | Inl e \<Rightarrow> (Inl e, [], n)
        | Inr request \<Rightarrow> (case dispatch H F G K hj ej ni now request n of
            (response, n') \<Rightarrow> (case write_frame JR fs response [] of (r, out) \<Rightarrow> (r, out, n')))))"

section \<open>A connection to a server\<close>

definition fits :: "'a serde \<Rightarrow> 'a \<Rightarrow> bool" where
  "fits J v \<longleftrightarrow> (case serde_to J v of Inl _ \<Rightarrow> False | Inr json \<Rightarrow> length json \<le> 4194304)"

text \<open>A fault-free connection whose other end runs the handler \<open>serve\<close> of a server.\<close>

definition live :: "string \<Rightarrow> (source \<Rightarrow> 'w \<Rightarrow> (NetworkError, unit) result \<times> byte list \<times> 'w) \<Rightarrow> 'w peer" where
  "live addr serve = \<lparr> peer_addr = addr, peer_connect = alift (Inr ()), peer_set_read_timeout = alift (Inr ()),
     peer_try_clone = alift (Inr ()), peer_tls_client = alift (Inr ()), peer_io = (\<lambda>_. None),
     peer_reply = (\<lambda>out w. case serve (stream out) w of (_, bytes, w') \<Rightarrow> (stream bytes, w')) \<rparr>"

lemma live_simps [simp]:
  "peer_connect (live addr serve) = alift (Inr ())" "peer_set_read_timeout (live addr serve) = alift (Inr ())"
  "peer_try_clone (live addr serve) = alift (Inr ())" "peer_tls_client (live addr serve) = alift (Inr ())"
  "peer_io (live addr serve) = (\<lambda>_. None)"
  by (simp_all add: live_def)

lemma abind_ok [simp]: "abind (alift (Inr a)) f = f a" "amap_err g (alift (Inr a)) = alift (Inr a)"
  by (auto simp: abind_def alift_def amap_err_def)

lemma fits_frame:
  assumes "serde_ok J" "fits J v"
  shows "\<exists>bytes. (\<forall>sink. write_frame J (\<lambda>_. None) v sink = (Inr (), sink @ bytes)) \<and>
    fst (read_frame J (stream bytes)) = Inr v"
proof -
  obtain json where j: "serde_to J v = Inr json" "length json \<le> 4194304"
    using assms(2) by (auto simp: fits_def split: sum.splits)
  then have "serde_from J json = Inr v" using assms(1) by (simp add: serde_ok_def)
  then have "fst (read_frame J (stream (frame json))) = Inr v"
    using read_frame_frame[OF j(2), of J v "[]" None] by (simp add: stream_def)
  moreover have "write_frame J (\<lambda>_. None) v sink = (Inr (), sink @ frame json)" for sink
    using j by (simp add: write_frame_eq unat_frame_length)
  ultimately show ?thesis by blast
qed

lemma exchange_live:
  assumes "serde_ok JQ" "fits JQ q" "serde_ok JR" "fits JR r"
    and serve: "\<And>src bytes. fst (read_frame JQ src) = Inr q \<Longrightarrow> write_frame JR (\<lambda>_. None) r [] = (Inr (), bytes) \<Longrightarrow>
      serve src w = (Inr (), bytes, w')"
  shows "exchange wr rd (live addr serve) JQ JR q w = (Inr r, w')"
proof -
  obtain qb where q: "write_frame JQ (\<lambda>_. None) q [] = (Inr (), qb)" "fst (read_frame JQ (stream qb)) = Inr q"
    using fits_frame[OF assms(1,2)] by (metis append_Nil)
  obtain rb where r: "write_frame JR (\<lambda>_. None) r [] = (Inr (), rb)" "fst (read_frame JR (stream rb)) = Inr r"
    using fits_frame[OF assms(3,4)] by (metis append_Nil)
  have "serve (stream qb) w = (Inr (), rb, w')" by (rule serve[OF q(2) r(1)])
  then show ?thesis using q(1) r(2) by (simp add: exchange_def live_def)
qed

lemma tcp_call_live:
  assumes "serde_ok JQ" "fits JQ q" "serde_ok JR" "dispatch H F G K hj ej ni now q n = (r, n')" "fits JR r"
  shows "tcp_call c wr rd (live addr (tcp_handle_connection H F G K hj ej JQ JR (\<lambda>_. None) ni now)) JQ JR q n = (Inr r, n')"
  unfolding tcp_call_def tcp_connect_def live_simps abind_ok
  by (rule exchange_live[OF assms(1,2,3,5)]) (simp add: tcp_handle_connection_def assms(4))

lemma mtls_call_live:
  assumes "serde_ok JQ" "fits JQ q" "serde_ok JR" "dispatch H F G K hj ej ni now q n = (r, n')" "fits JR r"
  shows "mtls_call wr rd (live addr (mtls_handle_connection H F G K hj ej JQ JR (Inr ()) (\<lambda>_. None) ni now)) JQ JR q n = (Inr r, n')"
  unfolding mtls_call_def connect_tls_def live_simps abind_ok
  by (rule exchange_live[OF assms(1,2,3,5)]) (simp add: mtls_handle_connection_def assms(4))

text \<open>The authenticated transport, for two registered identities with close clocks.\<close>

lemma send_recv_live:
  assumes "ed_ok ed" "serde_ok JQ" "serde_ok JR" "serde_ok JE" "distinct (map nid_verifier_id ids)"
    and "client \<in> set ids" "server \<in> set ids"
    and q: "seal ed JQ (nid_verifier_id client) (nid_signing_key client) t1 q = Inr qe" "fits JE qe"
    and d: "dispatch H F G K hj ej ni now q n = (r, n')"
    and r: "seal ed JR (nid_verifier_id server) (nid_signing_key server) t3 r = Inr re" "fits JE re"
    and close: "unat t2 \<le> unat t1 + 30" "unat t1 \<le> unat t2 + 30" "unat t4 \<le> unat t3 + 30" "unat t3 \<le> unat t4 + 30"
  shows "send_recv ed JQ JR JE client (nkr_from_identities ed ids) t1 t4 (live addr
      (auth_handle_connection H F G K hj ej ed JQ JR JE server (nkr_from_identities ed ids) (\<lambda>_. None) ni t2 now t3)) q n =
    (Inr r, n')"
proof -
  have opened: "open_envelope ed J e (nkr_inner (nkr_from_identities ed ids)) t' = Inr m"
    if "serde_ok J" "seal ed J (nid_verifier_id i) (nid_signing_key i) t m = Inr e" "i \<in> set ids"
      "unat t' \<le> unat t + 30" "unat t \<le> unat t' + 30" for J :: "'x serde" and e i t t' m
    using that assms(1) registered_identity[OF assms(5) that(3), of ed]
    by (auto simp: seal_def open_eq_Inr rbind_eq_Inr map_err_eq_Inr Let_def serde_ok_def ed_ok_def nid_verifying_key_def)
  have "exchange ''write envelope: '' ''read response envelope: '' (live addr
      (auth_handle_connection H F G K hj ej ed JQ JR JE server (nkr_from_identities ed ids) (\<lambda>_. None) ni t2 now t3))
      JE JE qe n = (Inr re, n')"
    by (rule exchange_live[OF assms(4) q(2) assms(4) r(2)])
      (simp add: auth_handle_connection_def opened[OF assms(2) q(1) assms(6) close(1,2)] d r(1))
  then show ?thesis
    unfolding send_recv_def q(1) map_err_simps tcp_connect_def live_simps abind_ok
    by (simp add: abind_def opened[OF assms(3) r(1) assms(7) close(3,4)] alift_def)
qed

section \<open>Properties\<close>

text \<open>C24. The TCP transport is transparent.  Over a fault-free connection to the server of a
  node, each of the four calls returns what the node itself returns at the server's clock, with the
  same effect on the node; an error of the node arrives as a protocol error with the text of the
  node's error.  The request and the response have to fit in a frame.\<close>

theorem tcp_transport_transparent:
  assumes "serde_ok JQ" "serde_ok JR"
  shows "let T = TcpNodeTransport dbg JQ JR vid (live addr (tcp_handle_connection H F G K hj ej JQ JR (\<lambda>_. None) ni now));
      ok = (\<lambda>q. fits JQ q \<and> fits JR (fst (dispatch H F G K hj ej ni now q n)));
      rejected = (\<lambda>what e. FrostProtocol (''aux node rejected '' @ what @ '': '' @ node_error_display e)) in
    (ok (ReqFrostRound1 q1) \<longrightarrow> tr_frost_round1 T q1 t n = map_prod (map_err (rejected ''round-1'')) id
       (frost_round1 H F G K hj ej n q1 now (ni_clock ni) (ni_evict_at ni) (ni_insert_at ni) (ni_rng ni))) \<and>
    (ok (ReqFrostRound2 q2) \<longrightarrow> tr_frost_round2 T q2 n = map_prod (map_err (rejected ''round-2'')) id (frost_round2 F n q2)) \<and>
    (ok (ReqHandshakeBindingRound1 h1) \<longrightarrow> tr_handshake_binding_round1 T h1 t n =
       map_prod (map_err (rejected ''hb-round1'')) id
         (handshake_binding_round1 F n h1 now (ni_evict_at ni) (ni_insert_at ni) (ni_rng ni))) \<and>
    (ok (ReqHandshakeBindingRound2 h2) \<longrightarrow> tr_handshake_binding_round2 T h2 n =
       map_prod (map_err (rejected ''hb-round2'')) id (handshake_binding_round2 F n h2))"
proof -
  have call: "tcp_call c wr rd (live addr (tcp_handle_connection H F G K hj ej JQ JR (\<lambda>_. None) ni now)) JQ JR q n =
      (Inr (fst (dispatch H F G K hj ej ni now q n)), snd (dispatch H F G K hj ej ni now q n))"
    if "fits JQ q \<and> fits JR (fst (dispatch H F G K hj ej ni now q n))" for c wr rd q
    using tcp_call_live[OF assms(1) _ assms(2), of q H F G K hj ej ni now n] that by (cases "dispatch H F G K hj ej ni now q n") auto
  show ?thesis
    unfolding Let_def TcpNodeTransport_def
    by (intro conjI impI; simp add: call abind_def; simp add: dispatch_def alift_def expect_frost_round1_def
        expect_frost_round2_def expect_handshake_binding_round1_def expect_handshake_binding_round2_def
        split: prod.split sum.split)
qed

text \<open>A codec that knows one value.\<close>

definition serde_one :: "'a \<Rightarrow> 'a serde" where
  "serde_one v = \<lparr> serde_to = (\<lambda>x. if x = v then Inr [1] else Inl ''unsupported''),
     serde_from = (\<lambda>b. if b = [1] then Inr v else Inl ''unsupported'') \<rparr>"

lemma serde_one_ok: "serde_ok (serde_one v)" "fits (serde_one v) v"
  by (auto simp: serde_ok_def serde_one_def fits_def split: if_splits)

definition s1_ex :: "VerifierId \<Rightarrow> FrostRound1Response" where
  "s1_ex v = \<lparr> s1_session_id = SessionId 5, s1_verifier_id = v, s1_commitment_bytes = [] \<rparr>"

theorem tcp_transport_transparent_witness:
  "tr_frost_round1 (TcpNodeTransport (\<lambda>_. []) (serde_one (ReqFrostRound1 (r1_ex (DigestBytes 3))))
      (serde_one (RespFrostRound1 (s1_ex (VerifierId 1)))) (VerifierId 1)
      (live ''addr'' (tcp_handle_connection (\<lambda>_. 7) frost_ex r1cs_ex groth_ex (\<lambda>_. Inl []) (\<lambda>_. Inl [])
        (serde_one (ReqFrostRound1 (r1_ex (DigestBytes 3)))) (serde_one (RespFrostRound1 (s1_ex (VerifierId 1)))) (\<lambda>_. None)
        \<lparr> ni_clock = 0, ni_evict_at = 0, ni_insert_at = 0, ni_rng = (\<lambda>_. 0) \<rparr> (UnixTimestamp 50))))
      (r1_ex (DigestBytes 3)) (UnixTimestamp 0) (aux_start (fp_ex 1) None) =
   (Inr (s1_ex (VerifierId 1)), aux_ex (DigestBytes 3))"
proof -
  let ?ni = "\<lparr> ni_clock = 0, ni_evict_at = 0, ni_insert_at = 0, ni_rng = (\<lambda>_. 0) \<rparr> :: node_inputs"
  have d: "dispatch (\<lambda>_. 7) frost_ex r1cs_ex groth_ex (\<lambda>_. Inl []) (\<lambda>_. Inl []) ?ni (UnixTimestamp 50)
      (ReqFrostRound1 (r1_ex (DigestBytes 3))) (aux_start (fp_ex 1) None) =
      (RespFrostRound1 (s1_ex (VerifierId 1)), aux_ex (DigestBytes 3))"
    by (simp add: dispatch_def frost_round1_ex s1_ex_def)
  show ?thesis
    using tcp_transport_transparent[OF serde_one_ok(1) serde_one_ok(1), of "\<lambda>_. []" "ReqFrostRound1 (r1_ex (DigestBytes 3))"
        "RespFrostRound1 (s1_ex (VerifierId 1))" "VerifierId 1" "''addr''" "\<lambda>_. 7" frost_ex r1cs_ex groth_ex "\<lambda>_. Inl []"
        "\<lambda>_. Inl []" ?ni "UnixTimestamp 50" "aux_start (fp_ex 1) None" "r1_ex (DigestBytes 3)" "UnixTimestamp 0"]
    by (simp add: Let_def d serde_one_ok frost_round1_ex s1_ex_def)
qed

text \<open>C25. The authenticated transport accepts an answer from any registered node.  A response
  that \<open>other\<close> has signed is returned as the answer of the node \<open>vid\<close>, whatever \<open>vid\<close> is: neither the
  sender of the envelope nor the verifier named in the response is compared with it.\<close>

theorem auth_reply_sender_unchecked:
  assumes "ed_ok ed" "serde_ok JQ" "serde_ok JR" "serde_ok JE" "distinct (map nid_verifier_id ids)" "other \<in> set ids"
    and q: "seal ed JQ (nid_verifier_id client) (nid_signing_key client) t1 (ReqFrostRound1 req) = Inr qe" "fits JE qe"
    and r: "seal ed JR (nid_verifier_id other) (nid_signing_key other) t3 (RespFrostRound1 resp) = Inr re" "fits JE re"
    and close: "unat t4 \<le> unat t3 + 30" "unat t3 \<le> unat t4 + 30"
    and serve: "\<And>src. fst (read_frame JE src) = Inr qe \<Longrightarrow> serve src w = (case write_frame JE (\<lambda>_. None) re [] of (x, out) \<Rightarrow> (x, out, w'))"
  shows "tr_frost_round1 (AuthTcpNodeTransport ed dbg JQ JR JE client (nkr_from_identities ed ids) t1 t4 vid (live addr serve))
    req t w = (Inr resp, w')"
proof -
  have opened: "open_envelope ed JR re (nkr_inner (nkr_from_identities ed ids)) t4 = Inr (RespFrostRound1 resp)"
    using r(1) assms(1,3) close registered_identity[OF assms(5,6), of ed]
    by (auto simp: seal_def open_eq_Inr rbind_eq_Inr map_err_eq_Inr Let_def serde_ok_def ed_ok_def nid_verifying_key_def)
  have "exchange ''write envelope: '' ''read response envelope: '' (live addr serve) JE JE qe w = (Inr re, w')"
    by (rule exchange_live[OF assms(4) q(2) assms(4) r(2)]) (simp add: serve)
  then show ?thesis
    unfolding AuthTcpNodeTransport_def send_recv_def
    by (simp add: q(1) tcp_connect_def abind_def[of "exchange _ _ _ _ _ _"] opened alift_def expect_frost_round1_def abind_def)
qed

definition serde_two :: "'a \<Rightarrow> 'a \<Rightarrow> 'a serde" where
  "serde_two u v = \<lparr> serde_to = (\<lambda>x. if x = u then Inr [1] else if x = v then Inr [2] else Inl ''unsupported''),
     serde_from = (\<lambda>b. if b = [1] then Inr u else if b = [2] then Inr v else Inl ''unsupported'') \<rparr>"

lemma serde_two_ok: "serde_ok (serde_two u v)" "fits (serde_two u v) u" "fits (serde_two u v) v"
  by (auto simp: serde_ok_def serde_two_def fits_def split: if_splits)

definition client_ex :: NodeIdentity where
  "client_ex = \<lparr> nid_verifier_id = VerifierId 1, nid_signing_key = 5 \<rparr>"

definition other_ex :: NodeIdentity where
  "other_ex = \<lparr> nid_verifier_id = VerifierId 2, nid_signing_key = 6 \<rparr>"

definition env_of :: "NodeIdentity \<Rightarrow> SignedEnvelope" where
  "env_of n = \<lparr> se_sender_id = nid_verifier_id n, se_timestamp = 1000, se_payload = [1],
     se_signature = ed_sign ed_ex (nid_signing_key n) (signing_bytes (nid_verifier_id n) 1000 [1]) \<rparr>"

lemma seal_one: "seal ed_ex (serde_one v) (nid_verifier_id n) (nid_signing_key n) 1000 v = Inr (env_of n)"
  by (simp add: seal_def serde_one_def env_of_def Let_def)

theorem auth_reply_sender_unchecked_witness:
  "tr_frost_round1 (AuthTcpNodeTransport ed_ex (\<lambda>_. []) (serde_one (ReqFrostRound1 (r1_ex (DigestBytes 3))))
      (serde_one (RespFrostRound1 (s1_ex (VerifierId 9)))) (serde_two (env_of client_ex) (env_of other_ex)) client_ex
      (nkr_from_identities ed_ex [client_ex, other_ex]) 1000 1000 (VerifierId 3)
      (live ''addr'' (\<lambda>src w. case write_frame (serde_two (env_of client_ex) (env_of other_ex)) (\<lambda>_. None) (env_of other_ex) []
         of (x, out) \<Rightarrow> (x, out, w)))) (r1_ex (DigestBytes 3)) (UnixTimestamp 0) () =
   (Inr (s1_ex (VerifierId 9)), ())"
proof -
  have "distinct (map nid_verifier_id [client_ex, other_ex])" "other_ex \<in> set [client_ex, other_ex]"
    by (simp_all add: client_ex_def other_ex_def)
  then show ?thesis
    by (intro auth_reply_sender_unchecked[OF ed_ex_ok serde_one_ok(1) serde_one_ok(1) serde_two_ok(1) _ _ seal_one
        serde_two_ok(2) seal_one serde_two_ok(3)]) simp_all
qed

end
