(* ===== verification/In_Memory_Transport.thy ===== *)
theory In_Memory_Transport
  imports Messages
begin

text \<open>
  The in-memory transport of \<open>network/src/transport.rs\<close>: one queue of messages per registered
  verifier.  Each method holds the lock for its whole body, so a concurrent use is a sequence of
  calls.
\<close>

record InMemoryTransport =
  imt_queues :: "VerifierId \<rightharpoonup> byte list list"

definition imt_new :: InMemoryTransport where
  "imt_new = \<lparr> imt_queues = Map.empty \<rparr>"

definition imt_register :: "VerifierId \<Rightarrow> InMemoryTransport \<Rightarrow> InMemoryTransport" where
  "imt_register v t = (case imt_queues t v of None \<Rightarrow> t\<lparr> imt_queues := (imt_queues t)(v \<mapsto> []) \<rparr> | Some _ \<Rightarrow> t)"

definition imt_send :: "VerifierId \<Rightarrow> byte list \<Rightarrow> InMemoryTransport \<Rightarrow> (NetworkError, unit) result \<times> InMemoryTransport" where
  "imt_send v payload t = (case imt_queues t v of
     None \<Rightarrow> (Inl (RecipientNotFound (vid_display v)), t)
   | Some queue \<Rightarrow> (Inr (), t\<lparr> imt_queues := (imt_queues t)(v \<mapsto> queue @ [payload]) \<rparr>))"

definition imt_receive :: "VerifierId \<Rightarrow> InMemoryTransport \<Rightarrow> (NetworkError, byte list list) result \<times> InMemoryTransport" where
  "imt_receive v t = (case imt_queues t v of
     None \<Rightarrow> (Inl (RecipientNotFound (vid_display v)), t)
   | Some queue \<Rightarrow> (Inr queue, t\<lparr> imt_queues := (imt_queues t)(v \<mapsto> []) \<rparr>))"

section \<open>Sequences of calls\<close>

datatype imt_call = Register VerifierId | Send VerifierId "byte list" | Receive VerifierId

text \<open>The messages of \<open>v\<close> that a sequence of calls accepts, those it hands out, and the transport after it.\<close>

fun imt_run :: "VerifierId \<Rightarrow> imt_call list \<Rightarrow> InMemoryTransport \<Rightarrow> byte list list \<times> byte list list \<times> InMemoryTransport" where
  "imt_run v [] t = ([], [], t)"
| "imt_run v (Register w # cs) t = imt_run v cs (imt_register w t)"
| "imt_run v (Send w p # cs) t = (case imt_send w p t of
     (r, t1) \<Rightarrow> (case imt_run v cs t1 of (sent, got, t2) \<Rightarrow> (if w = v \<and> is_ok r then p # sent else sent, got, t2)))"
| "imt_run v (Receive w # cs) t = (case imt_receive w t of
     (r, t1) \<Rightarrow> (case imt_run v cs t1 of (sent, got, t2) \<Rightarrow>
        (sent, (case r of Inr ms \<Rightarrow> if w = v then ms else [] | Inl _ \<Rightarrow> []) @ got, t2)))"

definition pending :: "InMemoryTransport \<Rightarrow> VerifierId \<Rightarrow> byte list list" where
  "pending t v = (case imt_queues t v of None \<Rightarrow> [] | Some q \<Rightarrow> q)"

lemma imt_fifo:
  "imt_run v cs t = (sent, got, t') \<Longrightarrow> pending t v @ sent = got @ pending t' v"
proof (induction v cs t arbitrary: sent got t' rule: imt_run.induct)
  case (2 v w cs t)
  have "pending (imt_register w t) v = pending t v"
    by (auto simp: pending_def imt_register_def split: option.splits)
  then show ?case using 2 by simp
next
  case (3 v w p cs t)
  then show ?case
    by (cases "imt_send w p t"; cases "imt_run v cs (snd (imt_send w p t))")
      (fastforce simp: imt_send_def pending_def split: option.splits if_splits prod.splits)
next
  case (4 v w cs t)
  then show ?case
    by (cases "imt_receive w t"; cases "imt_run v cs (snd (imt_receive w t))")
      (fastforce simp: imt_receive_def pending_def split: option.splits if_splits prod.splits)
qed (simp add: pending_def)

text \<open>The in-memory transport loses, repeats and reorders nothing.  For every interleaving
  of calls on a new transport, the messages handed out for a verifier followed by those still queued
  are exactly the messages whose \<open>send\<close> succeeded, in the order of the sends.\<close>

theorem in_memory_transport_fifo:
  "imt_run v calls imt_new = (sent, got, t) \<Longrightarrow> sent = got @ pending t v"
  using imt_fifo[of v calls imt_new sent got t] by (simp add: imt_new_def pending_def)

theorem in_memory_transport_fifo_witness:
  "imt_run (VerifierId 1) [Send (VerifierId 1) [9], Register (VerifierId 1), Send (VerifierId 1) [1], Receive (VerifierId 1),
     Send (VerifierId 1) [2]] imt_new = ([[1], [2]], [[1]], \<lparr> imt_queues = [VerifierId 1 \<mapsto> [[2]]] \<rparr>) \<and>
   [[1], [2]] = [[1 :: byte]] @ pending \<lparr> imt_queues = [VerifierId 1 \<mapsto> [[2]]] \<rparr> (VerifierId 1)"
proof -
  have run: "imt_run (VerifierId 1) [Send (VerifierId 1) [9], Register (VerifierId 1), Send (VerifierId 1) [1], Receive (VerifierId 1),
     Send (VerifierId 1) [2]] imt_new = ([[1], [2]], [[1]], \<lparr> imt_queues = [VerifierId 1 \<mapsto> [[2]]] \<rparr>)"
    by (simp add: imt_new_def imt_send_def imt_register_def imt_receive_def)
  from in_memory_transport_fifo[OF run] run show ?thesis by simp
qed

end
