(* ===== verification/Handshake_Binding.thy ===== *)
theory Handshake_Binding
  imports Node_Iface
begin

text \<open>
  The handshake binding between a TLS session and the quorum: the digest of the session parameters
  that the auxiliary nodes sign and the exporter derived from their signature
  (\<open>attestation/src/tls_2pc.rs\<close>), and the coordinator's two-round ceremony
  (\<open>node/src/handshake_binding.rs\<close>).  The clock reading of the ceremony is an argument.
\<close>

section \<open>Session parameters\<close>

record TlsSessionParams =
  tp_server_cert_hash :: DigestBytes
  tp_tls_version :: u16
  tp_server_name :: string
  tp_established_at :: u64
  tp_session_nonce :: DigestBytes

definition binding_input_hasher :: "SessionId \<Rightarrow> DigestBytes \<Rightarrow> TlsSessionParams \<Rightarrow> CanonicalHasher" where
  "binding_input_hasher sid rand_value params =
     update_digest (tp_session_nonce params)
     (update_bytes (str_bytes (tp_server_name params))
     (update_fixed (be64 (ucast (tp_tls_version params)))
     (update_digest (tp_server_cert_hash params)
     (update_digest rand_value
     (update_fixed (sid_enc sid)
     (ch_new ''tls-attestation/2pc-binding/v1''))))))"

definition compute_2pc_binding_input :: "sha \<Rightarrow> SessionId \<Rightarrow> DigestBytes \<Rightarrow> TlsSessionParams \<Rightarrow> DigestBytes" where
  "compute_2pc_binding_input H sid rand_value params =
     ch_finalize H (binding_input_hasher sid rand_value params)"

definition derive_2pc_dvrf_exporter :: "sha \<Rightarrow> bytes64 \<Rightarrow> DigestBytes" where
  "derive_2pc_dvrf_exporter H aggregate_sig =
     ch_finalize H (update_fixed (be_bytes 64 aggregate_sig) (ch_new ''tls-attestation/2pc-exporter/v1''))"

section \<open>The ceremony\<close>

definition run_handshake_binding :: "('kp, 'n, 'c, 's, 'sp, 'pk) frost \<Rightarrow> UnixTimestamp \<Rightarrow> SessionId \<Rightarrow>
    VerifierId \<Rightarrow> DigestBytes \<Rightarrow> 'pk FrostGroupKey \<Rightarrow> 'w FrostNodeTransport list \<Rightarrow> u64 \<Rightarrow> RegistryEpoch \<Rightarrow>
    ('w, NodeError, bytes64) action" where
  "run_handshake_binding F now sid coordinator binding_input gk transports round_ttl_secs ep =
     (let expires = UnixTimestamp (saturating_add (secs now) round_ttl_secs) in
     abind (aget (\<lambda>w. map (\<lambda>t. tr_verifier_id t w) transports)) (\<lambda>signer_set.
     abind (acollect (\<lambda>t. tr_handshake_binding_round1 t
         \<lparr> hb1_session_id = sid, hb1_coordinator_id = coordinator, hb1_binding_input = binding_input,
           hb1_signer_set = signer_set, hb1_round_expires_at = expires, hb1_registry_epoch = ep \<rparr> now)
       transports) (\<lambda>r1_responses.
     abind (alift (assemble_hb_signing_package_from_responses F r1_responses binding_input gk))
       (\<lambda>(signing_pkg, pkg_bytes).
     abind (acollect (\<lambda>t. tr_handshake_binding_round2 t
         \<lparr> hb2_session_id = sid, hb2_coordinator_id = coordinator,
           hb2_signing_package_bytes = pkg_bytes, hb2_signer_set = signer_set \<rparr>)
       transports) (\<lambda>r2_responses.
     abind (alift (map_err Crypto (aggregate_signature_shares F signing_pkg
         (map (\<lambda>r. (hs2_verifier_id r, hs2_signature_share_bytes r)) r2_responses) gk binding_input)))
       (\<lambda>approval.
     alift (Inr (fta_aggregate_signature_bytes approval))))))))"

section \<open>What the binding input fixes\<close>

text \<open>The fields that are hashed; \<open>established_at\<close> is not one of them.\<close>

type_synonym binding_fields = "SessionId \<times> DigestBytes \<times> DigestBytes \<times> u16 \<times> string \<times> DigestBytes"

definition bi_fields :: "SessionId \<Rightarrow> DigestBytes \<Rightarrow> TlsSessionParams \<Rightarrow> binding_fields" where
  "bi_fields sid rand p = (sid, rand, tp_server_cert_hash p, tp_tls_version p, tp_server_name p, tp_session_nonce p)"

definition bi_pre :: "binding_fields \<Rightarrow> byte list" where
  "bi_pre = (\<lambda>(sid, rand, ch, v, name, n). absorbed (binding_input_hasher sid rand
     \<lparr> tp_server_cert_hash = ch, tp_tls_version = v, tp_server_name = name, tp_established_at = 0,
       tp_session_nonce = n \<rparr>))"

definition bi_fits :: "binding_fields \<Rightarrow> bool" where
  "bi_fits = (\<lambda>(sid, rand, ch, v, name, n). length name < 2 ^ 64)"

interpretation bib: binding bi_pre bi_fits
  by standard (auto simp: bi_pre_def bi_fits_def binding_input_hasher_def enc_inject)

lemma binding_input_pre:
  "compute_2pc_binding_input H sid rand p = DigestBytes (H (bi_pre (bi_fields sid rand p)))"
  by (simp add: compute_2pc_binding_input_def bi_pre_def bi_fields_def ch_finalize_def binding_input_hasher_def)

lemma binding_input_binds:
  assumes "length (tp_server_name p) < 2 ^ 64" "length (tp_server_name p') < 2 ^ 64"
    and "compute_2pc_binding_input H sid rand p = compute_2pc_binding_input H sid' rand' p'"
  shows "bi_fields sid rand p = bi_fields sid' rand' p' \<or>
    collision H (bi_pre (bi_fields sid rand p)) (bi_pre (bi_fields sid' rand' p'))"
  by (rule bib.digest_binds) (use assms in \<open>simp_all add: binding_input_pre bi_fits_def bi_fields_def\<close>)

text \<open>The domain tags keep binding inputs apart from approval digests.\<close>

lemma binding_input_not_approval:
  "compute_2pc_binding_input H sid rand p = approval_signed_digest H e \<Longrightarrow>
     collision H (bi_pre (bi_fields sid rand p))
       (lp32 (str_bytes ''tls-attestation/threshold-approval/v1'') @ digest_enc e)"
  by (auto simp: compute_2pc_binding_input_def approval_signed_digest_def sha256_tagged_absorbed
      ch_finalize_def collision_def bi_pre_def bi_fields_def binding_input_hasher_def domain_inject)

section \<open>A finished ceremony\<close>

lemma Inr_eq_map_err: "Inr a = map_err g r \<longleftrightarrow> r = Inr a"
  by (cases r) auto

lemma run_handshake_binding_verifies:
  assumes "frost_ok F"
    and "run_handshake_binding F now sid c bi gk ts ttl ep w = (Inr sg, w')"
  shows "verify_signature F \<lparr> fta_signed_digest = bi, fta_aggregate_signature_bytes = sg,
      fta_group_verifying_key_bytes = verifying_key_bytes F gk \<rparr> = Inr ()"
proof -
  obtain cs sp pb ss a where sp: "build_signing_package F cs bi gk = Inr (sp, pb)"
    and ag: "aggregate_signature_shares F sp ss gk bi = Inr a"
    and sg: "sg = fta_aggregate_signature_bytes a"
    using assms(2)
    by (auto simp: run_handshake_binding_def abind_eq_Inr Inr_eq_map_err
        assemble_hb_signing_package_from_responses_def Let_def)
  have "a = \<lparr> fta_signed_digest = bi, fta_aggregate_signature_bytes = sg,
      fta_group_verifying_key_bytes = verifying_key_bytes F gk \<rparr>"
    using distributed_approval_verifies(2,3)[OF assms(1) sp ag] sg by simp
  then show ?thesis using distributed_approval_verifies(1)[OF assms(1) sp ag] by simp
qed

section \<open>A ceremony of two nodes\<close>

definition hb_heap_ex :: "(nat, unit) heap" where
  "hb_heap_ex a = aux_start (fp_ex (of_nat a)) None"

definition hb_handle_ex :: "sha \<Rightarrow> nat \<Rightarrow> (nat, unit) heap FrostNodeTransport" where
  "hb_handle_ex H a = InProcessTransport H frost_ex r1cs_ex groth_ex (\<lambda>_. Inl []) (\<lambda>_. Inl []) a
     \<lparr> ni_clock = 0, ni_evict_at = 0, ni_insert_at = 0, ni_rng = \<lambda>_. 0 \<rparr>"

lemma hb_run_ex:
  "\<exists>sg w. run_handshake_binding frost_ex (UnixTimestamp 50) (SessionId 5) (VerifierId 9) bi gk_ex
     [hb_handle_ex H 1, hb_handle_ex H 2] 60 registry_GENESIS hb_heap_ex = (Inr sg, w)"
proof -
  have gk: "verifier_to_identifier gk_ex (VerifierId 1) = Some 1" "verifier_to_identifier gk_ex (VerifierId 2) = Some 2"
    by (simp_all add: verifier_to_identifier_def gk_ex_def)
  have cm: "card (dom ([1 \<mapsto> (), 2 \<mapsto> ()] :: bytes32 \<rightharpoonup> unit)) = 2" by simp
  have sp: "build_signing_package frost_ex [(VerifierId 1, []), (VerifierId 2, [])] bi gk_ex =
      Inr (2 # digest_enc bi, 2 # digest_enc bi)"
    using cm by (simp add: build_signing_package_def fc_from_bytes_def gk sp_to_bytes_def Let_def del: dom_fun_upd)
  have ag: "\<exists>a. aggregate_signature_shares frost_ex (2 # digest_enc bi) [(VerifierId 1, []), (VerifierId 2, [])]
      gk_ex bi = Inr a"
    using cm by (simp add: aggregate_signature_shares_def fs_from_bytes_def gk del: dom_fun_upd)
  show ?thesis
    using ag
    by (auto simp: run_handshake_binding_def saturating_add_def Let_def abind_def alift_def aget_def hb_handle_ex_def
      InProcessTransport_def at_node_def hb_heap_ex_def handshake_binding_round1_def hb_request_checks_def
      hb_guard_def hb_insert_def round1_def evict_expired_def fc_to_bytes_def fa_verifier_id_def fp_ex_def
      registry_admission_def assemble_hb_signing_package_from_responses_def sp
      handshake_binding_round2_def sp_from_bytes_def message_bytes_def round2_def fs_to_bytes_def)
qed

section \<open>Properties\<close>

lemma bi_fields_eq:
  "bi_fields sid rand p = bi_fields sid' rand' p' \<longleftrightarrow>
     sid = sid' \<and> rand = rand' \<and> p\<lparr> tp_established_at := tp_established_at p' \<rparr> = p'"
  by (cases p; cases p') (auto simp: bi_fields_def)

lemma binding_input_established_at:
  "compute_2pc_binding_input H sid rand (p\<lparr> tp_established_at := t \<rparr>) = compute_2pc_binding_input H sid rand p"
  by (simp add: compute_2pc_binding_input_def binding_input_hasher_def)

text \<open>C22. A finished handshake-binding ceremony over the binding input of a TLS session returns a group
  signature of that input.  Up to an explicit hash collision the input fixes the session, the randomness and every
  session parameter except one: the time of establishment is not hashed, so parameters that differ in it only have
  the same input, and the same signature is valid for all of them.  The signature is no approval of any
  envelope, again up to an explicit collision.\<close>

theorem handshake_binding_sound:
  assumes "frost_ok F" "length (tp_server_name p) < 2 ^ 64"
    and "run_handshake_binding F now sid c (compute_2pc_binding_input H sid rand p) gk ts ttl ep w = (Inr sg, w')"
  shows "let a = (\<lambda>p'. \<lparr> fta_signed_digest = compute_2pc_binding_input H sid rand p',
      fta_aggregate_signature_bytes = sg, fta_group_verifying_key_bytes = verifying_key_bytes F gk \<rparr>) in
    (\<forall>t. verify_signature F (a (p\<lparr> tp_established_at := t \<rparr>)) = Inr ()) \<and>
    (\<forall>sid' rand' p'. length (tp_server_name p') < 2 ^ 64 \<longrightarrow>
       compute_2pc_binding_input H sid' rand' p' = fta_signed_digest (a p) \<longrightarrow>
       sid' = sid \<and> rand' = rand \<and> p'\<lparr> tp_established_at := tp_established_at p \<rparr> = p \<or>
       collision H (bi_pre (bi_fields sid' rand' p')) (bi_pre (bi_fields sid rand p))) \<and>
    (\<forall>e. verify_binding H (a p) e = Inr () \<longrightarrow> collision H (bi_pre (bi_fields sid rand p))
       (lp32 (str_bytes ''tls-attestation/threshold-approval/v1'') @ digest_enc e))"
  unfolding Let_def verify_binding_eq_Inr FrostThresholdApproval.select_convs binding_input_established_at
  using run_handshake_binding_verifies[OF assms(1,3)] binding_input_binds[OF _ assms(2), unfolded bi_fields_eq]
    binding_input_not_approval by blast

definition tls_params_ex :: TlsSessionParams where
  "tls_params_ex = \<lparr> tp_server_cert_hash = DigestBytes 1, tp_tls_version = 0x0304, tp_server_name = ''a.example'',
     tp_established_at = 40, tp_session_nonce = DigestBytes 2 \<rparr>"

theorem handshake_binding_sound_witness:
  "\<exists>sg. verify_signature frost_ex \<lparr> fta_signed_digest =
        compute_2pc_binding_input (\<lambda>_. 7) (SessionId 5) (DigestBytes 6) (tls_params_ex\<lparr> tp_established_at := 99 \<rparr>),
      fta_aggregate_signature_bytes = sg, fta_group_verifying_key_bytes = verifying_key_bytes frost_ex gk_ex \<rparr> = Inr ()"
proof -
  obtain sg w where "run_handshake_binding frost_ex (UnixTimestamp 50) (SessionId 5) (VerifierId 9)
      (compute_2pc_binding_input (\<lambda>_. 7) (SessionId 5) (DigestBytes 6) tls_params_ex) gk_ex
      [hb_handle_ex (\<lambda>_. 7) 1, hb_handle_ex (\<lambda>_. 7) 2] 60 registry_GENESIS hb_heap_ex = (Inr sg, w)"
    using hb_run_ex by blast
  note r = this
  show ?thesis
    using conjunct1[OF handshake_binding_sound[OF frost_ex_ok _ r, unfolded Let_def]] by (auto simp: tls_params_ex_def)
qed

text \<open>C23. The ceremony takes any digest for its binding input: run over the signed digest of an envelope,
  its signature is an approval of that envelope that passes both checks of a verifier, although no
  node was shown the envelope.\<close>

theorem handshake_binding_yields_approval:
  assumes "frost_ok F"
    and "run_handshake_binding F now sid c (approval_signed_digest H e) gk ts ttl ep w = (Inr sg, w')"
  shows "\<exists>a. fta_aggregate_signature_bytes a = sg \<and>
    fta_group_verifying_key_bytes a = verifying_key_bytes F gk \<and>
    verify_binding H a e = Inr () \<and> verify_signature F a = Inr ()"
  using run_handshake_binding_verifies[OF assms]
  by (intro exI[of _ "\<lparr> fta_signed_digest = approval_signed_digest H e, fta_aggregate_signature_bytes = sg,
      fta_group_verifying_key_bytes = verifying_key_bytes F gk \<rparr>"]) (simp add: verify_binding_eq_Inr)

theorem handshake_binding_yields_approval_witness:
  "\<exists>a sg w. run_handshake_binding frost_ex (UnixTimestamp 50) (SessionId 5) (VerifierId 9)
      (approval_signed_digest (\<lambda>_. 7) (DigestBytes 3)) gk_ex
      [hb_handle_ex (\<lambda>_. 7) 1, hb_handle_ex (\<lambda>_. 7) 2] 60 registry_GENESIS hb_heap_ex = (Inr sg, w) \<and>
    fta_aggregate_signature_bytes a = sg \<and>
    verify_binding (\<lambda>_. 7) a (DigestBytes 3) = Inr () \<and> verify_signature frost_ex a = Inr ()"
proof -
  obtain sg w where r: "run_handshake_binding frost_ex (UnixTimestamp 50) (SessionId 5) (VerifierId 9)
      (approval_signed_digest (\<lambda>_. 7) (DigestBytes 3)) gk_ex
      [hb_handle_ex (\<lambda>_. 7) 1, hb_handle_ex (\<lambda>_. 7) 2] 60 registry_GENESIS hb_heap_ex = (Inr sg, w)"
    using hb_run_ex by blast
  show ?thesis using handshake_binding_yields_approval[OF frost_ex_ok r] r by blast
qed

end
