(* ===== verification/Dkg.thy ===== *)
theory Dkg
  imports Frost
begin

text \<open>
  Distributed key generation (\<open>crypto/src/dkg.rs\<close>).  The three parts of the protocol in the package
  \<open>frost-ed25519\<close> and the JSON form of its messages are the record parameter \<open>dkg\<close>; its types of secret
  states and packages are type variables.  A \<open>BTreeMap\<close> keyed by identifiers is a map; the packages
  part 2 returns are listed in the order of the map.  The documented behaviour of an honest run is named
  in \<open>dkg_ok\<close>.
\<close>

record ('s1, 'p1, 's2, 'p2, 'kp, 'pk) dkg =
  dk_part1 :: "FrostIdentifier \<Rightarrow> u16 \<Rightarrow> u16 \<Rightarrow> rng \<Rightarrow> (string, 's1 \<times> 'p1) result"
  dk_part2 :: "'s1 \<Rightarrow> (FrostIdentifier \<rightharpoonup> 'p1) \<Rightarrow> (string, 's2 \<times> (FrostIdentifier \<times> 'p2) list) result"
  dk_part3 :: "'s2 \<Rightarrow> (FrostIdentifier \<rightharpoonup> 'p1) \<Rightarrow> (FrostIdentifier \<rightharpoonup> 'p2) \<Rightarrow> (string, 'kp \<times> 'pk) result"
  dk_id_error :: string
  dj_round1_to :: "'p1 \<Rightarrow> byte list"
  dj_round1_from :: "byte list \<Rightarrow> (string, 'p1) result"
  dj_round2_to :: "'p2 \<Rightarrow> byte list"
  dj_round2_from :: "byte list \<Rightarrow> (string, 'p2) result"

section \<open>States and packages\<close>

datatype 's1 DkgRound1State = DkgRound1State (r1_secret: 's1)

datatype 's2 DkgRound2State = DkgRound2State (r2_secret: 's2)

datatype 'p1 DkgRound1Package = DkgRound1Package (r1_package: 'p1)

datatype 'p2 DkgRound2Package = DkgRound2Package (r2_package: 'p2)

definition round1_to_bytes :: "('s1, 'p1, 's2, 'p2, 'kp, 'pk) dkg \<Rightarrow> 'p1 DkgRound1Package \<Rightarrow> byte list" where
  "round1_to_bytes D p = dj_round1_to D (r1_package p)"

definition round1_from_bytes :: "('s1, 'p1, 's2, 'p2, 'kp, 'pk) dkg \<Rightarrow> byte list \<Rightarrow>
    (CryptoError, 'p1 DkgRound1Package) result" where
  "round1_from_bytes D bytes = rbind (map_err (\<lambda>e. InvalidKeyMaterial
     (''DkgRound1Package deserialization failed: '' @ e)) (dj_round1_from D bytes)) (\<lambda>p. Inr (DkgRound1Package p))"

definition to_plaintext_bytes :: "('s1, 'p1, 's2, 'p2, 'kp, 'pk) dkg \<Rightarrow> 'p2 DkgRound2Package \<Rightarrow> byte list" where
  "to_plaintext_bytes D p = dj_round2_to D (r2_package p)"

definition from_plaintext_bytes :: "('s1, 'p1, 's2, 'p2, 'kp, 'pk) dkg \<Rightarrow> byte list \<Rightarrow>
    (CryptoError, 'p2 DkgRound2Package) result" where
  "from_plaintext_bytes D bytes = rbind (map_err (\<lambda>e. InvalidKeyMaterial
     (''DkgRound2Package deserialization failed: '' @ e)) (dj_round2_from D bytes)) (\<lambda>p. Inr (DkgRound2Package p))"

record ('kp, 'pk) DkgParticipantOutput =
  do_participant :: "'kp FrostParticipant"
  do_group_key :: "'pk FrostGroupKey"

section \<open>The three parts\<close>

definition dkg_part1 :: "('s1, 'p1, 's2, 'p2, 'kp, 'pk) dkg \<Rightarrow> FrostIdentifier \<Rightarrow> u16 \<Rightarrow> u16 \<Rightarrow> rng \<Rightarrow>
    (CryptoError, 's1 DkgRound1State \<times> 'p1 DkgRound1Package) result" where
  "dkg_part1 D identifier max_signers min_signers g =
     rbind (map_err (\<lambda>e. InvalidKeyMaterial (''DKG part1 failed: '' @ e)) (dk_part1 D identifier max_signers min_signers g))
       (\<lambda>(s, p). Inr (DkgRound1State s, DkgRound1Package p))"

definition dkg_part2 :: "('s1, 'p1, 's2, 'p2, 'kp, 'pk) dkg \<Rightarrow> 's1 DkgRound1State \<Rightarrow>
    (FrostIdentifier \<rightharpoonup> 'p1 DkgRound1Package) \<Rightarrow>
    (CryptoError, 's2 DkgRound2State \<times> (FrostIdentifier \<times> 'p2 DkgRound2Package) list) result" where
  "dkg_part2 D round1_state round1_packages =
     rbind (map_err (\<lambda>e. InvalidKeyMaterial (''DKG part2 failed: '' @ e))
         (dk_part2 D (r1_secret round1_state) (map_option r1_package \<circ> round1_packages)))
       (\<lambda>(s, outbound). Inr (DkgRound2State s, map (\<lambda>(i, p). (i, DkgRound2Package p)) outbound))"

text \<open>The loop that numbers the verifiers.\<close>

fun assign_identifiers :: "('kp, 'n, 'c, 's, 'sp, 'pk) frost \<Rightarrow> string \<Rightarrow> nat \<Rightarrow> VerifierId list \<Rightarrow>
    (VerifierId \<times> FrostIdentifier) list \<Rightarrow> (CryptoError, (VerifierId \<times> FrostIdentifier) list) result" where
  "assign_identifiers F err idx [] vmap = Inr vmap"
| "assign_identifiers F err idx (v # vs) vmap =
     (case fr_id_try_from F (of_nat (idx + 1)) of
        None \<Rightarrow> Inl (InvalidKeyMaterial (''DKG identifier assignment at index '' @ dec_str idx @ '': '' @ err))
      | Some i \<Rightarrow> assign_identifiers F err (Suc idx) vs (AList.update v i vmap))"

definition dkg_part3 :: "('kp, 'n, 'c, 's, 'sp, 'pk) frost \<Rightarrow> ('s1, 'p1, 's2, 'p2, 'kp, 'pk) dkg \<Rightarrow>
    VerifierId \<Rightarrow> FrostIdentifier \<Rightarrow> 's2 DkgRound2State \<Rightarrow> (FrostIdentifier \<rightharpoonup> 'p1 DkgRound1Package) \<Rightarrow>
    (FrostIdentifier \<rightharpoonup> 'p2 DkgRound2Package) \<Rightarrow> VerifierId list \<Rightarrow>
    (CryptoError, ('kp, 'pk) DkgParticipantOutput) result" where
  "dkg_part3 F D my_verifier_id my_identifier round2_state round1_packages round2_packages all_ids =
     rbind (map_err (\<lambda>e. InvalidKeyMaterial (''DKG part3 failed: '' @ e))
         (dk_part3 D (r2_secret round2_state) (map_option r1_package \<circ> round1_packages)
            (map_option r2_package \<circ> round2_packages)))
       (\<lambda>(key_package, pub_key_package).
     rbind (assign_identifiers F (dk_id_error D) 0 all_ids []) (\<lambda>verifier_to_id.
     Inr \<lparr> do_participant = \<lparr> fp_key_package = key_package, fp_identifier = my_identifier,
                               fp_verifier_id = my_verifier_id \<rparr>,
           do_group_key = \<lparr> gk_pub_key_package = pub_key_package, gk_verifier_to_id = verifier_to_id \<rparr> \<rparr>))"

section \<open>Documented behaviour\<close>

text \<open>Identifiers are the nonzero numbers of 16 bits.\<close>

definition ids_ok :: "('kp, 'n, 'c, 's, 'sp, 'pk) frost \<Rightarrow> bool" where
  "ids_ok F \<longleftrightarrow>
     (\<forall>i. fr_id_try_from F i = None \<longleftrightarrow> i = 0) \<and>
     (\<forall>i j x. fr_id_try_from F i = Some x \<and> fr_id_try_from F j = Some x \<longrightarrow> i = j)"

text \<open>In a run of honest participants each part succeeds on the packages of the others: part 2 has one
  package for each of them, and part 3 gives a key share with the required threshold and the same public
  key package everywhere.\<close>

definition others :: "FrostIdentifier set \<Rightarrow> FrostIdentifier \<Rightarrow> (FrostIdentifier \<Rightarrow> 'a option) \<Rightarrow> FrostIdentifier \<rightharpoonup> 'a" where
  "others ids i f = (\<lambda>j. if j \<in> ids \<and> j \<noteq> i then f j else None)"

definition honest_run :: "('kp, 'n, 'c, 's, 'sp, 'pk) frost \<Rightarrow> ('s1, 'p1, 's2, 'p2, 'kp, 'pk) dkg \<Rightarrow>
    FrostIdentifier set \<Rightarrow> u16 \<Rightarrow> (FrostIdentifier \<Rightarrow> rng) \<Rightarrow> (FrostIdentifier \<Rightarrow> 's1) \<Rightarrow> (FrostIdentifier \<Rightarrow> 'p1) \<Rightarrow>
    (FrostIdentifier \<Rightarrow> 's2) \<Rightarrow> (FrostIdentifier \<Rightarrow> (FrostIdentifier \<times> 'p2) list) \<Rightarrow> (FrostIdentifier \<Rightarrow> 'kp) \<Rightarrow> 'pk \<Rightarrow> bool" where
  "honest_run F D ids t g s1 p1 s2 out kp pk \<longleftrightarrow> (\<forall>i \<in> ids.
     dk_part1 D i (of_nat (card ids)) t (g i) = Inr (s1 i, p1 i) \<and>
     dk_part2 D (s1 i) (others ids i (Some \<circ> p1)) = Inr (s2 i, out i) \<and>
     distinct (map fst (out i)) \<and> fst ` set (out i) = ids - {i} \<and>
     dk_part3 D (s2 i) (others ids i (Some \<circ> p1)) (others ids i (\<lambda>j. map_of (out j) i)) = Inr (kp i, pk) \<and>
     fr_min_signers F (kp i) = unat t)"

definition dkg_ok :: "('kp, 'n, 'c, 's, 'sp, 'pk) frost \<Rightarrow> ('s1, 'p1, 's2, 'p2, 'kp, 'pk) dkg \<Rightarrow> bool" where
  "dkg_ok F D \<longleftrightarrow> (\<forall>ids t g. finite ids \<and> card ids < 2 ^ 16 \<and> 2 \<le> unat t \<and> unat t \<le> card ids \<longrightarrow>
     (\<exists>s1 p1 s2 out kp pk. honest_run F D ids t g s1 p1 s2 out kp pk))"

section \<open>Identifiers\<close>

lemma ids_ok_Suc:
  assumes "ids_ok F" "Suc k < 2 ^ 16"
  obtains x where "fr_id_try_from F (of_nat (Suc k)) = Some x"
proof -
  have "(of_nat (Suc k) :: u16) \<noteq> 0"
    using assms(2) by (simp add: word_of_nat_eq_0_iff del: of_nat_Suc) (auto dest!: dvd_imp_le)
  then show thesis using assms(1) that by (auto simp: ids_ok_def)
qed

lemma ids_ok_inject:
  assumes "ids_ok F" "fr_id_try_from F (of_nat (Suc i)) = Some x" "fr_id_try_from F (of_nat (Suc j)) = Some x"
    and "Suc i < 2 ^ 16" "Suc j < 2 ^ 16"
  shows "i = j"
proof -
  have "(of_nat (Suc i) :: u16) = of_nat (Suc j)" using assms(1-3) unfolding ids_ok_def by blast
  then have "unat (of_nat (Suc i) :: u16) = unat (of_nat (Suc j) :: u16)" by simp
  then show ?thesis using assms(4,5) by (simp add: unat_of_nat take_bit_nat_eq_self del: of_nat_Suc)
qed

lemma assign_identifiers_ok:
  assumes "ids_ok F" "idx + length vs < 2 ^ 16" "distinct vs" "set vs \<inter> fst ` set vmap = {}"
  shows "\<exists>ids. length ids = length vs \<and>
    (\<forall>k < length vs. fr_id_try_from F (of_nat (Suc (idx + k))) = Some (ids ! k)) \<and>
    assign_identifiers F e idx vs vmap = Inr (vmap @ zip vs ids)"
  using assms
proof (induction vs arbitrary: idx vmap)
  case (Cons v vs)
  obtain i where i: "fr_id_try_from F (of_nat (Suc idx)) = Some i"
    using ids_ok_Suc[OF Cons.prems(1), of idx] Cons.prems(2) by auto
  have upd: "AList.update v i vmap = vmap @ [(v, i)]"
    using Cons.prems(4) by (induction vmap) auto
  obtain ids where ids: "length ids = length vs"
      "\<forall>k < length vs. fr_id_try_from F (of_nat (Suc (Suc idx + k))) = Some (ids ! k)"
      "assign_identifiers F e (Suc idx) vs (vmap @ [(v, i)]) = Inr ((vmap @ [(v, i)]) @ zip vs ids)"
    using Cons.IH[of "Suc idx" "vmap @ [(v, i)]"] Cons.prems by auto
  have "fr_id_try_from F (of_nat (Suc (idx + k))) = Some ((i # ids) ! k)" if "k < length (v # vs)" for k
    using that ids(2) i by (cases k) auto
  then show ?case using ids i upd by (intro exI[of _ "i # ids"]) auto
qed simp

section \<open>An instance\<close>

definition dkg_ex :: "(bytes32 \<times> u16, unit, bytes32 \<times> u16, unit, nat, bytes32) dkg" where
  "dkg_ex =
     \<lparr> dk_part1 = (\<lambda>i n t g. Inr ((i, t), ())),
       dk_part2 = (\<lambda>s m. Inr (s, map (\<lambda>j. (j, ())) (sorted_list_of_set (dom m)))),
       dk_part3 = (\<lambda>s m1 m2. if dom m1 = dom m2 then Inr (unat (snd s), 77) else Inl ''IncorrectNumberOfPackages''),
       dk_id_error = ''InvalidZeroScalar'',
       dj_round1_to = (\<lambda>_. []), dj_round1_from = (\<lambda>_. Inr ()),
       dj_round2_to = (\<lambda>_. []), dj_round2_from = (\<lambda>_. Inr ()) \<rparr>"

lemma ids_ex_ok: "ids_ok frost_ex"
  using dealer_ex_ok by (auto simp: ids_ok_def dealer_ok_def frost_ex_def)

lemma dkg_ex_ok: "dkg_ok frost_ex dkg_ex"
  unfolding dkg_ok_def
proof (intro allI impI)
  fix ids :: "bytes32 set" and t :: u16 and g :: "bytes32 \<Rightarrow> rng"
  assume a: "finite ids \<and> card ids < 2 ^ 16 \<and> 2 \<le> unat t \<and> unat t \<le> card ids"
  let ?out = "\<lambda>i. map (\<lambda>j. (j, ())) (sorted_list_of_set (ids - {i}))"
  have d1: "dom (others ids i (\<lambda>_. Some ())) = ids - {i}" for i by (auto simp: others_def split: if_splits)
  have m: "map_of (?out j) i = (if i \<in> ids \<and> i \<noteq> j then Some () else None)" for i j
    using a by (auto simp: map_of_eq_None_iff map_of_eq_Some_iff distinct_map inj_on_def comp_def)
  have d2: "dom (others ids i (\<lambda>j. map_of (?out j) i)) = ids - {i}" if "i \<in> ids" for i
    using that by (auto simp: others_def m split: if_splits)
  have "honest_run frost_ex dkg_ex ids t g (\<lambda>i. (i, t)) (\<lambda>_. ()) (\<lambda>i. (i, t)) ?out (\<lambda>_. unat t) 77"
    using a by (simp add: honest_run_def dkg_ex_def d1 d2 comp_def image_image)
  then show "\<exists>s1 p1 s2 out kp pk. honest_run frost_ex dkg_ex ids t g s1 p1 s2 out kp pk" by blast
qed

end
