(* ===== verification/Dkg_Encrypt.thy ===== *)
theory Dkg_Encrypt
  imports Dkg Messages
begin

text \<open>
  Encryption of the second round of key generation (\<open>crypto/src/dkg_encrypt.rs\<close>).  The packages
  \<open>x25519-dalek\<close>, \<open>hkdf\<close> and \<open>chacha20poly1305\<close> are the record parameter \<open>box\<close>; random nonces and
  secrets are arguments.  The documented behaviour that statements rely on is named in \<open>box_ok\<close>.
\<close>

type_synonym bytes24 = "192 word"

record box =
  bx_public :: "bytes32 \<Rightarrow> bytes32"
  bx_diffie_hellman :: "bytes32 \<Rightarrow> bytes32 \<Rightarrow> bytes32"
  bx_hkdf_expand :: "bytes32 \<Rightarrow> byte list \<Rightarrow> (string, bytes32) result"
  bx_key_init :: "bytes32 \<Rightarrow> (string, unit) result"
  bx_encrypt :: "bytes32 \<Rightarrow> bytes24 \<Rightarrow> byte list \<Rightarrow> byte list \<Rightarrow> (string, byte list) result"
  bx_decrypt :: "bytes32 \<Rightarrow> bytes24 \<Rightarrow> byte list \<Rightarrow> byte list \<Rightarrow> byte list option"

definition HKDF_INFO_PREFIX :: "byte list" where
  "HKDF_INFO_PREFIX = str_bytes ''tls-attestation/dkg-round2/v1''"

definition ENVELOPE_VERSION :: byte where
  "ENVELOPE_VERSION = 1"

datatype DkgCeremonyId = DkgCeremonyId (cid_bytes: bytes16)

datatype DkgEncryptionPublicKey = DkgEncryptionPublicKey (dpk_bytes: bytes32)

record DkgEncryptionKeyPair =
  ek_secret :: bytes32
  ek_public :: DkgEncryptionPublicKey

definition ek_generate :: "box \<Rightarrow> bytes32 \<Rightarrow> DkgEncryptionKeyPair" where
  "ek_generate X secret = \<lparr> ek_secret = secret, ek_public = DkgEncryptionPublicKey (bx_public X secret) \<rparr>"

record EncryptedDkgRound2Package =
  er_version :: byte
  er_ceremony_id :: bytes16
  er_sender_id :: bytes32
  er_recipient_id :: bytes32
  er_nonce :: bytes24
  er_ciphertext :: "byte list"

section \<open>Keys and associated data\<close>

definition hkdf_info :: "DkgCeremonyId \<Rightarrow> VerifierId \<Rightarrow> VerifierId \<Rightarrow> byte list" where
  "hkdf_info ceremony sender recipient =
     HKDF_INFO_PREFIX @ arr16 (cid_bytes ceremony) @ vid_enc sender @ vid_enc recipient"

definition derive_key :: "box \<Rightarrow> bytes32 \<Rightarrow> DkgEncryptionPublicKey \<Rightarrow> DkgCeremonyId \<Rightarrow> VerifierId \<Rightarrow> VerifierId \<Rightarrow>
    (CryptoError, bytes32) result" where
  "derive_key X our_secret their_pub ceremony sender recipient =
     map_err (\<lambda>e. InvalidKeyMaterial (''HKDF expand failed: '' @ e))
       (bx_hkdf_expand X (bx_diffie_hellman X our_secret (dpk_bytes their_pub)) (hkdf_info ceremony sender recipient))"

definition build_aad :: "DkgCeremonyId \<Rightarrow> VerifierId \<Rightarrow> VerifierId \<Rightarrow> byte list" where
  "build_aad ceremony sender recipient =
     [ENVELOPE_VERSION] @ arr16 (cid_bytes ceremony) @ vid_enc sender @ vid_enc recipient"

section \<open>Sealing and opening\<close>

definition encrypt_round2_package :: "('s1, 'p1, 's2, 'p2, 'kp, 'pk) dkg \<Rightarrow> box \<Rightarrow> bytes24 \<Rightarrow>
    'p2 DkgRound2Package \<Rightarrow> DkgCeremonyId \<Rightarrow> DkgEncryptionKeyPair \<Rightarrow> VerifierId \<Rightarrow> DkgEncryptionPublicKey \<Rightarrow>
    VerifierId \<Rightarrow> (CryptoError, EncryptedDkgRound2Package) result" where
  "encrypt_round2_package D X nc plaintext ceremony sender_key sender recipient_pub recipient =
     rbind (derive_key X (ek_secret sender_key) recipient_pub ceremony sender recipient) (\<lambda>key.
     rbind (map_err (\<lambda>e. InvalidKeyMaterial (''key init failed: '' @ e)) (bx_key_init X key)) (\<lambda>_.
     rbind (map_err (\<lambda>e. InvalidKeyMaterial (''AEAD encrypt failed: '' @ e))
         (bx_encrypt X key nc (build_aad ceremony sender recipient) (to_plaintext_bytes D plaintext))) (\<lambda>ciphertext.
     Inr \<lparr> er_version = ENVELOPE_VERSION, er_ceremony_id = cid_bytes ceremony, er_sender_id = vid_bytes sender,
           er_recipient_id = vid_bytes recipient, er_nonce = nc, er_ciphertext = ciphertext \<rparr>)))"

definition decrypt_round2_package :: "('s1, 'p1, 's2, 'p2, 'kp, 'pk) dkg \<Rightarrow> box \<Rightarrow>
    EncryptedDkgRound2Package \<Rightarrow> DkgEncryptionKeyPair \<Rightarrow> DkgEncryptionPublicKey \<Rightarrow> DkgCeremonyId \<Rightarrow> VerifierId \<Rightarrow>
    VerifierId \<Rightarrow> (CryptoError, 'p2 DkgRound2Package) result" where
  "decrypt_round2_package D X env recipient_key sender_pub ceremony sender recipient =
     (if er_version env \<noteq> ENVELOPE_VERSION then Inl (InvalidKeyMaterial
        (''unsupported DKG envelope version '' @ dec_str (unat (er_version env)) @ '' (expected '' @
         dec_str (unat ENVELOPE_VERSION) @ '')''))
      else if er_ceremony_id env \<noteq> cid_bytes ceremony
      then Inl (InvalidKeyMaterial ''ceremony_id mismatch in encrypted DKG Round-2 package'')
      else if er_sender_id env \<noteq> vid_bytes sender
      then Inl (InvalidKeyMaterial ''sender_id mismatch in encrypted DKG Round-2 package'')
      else if er_recipient_id env \<noteq> vid_bytes recipient
      then Inl (InvalidKeyMaterial ''recipient_id mismatch in encrypted DKG Round-2 package'')
      else rbind (derive_key X (ek_secret recipient_key) sender_pub ceremony sender recipient) (\<lambda>key.
        rbind (map_err (\<lambda>e. InvalidKeyMaterial (''key init failed: '' @ e)) (bx_key_init X key)) (\<lambda>_.
        rbind (ok_or (InvalidKeyMaterial
              (''DKG Round-2 package decryption failed '' @ em_dash @ '' authentication tag mismatch or wrong key''))
            (bx_decrypt X key (er_nonce env) (build_aad ceremony sender recipient) (er_ciphertext env))) (\<lambda>plain.
        from_plaintext_bytes D plain))))"

section \<open>Documented behaviour\<close>

text \<open>Both ends derive the same shared secret, and opening is the inverse of sealing.\<close>

definition box_ok :: "box \<Rightarrow> bool" where
  "box_ok X \<longleftrightarrow>
     (\<forall>a b. bx_diffie_hellman X a (bx_public X b) = bx_diffie_hellman X b (bx_public X a)) \<and>
     (\<forall>k n ad m c. bx_encrypt X k n ad m = Inr c \<longleftrightarrow> bx_decrypt X k n ad c = Some m)"

definition ek_valid :: "box \<Rightarrow> DkgEncryptionKeyPair \<Rightarrow> bool" where
  "ek_valid X k \<longleftrightarrow> dpk_bytes (ek_public k) = bx_public X (ek_secret k)"

definition round2_json_ok :: "('s1, 'p1, 's2, 'p2, 'kp, 'pk) dkg \<Rightarrow> bool" where
  "round2_json_ok D \<longleftrightarrow> (\<forall>p. dj_round2_from D (dj_round2_to D p) = Inr p)"

text \<open>The primitives that may fail by their type do not fail on keys of 32 bytes and short messages.\<close>

definition box_total :: "box \<Rightarrow> bool" where
  "box_total X \<longleftrightarrow> (\<forall>s i. is_ok (bx_hkdf_expand X s i)) \<and> (\<forall>k. is_ok (bx_key_init X k)) \<and>
     (\<forall>k n ad m. is_ok (bx_encrypt X k n ad m))"

lemma ek_generate_valid [simp]: "ek_valid X (ek_generate X s)"
  by (simp add: ek_valid_def ek_generate_def)

lemma from_to_plaintext:
  "round2_json_ok D \<Longrightarrow> from_plaintext_bytes D (to_plaintext_bytes D p) = Inr p"
  by (cases p) (simp add: round2_json_ok_def from_plaintext_bytes_def to_plaintext_bytes_def)

lemma build_aad_inject [simp]:
  "build_aad c s r = build_aad c' s' r' \<longleftrightarrow> c = c' \<and> s = s' \<and> r = r'"
  by (auto simp: build_aad_def enc_inject intro: DkgCeremonyId.expand)

lemma hkdf_info_inject [simp]:
  "hkdf_info c s r = hkdf_info c' s' r' \<longleftrightarrow> c = c' \<and> s = s' \<and> r = r'"
  by (auto simp: hkdf_info_def enc_inject intro: DkgCeremonyId.expand)

lemma derive_key_symmetric:
  assumes "box_ok X" "ek_valid X a" "ek_valid X b"
  shows "derive_key X (ek_secret a) (ek_public b) c s r = derive_key X (ek_secret b) (ek_public a) c s r"
proof -
  have "bx_diffie_hellman X (ek_secret a) (dpk_bytes (ek_public b)) =
      bx_diffie_hellman X (ek_secret b) (dpk_bytes (ek_public a))"
    using assms by (simp add: box_ok_def ek_valid_def)
  then show ?thesis by (simp add: derive_key_def)
qed

lemma decrypt_encrypt:
  assumes "box_ok X" "round2_json_ok D" "ek_valid X sk" "ek_valid X rk"
    and "encrypt_round2_package D X nc p c sk s (ek_public rk) r = Inr env"
  shows "decrypt_round2_package D X env rk (ek_public sk) c s r = Inr p"
proof -
  obtain key ct where k: "derive_key X (ek_secret sk) (ek_public rk) c s r = Inr key" "bx_key_init X key = Inr ()"
    and ct: "bx_encrypt X key nc (build_aad c s r) (to_plaintext_bytes D p) = Inr ct"
    and env: "env = \<lparr> er_version = ENVELOPE_VERSION, er_ceremony_id = cid_bytes c, er_sender_id = vid_bytes s,
           er_recipient_id = vid_bytes r, er_nonce = nc, er_ciphertext = ct \<rparr>"
    using assms(5) by (auto simp: encrypt_round2_package_def result_simps map_err_eq_Inr)
  have "bx_decrypt X key nc (build_aad c s r) ct = Some (to_plaintext_bytes D p)"
    using ct assms(1) by (simp add: box_ok_def)
  then show ?thesis
    using k from_to_plaintext[OF assms(2)] derive_key_symmetric[OF assms(1,4,3)]
    by (simp add: decrypt_round2_package_def env)
qed

lemma decrypt_eq_Inr:
  "decrypt_round2_package D X env rk spk c s r = Inr p \<longleftrightarrow>
     er_version env = ENVELOPE_VERSION \<and> er_ceremony_id env = cid_bytes c \<and> er_sender_id env = vid_bytes s \<and>
     er_recipient_id env = vid_bytes r \<and>
     (\<exists>key m. derive_key X (ek_secret rk) spk c s r = Inr key \<and> bx_key_init X key = Inr () \<and>
        bx_decrypt X key (er_nonce env) (build_aad c s r) (er_ciphertext env) = Some m \<and>
        from_plaintext_bytes D m = Inr p)"
  unfolding decrypt_round2_package_def by (simp add: rbind_eq_Inr map_err_eq_Inr ok_or_eq_Inr)

lemma encrypt_total:
  assumes "box_total X"
  obtains env where "encrypt_round2_package D X nc p c sk s rp r = Inr env"
proof -
  obtain key where "bx_hkdf_expand X (bx_diffie_hellman X (ek_secret sk) (dpk_bytes rp)) (hkdf_info c s r) = Inr key"
    using assms unfolding box_total_def is_ok_iff by blast
  moreover obtain ct where "bx_encrypt X key nc (build_aad c s r) (to_plaintext_bytes D p) = Inr ct"
    using assms unfolding box_total_def is_ok_iff by blast
  moreover have "bx_key_init X key = Inr ()" using assms unfolding box_total_def is_ok_iff by auto
  ultimately show thesis using that by (simp add: encrypt_round2_package_def derive_key_def)
qed

section \<open>An instance\<close>

definition box_ex :: box where
  "box_ex = \<lparr> bx_public = (\<lambda>s. s), bx_diffie_hellman = (\<lambda>a b. a + b), bx_hkdf_expand = (\<lambda>s i. Inr s),
     bx_key_init = (\<lambda>_. Inr ()), bx_encrypt = (\<lambda>k n ad m. Inr (arr32 k @ ad @ m)),
     bx_decrypt = (\<lambda>k n ad c. if take (length (arr32 k @ ad)) c = arr32 k @ ad
       then Some (drop (length (arr32 k @ ad)) c) else None) \<rparr>"

lemma box_ex_ok: "box_ok box_ex"
proof -
  have "bx_encrypt box_ex k n ad m = Inr c \<longleftrightarrow> bx_decrypt box_ex k n ad c = Some m" for k n ad m c
    unfolding box_ex_def box.select_convs using append_eq_conv_conj[of "arr32 k @ ad" m c]
    by (auto simp only: append.assoc sum.inject option.inject option.distinct split: if_splits)
  then show ?thesis by (simp add: box_ok_def) (simp add: box_ex_def add.commute)
qed

lemma box_ex_total: "box_total box_ex"
  by (simp add: box_total_def box_ex_def)

lemma round2_json_ex: "round2_json_ok dkg_ex"
  by (simp add: round2_json_ok_def dkg_ex_def)

section \<open>Properties\<close>

text \<open>C20. A sealed round-2 package opens to the package that was sealed, with the key pair of the
  recipient and the public key of the sender; and whatever keys are tried, it opens for no other
  ceremony, sender or recipient than those it was sealed for.\<close>

theorem round2_package_roundtrip:
  assumes "box_ok X" "round2_json_ok D" "ek_valid X sk" "ek_valid X rk"
    and "encrypt_round2_package D X nc p c sk s (ek_public rk) r = Inr env"
  shows "decrypt_round2_package D X env rk (ek_public sk) c s r = Inr p \<and>
    (\<forall>k pk c' s' r' p'. decrypt_round2_package D X env k pk c' s' r' = Inr p' \<longrightarrow> c' = c \<and> s' = s \<and> r' = r)"
proof -
  have "er_ceremony_id env = cid_bytes c" "er_sender_id env = vid_bytes s" "er_recipient_id env = vid_bytes r"
    using assms(5) by (auto simp: encrypt_round2_package_def result_simps map_err_eq_Inr)
  then have "c' = c \<and> s' = s \<and> r' = r" if "decrypt_round2_package D X env k pk c' s' r' = Inr p'" for k pk c' s' r' p'
    using that by (simp add: decrypt_eq_Inr DkgCeremonyId.expand VerifierId.expand)
  then show ?thesis using decrypt_encrypt[OF assms] by blast
qed

theorem round2_package_roundtrip_witness:
  "\<exists>env. encrypt_round2_package dkg_ex box_ex 9 (DkgRound2Package ()) (DkgCeremonyId 3) (ek_generate box_ex 1)
      (VerifierId 1) (ek_public (ek_generate box_ex 2)) (VerifierId 2) = Inr env \<and>
    decrypt_round2_package dkg_ex box_ex env (ek_generate box_ex 2) (ek_public (ek_generate box_ex 1))
      (DkgCeremonyId 3) (VerifierId 1) (VerifierId 2) = Inr (DkgRound2Package ())"
proof -
  obtain env where e: "encrypt_round2_package dkg_ex box_ex 9 (DkgRound2Package ()) (DkgCeremonyId 3)
      (ek_generate box_ex 1) (VerifierId 1) (ek_public (ek_generate box_ex 2)) (VerifierId 2) = Inr env"
    by (rule encrypt_total[OF box_ex_total])
  then show ?thesis
    using round2_package_roundtrip[OF box_ex_ok round2_json_ex ek_generate_valid ek_generate_valid e] by blast
qed

text \<open>What opens was sealed in this context: an accepted envelope has the version and the routing
  metadata the caller expects, and its ciphertext is the encryption of the package under the key that both
  ends derive for this ceremony and direction, with this context as associated data.\<close>

theorem round2_opened_in_context:
  assumes "box_ok X" "ek_valid X rk" "ek_valid X sk"
    and "decrypt_round2_package D X env rk (ek_public sk) c s r = Inr p"
  shows "er_version env = ENVELOPE_VERSION \<and> er_ceremony_id env = cid_bytes c \<and> er_sender_id env = vid_bytes s \<and>
    er_recipient_id env = vid_bytes r \<and>
    (\<exists>key m. derive_key X (ek_secret sk) (ek_public rk) c s r = Inr key \<and>
       bx_encrypt X key (er_nonce env) (build_aad c s r) m = Inr (er_ciphertext env) \<and>
       from_plaintext_bytes D m = Inr p)"
  using assms(1,4) unfolding decrypt_eq_Inr derive_key_symmetric[OF assms(1,2,3)] box_ok_def by blast

theorem round2_opened_in_context_witness:
  "\<exists>env key. decrypt_round2_package dkg_ex box_ex env (ek_generate box_ex 2) (ek_public (ek_generate box_ex 1))
      (DkgCeremonyId 3) (VerifierId 1) (VerifierId 2) = Inr (DkgRound2Package ()) \<and>
    derive_key box_ex 1 (DkgEncryptionPublicKey 2) (DkgCeremonyId 3) (VerifierId 1) (VerifierId 2) = Inr key"
proof -
  obtain env where e: "encrypt_round2_package dkg_ex box_ex 9 (DkgRound2Package ()) (DkgCeremonyId 3)
      (ek_generate box_ex 1) (VerifierId 1) (ek_public (ek_generate box_ex 2)) (VerifierId 2) = Inr env"
    by (rule encrypt_total[OF box_ex_total])
  have d: "decrypt_round2_package dkg_ex box_ex env (ek_generate box_ex 2) (ek_public (ek_generate box_ex 1))
      (DkgCeremonyId 3) (VerifierId 1) (VerifierId 2) = Inr (DkgRound2Package ())"
    by (rule decrypt_encrypt[OF box_ex_ok round2_json_ex ek_generate_valid ek_generate_valid e])
  have k: "ek_secret (ek_generate box_ex 1) = 1" "ek_public (ek_generate box_ex 2) = DkgEncryptionPublicKey 2"
    by (simp_all add: ek_generate_def box_ex_def)
  show ?thesis
    using round2_opened_in_context[OF box_ex_ok ek_generate_valid ek_generate_valid d] d unfolding k by blast
qed

end
