(* ===== verification/Dkg_Announce.thy ===== *)
theory Dkg_Announce
  imports Dkg_Encrypt Signed_Envelope Registry
begin

text \<open>
  Signed announcements of the encryption keys for key generation (\<open>crypto/src/dkg_announce.rs\<close>).  A
  registry is the map from verifiers to their verifying keys.
\<close>

definition ANNOUNCEMENT_DOMAIN :: string where
  "ANNOUNCEMENT_DOMAIN = ''tls-attestation/dkg-enc-key-announcement/v1''"

definition ANNOUNCEMENT_VERSION :: byte where
  "ANNOUNCEMENT_VERSION = 1"

record DkgKeyAnnouncementPayload =
  ka_version :: byte
  ka_verifier_id :: bytes32
  ka_ceremony_id :: bytes16
  ka_enc_public_key :: bytes32

record SignedDkgKeyAnnouncement =
  sa_payload :: DkgKeyAnnouncementPayload
  sa_signature :: "byte list"

record VerifiedDkgKeyAnnouncement =
  va_verifier_id :: VerifierId
  va_ceremony_id :: DkgCeremonyId
  va_enc_public_key :: DkgEncryptionPublicKey

type_synonym DkgParticipantRegistry = "VerifierId \<rightharpoonup> bytes32"

definition dpr_new :: "key_list \<Rightarrow> DkgParticipantRegistry" where
  "dpr_new entries = fold (\<lambda>(v, k) m. m(v \<mapsto> k)) entries Map.empty"

definition dpr_from_key_pairs :: "ed25519 \<Rightarrow> VerifierKeyPair list \<Rightarrow> DkgParticipantRegistry" where
  "dpr_from_key_pairs ed kps = dpr_new (map (\<lambda>kp. (kp_verifier_id kp, kp_verifying_key ed kp)) kps)"

definition announcement_hasher :: "byte \<Rightarrow> bytes32 \<Rightarrow> bytes16 \<Rightarrow> bytes32 \<Rightarrow> CanonicalHasher" where
  "announcement_hasher version vid cid pk =
     update_fixed (arr32 pk) (update_fixed (arr16 cid) (update_fixed (arr32 vid)
       (update_u32 (ucast version) (ch_new ANNOUNCEMENT_DOMAIN))))"

definition announcement_signing_preimage :: "sha \<Rightarrow> byte \<Rightarrow> bytes32 \<Rightarrow> bytes16 \<Rightarrow> bytes32 \<Rightarrow> byte list" where
  "announcement_signing_preimage H version vid cid pk =
     digest_enc (ch_finalize H (announcement_hasher version vid cid pk))"

section \<open>Verification\<close>

definition verify_announcement :: "sha \<Rightarrow> ed25519 \<Rightarrow> DkgParticipantRegistry \<Rightarrow> SignedDkgKeyAnnouncement \<Rightarrow> DkgCeremonyId \<Rightarrow>
    (CryptoError, VerifiedDkgKeyAnnouncement) result" where
  "verify_announcement H ed reg ann expected =
     (let p = sa_payload ann; v = VerifierId (ka_verifier_id p) in
      if ka_version p \<noteq> ANNOUNCEMENT_VERSION then Inl (DkgAnnouncement
        (''unsupported announcement version '' @ dec_str (unat (ka_version p)) @ '' (expected '' @
         dec_str (unat ANNOUNCEMENT_VERSION) @ '')''))
      else if ka_ceremony_id p \<noteq> cid_bytes expected then Inl (DkgAnnouncement
        (''announcement ceremony_id does not match expected ceremony '' @ em_dash @
         '' possible cross-ceremony replay or stale announcement''))
      else (case reg v of
        None \<Rightarrow> Inl (DkgAnnouncement (''verifier '' @ vid_display v @ '' is not in the DKG participant registry '' @
          em_dash @ '' outsider or registry not populated correctly''))
      | Some vk \<Rightarrow>
          rbind (map_err (\<lambda>e. DkgAnnouncement (''malformed announcement signature: '' @ e))
              (ed_from_slice ed (sa_signature ann))) (\<lambda>sig.
          if \<not> ed_verify ed vk (announcement_signing_preimage H (ka_version p) (ka_verifier_id p)
                (ka_ceremony_id p) (ka_enc_public_key p)) sig
          then Inl (SignatureVerificationFailed (''DKG key-announcement signature from '' @ vid_display v @
            '' is invalid '' @ em_dash @ '' possible coordinator key substitution or data tampering''))
          else Inr \<lparr> va_verifier_id = v, va_ceremony_id = DkgCeremonyId (ka_ceremony_id p),
                      va_enc_public_key = DkgEncryptionPublicKey (ka_enc_public_key p) \<rparr>)))"

fun collect_announcements :: "sha \<Rightarrow> ed25519 \<Rightarrow> DkgParticipantRegistry \<Rightarrow> DkgCeremonyId \<Rightarrow> VerifierId list \<Rightarrow>
    SignedDkgKeyAnnouncement list \<Rightarrow> (VerifierId \<rightharpoonup> DkgEncryptionPublicKey) \<Rightarrow>
    (CryptoError, VerifierId \<rightharpoonup> DkgEncryptionPublicKey) result" where
  "collect_announcements H ed reg cid expected [] verified = Inr verified"
| "collect_announcements H ed reg cid expected (ann # anns) verified =
     rbind (verify_announcement H ed reg ann cid) (\<lambda>v.
       if va_verifier_id v \<notin> set expected then Inl (DkgAnnouncement (''announcement from '' @
         vid_display (va_verifier_id v) @ '' is not in the expected participant set''))
       else if verified (va_verifier_id v) \<noteq> None then Inl (DkgAnnouncement
         (''duplicate announcement for participant '' @ vid_display (va_verifier_id v) @ '' '' @ em_dash @ '' ambiguous key''))
       else collect_announcements H ed reg cid expected anns
         (verified(va_verifier_id v \<mapsto> va_enc_public_key v)))"

definition collect_verified_enc_keys :: "sha \<Rightarrow> ed25519 \<Rightarrow> DkgParticipantRegistry \<Rightarrow> SignedDkgKeyAnnouncement list \<Rightarrow>
    DkgCeremonyId \<Rightarrow> VerifierId list \<Rightarrow> (CryptoError, VerifierId \<rightharpoonup> DkgEncryptionPublicKey) result" where
  "collect_verified_enc_keys H ed reg announcements cid expected =
     rbind (collect_announcements H ed reg cid expected announcements Map.empty) (\<lambda>verified.
       case find (\<lambda>v. verified v = None) expected of
         Some v \<Rightarrow> Inl (DkgAnnouncement (''missing DKG key announcement from participant '' @ vid_display v @ '' '' @ em_dash @
           '' ceremony cannot start without all participants'' @ [CHR 0x27] @ '' authenticated keys''))
       | None \<Rightarrow> Inr verified)"

definition create_dkg_key_announcement :: "sha \<Rightarrow> ed25519 \<Rightarrow> DkgEncryptionKeyPair \<Rightarrow> DkgCeremonyId \<Rightarrow> VerifierKeyPair \<Rightarrow>
    SignedDkgKeyAnnouncement" where
  "create_dkg_key_announcement H ed enc_key cid signer =
     (let payload = \<lparr> ka_version = ANNOUNCEMENT_VERSION, ka_verifier_id = vid_bytes (kp_verifier_id signer),
            ka_ceremony_id = cid_bytes cid, ka_enc_public_key = dpk_bytes (ek_public enc_key) \<rparr> in
      \<lparr> sa_payload = payload,
        sa_signature = kp_sign_raw ed signer (announcement_signing_preimage H (ka_version payload)
          (ka_verifier_id payload) (ka_ceremony_id payload) (ka_enc_public_key payload)) \<rparr>)"

section \<open>What an accepted announcement carries\<close>

text \<open>The signed bytes of an announcement of key \<open>k\<close> by \<open>v\<close> for the ceremony \<open>cid\<close>.\<close>

definition announces :: "sha \<Rightarrow> VerifierId \<Rightarrow> DkgCeremonyId \<Rightarrow> DkgEncryptionPublicKey \<Rightarrow> byte list" where
  "announces H v cid k =
     announcement_signing_preimage H ANNOUNCEMENT_VERSION (vid_bytes v) (cid_bytes cid) (dpk_bytes k)"

definition signed_by :: "sha \<Rightarrow> ed25519 \<Rightarrow> bytes32 \<Rightarrow> SignedDkgKeyAnnouncement \<Rightarrow> VerifierId \<Rightarrow> DkgCeremonyId \<Rightarrow>
    DkgEncryptionPublicKey \<Rightarrow> bool" where
  "signed_by H ed vk ann v cid k \<longleftrightarrow>
     sa_payload ann = \<lparr> ka_version = ANNOUNCEMENT_VERSION, ka_verifier_id = vid_bytes v,
       ka_ceremony_id = cid_bytes cid, ka_enc_public_key = dpk_bytes k \<rparr> \<and>
     (\<exists>sig. ed_from_slice ed (sa_signature ann) = Inr sig \<and> ed_verify ed vk (announces H v cid k) sig)"

lemma verify_announcement_eq_Inr:
  "verify_announcement H ed reg ann cid = Inr va \<longleftrightarrow>
     va_ceremony_id va = cid \<and> (\<exists>vk. reg (va_verifier_id va) = Some vk \<and>
       signed_by H ed vk ann (va_verifier_id va) cid (va_enc_public_key va))"
proof (cases "sa_payload ann")
  case (fields ver vid c pk)
  show ?thesis
    unfolding verify_announcement_def Let_def fields DkgKeyAnnouncementPayload.select_convs
    by (cases va; cases cid; cases "reg (VerifierId vid)")
      (auto simp: signed_by_def announces_def fields rbind_eq_Inr map_err_eq_Inr)
qed

text \<open>The announced keys, in the order of the announcements.\<close>

definition announced :: "SignedDkgKeyAnnouncement \<Rightarrow> VerifierId \<times> DkgEncryptionPublicKey" where
  "announced ann = (VerifierId (ka_verifier_id (sa_payload ann)), DkgEncryptionPublicKey (ka_enc_public_key (sa_payload ann)))"

definition accepted :: "sha \<Rightarrow> ed25519 \<Rightarrow> DkgParticipantRegistry \<Rightarrow> DkgCeremonyId \<Rightarrow> SignedDkgKeyAnnouncement \<Rightarrow> bool" where
  "accepted H ed reg cid ann \<longleftrightarrow> (\<exists>vk. reg (fst (announced ann)) = Some vk \<and>
     signed_by H ed vk ann (fst (announced ann)) cid (snd (announced ann)))"

lemma verify_announcement_accepted:
  "verify_announcement H ed reg ann cid = Inr va \<longleftrightarrow> accepted H ed reg cid ann \<and>
     va = \<lparr> va_verifier_id = fst (announced ann), va_ceremony_id = cid, va_enc_public_key = snd (announced ann) \<rparr>"
  unfolding verify_announcement_eq_Inr
  by (cases va; cases "va_verifier_id va"; cases "va_enc_public_key va")
    (auto simp: accepted_def signed_by_def announced_def)

lemma collect_announcements_eq_Inr:
  "collect_announcements H ed reg cid expected anns m = Inr r \<longleftrightarrow>
     (\<forall>ann \<in> set anns. accepted H ed reg cid ann \<and> fst (announced ann) \<in> set expected \<and> m (fst (announced ann)) = None) \<and>
     distinct (map (fst \<circ> announced) anns) \<and> r = m ++ map_of (map announced anns)"
proof (induction anns arbitrary: m)
  case (Cons ann anns)
  obtain v k where a: "announced ann = (v, k)" by fastforce
  have "m(v \<mapsto> k) ++ map_of (map announced anns) = m ++ map_of (map announced (ann # anns))"
    if "v \<notin> fst ` announced ` set anns"
  proof -
    have "v \<notin> dom (map_of (map announced anns))" using that by (simp add: dom_map_of_conv_image_fst)
    then show ?thesis using a by (simp add: map_add_upd_left)
  qed
  note eq = this
  have step: "collect_announcements H ed reg cid expected (ann # anns) m = Inr r \<longleftrightarrow>
      accepted H ed reg cid ann \<and> v \<in> set expected \<and> m v = None \<and>
      collect_announcements H ed reg cid expected anns (m(v \<mapsto> k)) = Inr r"
    by (auto simp: rbind_eq_Inr verify_announcement_accepted a simp del: fun_upd_apply split: if_splits)
  show ?case
  proof (cases "v \<in> fst ` announced ` set anns")
    case True
    then obtain x where "x \<in> set anns" "fst (announced x) = v" by blast
    note x = this
    have "\<not> distinct (map (fst \<circ> announced) (ann # anns))" using True by (simp add: a image_image comp_def)
    moreover have "\<not> (\<forall>y \<in> set anns. (m(v \<mapsto> k)) (fst (announced y)) = None)" using x by auto
    ultimately show ?thesis unfolding step Cons.IH by blast
  next
    case False
    then have "(\<forall>x \<in> set anns. P x \<and> (m(v \<mapsto> k)) (fst (announced x)) = None) \<longleftrightarrow>
        (\<forall>x \<in> set anns. P x \<and> m (fst (announced x)) = None)" for P by auto
    from this[of "\<lambda>x. accepted H ed reg cid x \<and> fst (announced x) \<in> set expected"] False show ?thesis
      unfolding step Cons.IH eq[OF False] by (auto simp: a comp_def image_image simp del: fun_upd_apply)
  qed
qed auto

lemma collect_verified_eq_Inr:
  "collect_verified_enc_keys H ed reg anns cid expected = Inr r \<longleftrightarrow>
     (\<forall>ann \<in> set anns. accepted H ed reg cid ann) \<and> (fst \<circ> announced) ` set anns = set expected \<and>
     distinct (map (fst \<circ> announced) anns) \<and> r = map_of (map announced anns)"
proof -
  have d: "dom (map_of (map announced anns)) = (fst \<circ> announced) ` set anns"
    by (simp add: dom_map_of_conv_image_fst image_image)
  have f: "find (\<lambda>v. m v = None) expected = None \<longleftrightarrow> set expected \<subseteq> dom m" for m :: "VerifierId \<rightharpoonup> DkgEncryptionPublicKey"
    by (auto simp: find_None_iff)
  show ?thesis
    unfolding collect_verified_enc_keys_def rbind_eq_Inr collect_announcements_eq_Inr
    using f[of "map_of (map announced anns)"] unfolding d by (auto split: option.splits)
qed

section \<open>Binding\<close>

definition ann_pre :: "VerifierId \<times> DkgCeremonyId \<times> DkgEncryptionPublicKey \<Rightarrow> byte list" where
  "ann_pre = (\<lambda>(v, cid, k). absorbed (announcement_hasher ANNOUNCEMENT_VERSION (vid_bytes v) (cid_bytes cid) (dpk_bytes k)))"

interpretation annb: binding ann_pre "\<lambda>_. True"
  by standard (auto simp: ann_pre_def announcement_hasher_def enc_inject be_bytes_append_inject
      intro: VerifierId.expand DkgCeremonyId.expand DkgEncryptionPublicKey.expand)

lemma announces_binds:
  "announces H v cid k = announces H v' cid' k' \<Longrightarrow>
     (v, cid, k) = (v', cid', k') \<or> collision H (ann_pre (v, cid, k)) (ann_pre (v', cid', k'))"
  by (rule annb.digest_binds)
    (simp_all add: announces_def announcement_signing_preimage_def ch_finalize_def ann_pre_def)

section \<open>Honest announcements\<close>

text \<open>The signature library parses what it has signed.\<close>

definition ed_slices :: "ed25519 \<Rightarrow> bool" where
  "ed_slices ed \<longleftrightarrow> (\<forall>sk msg. ed_from_slice ed (ed_sign ed sk msg) = Inr (ed_sign ed sk msg))"

lemma dpr_new_lookup:
  "distinct (map fst es) \<Longrightarrow> dpr_new es = map_of es"
proof -
  have "distinct (map fst es) \<Longrightarrow> fold (\<lambda>(v, k) m. m(v \<mapsto> k)) es m = m ++ map_of es" for m
    by (induction es arbitrary: m) (auto simp: map_add_upd_left dom_map_of_conv_image_fst simp flip: fun_upd_def)
  then show "distinct (map fst es) \<Longrightarrow> dpr_new es = map_of es" by (simp add: dpr_new_def)
qed

lemma announced_create [simp]:
  "announced (create_dkg_key_announcement H ed ek cid kp) = (kp_verifier_id kp, ek_public ek)"
  by (simp add: announced_def create_dkg_key_announcement_def Let_def)

lemma accepted_create:
  assumes "ed_ok ed" "ed_slices ed" "reg (kp_verifier_id kp) = Some (kp_verifying_key ed kp)"
  shows "accepted H ed reg cid (create_dkg_key_announcement H ed ek cid kp)"
  unfolding accepted_def announced_create fst_conv snd_conv
  using assms by (simp add: signed_by_def create_dkg_key_announcement_def Let_def announces_def
      kp_sign_raw_def kp_verifying_key_def ed_ok_def ed_slices_def)

section \<open>Properties\<close>

text \<open>C19. The keys a ceremony uses are authentic: the collected map has exactly the expected participants,
  there is exactly one announcement for each of them, and every key was signed for this ceremony under the
  registered key of its participant.  The signed bytes fix participant, ceremony and key up to an explicit
  hash collision, so that a router can neither replace a key nor replay one from another ceremony.\<close>

theorem collected_keys_authentic:
  assumes "collect_verified_enc_keys H ed reg anns cid expected = Inr m"
  shows "dom m = set expected \<and> length anns = card (set expected) \<and>
    (\<forall>v k. m v = Some k \<longrightarrow> (\<exists>vk ann. reg v = Some vk \<and> ann \<in> set anns \<and> signed_by H ed vk ann v cid k)) \<and>
    (\<forall>v k v' cid' k'. m v = Some k \<and> announces H v' cid' k' = announces H v cid k \<longrightarrow>
       v' = v \<and> cid' = cid \<and> k' = k \<or> collision H (ann_pre (v', cid', k')) (ann_pre (v, cid, k)))"
proof -
  have a: "\<forall>ann \<in> set anns. accepted H ed reg cid ann" and e: "(fst \<circ> announced) ` set anns = set expected"
    and d: "distinct (map (fst \<circ> announced) anns)" and m: "m = map_of (map announced anns)"
    using assms by (auto simp: collect_verified_eq_Inr)
  have "dom m = set expected" using e by (simp add: m dom_map_of_conv_image_fst image_image)
  moreover have "length anns = card (set expected)" using distinct_card[OF d] e by simp
  moreover have "\<exists>vk ann. reg v = Some vk \<and> ann \<in> set anns \<and> signed_by H ed vk ann v cid k" if "m v = Some k" for v k
  proof -
    have "(v, k) \<in> set (map announced anns)" using that unfolding m by (rule map_of_SomeD)
    then obtain ann where "ann \<in> set anns" "announced ann = (v, k)" by auto
    then show ?thesis using a by (force simp: accepted_def)
  qed
  moreover have "v' = v \<and> cid' = cid \<and> k' = k \<or> collision H (ann_pre (v', cid', k')) (ann_pre (v, cid, k))"
    if "announces H v' cid' k' = announces H v cid k" for v k v' cid' k'
    using announces_binds[OF that] by auto
  ultimately show ?thesis by blast
qed

definition ann_kp_ex :: "bytes32 \<Rightarrow> VerifierKeyPair" where
  "ann_kp_ex i = \<lparr> kp_verifier_id = VerifierId i, kp_signing_key = 10 + i \<rparr>"

lemma collect_ex:
  "collect_verified_enc_keys (\<lambda>_. 7) ed_ex (dpr_from_key_pairs ed_ex [ann_kp_ex 1, ann_kp_ex 2])
     [create_dkg_key_announcement (\<lambda>_. 7) ed_ex (ek_generate box_ex 1) (DkgCeremonyId 3) (ann_kp_ex 1),
      create_dkg_key_announcement (\<lambda>_. 7) ed_ex (ek_generate box_ex 2) (DkgCeremonyId 3) (ann_kp_ex 2)]
     (DkgCeremonyId 3) [VerifierId 1, VerifierId 2] =
   Inr [VerifierId 1 \<mapsto> DkgEncryptionPublicKey 1, VerifierId 2 \<mapsto> DkgEncryptionPublicKey 2]"
  by (simp add: collect_verified_eq_Inr accepted_create ed_ok_def ed_slices_def dpr_from_key_pairs_def dpr_new_lookup
      ann_kp_ex_def kp_verifying_key_def ek_generate_def box_ex_def fun_upd_twist)

theorem collected_keys_authentic_witness:
  "\<exists>vk ann. dpr_from_key_pairs ed_ex [ann_kp_ex 1, ann_kp_ex 2] (VerifierId 2) = Some vk \<and>
     signed_by (\<lambda>_. 7) ed_ex vk ann (VerifierId 2) (DkgCeremonyId 3) (DkgEncryptionPublicKey 2)"
proof -
  have "[VerifierId 1 \<mapsto> DkgEncryptionPublicKey 1, VerifierId 2 \<mapsto> DkgEncryptionPublicKey 2] (VerifierId 2) =
      Some (DkgEncryptionPublicKey 2)" by simp
  then show ?thesis using collected_keys_authentic[OF collect_ex] by blast
qed

text \<open>Honest announcements are accepted: when every participant announces its key and the registry
  holds their verifying keys, the collected map is the map of their keys.\<close>

theorem honest_announcements_accepted:
  assumes "ed_ok ed" "ed_slices ed" "distinct (map kp_verifier_id kps)" "length eks = length kps"
    and "set expected = kp_verifier_id ` set kps"
  shows "collect_verified_enc_keys H ed (dpr_from_key_pairs ed kps)
      (map (\<lambda>(kp, ek). create_dkg_key_announcement H ed ek cid kp) (zip kps eks)) cid expected =
    Inr (map_of (zip (map kp_verifier_id kps) (map ek_public eks)))"
proof -
  let ?es = "map (\<lambda>kp. (kp_verifier_id kp, kp_verifying_key ed kp)) kps"
  have reg: "dpr_from_key_pairs ed kps = map_of ?es"
    unfolding dpr_from_key_pairs_def using assms(3) by (intro dpr_new_lookup) (simp add: comp_def)
  have look: "dpr_from_key_pairs ed kps (kp_verifier_id kp) = Some (kp_verifying_key ed kp)" if "kp \<in> set kps" for kp
    unfolding reg using assms(3) that by (simp add: map_of_eq_Some_iff comp_def)
  let ?anns = "map (\<lambda>(kp, ek). create_dkg_key_announcement H ed ek cid kp) (zip kps eks)"
  have zs: "map announced ?anns = zip (map kp_verifier_id kps) (map ek_public eks)"
    by (simp add: zip_map_map comp_def split_def)
  have ids: "map (fst \<circ> announced) ?anns = map kp_verifier_id kps"
    unfolding map_map[symmetric, of fst] zs using assms(4) by simp
  have img: "(fst \<circ> announced) ` set ?anns = set expected"
    unfolding set_map[symmetric, of _ ?anns] ids assms(5) by simp
  have "accepted H ed (dpr_from_key_pairs ed kps) cid (create_dkg_key_announcement H ed ek cid kp)"
    if "(kp, ek) \<in> set (zip kps eks)" for kp ek
    using that by (intro accepted_create[OF assms(1,2)] look) (auto dest: set_zip_leftD)
  then have "\<forall>ann \<in> set ?anns. accepted H ed (dpr_from_key_pairs ed kps) cid ann" by auto
  then show ?thesis using img assms(3) unfolding collect_verified_eq_Inr zs ids by blast
qed

theorem honest_announcements_accepted_witness:
  "collect_verified_enc_keys (\<lambda>_. 7) ed_ex (dpr_from_key_pairs ed_ex [ann_kp_ex 1, ann_kp_ex 2])
     (map (\<lambda>(kp, ek). create_dkg_key_announcement (\<lambda>_. 7) ed_ex ek (DkgCeremonyId 3) kp)
       (zip [ann_kp_ex 1, ann_kp_ex 2] [ek_generate box_ex 1, ek_generate box_ex 2]))
     (DkgCeremonyId 3) [VerifierId 2, VerifierId 1] =
   Inr (map_of [(VerifierId 1, DkgEncryptionPublicKey 1), (VerifierId 2, DkgEncryptionPublicKey 2)])"
  using honest_announcements_accepted[of ed_ex "[ann_kp_ex 1, ann_kp_ex 2]" "[ek_generate box_ex 1, ek_generate box_ex 2]"
      "[VerifierId 2, VerifierId 1]"]
  by (simp add: ed_ok_def ed_slices_def ann_kp_ex_def ek_generate_def box_ex_def insert_commute)

end
