(* ===== verification/Dkg_Node.thy ===== *)
theory Dkg_Node
  imports Dkg_Announce Frost_Aux Actions
begin

text \<open>
  Participants of a key generation ceremony and its in-process orchestration
  (\<open>node/src/dkg_node.rs\<close>).  A node is a state machine over the three parts; a ceremony runs over the
  list of nodes, which is its state.  \<open>DkgPanic\<close> is a panic of the program.

  A \<open>HashMap\<close> is an association list; where the code iterates over one, the order is a permutation of
  its keys that is a parameter (\<open>hash_orders\<close>).  The random bytes of the calls are arguments.
\<close>

section \<open>Nodes\<close>

datatype ('s1, 'p1, 's2) DkgNodeState =
    Initial
  | AfterPart1 "'s1 DkgRound1State"
  | AfterPart2 "'s2 DkgRound2State" "FrostIdentifier \<rightharpoonup> 'p1 DkgRound1Package"
  | DkgCompleted
  | DkgFailed string

record ('s1, 'p1, 's2) FrostDkgNode =
  dn_verifier_id :: VerifierId
  dn_identifier :: FrostIdentifier
  dn_all_participant_ids :: "VerifierId list"
  dn_max_signers :: u16
  dn_min_signers :: u16
  dn_state :: "('s1, 'p1, 's2) DkgNodeState"

datatype dkg_fault = Fault NodeError | DkgPanic

text \<open>\<open>Iterator::position\<close>.\<close>

definition position :: "VerifierId \<Rightarrow> VerifierId list \<Rightarrow> nat option" where
  "position v vs = (if v \<in> set vs then Some (length (takeWhile (\<lambda>x. x \<noteq> v) vs)) else None)"

definition dkg_node_new :: "('kp, 'n, 'c, 's, 'sp, 'pk) frost \<Rightarrow> string \<Rightarrow> VerifierId \<Rightarrow> VerifierId list \<Rightarrow> u16 \<Rightarrow>
    (NodeError, ('s1, 'p1, 's2) FrostDkgNode) result" where
  "dkg_node_new F id_error v all_ids min_signers =
     (let n = length all_ids in
      if n < 2 then Inl (DkgProtocol (''FROST DKG requires at least 2 participants (got '' @ dec_str n @ '')''))
      else if card (set all_ids) \<noteq> n then Inl (DkgProtocol ''all_participant_ids must not contain duplicates'')
      else if min_signers < 2 then Inl (DkgProtocol
        (''FROST requires min_signers >= 2 (got '' @ dec_str (unat min_signers) @ '')''))
      else if unat min_signers > n then Inl (DkgProtocol
        (''min_signers ('' @ dec_str (unat min_signers) @ '') exceeds participant count ('' @ dec_str n @ '')''))
      else (case position v all_ids of
        None \<Rightarrow> Inl (DkgProtocol (''verifier '' @ vid_display v @ '' not found in all_participant_ids''))
      | Some pos \<Rightarrow> (case fr_id_try_from F (of_nat (pos + 1)) of
          None \<Rightarrow> Inl (DkgProtocol (''FROST identifier assignment for position '' @ dec_str pos @ '': '' @ id_error))
        | Some i \<Rightarrow> Inr \<lparr> dn_verifier_id = v, dn_identifier = i, dn_all_participant_ids = all_ids,
            dn_max_signers = of_nat n, dn_min_signers = min_signers, dn_state = Initial \<rparr>)))"

definition dkg_is_complete :: "('s1, 'p1, 's2) FrostDkgNode \<Rightarrow> bool" where
  "dkg_is_complete n = (case dn_state n of DkgCompleted \<Rightarrow> True | _ \<Rightarrow> False)"

text \<open>Both directions of the numbering; the conversion of a position that does not fit panics.\<close>

definition vid_to_identifier :: "('kp, 'n, 'c, 's, 'sp, 'pk) frost \<Rightarrow> VerifierId list \<Rightarrow> VerifierId \<Rightarrow>
    (dkg_fault, FrostIdentifier) result" where
  "vid_to_identifier F all_ids v = (case position v all_ids of
     None \<Rightarrow> Inl (Fault (DkgProtocol (''verifier '' @ vid_display v @ '' is not in the ceremony participant list'')))
   | Some pos \<Rightarrow> ok_or DkgPanic (fr_id_try_from F (of_nat (pos + 1))))"

fun identifier_to_vid :: "('kp, 'n, 'c, 's, 'sp, 'pk) frost \<Rightarrow> nat \<Rightarrow> VerifierId list \<Rightarrow> FrostIdentifier \<Rightarrow>
    (dkg_fault, VerifierId option) result" where
  "identifier_to_vid F pos [] i = Inr None"
| "identifier_to_vid F pos (v # vs) i = (case fr_id_try_from F (of_nat (pos + 1)) of
     None \<Rightarrow> Inl DkgPanic
   | Some j \<Rightarrow> if j = i then Inr (Some v) else identifier_to_vid F (Suc pos) vs i)"

text \<open>The loops that translate the keys of a map; the map is given by its entries in the order of
  iteration.\<close>

fun to_identifiers :: "('kp, 'n, 'c, 's, 'sp, 'pk) frost \<Rightarrow> VerifierId list \<Rightarrow> (VerifierId \<times> 'p) list \<Rightarrow>
    (FrostIdentifier \<rightharpoonup> 'p) \<Rightarrow> (dkg_fault, FrostIdentifier \<rightharpoonup> 'p) result" where
  "to_identifiers F all_ids [] m = Inr m"
| "to_identifiers F all_ids ((v, p) # es) m =
     rbind (vid_to_identifier F all_ids v) (\<lambda>i. to_identifiers F all_ids es (m(i \<mapsto> p)))"

fun to_verifiers :: "('kp, 'n, 'c, 's, 'sp, 'pk) frost \<Rightarrow> VerifierId list \<Rightarrow> (FrostIdentifier \<times> 'p) list \<Rightarrow>
    (VerifierId \<times> 'p) list \<Rightarrow> (dkg_fault, (VerifierId \<times> 'p) list) result" where
  "to_verifiers F all_ids [] m = Inr m"
| "to_verifiers F all_ids ((i, p) # es) m =
     rbind (identifier_to_vid F 0 all_ids i) (\<lambda>r. case r of
       None \<Rightarrow> Inl (Fault (DkgProtocol (''DKG part2 produced package for unknown FROST identifier '' @ em_dash @
         '' all_participant_ids may be inconsistent'')))
     | Some v \<Rightarrow> to_verifiers F all_ids es (AList.update v p m))"

section \<open>The three parts\<close>

definition part1 :: "('s1, 'p1, 's2, 'p2, 'kp, 'pk) dkg \<Rightarrow> rng \<Rightarrow>
    (('s1, 'p1, 's2) FrostDkgNode, dkg_fault, 'p1 DkgRound1Package) action" where
  "part1 D g n = (case dn_state n of
     DkgFailed reason \<Rightarrow> (Inl (Fault (DkgProtocol (''ceremony failed '' @ em_dash @ '' cannot continue: '' @ reason))), n)
   | Initial \<Rightarrow>
       (case dkg_part1 D (dn_identifier n) (dn_max_signers n) (dn_min_signers n) g of
          Inl e \<Rightarrow> (Inl (Fault (Crypto e)), n)
        | Inr (s, p) \<Rightarrow> (Inr p, n\<lparr> dn_state := AfterPart1 s \<rparr>))
   | _ \<Rightarrow> (Inl (Fault (DkgProtocol ''part1 already completed for this ceremony'')), n))"

definition part2_poison :: string where
  "part2_poison = ''part2 did not complete successfully '' @ em_dash @ '' round1_state consumed''"

definition part2 :: "('kp, 'n, 'c, 's, 'sp, 'pk) frost \<Rightarrow> ('s1, 'p1, 's2, 'p2, 'kp, 'pk) dkg \<Rightarrow>
    (VerifierId \<times> 'p1 DkgRound1Package) list \<Rightarrow>
    (('s1, 'p1, 's2) FrostDkgNode, dkg_fault, (VerifierId \<times> 'p2 DkgRound2Package) list) action" where
  "part2 F D from_others n = (case dn_state n of
     Initial \<Rightarrow> (Inl (Fault (DkgProtocol ''part2 called before part1'')), n)
   | AfterPart2 _ _ \<Rightarrow> (Inl (Fault (DkgProtocol ''part2 already completed'')), n)
   | DkgCompleted \<Rightarrow> (Inl (Fault (DkgProtocol ''ceremony already completed'')), n)
   | DkgFailed reason \<Rightarrow> (Inl (Fault (DkgProtocol (''ceremony failed '' @ em_dash @ '' cannot continue: '' @ reason))), n)
   | AfterPart1 s1 \<Rightarrow>
       (case to_identifiers F (dn_all_participant_ids n) from_others Map.empty of
          Inl e \<Rightarrow> (Inl e, n)
        | Inr r1 \<Rightarrow>
            let poisoned = n\<lparr> dn_state := DkgFailed part2_poison \<rparr> in
            (case dkg_part2 D s1 r1 of
               Inl e \<Rightarrow> (Inl (Fault (Crypto e)), poisoned)
             | Inr (s2, out) \<Rightarrow>
                 (case to_verifiers F (dn_all_participant_ids n) out [] of
                    Inl e \<Rightarrow> (Inl e, poisoned)
                  | Inr pkgs \<Rightarrow> (Inr pkgs, n\<lparr> dn_state := AfterPart2 s2 r1 \<rparr>)))))"

definition part3 :: "('kp, 'n, 'c, 's, 'sp, 'pk) frost \<Rightarrow> ('s1, 'p1, 's2, 'p2, 'kp, 'pk) dkg \<Rightarrow>
    (VerifierId \<times> 'p2 DkgRound2Package) list \<Rightarrow>
    (('s1, 'p1, 's2) FrostDkgNode, dkg_fault, ('kp, 'n) FrostAuxiliaryNode \<times> 'pk FrostGroupKey) action" where
  "part3 F D for_me n = (case dn_state n of
     Initial \<Rightarrow> (Inl (Fault (DkgProtocol ''part3 called before part1 and part2'')), n)
   | AfterPart1 _ \<Rightarrow> (Inl (Fault (DkgProtocol ''part3 called before part2'')), n)
   | DkgCompleted \<Rightarrow> (Inl (Fault (DkgProtocol ''ceremony already completed'')), n)
   | DkgFailed reason \<Rightarrow> (Inl (Fault (DkgProtocol (''ceremony failed '' @ em_dash @ '' cannot retry part3: '' @ reason))), n)
   | AfterPart2 s2 r1 \<Rightarrow>
       (case to_identifiers F (dn_all_participant_ids n) for_me Map.empty of
          Inl e \<Rightarrow> (Inl e, n)
        | Inr r2 \<Rightarrow>
            (case dkg_part3 F D (dn_verifier_id n) (dn_identifier n) s2 r1 r2 (dn_all_participant_ids n) of
               Inl e \<Rightarrow> (Inl (Fault (Crypto e)), n)
             | Inr out \<Rightarrow> (Inr (frost_aux_new (do_participant out), do_group_key out), n\<lparr> dn_state := DkgCompleted \<rparr>))))"

section \<open>Ceremonies\<close>

text \<open>\<open>for node in nodes.iter_mut()\<close> with \<open>?\<close> in the body: the nodes after a failing one are not reached.\<close>

fun each_node :: "(nat \<Rightarrow> 'acc \<Rightarrow> ('node, 'e, 'acc) action) \<Rightarrow> nat \<Rightarrow> 'acc \<Rightarrow> ('node list, 'e, 'acc) action" where
  "each_node f i acc [] = (Inr acc, [])"
| "each_node f i acc (n # ns) = (case f i acc n of
     (Inl e, n') \<Rightarrow> (Inl e, n' # ns)
   | (Inr acc', n') \<Rightarrow> (case each_node f (Suc i) acc' ns of (r, ns') \<Rightarrow> (r, n' # ns')))"

text \<open>The orders in which the maps of the node with a given index are iterated.\<close>

record hash_orders =
  ho_broadcasts :: "nat \<Rightarrow> VerifierId list \<Rightarrow> VerifierId list"
  ho_outbound :: "nat \<Rightarrow> VerifierId list \<Rightarrow> VerifierId list"
  ho_inbound :: "nat \<Rightarrow> VerifierId list \<Rightarrow> VerifierId list"

definition in_order :: "(VerifierId list \<Rightarrow> VerifierId list) \<Rightarrow> (VerifierId \<times> 'v) list \<Rightarrow> (VerifierId \<times> 'v) list" where
  "in_order ord m = map (\<lambda>k. (k, the (map_of m k))) (ord (map fst m))"

definition broadcast_all :: "('s1, 'p1, 's2, 'p2, 'kp, 'pk) dkg \<Rightarrow> (nat \<Rightarrow> rng) \<Rightarrow>
    (('s1, 'p1, 's2) FrostDkgNode list, dkg_fault, (VerifierId \<times> 'p1 DkgRound1Package) list) action" where
  "broadcast_all D g = each_node (\<lambda>i acc. abind (part1 D (g i)) (\<lambda>pkg.
     abind (aget dn_verifier_id) (\<lambda>v. alift (Inr (AList.update v pkg acc))))) 0 []"

definition from_others :: "hash_orders \<Rightarrow> nat \<Rightarrow> VerifierId \<Rightarrow> (VerifierId \<times> 'p) list \<Rightarrow> (VerifierId \<times> 'p) list" where
  "from_others ho i me m = in_order (ho_broadcasts ho i) (filter (\<lambda>(v, _). v \<noteq> me) m)"

text \<open>The packages routed to each recipient; a recipient without packages has the empty list.\<close>

type_synonym 'p routed = "VerifierId \<Rightarrow> (VerifierId \<times> 'p) list"

definition unicast_all :: "('kp, 'n, 'c, 's, 'sp, 'pk) frost \<Rightarrow> ('s1, 'p1, 's2, 'p2, 'kp, 'pk) dkg \<Rightarrow> hash_orders \<Rightarrow>
    (VerifierId \<times> 'p1 DkgRound1Package) list \<Rightarrow>
    (('s1, 'p1, 's2) FrostDkgNode list, dkg_fault, 'p2 DkgRound2Package routed) action" where
  "unicast_all F D ho r1 = each_node (\<lambda>i acc. abind (aget dn_verifier_id) (\<lambda>me.
     abind (part2 F D (from_others ho i me r1)) (\<lambda>outbound.
     alift (Inr (fold (\<lambda>(v, pkg) m. m(v := AList.update me pkg (m v))) (in_order (ho_outbound ho i) outbound) acc))))) 0 (\<lambda>_. [])"

definition finish_all :: "('kp, 'n, 'c, 's, 'sp, 'pk) frost \<Rightarrow> ('s1, 'p1, 's2, 'p2, 'kp, 'pk) dkg \<Rightarrow> hash_orders \<Rightarrow>
    'p2 DkgRound2Package routed \<Rightarrow>
    (('s1, 'p1, 's2) FrostDkgNode list, dkg_fault, ('kp, 'n) FrostAuxiliaryNode list \<times> 'pk FrostGroupKey list) action" where
  "finish_all F D ho r2 = (\<lambda>ns. (case each_node (\<lambda>i (routed, aux, gks). abind (aget dn_verifier_id) (\<lambda>me.
     abind (part3 F D (in_order (ho_inbound ho i) (routed me))) (\<lambda>(a, gk).
     alift (Inr (routed(me := []), aux @ [a], gks @ [gk]))))) 0 (r2, [], []) ns of
       (Inl e, ns') \<Rightarrow> (Inl e, ns') | (Inr (_, aux, gks), ns') \<Rightarrow> (Inr (aux, gks), ns')))"

fun key_mismatch :: "('kp, 'n, 'c, 's, 'sp, 'pk) frost \<Rightarrow> bytes32 \<Rightarrow> nat \<Rightarrow> 'pk FrostGroupKey list \<Rightarrow> nat option" where
  "key_mismatch F k i [] = None"
| "key_mismatch F k i (gk # gks) = (if verifying_key_bytes F gk \<noteq> k then Some i else key_mismatch F k (Suc i) gks)"

definition agreed_key :: "('kp, 'n, 'c, 's, 'sp, 'pk) frost \<Rightarrow> 'a \<times> 'pk FrostGroupKey list \<Rightarrow>
    (dkg_fault, 'a \<times> 'pk FrostGroupKey) result" where
  "agreed_key F r = (case r of
     (aux, []) \<Rightarrow> Inl DkgPanic
   | (aux, gk # gks) \<Rightarrow> (case key_mismatch F (verifying_key_bytes F gk) 1 gks of
       Some i \<Rightarrow> Inl (Fault (DkgProtocol (''group key mismatch: node 0 and node '' @ dec_str i @
         '' derived different group verifying keys '' @ em_dash @ '' possible inconsistent Round-1 broadcast'')))
     | None \<Rightarrow> Inr (aux, gk)))"

definition run_dkg_ceremony :: "('kp, 'n, 'c, 's, 'sp, 'pk) frost \<Rightarrow> ('s1, 'p1, 's2, 'p2, 'kp, 'pk) dkg \<Rightarrow>
    hash_orders \<Rightarrow> (nat \<Rightarrow> rng) \<Rightarrow>
    (('s1, 'p1, 's2) FrostDkgNode list, dkg_fault, ('kp, 'n) FrostAuxiliaryNode list \<times> 'pk FrostGroupKey) action" where
  "run_dkg_ceremony F D ho g = abind (aget (\<lambda>ns. ns = [])) (\<lambda>empty.
     if empty then alift (Inl (Fault (DkgProtocol ''run_dkg_ceremony requires at least one node'')))
     else abind (broadcast_all D g) (\<lambda>r1.
       abind (unicast_all F D ho r1) (\<lambda>r2.
       abind (finish_all F D ho r2) (\<lambda>r. alift (agreed_key F r)))))"

section \<open>Encrypted ceremonies\<close>

text \<open>\<open>nodes.iter().zip(encryption_keys)\<close> collected into a map.\<close>

definition enc_pub_map :: "('s1, 'p1, 's2) FrostDkgNode list \<Rightarrow> DkgEncryptionKeyPair list \<Rightarrow>
    VerifierId \<rightharpoonup> DkgEncryptionPublicKey" where
  "enc_pub_map ns keys = fold (\<lambda>(n, k) m. m(dn_verifier_id n \<mapsto> ek_public k)) (zip ns keys) Map.empty"

text \<open>The loop that seals the outbound packages of one node and routes them; \<open>form\<close> turns an envelope
  into what is routed.\<close>

fun seal_outbound :: "('s1, 'p1, 's2, 'p2, 'kp, 'pk) dkg \<Rightarrow> box \<Rightarrow> (nat \<Rightarrow> bytes24) \<Rightarrow> DkgCeremonyId \<Rightarrow> string \<Rightarrow>
    (EncryptedDkgRound2Package \<Rightarrow> (NodeError, 'w) result) \<Rightarrow> (VerifierId \<rightharpoonup> DkgEncryptionPublicKey) \<Rightarrow>
    DkgEncryptionKeyPair \<Rightarrow> VerifierId \<Rightarrow> nat \<Rightarrow> (VerifierId \<times> 'p2 DkgRound2Package) list \<Rightarrow> 'w routed \<Rightarrow>
    (dkg_fault, 'w routed) result" where
  "seal_outbound D X nc cid missing form pubs key me j [] acc = Inr acc"
| "seal_outbound D X nc cid missing form pubs key me j ((v, pkg) # es) acc =
     rbind (ok_or (Fault (DkgProtocol (missing @ vid_display v))) (pubs v)) (\<lambda>recipient_pub.
     rbind (map_err (Fault \<circ> Crypto) (encrypt_round2_package D X (nc j) pkg cid key me recipient_pub v)) (\<lambda>enc.
     rbind (map_err Fault (form enc)) (\<lambda>w.
     seal_outbound D X nc cid missing form pubs key me (Suc j) es (acc(v := acc v @ [(me, w)])))))"

definition seal_all :: "('kp, 'n, 'c, 's, 'sp, 'pk) frost \<Rightarrow> ('s1, 'p1, 's2, 'p2, 'kp, 'pk) dkg \<Rightarrow> box \<Rightarrow> hash_orders \<Rightarrow>
    (nat \<Rightarrow> nat \<Rightarrow> bytes24) \<Rightarrow> DkgCeremonyId \<Rightarrow> string \<Rightarrow> (EncryptedDkgRound2Package \<Rightarrow> (NodeError, 'w) result) \<Rightarrow>
    (VerifierId \<rightharpoonup> DkgEncryptionPublicKey) \<Rightarrow> DkgEncryptionKeyPair list \<Rightarrow> (VerifierId \<times> 'p1 DkgRound1Package) list \<Rightarrow>
    (('s1, 'p1, 's2) FrostDkgNode list, dkg_fault, 'w routed) action" where
  "seal_all F D X ho nc cid missing form pubs keys r1 = each_node (\<lambda>i acc. abind (aget dn_verifier_id) (\<lambda>me.
     abind (part2 F D (from_others ho i me r1)) (\<lambda>outbound.
     alift (seal_outbound D X (nc i) cid missing form pubs (keys ! i) me 0 (in_order (ho_outbound ho i) outbound) acc)))) 0 (\<lambda>_. [])"

text \<open>The loop that opens the inbound packages of one node; \<open>parse\<close> recovers the envelope.\<close>

fun open_inbound :: "('s1, 'p1, 's2, 'p2, 'kp, 'pk) dkg \<Rightarrow> box \<Rightarrow> DkgCeremonyId \<Rightarrow> string \<Rightarrow>
    ('w \<Rightarrow> (NodeError, EncryptedDkgRound2Package) result) \<Rightarrow> (VerifierId \<rightharpoonup> DkgEncryptionPublicKey) \<Rightarrow>
    DkgEncryptionKeyPair \<Rightarrow> VerifierId \<Rightarrow> (VerifierId \<times> 'w) list \<Rightarrow> (VerifierId \<times> 'p2 DkgRound2Package) list \<Rightarrow>
    (dkg_fault, (VerifierId \<times> 'p2 DkgRound2Package) list) result" where
  "open_inbound D X cid missing parse pubs key me [] acc = Inr acc"
| "open_inbound D X cid missing parse pubs key me ((v, w) # es) acc =
     rbind (map_err Fault (parse w)) (\<lambda>enc.
     rbind (ok_or (Fault (DkgProtocol (missing @ vid_display v))) (pubs v)) (\<lambda>sender_pub.
     rbind (map_err (Fault \<circ> Crypto) (decrypt_round2_package D X enc key sender_pub cid v me)) (\<lambda>pkg.
     open_inbound D X cid missing parse pubs key me es (AList.update v pkg acc))))"

definition open_finish_all :: "('kp, 'n, 'c, 's, 'sp, 'pk) frost \<Rightarrow> ('s1, 'p1, 's2, 'p2, 'kp, 'pk) dkg \<Rightarrow> box \<Rightarrow> hash_orders \<Rightarrow>
    DkgCeremonyId \<Rightarrow> (VerifierId \<rightharpoonup> DkgEncryptionPublicKey) \<Rightarrow> DkgEncryptionKeyPair list \<Rightarrow> EncryptedDkgRound2Package routed \<Rightarrow>
    (('s1, 'p1, 's2) FrostDkgNode list, dkg_fault, ('kp, 'n) FrostAuxiliaryNode list \<times> 'pk FrostGroupKey list) action" where
  "open_finish_all F D X ho cid pubs keys r2 = (\<lambda>ns. (case each_node (\<lambda>i (routed, aux, gks). abind (aget dn_verifier_id) (\<lambda>me.
     abind (alift (open_inbound D X cid ''no encryption public key for sender '' Inr pubs (keys ! i) me (routed me) [])) (\<lambda>plain.
     abind (part3 F D (in_order (ho_inbound ho i) plain)) (\<lambda>(a, gk).
     alift (Inr (routed(me := []), aux @ [a], gks @ [gk])))))) 0 (r2, [], []) ns of
       (Inl e, ns') \<Rightarrow> (Inl e, ns') | (Inr (_, aux, gks), ns') \<Rightarrow> (Inr (aux, gks), ns')))"

definition run_dkg_ceremony_encrypted :: "('kp, 'n, 'c, 's, 'sp, 'pk) frost \<Rightarrow> ('s1, 'p1, 's2, 'p2, 'kp, 'pk) dkg \<Rightarrow> box \<Rightarrow>
    hash_orders \<Rightarrow> (nat \<Rightarrow> rng) \<Rightarrow> (nat \<Rightarrow> nat \<Rightarrow> bytes24) \<Rightarrow> DkgCeremonyId \<Rightarrow> DkgEncryptionKeyPair list \<Rightarrow>
    (('s1, 'p1, 's2) FrostDkgNode list, dkg_fault, ('kp, 'n) FrostAuxiliaryNode list \<times> 'pk FrostGroupKey) action" where
  "run_dkg_ceremony_encrypted F D X ho g nc cid keys = abind (aget id) (\<lambda>nodes.
     if nodes = [] then alift (Inl (Fault (DkgProtocol ''run_dkg_ceremony_encrypted requires at least one node'')))
     else if length keys \<noteq> length nodes then alift (Inl (Fault (DkgProtocol (''encryption_keys.len() ('' @
       dec_str (length keys) @ '') must equal nodes.len() ('' @ dec_str (length nodes) @ '')''))))
     else let pubs = enc_pub_map nodes keys in
       abind (broadcast_all D g) (\<lambda>r1.
       abind (seal_all F D X ho nc cid ''no encryption public key for recipient '' Inr pubs keys r1) (\<lambda>r2.
       abind (open_finish_all F D X ho cid pubs keys r2) (\<lambda>r. alift (agreed_key F r)))))"

section \<open>Authenticated ceremonies\<close>

fun own_keys_announced :: "(VerifierId \<rightharpoonup> DkgEncryptionPublicKey) \<Rightarrow>
    (('s1, 'p1, 's2) FrostDkgNode \<times> DkgEncryptionKeyPair) list \<Rightarrow> (dkg_fault, unit) result" where
  "own_keys_announced m [] = Inr ()"
| "own_keys_announced m ((n, k) # es) = (case m (dn_verifier_id n) of
     None \<Rightarrow> Inl DkgPanic
   | Some pk \<Rightarrow> if pk \<noteq> ek_public k then Inl (Fault (DkgKeyAnnouncement (''enc key for '' @ vid_display (dn_verifier_id n) @
         '' does not match its own verified announcement '' @ em_dash @ '' possible inconsistent state or key substitution'')))
       else own_keys_announced m es)"

definition run_dkg_ceremony_with_authenticated_keys :: "sha \<Rightarrow> ed25519 \<Rightarrow> ('kp, 'n, 'c, 's, 'sp, 'pk) frost \<Rightarrow>
    ('s1, 'p1, 's2, 'p2, 'kp, 'pk) dkg \<Rightarrow> box \<Rightarrow> hash_orders \<Rightarrow> (nat \<Rightarrow> rng) \<Rightarrow> (nat \<Rightarrow> nat \<Rightarrow> bytes24) \<Rightarrow> DkgCeremonyId \<Rightarrow>
    DkgEncryptionKeyPair list \<Rightarrow> SignedDkgKeyAnnouncement list \<Rightarrow> DkgParticipantRegistry \<Rightarrow>
    (('s1, 'p1, 's2) FrostDkgNode list, dkg_fault, ('kp, 'n) FrostAuxiliaryNode list \<times> 'pk FrostGroupKey) action" where
  "run_dkg_ceremony_with_authenticated_keys H ed F D X ho g nc cid keys anns reg = abind (aget id) (\<lambda>nodes.
     if nodes = [] then alift (Inl (Fault (DkgProtocol
       ''run_dkg_ceremony_with_authenticated_keys requires at least one node'')))
     else if length keys \<noteq> length nodes then alift (Inl (Fault (DkgProtocol (''enc_keys.len() ('' @
       dec_str (length keys) @ '') must equal nodes.len() ('' @ dec_str (length nodes) @ '')''))))
     else abind (alift (map_err (\<lambda>e. Fault (DkgKeyAnnouncement (crypto_error_display e)))
         (collect_verified_enc_keys H ed reg anns cid (map dn_verifier_id nodes)))) (\<lambda>verified.
       abind (alift (own_keys_announced verified (zip nodes keys))) (\<lambda>_.
       run_dkg_ceremony_encrypted F D X ho g nc cid keys)))"

definition run_dkg_ceremony_with_registry :: "sha \<Rightarrow> ed25519 \<Rightarrow> ('kp, 'n, 'c, 's, 'sp, 'pk) frost \<Rightarrow>
    ('s1, 'p1, 's2, 'p2, 'kp, 'pk) dkg \<Rightarrow> box \<Rightarrow> hash_orders \<Rightarrow> (nat \<Rightarrow> rng) \<Rightarrow> (nat \<Rightarrow> nat \<Rightarrow> bytes24) \<Rightarrow> DkgCeremonyId \<Rightarrow>
    DkgEncryptionKeyPair list \<Rightarrow> SignedDkgKeyAnnouncement list \<Rightarrow> ParticipantRegistry \<Rightarrow> RegistryEpoch \<Rightarrow>
    (('s1, 'p1, 's2) FrostDkgNode list, dkg_fault, ('kp, 'n) FrostAuxiliaryNode list \<times> 'pk FrostGroupKey) action" where
  "run_dkg_ceremony_with_registry H ed F D X ho g nc cid keys anns reg expected =
     abind (aget (map dn_verifier_id)) (\<lambda>participant_ids.
     abind (alift (map_err (\<lambda>e. Fault (DkgKeyAnnouncement (registry_error_display e)))
       (check_ceremony_admission reg expected participant_ids))) (\<lambda>_.
     run_dkg_ceremony_with_authenticated_keys H ed F D X ho g nc cid keys anns (to_dkg_registry reg)))"

section \<open>Ceremonies over messages\<close>

record DkgNetworkMessages =
  nm_announcement :: DkgCeremonyAnnouncement
  nm_round1_responses :: "DkgRound1Response list"
  nm_round2_deliveries :: "VerifierId \<rightharpoonup> DkgRound2Delivery"

definition respond_all :: "('s1, 'p1, 's2, 'p2, 'kp, 'pk) dkg \<Rightarrow> (nat \<Rightarrow> rng) \<Rightarrow> DkgCeremonyId \<Rightarrow>
    (('s1, 'p1, 's2) FrostDkgNode list, dkg_fault, DkgRound1Response list \<times> (VerifierId \<times> 'p1 DkgRound1Package) list) action" where
  "respond_all D g cid = each_node (\<lambda>i (responses, acc). abind (part1 D (g i)) (\<lambda>pkg.
     abind (aget dn_verifier_id) (\<lambda>v. alift (Inr (responses @ [\<lparr> dr1_ceremony_id = arr16 (cid_bytes cid),
       dr1_participant_id = v, dr1_round1_package_bytes = round1_to_bytes D pkg \<rparr>], AList.update v pkg acc))))) 0 ([], [])"

definition build_dkg_network_messages :: "sha \<Rightarrow> ed25519 \<Rightarrow> ('kp, 'n, 'c, 's, 'sp, 'pk) frost \<Rightarrow>
    ('s1, 'p1, 's2, 'p2, 'kp, 'pk) dkg \<Rightarrow> box \<Rightarrow> DkgEncryptionPublicKey serde \<Rightarrow> EncryptedDkgRound2Package serde \<Rightarrow>
    hash_orders \<Rightarrow> (nat \<Rightarrow> rng) \<Rightarrow> (nat \<Rightarrow> nat \<Rightarrow> bytes24) \<Rightarrow> DkgCeremonyId \<Rightarrow>
    DkgEncryptionKeyPair list \<Rightarrow> SignedDkgKeyAnnouncement list \<Rightarrow> DkgParticipantRegistry \<Rightarrow>
    (('s1, 'p1, 's2) FrostDkgNode list, dkg_fault, DkgNetworkMessages) action" where
  "build_dkg_network_messages H ed F D X JK JE ho g nc cid keys anns reg = abind (aget id) (\<lambda>nodes.
     if length keys \<noteq> length nodes then alift (Inl (Fault (DkgProtocol (''enc_keys.len() ('' @
       dec_str (length keys) @ '') must equal nodes.len() ('' @ dec_str (length nodes) @ '')''))))
     else let participant_ids = map dn_verifier_id nodes in
       abind (alift (map_err (\<lambda>e. Fault (DkgKeyAnnouncement (crypto_error_display e)))
         (collect_verified_enc_keys H ed reg anns cid participant_ids))) (\<lambda>verified.
       abind (acollect (\<lambda>v. alift (case verified v of
           None \<Rightarrow> Inl DkgPanic
         | Some pk \<Rightarrow> map_err (\<lambda>e. Fault (DkgProtocol (''enc key serialize: '' @ e))) (serde_to JK pk))) participant_ids) (\<lambda>enc_pub_bytes.
       abind (alift (case nodes of [] \<Rightarrow> Inl DkgPanic | n # _ \<Rightarrow> Inr (dn_min_signers n))) (\<lambda>min_signers.
       abind (respond_all D g cid) (\<lambda>(responses, r1).
       abind (seal_all F D X ho nc cid ''no enc public key for ''
           (\<lambda>enc. map_err (\<lambda>e. DkgProtocol (''enc pkg serialize: '' @ e)) (serde_to JE enc)) verified keys r1) (\<lambda>routed.
       alift (Inr \<lparr> nm_announcement = \<lparr> dca_ceremony_id = arr16 (cid_bytes cid), dca_all_participant_ids = participant_ids,
           dca_min_signers = min_signers, dca_encryption_public_keys = enc_pub_bytes \<rparr>,
         nm_round1_responses = responses,
         nm_round2_deliveries = (\<lambda>v. if routed v = [] then None else Some \<lparr> dr2_ceremony_id = arr16 (cid_bytes cid),
           dr2_recipient_id = v, dr2_encrypted_packages = routed v \<rparr>) \<rparr>)))))))"

definition dkg_part3_from_delivery :: "('kp, 'n, 'c, 's, 'sp, 'pk) frost \<Rightarrow> ('s1, 'p1, 's2, 'p2, 'kp, 'pk) dkg \<Rightarrow> box \<Rightarrow>
    EncryptedDkgRound2Package serde \<Rightarrow> (VerifierId list \<Rightarrow> VerifierId list) \<Rightarrow> DkgEncryptionKeyPair \<Rightarrow> DkgRound2Delivery \<Rightarrow>
    (VerifierId \<rightharpoonup> DkgEncryptionPublicKey) \<Rightarrow> DkgCeremonyId \<Rightarrow>
    (('s1, 'p1, 's2) FrostDkgNode, dkg_fault, ('kp, 'n) FrostAuxiliaryNode \<times> 'pk FrostGroupKey) action" where
  "dkg_part3_from_delivery F D X JE ord key delivery pubs cid = abind (aget dn_verifier_id) (\<lambda>me.
     abind (alift (open_inbound D X cid ''no enc public key for sender ''
       (\<lambda>bytes. map_err (\<lambda>e. DkgProtocol (''encrypted package deserialize: '' @ e)) (serde_from JE bytes))
       pubs key me (dr2_encrypted_packages delivery) [])) (\<lambda>plain.
     part3 F D (in_order ord plain)))"

section \<open>Numbering\<close>

lemma position_nth:
  assumes "distinct xs" "i < length xs"
  shows "position (xs ! i) xs = Some i"
proof -
  have "takeWhile (\<lambda>x. x \<noteq> xs ! i) xs = take i xs"
    using assms by (intro takeWhile_eq_take_P_nth) (auto simp: nth_eq_iff_index_eq)
  then show ?thesis using assms by (simp add: position_def)
qed

lemma position_Some:
  assumes "position v xs = Some i"
  shows "i < length xs \<and> xs ! i = v"
proof -
  have v: "v \<in> set xs" and i: "i = length (takeWhile (\<lambda>x. x \<noteq> v) xs)" using assms by (auto simp: position_def split: if_splits)
  have "i < length xs" using v unfolding i by (induction xs) auto
  then show ?thesis using nth_length_takeWhile[of "\<lambda>x. x \<noteq> v" xs] i by auto
qed

lemma position_None [simp]: "position v xs = None \<longleftrightarrow> v \<notin> set xs"
  by (simp add: position_def)

lemma position_mem: "position v xs = Some i \<Longrightarrow> v \<in> set xs"
  by (simp add: position_def split: if_splits)

section \<open>Well-formed nodes\<close>

text \<open>What a constructed node is: the numbers of the ceremony are those of its list, and the identifier
  is that of its position.\<close>

definition dkg_node_wf :: "('kp, 'n, 'c, 's, 'sp, 'pk) frost \<Rightarrow> ('s1, 'p1, 's2) FrostDkgNode \<Rightarrow> bool" where
  "dkg_node_wf F n \<longleftrightarrow>
     distinct (dn_all_participant_ids n) \<and> dn_verifier_id n \<in> set (dn_all_participant_ids n) \<and>
     2 \<le> unat (dn_min_signers n) \<and> unat (dn_min_signers n) \<le> length (dn_all_participant_ids n) \<and>
     dn_max_signers n = of_nat (length (dn_all_participant_ids n)) \<and>
     vid_to_identifier F (dn_all_participant_ids n) (dn_verifier_id n) = Inr (dn_identifier n)"

lemma dkg_node_new_eq_Inr:
  "dkg_node_new F e v ids t = Inr n \<longleftrightarrow> dkg_node_wf F n \<and> dn_verifier_id n = v \<and> dn_all_participant_ids n = ids \<and>
     dn_min_signers n = t \<and> dn_state n = Initial"
proof -
  have t: "\<not> t < 2 \<longleftrightarrow> 2 \<le> unat t" by (simp add: word_less_nat_alt not_less)
  have d: "card (set ids) = length ids \<longleftrightarrow> distinct ids" using card_distinct distinct_card by blast
  have l: "2 \<le> length ids" if "2 \<le> unat t" "unat t \<le> length ids" using that by simp
  show ?thesis
    using t d l
    by (cases n) (auto simp: dkg_node_new_def Let_def dkg_node_wf_def vid_to_identifier_def ok_or_eq_Inr not_less
        dest: position_mem split: option.splits if_splits)
qed

definition same_participant :: "('s1, 'p1, 's2) FrostDkgNode \<Rightarrow> ('s1, 'p1, 's2) FrostDkgNode \<Rightarrow> bool" where
  "same_participant n n' \<longleftrightarrow> n' = n\<lparr> dn_state := dn_state n' \<rparr>"

lemma same_participant_refl [simp]: "same_participant n n"
  by (simp add: same_participant_def)

lemma same_participant_trans: "same_participant n n' \<Longrightarrow> same_participant n' n'' \<Longrightarrow> same_participant n n''"
  by (cases n; cases n'; cases n'') (simp add: same_participant_def)

lemma same_participant_wf: "same_participant n n' \<Longrightarrow> dkg_node_wf F n' = dkg_node_wf F n"
  by (cases n; cases n') (simp add: same_participant_def dkg_node_wf_def)

lemma part1_cases:
  assumes "part1 D g n = (r, n')"
  shows "same_participant n n' \<and> (case r of
      Inr p \<Rightarrow> dn_state n = Initial \<and> (\<exists>s. dn_state n' = AfterPart1 s)
    | Inl e \<Rightarrow> n' = n \<and> e \<noteq> DkgPanic)"
  using assms by (auto simp: part1_def same_participant_def split: DkgNodeState.splits sum.splits prod.splits)

lemma part2_cases:
  assumes "part2 F D es n = (r, n')"
  shows "same_participant n n' \<and> (case r of
      Inr p \<Rightarrow> (\<exists>s. dn_state n = AfterPart1 s) \<and> (\<exists>s m. dn_state n' = AfterPart2 s m)
    | Inl e \<Rightarrow> n' = n \<or> (\<exists>s. dn_state n = AfterPart1 s) \<and> dn_state n' = DkgFailed part2_poison)"
  using assms by (auto simp: part2_def same_participant_def Let_def split: DkgNodeState.splits sum.splits prod.splits)

lemma part3_cases:
  assumes "part3 F D es n = (r, n')"
  shows "same_participant n n' \<and> (case r of
      Inr p \<Rightarrow> (\<exists>s m. dn_state n = AfterPart2 s m) \<and> dn_state n' = DkgCompleted
    | Inl e \<Rightarrow> n' = n)"
  using assms by (auto simp: part3_def same_participant_def split: DkgNodeState.splits sum.splits prod.splits)

section \<open>Runs of a node\<close>

datatype dkg_part = One | Two | Three

text \<open>The calls of a run that succeed are logged, in any order of calls with any inputs.\<close>

inductive dkg_run :: "('kp, 'n, 'c, 's, 'sp, 'pk) frost \<Rightarrow> ('s1, 'p1, 's2, 'p2, 'kp, 'pk) dkg \<Rightarrow>
    ('s1, 'p1, 's2) FrostDkgNode \<Rightarrow> dkg_part list \<Rightarrow> ('s1, 'p1, 's2) FrostDkgNode \<Rightarrow> bool"
  for F :: "('kp, 'n, 'c, 's, 'sp, 'pk) frost" and D :: "('s1, 'p1, 's2, 'p2, 'kp, 'pk) dkg"
    and n0 :: "('s1, 'p1, 's2) FrostDkgNode" where
  Start: "dkg_run F D n0 [] n0"
| Part1: "dkg_run F D n0 log n \<Longrightarrow> part1 D g n = (r, n') \<Longrightarrow> dkg_run F D n0 (log @ (if is_ok r then [One] else [])) n'"
| Part2: "dkg_run F D n0 log n \<Longrightarrow> part2 F D es n = (r, n') \<Longrightarrow> dkg_run F D n0 (log @ (if is_ok r then [Two] else [])) n'"
| Part3: "dkg_run F D n0 log n \<Longrightarrow>
    (part3 F D es n :: (dkg_fault, ('kp, 'n) FrostAuxiliaryNode \<times> 'pk FrostGroupKey) result \<times> _) = (r, n') \<Longrightarrow>
    dkg_run F D n0 (log @ (if is_ok r then [Three] else [])) n'"

definition phase :: "dkg_part list \<Rightarrow> ('s1, 'p1, 's2) DkgNodeState \<Rightarrow> bool" where
  "phase log s \<longleftrightarrow> (case s of
     Initial \<Rightarrow> log = []
   | AfterPart1 _ \<Rightarrow> log = [One]
   | AfterPart2 _ _ \<Rightarrow> log = [One, Two]
   | DkgCompleted \<Rightarrow> log = [One, Two, Three]
   | DkgFailed reason \<Rightarrow> log = [One] \<and> reason = part2_poison)"

lemma dkg_run_phase:
  assumes "dkg_run F D n0 log n" "dn_state n0 = Initial"
  shows "same_participant n0 n \<and> phase log (dn_state n)"
  using assms
proof induction
  case Start
  then show ?case by (simp add: phase_def)
next
  case (Part1 log n g r n')
  then show ?case
    using part1_cases[OF Part1.hyps(2)] same_participant_trans by (cases r) (auto simp: phase_def)
next
  case (Part2 log n es r n')
  then show ?case
    using part2_cases[OF Part2.hyps(2)] same_participant_trans by (cases r) (auto simp: phase_def)
next
  case (Part3 log n es r n')
  then show ?case
    using part3_cases[OF Part3.hyps(2)] same_participant_trans by (cases r) (auto simp: phase_def)
qed

section \<open>Properties\<close>

text \<open>C17. The parts run in order and at most once each, whatever calls are made: the successful calls of a
  run of a new node are a prefix of parts 1, 2 and 3, the state says which, and a node in the failed state
  has run part 1 only and refuses every further call.  The identity of the node never changes.\<close>

theorem dkg_parts_in_order:
  assumes "dkg_node_new F e v ids t = Inr n0" "dkg_run F D n0 log n"
  shows "(\<exists>k \<le> 3. log = take k [One, Two, Three]) \<and> phase log (dn_state n) \<and>
    dkg_node_wf F n \<and> dn_verifier_id n = v \<and> dn_all_participant_ids n = ids \<and> dn_min_signers n = t \<and>
    (\<forall>reason. dn_state n = DkgFailed reason \<longrightarrow> (\<forall>log' n'. dkg_run F D n log' n' \<longrightarrow> log' = [] \<and> n' = n))"
proof -
  have new: "dn_state n0 = Initial" "dkg_node_wf F n0" "dn_verifier_id n0 = v" "dn_all_participant_ids n0 = ids"
    "dn_min_signers n0 = t" using assms(1) by (auto simp: dkg_node_new_eq_Inr)
  have run: "same_participant n0 n" "phase log (dn_state n)" using dkg_run_phase[OF assms(2) new(1)] by auto
  have "\<exists>k \<le> 3. log = take k [One, Two, Three]"
    using run(2) by (cases "dn_state n") (auto simp: phase_def intro: exI[of _ 0] exI[of _ 1] exI[of _ 2] exI[of _ 3])
  moreover have "log' = [] \<and> n' = n" if "dn_state n = DkgFailed reason" "dkg_run F D n log' n'" for reason log' n'
    using that(2,1) by induction (auto simp: part1_def part2_def part3_def)
  moreover have "dn_verifier_id n = v" "dn_all_participant_ids n = ids" "dn_min_signers n = t"
    using run(1) new(3-) by (cases n0; cases n; simp add: same_participant_def)+
  ultimately show ?thesis using run new(2) same_participant_wf[OF run(1)] by blast
qed

definition dkg_node_ex :: "nat \<Rightarrow> (bytes32 \<times> u16, unit, bytes32 \<times> u16) FrostDkgNode" where
  "dkg_node_ex i = \<lparr> dn_verifier_id = VerifierId (of_nat i), dn_identifier = of_nat i,
     dn_all_participant_ids = [VerifierId 1, VerifierId 2], dn_max_signers = 2, dn_min_signers = 2, dn_state = Initial \<rparr>"

lemma dkg_node_ex_new:
  "dkg_node_new frost_ex e (VerifierId 1) [VerifierId 1, VerifierId 2] 2 = Inr (dkg_node_ex 1)"
  "dkg_node_new frost_ex e (VerifierId 2) [VerifierId 1, VerifierId 2] 2 = Inr (dkg_node_ex 2)"
  by (simp_all add: dkg_node_new_def dkg_node_ex_def position_def frost_ex_def)

theorem dkg_parts_in_order_witness:
  "\<exists>n. dkg_run frost_ex dkg_ex (dkg_node_ex 1) [One] n \<and> phase [One] (dn_state n)"
proof -
  have "part1 dkg_ex (\<lambda>_. 0) (dkg_node_ex 1) = (Inr (DkgRound1Package ()),
      (dkg_node_ex 1)\<lparr> dn_state := AfterPart1 (DkgRound1State (1, 2)) \<rparr>)"
    by (simp add: part1_def dkg_node_ex_def dkg_part1_def dkg_ex_def)
  from dkg_run.Part1[OF dkg_run.Start this, of frost_ex]
  have "dkg_run frost_ex dkg_ex (dkg_node_ex 1) [One] ((dkg_node_ex 1)\<lparr> dn_state := AfterPart1 (DkgRound1State (1, 2)) \<rparr>)"
    by simp
  then show ?thesis using dkg_parts_in_order[OF dkg_node_ex_new(1)] by blast
qed

text \<open>C18. The numbering does not fit more than 65535 participants, and nothing refuses them: with more than 65536
  participants, those at positions 0 and 65536 are constructed with the same identifier, and the participant at
  position 65535 makes every lookup of its identifier panic.\<close>

theorem dkg_identifier_overflow:
  assumes "distinct ids" "65536 < length ids" "2 \<le> unat t" "ids_ok F"
  shows "(\<exists>(a :: ('s1, 'p1, 's2) FrostDkgNode) (b :: ('s1, 'p1, 's2) FrostDkgNode).
      dkg_node_new F e (ids ! 0) ids t = Inr a \<and> dkg_node_new F e (ids ! 65536) ids t = Inr b \<and>
      dn_verifier_id a \<noteq> dn_verifier_id b \<and> dn_identifier a = dn_identifier b) \<and>
    vid_to_identifier F ids (ids ! 65535) = Inl DkgPanic"
proof -
  have t: "unat t \<le> length ids" using unsigned_less[of t, where ?'a = nat] assms(2) by simp
  obtain x where x: "fr_id_try_from F 1 = Some x" using assms(4) unfolding ids_ok_def by fastforce
  have z: "fr_id_try_from F 65536 = None" using assms(4) by (simp add: ids_ok_def)
  have pos: "position (ids ! k) ids = Some k" if "k < length ids" for k by (rule position_nth[OF assms(1) that])
  have big: "(of_nat (Suc 65536) :: u16) = 1" "(of_nat (Suc 65535) :: u16) = 0"
    "(of_nat (Suc 0) :: u16) = 1" by simp_all
  let ?n = "\<lambda>v. \<lparr> dn_verifier_id = v, dn_identifier = x, dn_all_participant_ids = ids,
    dn_max_signers = of_nat (length ids), dn_min_signers = t, dn_state = Initial \<rparr> :: ('s1, 'p1, 's2) FrostDkgNode"
  have "dkg_node_new F e (ids ! k) ids t = Inr (?n (ids ! k))"
    if "k < length ids" "(of_nat (Suc k) :: u16) = 1" for k
    unfolding dkg_node_new_eq_Inr using that assms(1,3) t x
    by (simp add: dkg_node_wf_def vid_to_identifier_def pos del: of_nat_Suc)
  from this[of 0] this[of 65536] have
    "dkg_node_new F e (ids ! 0) ids t = Inr (?n (ids ! 0))" "dkg_node_new F e (ids ! 65536) ids t = Inr (?n (ids ! 65536))"
    using assms(2) big by (simp_all del: of_nat_Suc) force
  moreover have "ids ! 0 \<noteq> ids ! 65536" using assms(1,2) nth_eq_iff_index_eq[of ids 0 65536] by (cases ids) auto
  moreover have "vid_to_identifier F ids (ids ! 65535) = Inl DkgPanic"
    using assms(2) z by (simp add: vid_to_identifier_def pos del: of_nat_Suc)
  ultimately show ?thesis by fastforce
qed

theorem dkg_identifier_overflow_witness:
  "vid_to_identifier frost_ex (map (VerifierId \<circ> of_nat) [0..<65537]) (map (VerifierId \<circ> of_nat) [0..<65537] ! 65535) =
     Inl DkgPanic"
proof -
  have "inj_on (VerifierId \<circ> (of_nat :: nat \<Rightarrow> bytes32)) (set [0..<65537])"
    by (auto simp: inj_on_def word_of_nat_eq_iff take_bit_nat_eq_self)
  then have d: "distinct (map (VerifierId \<circ> (of_nat :: nat \<Rightarrow> bytes32)) [0..<65537])"
    by (simp only: distinct_map distinct_upt)
  show ?thesis
    by (rule conjunct2[OF dkg_identifier_overflow[OF d _ _ ids_ex_ok, of 2 "[]"]]) (simp_all only: length_map length_upt, simp_all)
qed

end
