(* ===== verification/Dkg_Ceremony.thy ===== *)
theory Dkg_Ceremony
  imports Dkg_Node
begin

text \<open>
  Correctness of the key generation ceremonies: a ceremony of honest participants succeeds with one
  consistent group key, and the encrypted ceremony has the results of the plain one.
\<close>

section \<open>Identifiers of the participants\<close>

definition numbered :: "('kp, 'n, 'c, 's, 'sp, 'pk) frost \<Rightarrow> VerifierId list \<Rightarrow> bool" where
  "numbered F ids \<longleftrightarrow> ids_ok F \<and> distinct ids \<and> length ids < 2 ^ 16"

definition idf :: "('kp, 'n, 'c, 's, 'sp, 'pk) frost \<Rightarrow> VerifierId list \<Rightarrow> VerifierId \<Rightarrow> FrostIdentifier" where
  "idf F ids v = the (fr_id_try_from F (of_nat (Suc (the (position v ids)))))"

lemma idf_nth:
  assumes "numbered F ids" "k < length ids"
  shows "fr_id_try_from F (of_nat (Suc k)) = Some (idf F ids (ids ! k))"
proof -
  have "Suc k < 2 ^ 16" using assms by (simp add: numbered_def)
  then obtain x where "fr_id_try_from F (of_nat (Suc k)) = Some x"
    using assms(1) ids_ok_Suc unfolding numbered_def by blast
  then show ?thesis using assms by (simp add: idf_def position_nth numbered_def del: of_nat_Suc)
qed

lemma vid_to_identifier_idf:
  assumes "numbered F ids" "v \<in> set ids"
  shows "vid_to_identifier F ids v = Inr (idf F ids v)"
proof -
  obtain k where "k < length ids" "v = ids ! k" using assms(2) by (auto simp: in_set_conv_nth)
  then show ?thesis
    using assms idf_nth[OF assms(1)] by (simp add: vid_to_identifier_def position_nth numbered_def del: of_nat_Suc)
qed

lemma idf_inj:
  assumes "numbered F ids"
  shows "inj_on (idf F ids) (set ids)"
proof (rule inj_onI)
  fix v w assume "v \<in> set ids" "w \<in> set ids" and eq: "idf F ids v = idf F ids w"
  then obtain j k where jk: "j < length ids" "v = ids ! j" "k < length ids" "w = ids ! k" by (auto simp: in_set_conv_nth)
  have "j = k"
  proof (rule ids_ok_inject)
    show "ids_ok F" "Suc j < 2 ^ 16" "Suc k < 2 ^ 16" using assms jk by (auto simp: numbered_def)
    show "fr_id_try_from F (of_nat (Suc j)) = Some (idf F ids v)"
      "fr_id_try_from F (of_nat (Suc k)) = Some (idf F ids v)"
      using idf_nth[OF assms] jk eq by auto
  qed
  then show "v = w" using jk by simp
qed

lemma identifier_to_vid_idf:
  assumes "numbered F ids" "v \<in> set ids"
  shows "identifier_to_vid F 0 ids (idf F ids v) = Inr (Some v)"
proof -
  have "identifier_to_vid F pos (drop pos ids) (idf F ids v) = Inr (Some v)"
    if "pos \<le> length ids" "v \<in> set (drop pos ids)" for pos
    using that
  proof (induction "length ids - pos" arbitrary: pos)
    case 0
    then show ?case by simp
  next
    case (Suc d)
    then have lt: "pos < length ids" by simp
    then have dr: "drop pos ids = ids ! pos # drop (Suc pos) ids" by (simp add: Cons_nth_drop_Suc)
    show ?case
    proof (cases "ids ! pos = v")
      case True
      then show ?thesis using idf_nth[OF assms(1) lt] by (simp add: dr)
    next
      case False
      then have "idf F ids (ids ! pos) \<noteq> idf F ids v"
        using idf_inj[OF assms(1)] lt assms(2) by (metis inj_on_def nth_mem)
      then show ?thesis using Suc False dr lt idf_nth[OF assms(1) lt] by simp
    qed
  qed
  from this[of 0] show ?thesis using assms(2) by simp
qed

lemma assign_identifiers_idf:
  assumes "numbered F ids"
  shows "assign_identifiers F e 0 ids [] = Inr (map (\<lambda>v. (v, idf F ids v)) ids)"
proof -
  obtain js where js: "length js = length ids" "\<forall>k < length ids. fr_id_try_from F (of_nat (Suc (0 + k))) = Some (js ! k)"
      "assign_identifiers F e 0 ids [] = Inr ([] @ zip ids js)"
    using assign_identifiers_ok[of F 0 ids "[]" e] assms unfolding numbered_def by auto
  have "zip ids js = map (\<lambda>v. (v, idf F ids v)) ids"
    using js(1,2) idf_nth[OF assms] by (intro nth_equalityI) auto
  then show ?thesis using js(3) by simp
qed

section \<open>Translations of maps\<close>

text \<open>Translated entries: the map has the value of \<open>v\<close> at the identifier of \<open>v\<close>.\<close>

definition at_idf :: "('kp, 'n, 'c, 's, 'sp, 'pk) frost \<Rightarrow> VerifierId list \<Rightarrow> (VerifierId \<rightharpoonup> 'p) \<Rightarrow> FrostIdentifier \<rightharpoonup> 'p" where
  "at_idf F ids m = (\<lambda>i. if i \<in> idf F ids ` set ids then m (the_inv_into (set ids) (idf F ids) i) else None)"

lemma at_idf_idf: "numbered F ids \<Longrightarrow> v \<in> set ids \<Longrightarrow> at_idf F ids m (idf F ids v) = m v"
  by (simp add: at_idf_def idf_inj the_inv_into_f_f)

lemma at_idf_eqI:
  assumes "numbered F ids" "\<And>v. v \<in> set ids \<Longrightarrow> f (idf F ids v) = m v" "\<And>i. i \<notin> idf F ids ` set ids \<Longrightarrow> f i = None"
  shows "f = at_idf F ids m"
proof
  fix i
  show "f i = at_idf F ids m i"
    using assms(2,3) at_idf_idf[OF assms(1), of _ m] by (cases "i \<in> idf F ids ` set ids") (auto simp: at_idf_def)
qed

lemma to_identifiers_eq:
  assumes "numbered F ids" "fst ` set es \<subseteq> set ids" "distinct (map fst es)" "fst ` set es \<inter> dom m = {}"
  shows "to_identifiers F ids es (at_idf F ids m) = Inr (at_idf F ids (m ++ map_of es))"
  using assms(2-)
proof (induction es arbitrary: m)
  case (Cons e es)
  obtain v p where e: "e = (v, p)" by fastforce
  have v: "v \<in> set ids" using Cons.prems e by simp
  have "(at_idf F ids m)(idf F ids v \<mapsto> p) = at_idf F ids (m(v \<mapsto> p))"
  proof (rule at_idf_eqI[OF assms(1)])
    fix w assume "w \<in> set ids"
    then show "((at_idf F ids m)(idf F ids v \<mapsto> p)) (idf F ids w) = (m(v \<mapsto> p)) w"
      using at_idf_idf[OF assms(1), of w m] idf_inj[OF assms(1)] v by (auto simp: inj_on_def)
  qed (use v in \<open>auto simp: at_idf_def\<close>)
  then have step: "to_identifiers F ids (e # es) (at_idf F ids m) = to_identifiers F ids es (at_idf F ids (m(v \<mapsto> p)))"
    using vid_to_identifier_idf[OF assms(1) v] by (simp add: e)
  have "v \<notin> dom (map_of es)" using Cons.prems(2) e by (simp add: dom_map_of_conv_image_fst)
  then have "m(v \<mapsto> p) ++ map_of es = m ++ map_of (e # es)" by (simp add: map_add_upd_left e)
  moreover have "to_identifiers F ids es (at_idf F ids (m(v \<mapsto> p))) = Inr (at_idf F ids (m(v \<mapsto> p) ++ map_of es))"
    by (rule Cons.IH) (use Cons.prems e in \<open>simp_all del: fun_upd_apply\<close>)
  ultimately show ?case unfolding step by (simp only:)
qed simp

lemma to_identifiers_map_of:
  assumes "numbered F ids" "fst ` set es \<subseteq> set ids" "distinct (map fst es)"
  shows "to_identifiers F ids es Map.empty = Inr (at_idf F ids (map_of es))"
proof -
  have "at_idf F ids Map.empty = (Map.empty :: _ \<rightharpoonup> 'g)" by (rule ext) (simp add: at_idf_def)
  then show ?thesis using to_identifiers_eq[OF assms, of Map.empty] by simp
qed

lemma update_fresh: "k \<notin> fst ` set m \<Longrightarrow> AList.update k v m = m @ [(k, v)]"
  by (induction m) auto

lemma to_verifiers_eq:
  assumes "numbered F ids" "fst ` set out \<subseteq> idf F ids ` set ids" "distinct (map fst out)"
    and "\<forall>v \<in> fst ` set m. v \<in> set ids \<and> idf F ids v \<notin> fst ` set out"
  shows "\<exists>vs. map (idf F ids) vs = map fst out \<and> set vs \<subseteq> set ids \<and>
    to_verifiers F ids out m = Inr (m @ zip vs (map snd out))"
  using assms(2-)
proof (induction out arbitrary: m)
  case (Cons e out)
  obtain i p where e: "e = (i, p)" by fastforce
  obtain v where v: "v \<in> set ids" "i = idf F ids v" using Cons.prems(1) e by auto
  have fresh: "v \<notin> fst ` set m" using Cons.prems(3) e v by auto
  have "\<forall>w \<in> fst ` set (m @ [(v, p)]). w \<in> set ids \<and> idf F ids w \<notin> fst ` set out"
    using Cons.prems(2,3) e v by auto
  then obtain vs where vs: "map (idf F ids) vs = map fst out" "set vs \<subseteq> set ids"
      "to_verifiers F ids out (m @ [(v, p)]) = Inr ((m @ [(v, p)]) @ zip vs (map snd out))"
    using Cons.IH[of "m @ [(v, p)]"] Cons.prems by auto
  then show ?case
    using identifier_to_vid_idf[OF assms(1) v(1)] update_fresh[OF fresh] v e by (intro exI[of _ "v # vs"]) simp
qed simp

lemma to_verifiers_map_of:
  assumes "numbered F ids" "fst ` set out \<subseteq> idf F ids ` set ids" "distinct (map fst out)"
  obtains es where "to_verifiers F ids out [] = Inr es" "distinct (map fst es)" "idf F ids ` fst ` set es = fst ` set out"
    "\<And>v. v \<in> set ids \<Longrightarrow> map_of es v = map_of out (idf F ids v)" "fst ` set es \<subseteq> set ids"
proof -
  obtain vs where vs: "map (idf F ids) vs = map fst out" "set vs \<subseteq> set ids"
      and r: "to_verifiers F ids out [] = Inr (zip vs (map snd out))"
    using to_verifiers_eq[OF assms, of "[]"] by auto
  have len: "length vs = length out" using vs(1) by (metis length_map)
  have d: "distinct vs" using vs(1) assms(3) by (metis distinct_map)
  have keys: "map fst (zip vs (map snd out)) = vs" using len by simp
  have img: "idf F ids ` set vs = fst ` set out" using arg_cong[OF vs(1), of set] by simp
  have out: "out = zip (map (idf F ids) vs) (map snd out)" using vs(1) by (simp add: zip_map_fst_snd)
  have m: "map_of (zip vs ps) v = map_of (zip (map (idf F ids) vs) ps) (idf F ids v)"
    if "v \<in> set ids" "length vs = length ps" "set vs \<subseteq> set ids" for v vs and ps :: "'g list"
    using that(2,3)
  proof (induction vs ps rule: list_induct2)
    case (Cons x xs y ys)
    then show ?case using idf_inj[OF assms(1)] that(1) by (auto simp: inj_on_def)
  qed simp
  show thesis
  proof (rule that[OF r])
    show "distinct (map fst (zip vs (map snd out)))" using d keys by simp
    show "idf F ids ` fst ` set (zip vs (map snd out)) = fst ` set out"
      using img keys by (metis set_map)
    show "map_of (zip vs (map snd out)) v = map_of out (idf F ids v)" if "v \<in> set ids" for v
      using m[OF that _ vs(2), of "map snd out"] len out by simp
    show "fst ` set (zip vs (map snd out)) \<subseteq> set ids" using vs(2) keys by (metis set_map)
  qed
qed

section \<open>Iteration\<close>

definition orders_ok :: "hash_orders \<Rightarrow> bool" where
  "orders_ok ho \<longleftrightarrow> (\<forall>i ks. mset (ho_broadcasts ho i ks) = mset ks \<and> mset (ho_outbound ho i ks) = mset ks \<and>
     mset (ho_inbound ho i ks) = mset ks)"

lemma in_order_simps:
  assumes "mset (ord (map fst m)) = mset (map fst m)" "distinct (map fst m)"
  shows "map_of (in_order ord m) = map_of m" "distinct (map fst (in_order ord m))"
    "fst ` set (in_order ord m) = fst ` set m"
proof -
  have keys: "map fst (in_order ord m) = ord (map fst m)" by (simp add: in_order_def comp_def)
  have sets: "set (ord (map fst m)) = fst ` set m" using mset_eq_setD[OF assms(1)] by simp
  show d: "distinct (map fst (in_order ord m))" using assms keys by (metis mset_eq_imp_distinct_iff)
  show img: "fst ` set (in_order ord m) = fst ` set m" using sets by (simp add: in_order_def image_image)
  show "map_of (in_order ord m) = map_of m"
  proof
    fix k
    show "map_of (in_order ord m) k = map_of m k"
    proof (cases "k \<in> fst ` set m")
      case True
      then obtain v where v: "map_of m k = Some v" by (metis not_None_eq map_of_eq_None_iff)
      then have "(k, v) \<in> set (in_order ord m)" using True sets by (force simp: in_order_def)
      then show ?thesis using v d by simp
    next
      case False
      then show ?thesis using img by (metis map_of_eq_None_iff)
    qed
  qed
qed

lemma each_node_steps:
  assumes "\<And>k. k < length ns \<Longrightarrow> f (i + k) (A k) (ns ! k) = (Inr (A (Suc k)), n' k)"
  shows "each_node f i (A 0) ns = (Inr (A (length ns)), map n' [0..<length ns])"
  using assms
proof (induction ns arbitrary: i A n')
  case (Cons n ns)
  have "f (Suc i + k) (A (Suc k)) (ns ! k) = (Inr (A (Suc (Suc k))), n' (Suc k))" if "k < length ns" for k
    using Cons.prems[of "Suc k"] that by simp
  then have rest: "each_node f (Suc i) (A (Suc 0)) ns = (Inr (A (Suc (length ns))), map (n' \<circ> Suc) [0..<length ns])"
    using Cons.IH[of "Suc i" "A \<circ> Suc" "n' \<circ> Suc"] by simp
  have "[0..<length (n # ns)] = 0 # map Suc [0..<length ns]" by (simp add: upt_conv_Cons map_Suc_upt del: upt_Suc)
  then show ?case using Cons.prems[of 0] rest by simp
qed simp

lemma fold_route:
  assumes "distinct (map fst es)"
  shows "fold (\<lambda>(v, p) m. m(v := h p (m v))) es m = (\<lambda>v. case map_of es v of None \<Rightarrow> m v | Some p \<Rightarrow> h p (m v))"
  using assms
proof (induction es arbitrary: m)
  case (Cons e es)
  obtain v p where e: "e = (v, p)" by fastforce
  then have "map_of es v = None" using Cons.prems by (simp add: map_of_eq_None_iff)
  then show ?case using Cons e by (auto simp: fun_eq_iff)
qed simp

section \<open>Honest nodes\<close>

definition dkg_node_at :: "('kp, 'n, 'c, 's, 'sp, 'pk) frost \<Rightarrow> VerifierId list \<Rightarrow> u16 \<Rightarrow> VerifierId \<Rightarrow> ('s1, 'p1, 's2) DkgNodeState \<Rightarrow>
    ('s1, 'p1, 's2) FrostDkgNode" where
  "dkg_node_at F ids t v s = \<lparr> dn_verifier_id = v, dn_identifier = idf F ids v, dn_all_participant_ids = ids,
     dn_max_signers = of_nat (length ids), dn_min_signers = t, dn_state = s \<rparr>"

lemma dkg_node_at_simps [simp]:
  "dn_verifier_id (dkg_node_at F ids t v s) = v" "dn_identifier (dkg_node_at F ids t v s) = idf F ids v"
  "dn_all_participant_ids (dkg_node_at F ids t v s) = ids" "dn_max_signers (dkg_node_at F ids t v s) = of_nat (length ids)"
  "dn_min_signers (dkg_node_at F ids t v s) = t" "dn_state (dkg_node_at F ids t v s) = s"
  "(dkg_node_at F ids t v s)\<lparr> dn_state := s' \<rparr> = dkg_node_at F ids t v s'"
  by (simp_all add: dkg_node_at_def)

lemma new_node_at:
  assumes "numbered F ids" "dkg_node_new F e v ids t = Inr n"
  shows "n = dkg_node_at F ids t v Initial \<and> v \<in> set ids \<and> 2 \<le> unat t \<and> unat t \<le> length ids"
  using assms(2) vid_to_identifier_idf[OF assms(1), of v]
  by (cases n) (auto simp: dkg_node_new_eq_Inr dkg_node_wf_def dkg_node_at_def)

text \<open>The packages of an honest run, by participant.\<close>

definition first_packages :: "('kp, 'n, 'c, 's, 'sp, 'pk) frost \<Rightarrow> VerifierId list \<Rightarrow> (FrostIdentifier \<Rightarrow> 'p1) \<Rightarrow> VerifierId \<Rightarrow>
    VerifierId \<rightharpoonup> 'p1 DkgRound1Package" where
  "first_packages F ids p1 v = (\<lambda>w. if w \<in> set ids \<and> w \<noteq> v then Some (DkgRound1Package (p1 (idf F ids w))) else None)"

definition second_packages :: "('kp, 'n, 'c, 's, 'sp, 'pk) frost \<Rightarrow> VerifierId list \<Rightarrow> (FrostIdentifier \<Rightarrow> (FrostIdentifier \<times> 'p2) list) \<Rightarrow>
    VerifierId \<Rightarrow> VerifierId \<rightharpoonup> 'p2 DkgRound2Package" where
  "second_packages F ids out v = (\<lambda>w. if w \<in> set ids \<and> w \<noteq> v
     then map_option DkgRound2Package (map_of (out (idf F ids w)) (idf F ids v)) else None)"

lemma others_at_idf:
  assumes "numbered F ids" "v \<in> set ids"
  shows "others (idf F ids ` set ids) (idf F ids v) f = at_idf F ids (\<lambda>w. if w \<in> set ids \<and> w \<noteq> v then f (idf F ids w) else None)"
  using assms idf_inj[OF assms(1)] by (intro at_idf_eqI) (auto simp: others_def inj_on_def)

lemma map_option_at_idf: "map_option h \<circ> at_idf F ids m = at_idf F ids (map_option h \<circ> m)"
  by (rule ext) (simp add: at_idf_def)

lemma first_packages_others:
  assumes "numbered F ids" "v \<in> set ids"
  shows "map_option r1_package \<circ> at_idf F ids (first_packages F ids p1 v) = others (idf F ids ` set ids) (idf F ids v) (Some \<circ> p1)"
  unfolding others_at_idf[OF assms] map_option_at_idf
  by (rule arg_cong[where f = "at_idf F ids"]) (auto simp: first_packages_def fun_eq_iff)

lemma second_packages_others:
  assumes "numbered F ids" "v \<in> set ids"
  shows "map_option r2_package \<circ> at_idf F ids (second_packages F ids out v) =
    others (idf F ids ` set ids) (idf F ids v) (\<lambda>j. map_of (out j) (idf F ids v))"
  unfolding others_at_idf[OF assms] map_option_at_idf
  by (rule arg_cong[where f = "at_idf F ids"])
    (auto simp: second_packages_def fun_eq_iff option.map_comp comp_def option.map_ident)

lemma part1_honest:
  assumes "honest_run F D (idf F ids ` set ids) t g s1 p1 s2 out kp pk" "numbered F ids" "v \<in> set ids"
  shows "part1 D (g (idf F ids v)) (dkg_node_at F ids t v Initial) =
    (Inr (DkgRound1Package (p1 (idf F ids v))), dkg_node_at F ids t v (AfterPart1 (DkgRound1State (s1 (idf F ids v)))))"
proof -
  have "card (idf F ids ` set ids) = length ids"
    using assms(2) card_image[OF idf_inj[OF assms(2)]] by (simp add: numbered_def distinct_card)
  then have "dk_part1 D (idf F ids v) (of_nat (length ids)) t (g (idf F ids v)) = Inr (s1 (idf F ids v), p1 (idf F ids v))"
    using assms(1,3) by (auto simp: honest_run_def)
  then show ?thesis by (simp add: part1_def dkg_part1_def)
qed

lemma part2_honest:
  assumes "honest_run F D (idf F ids ` set ids) t g s1 p1 s2 out kp pk" "numbered F ids" "v \<in> set ids"
    and "map_of es = first_packages F ids p1 v" "distinct (map fst es)"
  obtains ps where "part2 F D es (dkg_node_at F ids t v (AfterPart1 (DkgRound1State (s1 (idf F ids v))))) =
      (Inr ps, dkg_node_at F ids t v (AfterPart2 (DkgRound2State (s2 (idf F ids v))) (at_idf F ids (first_packages F ids p1 v))))"
    "distinct (map fst ps)" "fst ` set ps = set ids - {v}"
    "\<And>w. w \<in> set ids \<Longrightarrow> map_of ps w = map_option DkgRound2Package (map_of (out (idf F ids v)) (idf F ids w))"
proof -
  let ?i = "idf F ids v"
  let ?out = "map (\<lambda>(i, p). (i, DkgRound2Package p)) (out ?i)"
  have h: "dk_part2 D (s1 ?i) (others (idf F ids ` set ids) ?i (Some \<circ> p1)) = Inr (s2 ?i, out ?i)"
    "distinct (map fst (out ?i))" "fst ` set (out ?i) = idf F ids ` set ids - {?i}"
    using assms(1,3) by (auto simp: honest_run_def)
  have "fst ` set es = dom (first_packages F ids p1 v)" by (simp add: dom_map_of_conv_image_fst flip: assms(4))
  then have "fst ` set es \<subseteq> set ids" by (auto simp: first_packages_def split: if_splits)
  note r1 = to_identifiers_map_of[OF assms(2) this assms(5), unfolded assms(4)]
  have p2: "dkg_part2 D (DkgRound1State (s1 ?i)) (at_idf F ids (first_packages F ids p1 v)) = Inr (DkgRound2State (s2 ?i), ?out)"
    by (simp add: dkg_part2_def first_packages_others[OF assms(2,3)] h)
  have k: "map fst ?out = map fst (out ?i)" "fst ` set ?out = fst ` set (out ?i)"
    by (simp_all add: comp_def split_def image_image)
  have sub: "fst ` set ?out \<subseteq> idf F ids ` set ids" unfolding k(2) h(3) by blast
  have d: "distinct (map fst ?out)" unfolding k(1) by (rule h(2))
  have mo: "map_of ?out = map_option DkgRound2Package \<circ> map_of (out ?i)" by (simp add: map_of_map)
  obtain ps where ps: "to_verifiers F ids ?out [] = Inr ps" "distinct (map fst ps)" "idf F ids ` fst ` set ps = fst ` set ?out"
      "\<And>w. w \<in> set ids \<Longrightarrow> map_of ps w = map_of ?out (idf F ids w)" "fst ` set ps \<subseteq> set ids"
    using to_verifiers_map_of[OF assms(2) sub d] by blast
  have inj: "inj_on (idf F ids) (set ids)" by (rule idf_inj[OF assms(2)])
  have "idf F ids ` (set ids - {v}) = idf F ids ` set ids - {?i}"
    using inj_on_image_set_diff[OF inj, of "set ids" "{v}"] assms(3) by simp
  then have "idf F ids ` fst ` set ps = idf F ids ` (set ids - {v})" using ps(3) k(2) h(3) by simp
  then have "fst ` set ps = set ids - {v}" using inj_on_image_eq_iff[OF inj ps(5), of "set ids - {v}"] by blast
  then show thesis
    using that[of ps] ps mo r1 p2 by (simp add: part2_def Let_def)
qed

lemma part3_honest:
  assumes "honest_run F D (idf F ids ` set ids) t g s1 p1 s2 out kp pk" "numbered F ids" "v \<in> set ids"
    and "map_of es = second_packages F ids out v" "distinct (map fst es)"
  shows "part3 F D es (dkg_node_at F ids t v (AfterPart2 (DkgRound2State (s2 (idf F ids v)))
      (at_idf F ids (first_packages F ids p1 v)))) =
    (Inr (frost_aux_new \<lparr> fp_key_package = kp (idf F ids v), fp_identifier = idf F ids v, fp_verifier_id = v \<rparr>,
      \<lparr> gk_pub_key_package = pk, gk_verifier_to_id = map (\<lambda>v. (v, idf F ids v)) ids \<rparr>), dkg_node_at F ids t v DkgCompleted)"
proof -
  have "fst ` set es = dom (second_packages F ids out v)" by (simp add: dom_map_of_conv_image_fst flip: assms(4))
  then have "fst ` set es \<subseteq> set ids" by (auto simp: second_packages_def split: if_splits)
  note r2 = to_identifiers_map_of[OF assms(2) this assms(5), unfolded assms(4)]
  have "dk_part3 D (s2 (idf F ids v)) (others (idf F ids ` set ids) (idf F ids v) (Some \<circ> p1))
      (others (idf F ids ` set ids) (idf F ids v) (\<lambda>j. map_of (out j) (idf F ids v))) = Inr (kp (idf F ids v), pk)"
    using assms(1,3) by (auto simp: honest_run_def)
  then show ?thesis
    by (simp add: part3_def r2 dkg_part3_def first_packages_others[OF assms(2,3)] second_packages_others[OF assms(2,3)]
        assign_identifiers_idf[OF assms(2)])
qed

section \<open>The phases of an honest ceremony\<close>

lemma map_nth_upt: "map (\<lambda>k. f (vs ! k)) [0..<length vs] = map f vs"
  by (simp add: map_nth flip: map_map[of f "(!) vs", unfolded comp_def])

lemma nth_notin_take: "distinct vs \<Longrightarrow> k < length vs \<Longrightarrow> vs ! k \<notin> set (take k vs)"
  by (auto simp: in_set_conv_nth nth_eq_iff_index_eq)

lemma map_of_others:
  "map_of (filter (\<lambda>(w, _). w \<noteq> v) (map (\<lambda>v. (v, h v)) vs)) = (\<lambda>w. if w \<in> set vs \<and> w \<noteq> v then Some (h w) else None)"
  by (induction vs) (auto simp: fun_eq_iff)

lemma map_of_keyed:
  "map_of (map (\<lambda>u. (u, h u)) (filter (\<lambda>u. u \<noteq> v) vs)) w = (if w \<in> set vs \<and> w \<noteq> v then Some (h w) else None)"
  by (induction vs) auto

lemma broadcast_honest:
  assumes "honest_run F D (idf F ids ` set ids) t gi s1 p1 s2 out kp pk" "numbered F ids"
    and "distinct vs" "set vs = set ids" "\<And>k. k < length vs \<Longrightarrow> gi (idf F ids (vs ! k)) = g k"
  shows "broadcast_all D g (map (\<lambda>v. dkg_node_at F ids t v Initial) vs) =
    (Inr (map (\<lambda>v. (v, DkgRound1Package (p1 (idf F ids v)))) vs),
     map (\<lambda>v. dkg_node_at F ids t v (AfterPart1 (DkgRound1State (s1 (idf F ids v))))) vs)"
proof -
  let ?A = "\<lambda>k. map (\<lambda>v. (v, DkgRound1Package (p1 (idf F ids v)))) (take k vs)"
  let ?n = "\<lambda>k. dkg_node_at F ids t (vs ! k) (AfterPart1 (DkgRound1State (s1 (idf F ids (vs ! k)))))"
  let ?ns = "map (\<lambda>v. dkg_node_at F ids t v Initial) vs"
  let ?f = "\<lambda>i acc. abind (part1 D (g i)) (\<lambda>pkg. abind (aget dn_verifier_id) (\<lambda>v. alift (Inr (AList.update v pkg acc))))"
  have "?f (0 + k) (?A k) (?ns ! k) = (Inr (?A (Suc k)), ?n k)" if "k < length ?ns" for k
  proof -
    have k: "k < length vs" using that by simp
    have "vs ! k \<notin> set (take k vs)" by (rule nth_notin_take[OF assms(3) k])
    then have "AList.update (vs ! k) x (?A k) = ?A k @ [(vs ! k, x)]" for x by (intro update_fresh) (simp add: image_image)
    then show ?thesis
      using part1_honest[OF assms(1,2), of "vs ! k"] assms(4,5) k nth_mem[OF k]
      by (simp add: abind_def aget_def alift_def take_Suc_conv_app_nth)
  qed
  from each_node_steps[of ?ns ?f 0 ?A ?n, OF this] show ?thesis
    unfolding broadcast_all_def
    using map_nth_upt[of "\<lambda>v. dkg_node_at F ids t v (AfterPart1 (DkgRound1State (s1 (idf F ids v))))" vs]
    by (simp add: take_map)
qed

definition routed_package :: "('kp, 'n, 'c, 's, 'sp, 'pk) frost \<Rightarrow> VerifierId list \<Rightarrow> (FrostIdentifier \<Rightarrow> (FrostIdentifier \<times> 'p2) list) \<Rightarrow>
    VerifierId \<Rightarrow> VerifierId \<Rightarrow> 'p2 DkgRound2Package" where
  "routed_package F ids out v w = DkgRound2Package (the (map_of (out (idf F ids v)) (idf F ids w)))"

lemma routed_package_sent:
  assumes "honest_run F D (idf F ids ` set ids) t gi s1 p1 s2 out kp pk" "numbered F ids"
    and "v \<in> set ids" "w \<in> set ids" "v \<noteq> w"
  shows "map_option DkgRound2Package (map_of (out (idf F ids v)) (idf F ids w)) = Some (routed_package F ids out v w)"
proof -
  have "idf F ids w \<in> fst ` set (out (idf F ids v))"
    using assms idf_inj[OF assms(2)] by (auto simp: honest_run_def inj_on_def)
  then obtain p where "map_of (out (idf F ids v)) (idf F ids w) = Some p" by (metis not_None_eq map_of_eq_None_iff)
  then show ?thesis by (simp add: routed_package_def)
qed

lemma unicast_honest:
  fixes D :: "('s1, 'p1, 's2, 'p2, 'kp, 'pk) dkg"
  assumes hr: "honest_run F D (idf F ids ` set ids) t gi s1 p1 s2 out kp pk" and num: "numbered F ids"
    and vs: "distinct vs" "set vs = set ids" and ho: "orders_ok ho"
  shows "unicast_all F D ho (map (\<lambda>v. (v, DkgRound1Package (p1 (idf F ids v)))) vs)
      (map (\<lambda>v. dkg_node_at F ids t v (AfterPart1 (DkgRound1State (s1 (idf F ids v))))) vs) =
    (Inr (\<lambda>w. if w \<in> set ids then map (\<lambda>v. (v, routed_package F ids out v w)) (filter (\<lambda>v. v \<noteq> w) vs) else []),
     map (\<lambda>v. dkg_node_at F ids t v (AfterPart2 (DkgRound2State (s2 (idf F ids v))) (at_idf F ids (first_packages F ids p1 v)))) vs)"
proof -
  let ?r1 = "map (\<lambda>v. (v, DkgRound1Package (p1 (idf F ids v)))) vs"
  let ?A = "\<lambda>k w. if w \<in> set ids then map (\<lambda>v. (v, routed_package F ids out v w)) (filter (\<lambda>v. v \<noteq> w) (take k vs)) else []"
  let ?st = "\<lambda>v. dkg_node_at F ids t v (AfterPart2 (DkgRound2State (s2 (idf F ids v))) (at_idf F ids (first_packages F ids p1 v)))"
  let ?n = "\<lambda>k. ?st (vs ! k)"
  let ?ns = "map (\<lambda>v. dkg_node_at F ids t v (AfterPart1 (DkgRound1State (s1 (idf F ids v))))) vs :: ('s1, 'p1, 's2) FrostDkgNode list"
  let ?f = "\<lambda>i acc. abind (aget dn_verifier_id) (\<lambda>me. abind (part2 F D (from_others ho i me ?r1)) (\<lambda>outbound.
     alift (Inr (fold (\<lambda>(v, pkg) m. m(v := AList.update me pkg (m v))) (in_order (ho_outbound ho i) outbound) acc))))"
  have "?f (0 + k) (?A k) (?ns ! k) = (Inr (?A (Suc k)), ?n k)" if "k < length ?ns" for k
  proof -
    have k: "k < length vs" using that by simp
    let ?v = "vs ! k"
    have v: "?v \<in> set ids" using k vs(2) nth_mem by blast
    let ?others = "filter (\<lambda>(w, _). w \<noteq> ?v) ?r1"
    have "distinct (map fst ?others)" using vs(1) by (simp add: distinct_map_filter comp_def)
    note o = in_order_simps[of "ho_broadcasts ho k" ?others, OF _ this]
    have "map_of (from_others ho k ?v ?r1) = first_packages F ids p1 ?v" "distinct (map fst (from_others ho k ?v ?r1))"
      using o ho vs(2) unfolding from_others_def orders_ok_def map_of_others by (simp_all add: first_packages_def)
    note fo = this
    have nk: "?ns ! k = dkg_node_at F ids t ?v (AfterPart1 (DkgRound1State (s1 (idf F ids ?v))))" using k by simp
    obtain ps where p2: "part2 F D (from_others ho k ?v ?r1) (?ns ! k) = (Inr ps, ?n k)"
      and ps: "distinct (map fst ps)" "fst ` set ps = set ids - {?v}"
        "\<And>w. w \<in> set ids \<Longrightarrow> map_of ps w = map_option DkgRound2Package (map_of (out (idf F ids ?v)) (idf F ids w))"
      unfolding nk by (rule part2_honest[OF hr num v fo]) blast
    have mo: "map_of ps w = (if w \<in> set ids \<and> w \<noteq> ?v then Some (routed_package F ids out ?v w) else None)" for w
      using routed_package_sent[OF hr num v, of w] ps by (auto simp: map_of_eq_None_iff)
    have "mset (ho_outbound ho k (map fst ps)) = mset (map fst ps)" using ho by (simp add: orders_ok_def)
    note q = in_order_simps[of "ho_outbound ho k" ps, OF this ps(1)]
    have fresh: "AList.update ?v x (?A k w) = ?A k w @ [(?v, x)]" for x w
      using nth_notin_take[OF vs(1) k] by (intro update_fresh) auto
    have "(case map_of (in_order (ho_outbound ho k) ps) w of None \<Rightarrow> ?A k w | Some p \<Rightarrow> AList.update ?v p (?A k w)) = ?A (Suc k) w" for w
      unfolding q(1) mo fresh take_Suc_conv_app_nth[OF k] by simp
    then have "fold (\<lambda>(v, pkg) m. m(v := AList.update ?v pkg (m v))) (in_order (ho_outbound ho k) ps) (?A k) = ?A (Suc k)"
      unfolding fold_route[OF q(2), of "AList.update ?v"] by (rule ext)
    moreover have "dn_verifier_id (?ns ! k) = ?v" unfolding nk by simp
    ultimately show ?thesis by (simp only: abind_def aget_def alift_def prod.case sum.case add_0 p2)
  qed
  from each_node_steps[of ?ns ?f 0 ?A ?n, OF this] show ?thesis
    unfolding unicast_all_def using map_nth_upt[of ?st vs] by (simp cong: if_cong)
qed

definition honest_aux :: "('kp, 'n, 'c, 's, 'sp, 'pk) frost \<Rightarrow> VerifierId list \<Rightarrow> (FrostIdentifier \<Rightarrow> 'kp) \<Rightarrow> VerifierId \<Rightarrow>
    ('kp, 'n) FrostAuxiliaryNode" where
  "honest_aux F ids kp v =
     frost_aux_new \<lparr> fp_key_package = kp (idf F ids v), fp_identifier = idf F ids v, fp_verifier_id = v \<rparr>"

definition honest_key :: "('kp, 'n, 'c, 's, 'sp, 'pk) frost \<Rightarrow> VerifierId list \<Rightarrow> 'pk \<Rightarrow> 'pk FrostGroupKey" where
  "honest_key F ids pk = \<lparr> gk_pub_key_package = pk, gk_verifier_to_id = map (\<lambda>v. (v, idf F ids v)) ids \<rparr>"

lemma finish_honest:
  fixes D :: "('s1, 'p1, 's2, 'p2, 'kp, 'pk) dkg"
  assumes hr: "honest_run F D (idf F ids ` set ids) t gi s1 p1 s2 out kp pk" and num: "numbered F ids"
    and vs: "distinct vs" "set vs = set ids" and ho: "orders_ok ho"
  shows "finish_all F D ho
      (\<lambda>w. if w \<in> set ids then map (\<lambda>v. (v, routed_package F ids out v w)) (filter (\<lambda>v. v \<noteq> w) vs) else [])
      (map (\<lambda>v. dkg_node_at F ids t v (AfterPart2 (DkgRound2State (s2 (idf F ids v))) (at_idf F ids (first_packages F ids p1 v)))) vs) =
    (Inr (map (honest_aux F ids kp) vs, map (\<lambda>_. honest_key F ids pk) vs), map (\<lambda>v. dkg_node_at F ids t v DkgCompleted) vs)"
proof -
  let ?R = "\<lambda>w. if w \<in> set ids then map (\<lambda>v. (v, routed_package F ids out v w)) (filter (\<lambda>v. v \<noteq> w) vs) else []"
  let ?A = "\<lambda>k. (\<lambda>w. if w \<in> set (take k vs) then [] else ?R w, map (honest_aux F ids kp) (take k vs),
    map (\<lambda>_. honest_key F ids pk) (take k vs))"
  let ?ns = "map (\<lambda>v. dkg_node_at F ids t v (AfterPart2 (DkgRound2State (s2 (idf F ids v)))
    (at_idf F ids (first_packages F ids p1 v)))) vs :: ('s1, 'p1, 's2) FrostDkgNode list"
  let ?n = "\<lambda>k. dkg_node_at F ids t (vs ! k) DkgCompleted :: ('s1, 'p1, 's2) FrostDkgNode"
  let ?f = "\<lambda>i (routed, aux, gks). abind (aget dn_verifier_id) (\<lambda>me.
     abind (part3 F D (in_order (ho_inbound ho i) (routed me))) (\<lambda>(a, gk).
     alift (Inr (routed(me := []), aux @ [a], gks @ [gk]))))"
  have "?f (0 + k) (?A k) (?ns ! k) = (Inr (?A (Suc k)), ?n k)" if "k < length ?ns" for k
  proof -
    have k: "k < length vs" using that by simp
    let ?v = "vs ! k"
    have v: "?v \<in> set ids" using k vs(2) nth_mem by blast
    have nk: "?ns ! k = dkg_node_at F ids t ?v (AfterPart2 (DkgRound2State (s2 (idf F ids ?v)))
      (at_idf F ids (first_packages F ids p1 ?v)))" using k by simp
    have keys: "map fst (?R ?v) = filter (\<lambda>v. v \<noteq> ?v) vs" using v by (simp add: comp_def)
    have "map_of (?R ?v) w = second_packages F ids out ?v w" for w
    proof -
      show ?thesis
        using v vs(2) routed_package_sent[OF hr num, of w ?v] map_of_keyed[of "\<lambda>u. routed_package F ids out u ?v" ?v vs w]
        by (auto simp: second_packages_def)
    qed
    then have mo: "map_of (?R ?v) = second_packages F ids out ?v" by blast
    have d: "distinct (map fst (?R ?v))" unfolding keys using vs(1) by simp
    have "mset (ho_inbound ho k (map fst (?R ?v))) = mset (map fst (?R ?v))" using ho by (simp only: orders_ok_def)
    note q = in_order_simps[of "ho_inbound ho k" "?R ?v", OF this d]
    have p3: "part3 F D (in_order (ho_inbound ho k) (?R ?v)) (?ns ! k) = (Inr (honest_aux F ids kp ?v, honest_key F ids pk), ?n k)"
      unfolding nk honest_aux_def honest_key_def by (rule part3_honest[OF hr num v]) (use q mo in auto)
    have "(\<lambda>w. if w \<in> set (take k vs) then [] else ?R w)(?v := []) = (\<lambda>w. if w \<in> set (take (Suc k) vs) then [] else ?R w)"
      unfolding take_Suc_conv_app_nth[OF k] by (auto simp: fun_eq_iff)
    moreover have "dn_verifier_id (?ns ! k) = ?v" unfolding nk by simp
    moreover have "(if ?v \<in> set (take k vs) then [] else ?R ?v) = ?R ?v" using nth_notin_take[OF vs(1) k] by (simp only: if_False)
    ultimately show ?thesis
      by (simp only: abind_def aget_def alift_def prod.case sum.case add_0 p3 take_Suc_conv_app_nth[OF k] map_append list.map)
  qed
  from each_node_steps[of ?ns ?f 0 ?A ?n, OF this]
  have "each_node ?f 0 (?A 0) ?ns = (Inr (?A (length vs)), map (\<lambda>v. dkg_node_at F ids t v DkgCompleted) vs)"
    using map_nth_upt[of "\<lambda>v. dkg_node_at F ids t v DkgCompleted :: ('s1, 'p1, 's2) FrostDkgNode" vs] by simp
  then show ?thesis unfolding finish_all_def by simp
qed

lemma key_mismatch_same: "key_mismatch F (verifying_key_bytes F gk) i (map (\<lambda>_. gk) vs) = None"
  by (induction vs arbitrary: i) auto

lemma honest_ceremony:
  fixes D :: "('s1, 'p1, 's2, 'p2, 'kp, 'pk) dkg"
  assumes hr: "honest_run F D (idf F ids ` set ids) t gi s1 p1 s2 out kp pk" and num: "numbered F ids"
    and vs: "distinct vs" "set vs = set ids" "vs \<noteq> []" and ho: "orders_ok ho"
    and g: "\<And>k. k < length vs \<Longrightarrow> gi (idf F ids (vs ! k)) = g k"
  shows "run_dkg_ceremony F D ho g (map (\<lambda>v. dkg_node_at F ids t v Initial) vs) =
    (Inr (map (honest_aux F ids kp) vs, honest_key F ids pk), map (\<lambda>v. dkg_node_at F ids t v DkgCompleted) vs)"
proof -
  obtain v vs' where c: "vs = v # vs'" using vs(3) by (cases vs) auto
  have "agreed_key F (map (honest_aux F ids kp) vs, map (\<lambda>_. honest_key F ids pk) vs) =
      Inr (map (honest_aux F ids kp) vs, honest_key F ids pk)"
    by (simp add: c agreed_key_def key_mismatch_same)
  then show ?thesis
    unfolding run_dkg_ceremony_def
    using vs(3) broadcast_honest[OF hr num vs(1,2) g] unicast_honest[OF hr num vs(1,2) ho] finish_honest[OF hr num vs(1,2) ho]
    by (simp add: abind_def aget_def alift_def)
qed

section \<open>Encryption does not change the ceremony\<close>

lemma each_node_related:
  assumes "\<And>k acc acc'. k < length ns \<Longrightarrow> R k acc acc' \<Longrightarrow>
      (\<exists>e n'. f (i + k) acc (ns ! k) = (Inl e, n') \<and> f' (i + k) acc' (ns ! k) = (Inl e, n')) \<or>
      (\<exists>a a' n'. f (i + k) acc (ns ! k) = (Inr a, n') \<and> f' (i + k) acc' (ns ! k) = (Inr a', n') \<and> R (Suc k) a a')"
    and "R 0 acc acc'"
  shows "(\<exists>e ns'. each_node f i acc ns = (Inl e, ns') \<and> each_node f' i acc' ns = (Inl e, ns')) \<or>
    (\<exists>a a' ns'. each_node f i acc ns = (Inr a, ns') \<and> each_node f' i acc' ns = (Inr a', ns') \<and> R (length ns) a a')"
  using assms
proof (induction ns arbitrary: i R acc acc')
  case (Cons n ns)
  have step: "k < length ns \<Longrightarrow> R (Suc k) b b' \<Longrightarrow>
      (\<exists>e n'. f (Suc i + k) b (ns ! k) = (Inl e, n') \<and> f' (Suc i + k) b' (ns ! k) = (Inl e, n')) \<or>
      (\<exists>a a' n'. f (Suc i + k) b (ns ! k) = (Inr a, n') \<and> f' (Suc i + k) b' (ns ! k) = (Inr a', n') \<and> R (Suc (Suc k)) a a')" for k b b'
    using Cons.prems(1)[of "Suc k" b b'] by simp
  have rest: "R (Suc 0) b b' \<Longrightarrow>
      (\<exists>e ns'. each_node f (Suc i) b ns = (Inl e, ns') \<and> each_node f' (Suc i) b' ns = (Inl e, ns')) \<or>
      (\<exists>a a' ns'. each_node f (Suc i) b ns = (Inr a, ns') \<and> each_node f' (Suc i) b' ns = (Inr a', ns') \<and> R (Suc (length ns)) a a')" for b b'
    using Cons.IH[of "\<lambda>k. R (Suc k)" "Suc i" b b', OF step] by blast
  have "0 < length (n # ns)" by simp
  from Cons.prems(1)[OF this Cons.prems(2)] show ?case
  proof (elim disjE exE conjE)
    fix e n' assume "f (i + 0) acc ((n # ns) ! 0) = (Inl e, n')" "f' (i + 0) acc' ((n # ns) ! 0) = (Inl e, n')"
    then show ?thesis by simp
  next
    fix a a' n'
    assume a: "f (i + 0) acc ((n # ns) ! 0) = (Inr a, n')" "f' (i + 0) acc' ((n # ns) ! 0) = (Inr a', n')" "R (Suc 0) a a'"
    from rest[OF a(3)] a(1,2) show ?thesis by fastforce
  qed
qed simp

lemma each_node_same:
  assumes "\<And>i acc n r n'. f i acc n = (r, n') \<Longrightarrow> same_participant n n'" "each_node f i acc ns = (r, ns')"
  shows "list_all2 same_participant ns ns'"
  using assms(2)
proof (induction ns arbitrary: i acc r ns')
  case (Cons n ns)
  obtain q n1 where q: "f i acc n = (q, n1)" by fastforce
  note n1 = assms(1)[OF q]
  show ?case
  proof (cases q)
    case (Inl e)
    then show ?thesis using Cons.prems q n1 by (auto simp: list.rel_refl)
  next
    case (Inr acc')
    obtain r' ns1 where "each_node f (Suc i) acc' ns = (r', ns1)" by fastforce
    then show ?thesis using Cons Inr q n1 by auto
  qed
qed simp

lemma same_participants_ids:
  assumes "list_all2 same_participant ns ns'"
  shows "map dn_verifier_id ns' = map dn_verifier_id ns" "map dn_all_participant_ids ns' = map dn_all_participant_ids ns"
proof -
  have "dn_verifier_id n' = dn_verifier_id n \<and> dn_all_participant_ids n' = dn_all_participant_ids n"
    if "same_participant n n'" for n n' :: "('a, 'b, 'c) FrostDkgNode"
    using that by (cases n; cases n') (simp add: same_participant_def)
  then have "list_all2 (\<lambda>n n'. dn_verifier_id n = dn_verifier_id n' \<and> dn_all_participant_ids n = dn_all_participant_ids n') ns ns'"
    using assms by (auto elim: list_all2_mono)
  then show "map dn_verifier_id ns' = map dn_verifier_id ns" "map dn_all_participant_ids ns' = map dn_all_participant_ids ns"
    by (induction rule: list_all2_induct) auto
qed

lemma identifier_to_vid_mem: "identifier_to_vid F pos ids i = Inr (Some v) \<Longrightarrow> v \<in> set ids"
  by (induction F pos ids i rule: identifier_to_vid.induct) (auto split: option.splits if_splits)

lemma to_verifiers_keys:
  assumes "to_verifiers F ids out m = Inr r" "distinct (map fst m)"
  shows "distinct (map fst r) \<and> fst ` set r \<subseteq> fst ` set m \<union> set ids"
  using assms
proof (induction out arbitrary: m)
  case (Cons e es)
  obtain i p where e: "e = (i, p)" by fastforce
  obtain v where v: "identifier_to_vid F 0 ids i = Inr (Some v)" and r: "to_verifiers F ids es (AList.update v p m) = Inr r"
    using Cons.prems(1) by (cases "identifier_to_vid F 0 ids i") (auto simp: e split: option.splits)
  have "fst ` set (AList.update v p m) \<subseteq> insert v (fst ` set m)" by (induction m) auto
  moreover have "v \<in> set ids" by (rule identifier_to_vid_mem[OF v])
  moreover have "distinct (map fst r) \<and> fst ` set r \<subseteq> fst ` set (AList.update v p m) \<union> set ids"
    by (rule Cons.IH[OF r]) (rule distinct_update[OF Cons.prems(2)])
  ultimately show ?case by blast
qed simp

lemma part2_keys:
  assumes "part2 F D es n = (Inr ps, n')"
  shows "distinct (map fst ps)" "fst ` set ps \<subseteq> set (dn_all_participant_ids n)"
proof -
  obtain out where "to_verifiers F (dn_all_participant_ids n) out [] = Inr ps"
    using assms by (auto simp: part2_def Let_def split: DkgNodeState.splits sum.splits prod.splits)
  from to_verifiers_keys[OF this] show "distinct (map fst ps)" "fst ` set ps \<subseteq> set (dn_all_participant_ids n)" by auto
qed

lemma enc_pub_map_nth:
  assumes "distinct (map dn_verifier_id ns)" "length keys = length ns" "k < length ns"
  shows "enc_pub_map ns keys (dn_verifier_id (ns ! k)) = Some (ek_public (keys ! k))"
proof -
  have d: "distinct (map (\<lambda>x. dn_verifier_id (fst x)) (zip ns keys))"
  proof -
    have "map (\<lambda>x. dn_verifier_id (fst x)) (zip ns keys) = map dn_verifier_id ns"
      using assms(2) by (intro nth_equalityI) auto
    then show ?thesis using assms(1) by (simp only:)
  qed
  have "enc_pub_map ns keys = map_of (map (\<lambda>x. (dn_verifier_id (fst x), ek_public (snd x))) (zip ns keys))"
    unfolding enc_pub_map_def split_def by (rule ext) (simp add: fold_upd_distinct[OF d] split: option.split)
  moreover have "(ns ! k, keys ! k) \<in> set (zip ns keys)" using nth_mem[of k "zip ns keys"] assms(2,3) by simp
  then have "(dn_verifier_id (ns ! k), ek_public (keys ! k)) \<in>
      set (map (\<lambda>x. (dn_verifier_id (fst x), ek_public (snd x))) (zip ns keys))"
    unfolding set_map by (rule rev_image_eqI) simp
  ultimately show ?thesis using d by (simp add: map_of_eq_Some_iff comp_def del: set_map)
qed

lemma seal_outbound_ok:
  assumes "box_total X" "\<And>e. form e = Inr (fm e)" "distinct (map fst es)" "\<forall>v \<in> fst ` set es. pubs v \<noteq> None"
  shows "\<exists>acc'. seal_outbound D X nc cid missing form pubs key me j es acc = Inr acc' \<and>
    (\<forall>w. case map_of es w of None \<Rightarrow> acc' w = acc w
      | Some p \<Rightarrow> \<exists>c e. encrypt_round2_package D X c p cid key me (the (pubs w)) w = Inr e \<and> acc' w = acc w @ [(me, fm e)])"
  using assms(3,4)
proof (induction es arbitrary: j acc)
  case (Cons x es)
  obtain v p where x: "x = (v, p)" by fastforce
  obtain pk where pk: "pubs v = Some pk" using Cons.prems(2) x by auto
  obtain e where e: "encrypt_round2_package D X (nc j) p cid key me pk v = Inr e" by (rule encrypt_total[OF assms(1)])
  let ?acc = "acc(v := acc v @ [(me, fm e)])"
  have es: "distinct (map fst es)" "\<forall>v \<in> fst ` set es. pubs v \<noteq> None" using Cons.prems by simp_all
  obtain acc' where acc': "seal_outbound D X nc cid missing form pubs key me (Suc j) es ?acc = Inr acc'"
    and r: "\<And>w. case map_of es w of None \<Rightarrow> acc' w = ?acc w
      | Some p \<Rightarrow> \<exists>c e. encrypt_round2_package D X c p cid key me (the (pubs w)) w = Inr e \<and> acc' w = ?acc w @ [(me, fm e)]"
    using Cons.IH[OF es, of "Suc j" ?acc] by blast
  have s: "seal_outbound D X nc cid missing form pubs key me j (x # es) acc = Inr acc'"
    using acc' pk e assms(2) by (simp add: x)
  have v: "map_of es v = None" using Cons.prems(1) x by (simp add: map_of_eq_None_iff)
  have "case map_of (x # es) w of None \<Rightarrow> acc' w = acc w
      | Some p \<Rightarrow> \<exists>c e. encrypt_round2_package D X c p cid key me (the (pubs w)) w = Inr e \<and> acc' w = acc w @ [(me, fm e)]" for w
  proof (cases "w = v")
    case True
    then show ?thesis using r[of v] v x pk e by auto
  next
    case False
    then show ?thesis using r[of w] x by (cases "map_of es w") auto
  qed
  then show ?case using s by blast
qed simp

lemma open_inbound_ok:
  assumes "list_all2 (\<lambda>(s, p) (s', x). s = s' \<and> (\<exists>e pk. parse x = Inr e \<and> pubs s = Some pk \<and>
      decrypt_round2_package D X e key pk cid s me = Inr p)) xs ys" "distinct (map fst (acc @ xs))"
  shows "open_inbound D X cid missing parse pubs key me ys acc = Inr (acc @ xs)"
  using assms
proof (induction xs ys arbitrary: acc rule: list_all2_induct)
  case (Cons a xs b ys)
  obtain s p x where ab: "a = (s, p)" "b = (s, x)" using Cons.hyps(1) by (auto split: prod.splits)
  obtain e pk where e: "parse x = Inr e" "pubs s = Some pk" "decrypt_round2_package D X e key pk cid s me = Inr p"
    using Cons.hyps(1) ab by auto
  have "s \<notin> fst ` set acc" using Cons.prems ab by auto
  then have u: "AList.update s p acc = acc @ [a]" using update_fresh[of s acc p] ab by simp
  have "open_inbound D X cid missing parse pubs key me ys (acc @ [a]) = Inr ((acc @ [a]) @ xs)"
    by (rule Cons.IH) (use Cons.prems in simp)
  then show ?case using e u by (simp add: ab)
qed simp

text \<open>Routed packages, in the clear and sealed: the same senders, and every sealed package opens to the
  clear one with the key pair of the recipient.\<close>

definition sealed_as :: "('s1, 'p1, 's2, 'p2, 'kp, 'pk) dkg \<Rightarrow> box \<Rightarrow> DkgCeremonyId \<Rightarrow> ('w \<Rightarrow> (NodeError, EncryptedDkgRound2Package) result) \<Rightarrow>
    (VerifierId \<rightharpoonup> DkgEncryptionPublicKey) \<Rightarrow> DkgEncryptionKeyPair list \<Rightarrow> VerifierId list \<Rightarrow> nat \<Rightarrow>
    'p2 DkgRound2Package routed \<Rightarrow> 'w routed \<Rightarrow> bool" where
  "sealed_as D X cid parse pubs keys vs k r r' \<longleftrightarrow> (\<forall>w.
     list_all2 (\<lambda>(s, p) (s', x). s = s' \<and> (\<exists>e pk. parse x = Inr e \<and> pubs s = Some pk \<and>
       (\<forall>m < length vs. w = vs ! m \<longrightarrow> decrypt_round2_package D X e (keys ! m) pk cid s w = Inr p))) (r w) (r' w) \<and>
     distinct (map fst (r w)) \<and> fst ` set (r w) \<subseteq> set (take k vs))"

lemma seal_all_related:
  fixes ns :: "('s1, 'p1, 's2) FrostDkgNode list" and D :: "('s1, 'p1, 's2, 'p2, 'kp, 'pk) dkg"
  assumes box: "box_ok X" "box_total X" "round2_json_ok D" and wire: "\<And>e. form e = Inr (fm e)" "\<And>e. parse (fm e) = Inr e"
    and vs: "distinct vs" "map dn_verifier_id ns = vs" "\<forall>n \<in> set ns. set (dn_all_participant_ids n) \<subseteq> set vs"
    and pubs: "\<And>k. k < length vs \<Longrightarrow> pubs (vs ! k) = Some (ek_public (keys ! k)) \<and> ek_valid X (keys ! k)"
    and ho: "orders_ok ho"
  shows "(\<exists>e ns'. unicast_all F D ho r1 ns = (Inl e, ns') \<and> seal_all F D X ho nc cid missing form pubs keys r1 ns = (Inl e, ns')) \<or>
    (\<exists>r r' ns'. unicast_all F D ho r1 ns = (Inr r, ns') \<and> seal_all F D X ho nc cid missing form pubs keys r1 ns = (Inr r', ns') \<and>
      sealed_as D X cid parse pubs keys vs (length ns) r r')"
  unfolding unicast_all_def seal_all_def
proof (rule each_node_related[where R = "sealed_as D X cid parse pubs keys vs"])
  show "sealed_as D X cid parse pubs keys vs 0 (\<lambda>_. []) (\<lambda>_. [])" by (simp add: sealed_as_def)
next
  fix k acc acc'
  assume k: "k < length ns" and R: "sealed_as D X cid parse pubs keys vs k acc acc'"
  let ?me = "vs ! k"
  have me: "dn_verifier_id (ns ! k) = ?me" and kv: "k < length vs" using vs(2) k by auto
  let ?f = "\<lambda>i acc. abind (aget dn_verifier_id) (\<lambda>me. abind (part2 F D (from_others ho i me r1)) (\<lambda>outbound.
    alift (Inr (fold (\<lambda>(v, pkg) m. m(v := AList.update me pkg (m v))) (in_order (ho_outbound ho i) outbound) acc))))"
  let ?g = "\<lambda>i acc. abind (aget dn_verifier_id) (\<lambda>me. abind (part2 F D (from_others ho i me r1)) (\<lambda>outbound.
    alift (seal_outbound D X (nc i) cid missing form pubs (keys ! i) me 0 (in_order (ho_outbound ho i) outbound) acc)))"
  obtain q n' where q: "part2 F D (from_others ho k ?me r1) (ns ! k) = (q, n')" by fastforce
  show "(\<exists>e n'. ?f (0 + k) acc (ns ! k) = (Inl e, n') \<and> ?g (0 + k) acc' (ns ! k) = (Inl e, n')) \<or>
    (\<exists>a a' n'. ?f (0 + k) acc (ns ! k) = (Inr a, n') \<and> ?g (0 + k) acc' (ns ! k) = (Inr a', n') \<and>
      sealed_as D X cid parse pubs keys vs (Suc k) a a')"
  proof (cases q)
    case (Inl e)
    then show ?thesis using q me by (simp add: abind_def aget_def)
  next
    case (Inr ps)
    let ?es = "in_order (ho_outbound ho k) ps"
    note keys2 = part2_keys[OF q[unfolded Inr]]
    have "mset (ho_outbound ho k (map fst ps)) = mset (map fst ps)" using ho by (simp add: orders_ok_def)
    note es = in_order_simps[of "ho_outbound ho k" ps, OF this keys2(1)]
    have known: "\<forall>v \<in> fst ` set ?es. pubs v \<noteq> None"
    proof
      fix v assume "v \<in> fst ` set ?es"
      then have "v \<in> set vs" using es(3) keys2(2) vs(3) nth_mem[OF k] by blast
      then obtain m where "m < length vs" "v = vs ! m" by (auto simp: in_set_conv_nth)
      then show "pubs v \<noteq> None" using pubs by simp
    qed
    obtain a' where a': "seal_outbound D X (nc k) cid missing form pubs (keys ! k) ?me 0 ?es acc' = Inr a'"
      and r: "\<And>w. case map_of ?es w of None \<Rightarrow> a' w = acc' w
        | Some p \<Rightarrow> \<exists>c e. encrypt_round2_package D X c p cid (keys ! k) ?me (the (pubs w)) w = Inr e \<and> a' w = acc' w @ [(?me, fm e)]"
      using seal_outbound_ok[of X form fm ?es pubs D "nc k" cid missing "keys ! k" ?me 0 acc', OF box(2) wire(1) es(2) known] by blast
    let ?a = "\<lambda>w. case map_of ?es w of None \<Rightarrow> acc w | Some p \<Rightarrow> AList.update ?me p (acc w)"
    have a: "fold (\<lambda>(v, pkg) m. m(v := AList.update ?me pkg (m v))) ?es acc = ?a"
      by (rule fold_route[OF es(2)])
    have "sealed_as D X cid parse pubs keys vs (Suc k) ?a a'"
      unfolding sealed_as_def
    proof (intro allI)
      fix w
      let ?rel = "\<lambda>(s, p) (s', x). s = s' \<and> (\<exists>e pk. parse x = Inr e \<and> pubs s = Some pk \<and>
        (\<forall>m < length vs. w = vs ! m \<longrightarrow> decrypt_round2_package D X e (keys ! m) pk cid s w = Inr p))"
      have old: "list_all2 ?rel (acc w) (acc' w)" "distinct (map fst (acc w))" "fst ` set (acc w) \<subseteq> set (take k vs)"
        using R unfolding sealed_as_def by blast+
      have fresh: "?me \<notin> fst ` set (acc w)" using old(3) nth_notin_take[OF vs(1) kv] by blast
      show "list_all2 ?rel (?a w) (a' w) \<and> distinct (map fst (?a w)) \<and> fst ` set (?a w) \<subseteq> set (take (Suc k) vs)"
      proof (cases "map_of ?es w")
        case None
        then show ?thesis using old r[of w] kv by (auto simp: take_Suc_conv_app_nth)
      next
        case (Some p)
        then obtain c e where e: "encrypt_round2_package D X c p cid (keys ! k) ?me (the (pubs w)) w = Inr e"
          and w: "a' w = acc' w @ [(?me, fm e)]" using r[of w] by auto
        have "decrypt_round2_package D X e (keys ! m) (ek_public (keys ! k)) cid ?me w = Inr p" if "m < length vs" "w = vs ! m" for m
          using decrypt_encrypt[OF box(1,3), of "keys ! k" "keys ! m" c p cid ?me w e] pubs[OF that(1)] pubs[OF kv] e that by simp
        then have "?rel (?me, p) (?me, fm e)" using pubs[OF kv] wire(2) by simp
        then have "list_all2 ?rel (acc w @ [(?me, p)]) (acc' w @ [(?me, fm e)])"
          using old(1) by (intro list_all2_appendI) simp_all
        then show ?thesis
          using Some w old fresh kv update_fresh[OF fresh, of p] by (auto simp: take_Suc_conv_app_nth)
      qed
    qed
    moreover have "?f (0 + k) acc (ns ! k) = (Inr ?a, n')"
      using q Inr me a by (simp only: abind_def aget_def alift_def prod.case sum.case add_0)
    moreover have "?g (0 + k) acc' (ns ! k) = (Inr a', n')"
      using q Inr me a' by (simp only: abind_def aget_def alift_def prod.case sum.case add_0)
    ultimately show ?thesis by blast
  qed
qed

lemma open_finish_all_eq:
  fixes F :: "('kp, 'n, 'c, 's, 'sp, 'pk) frost" and ns :: "('s1, 'p1, 's2) FrostDkgNode list" and D :: "('s1, 'p1, 's2, 'p2, 'kp, 'pk) dkg"
  assumes R: "sealed_as D X cid Inr pubs keys vs n r r'" and vs: "distinct vs" "map dn_verifier_id ns = vs"
  shows "open_finish_all F D X ho cid pubs keys r' ns = finish_all F D ho r ns"
proof -
  let ?f = "\<lambda>i (routed, aux, gks). abind (aget dn_verifier_id) (\<lambda>me.
     abind (part3 F D (in_order (ho_inbound ho i) (routed me))) (\<lambda>(a, gk).
     alift (Inr (routed(me := []), aux @ [a], gks @ [gk]))))"
  let ?g = "\<lambda>i (routed, aux, gks). abind (aget dn_verifier_id) (\<lambda>me.
     abind (alift (open_inbound D X cid ''no encryption public key for sender '' Inr pubs (keys ! i) me (routed me) [])) (\<lambda>plain.
     abind (part3 F D (in_order (ho_inbound ho i) plain)) (\<lambda>(a, gk).
     alift (Inr (routed(me := []), aux @ [a], gks @ [gk])))))"
  let ?R = "\<lambda>k (x, a, b) (x', a', b'). a = a' \<and> b = b' \<and> (\<exists>n. sealed_as D X cid Inr pubs keys vs n x x')"
  have "(\<exists>e ns'. each_node ?f 0 (r, [], []) ns = (Inl e, ns') \<and> each_node ?g 0 (r', [], []) ns = (Inl e, ns')) \<or>
    (\<exists>a a' ns'. each_node ?f 0 (r, [], []) ns = (Inr a, ns') \<and> each_node ?g 0 (r', [], []) ns = (Inr a', ns') \<and> ?R (length ns) a a')"
  proof (rule each_node_related[where R = ?R])
    show "?R 0 (r, [], []) (r', [], [])" using R by auto
  next
    fix k and acc :: "'p2 DkgRound2Package routed \<times> ('kp, 'n) FrostAuxiliaryNode list \<times> 'pk FrostGroupKey list"
      and acc' :: "EncryptedDkgRound2Package routed \<times> ('kp, 'n) FrostAuxiliaryNode list \<times> 'pk FrostGroupKey list"
    assume k: "k < length ns" and rel: "?R k acc acc'"
    obtain x aux gks x' n where acc: "acc = (x, aux, gks)" "acc' = (x', aux, gks)" and s: "sealed_as D X cid Inr pubs keys vs n x x'"
      using rel by (cases acc; cases acc') auto
    let ?me = "vs ! k"
    have me: "dn_verifier_id (ns ! k) = ?me" and kv: "k < length vs" using vs(2) k by auto
    have L: "list_all2 (\<lambda>(s, p) (s', e'). s = s' \<and> (\<exists>e pk. (Inr e' :: (NodeError, _) result) = Inr e \<and> pubs s = Some pk \<and>
        (\<forall>m < length vs. ?me = vs ! m \<longrightarrow> decrypt_round2_package D X e (keys ! m) pk cid s ?me = Inr p))) (x ?me) (x' ?me)"
      and d: "distinct (map fst ([] @ x ?me))"
      using s unfolding sealed_as_def by simp_all
    have "list_all2 (\<lambda>(s, p) (s', e'). s = s' \<and> (\<exists>e pk. (Inr e' :: (NodeError, _) result) = Inr e \<and> pubs s = Some pk \<and>
        decrypt_round2_package D X e (keys ! k) pk cid s ?me = Inr p)) (x ?me) (x' ?me)"
      by (rule list_all2_mono[OF L]) (use kv in auto)
    from open_inbound_ok[OF this d, of "''no encryption public key for sender ''"]
    have op: "open_inbound D X cid ''no encryption public key for sender '' Inr pubs (keys ! k) ?me (x' ?me) [] = Inr (x ?me)"
      by simp
    have s': "sealed_as D X cid Inr pubs keys vs n (x(?me := [])) (x'(?me := []))" using s by (auto simp: sealed_as_def)
    obtain q n' where q: "part3 F D (in_order (ho_inbound ho k) (x ?me)) (ns ! k) = (q, n')" by fastforce
    show "(\<exists>e n'. ?f (0 + k) acc (ns ! k) = (Inl e, n') \<and> ?g (0 + k) acc' (ns ! k) = (Inl e, n')) \<or>
      (\<exists>a a' n'. ?f (0 + k) acc (ns ! k) = (Inr a, n') \<and> ?g (0 + k) acc' (ns ! k) = (Inr a', n') \<and> ?R (Suc k) a a')"
      using q op me s' by (cases q) (auto simp: acc abind_def aget_def alift_def)
  qed
  then show ?thesis unfolding open_finish_all_def finish_all_def by (elim disjE exE conjE) (auto split: prod.splits)
qed

lemma broadcast_all_ids:
  assumes "broadcast_all D g ns = (r, ns')"
  shows "map dn_verifier_id ns' = map dn_verifier_id ns" "map dn_all_participant_ids ns' = map dn_all_participant_ids ns"
proof -
  have "list_all2 same_participant ns ns'"
    by (rule each_node_same[OF _ assms[unfolded broadcast_all_def]])
      (use part1_cases in \<open>fastforce simp: abind_def aget_def alift_def split: prod.splits sum.splits\<close>)
  then show "map dn_verifier_id ns' = map dn_verifier_id ns" "map dn_all_participant_ids ns' = map dn_all_participant_ids ns"
    by (rule same_participants_ids)+
qed

lemma seal_all_ids:
  assumes "unicast_all F D ho r1 ns = (r, ns')"
  shows "map dn_verifier_id ns' = map dn_verifier_id ns"
proof -
  have "list_all2 same_participant ns ns'"
    by (rule each_node_same[OF _ assms[unfolded unicast_all_def]])
      (use part2_cases in \<open>fastforce simp: abind_def aget_def alift_def split: prod.splits sum.splits\<close>)
  then show ?thesis by (rule same_participants_ids)
qed

lemma encrypted_eq_plain:
  fixes ns :: "('s1, 'p1, 's2) FrostDkgNode list" and D :: "('s1, 'p1, 's2, 'p2, 'kp, 'pk) dkg"
  assumes box: "box_ok X" "box_total X" "round2_json_ok D" and ns: "ns \<noteq> []" "distinct (map dn_verifier_id ns)"
    and all: "\<forall>n \<in> set ns. set (dn_all_participant_ids n) \<subseteq> dn_verifier_id ` set ns"
    and keys: "length keys = length ns" "\<forall>k \<in> set keys. ek_valid X k" and ho: "orders_ok ho"
  shows "run_dkg_ceremony_encrypted F D X ho g nc cid keys ns = run_dkg_ceremony F D ho g ns"
proof -
  let ?pubs = "enc_pub_map ns keys" and ?vs = "map dn_verifier_id ns"
  let ?seal = "seal_all F D X ho nc cid ''no encryption public key for recipient '' Inr ?pubs keys"
  have pubs: "?pubs (?vs ! k) = Some (ek_public (keys ! k)) \<and> ek_valid X (keys ! k)" if "k < length ?vs" for k
    using enc_pub_map_nth[OF ns(2) keys(1)] that keys by simp
  obtain r ns1 where b: "broadcast_all D g ns = (r, ns1)" by fastforce
  note ids1 = broadcast_all_ids[OF b]
  have all1: "\<forall>n \<in> set ns1. set (dn_all_participant_ids n) \<subseteq> set ?vs"
  proof
    fix n assume "n \<in> set ns1"
    then have "dn_all_participant_ids n \<in> set (map dn_all_participant_ids ns)" using arg_cong[OF ids1(2), of set] by auto
    then obtain m where "m \<in> set ns" "dn_all_participant_ids n = dn_all_participant_ids m" by auto
    then show "set (dn_all_participant_ids n) \<subseteq> set ?vs" using all by simp
  qed
  show ?thesis
  proof (cases r)
    case (Inl e)
    then show ?thesis
      using b ns(1) keys(1) by (simp add: run_dkg_ceremony_encrypted_def run_dkg_ceremony_def abind_def aget_def alift_def Let_def)
  next
    case (Inr r1)
    have "(\<exists>e ns'. unicast_all F D ho r1 ns1 = (Inl e, ns') \<and> ?seal r1 ns1 = (Inl e, ns')) \<or>
      (\<exists>q q' ns'. unicast_all F D ho r1 ns1 = (Inr q, ns') \<and> ?seal r1 ns1 = (Inr q', ns') \<and>
        sealed_as D X cid Inr ?pubs keys ?vs (length ns1) q q')"
      by (rule seal_all_related[where form = Inr and parse = Inr and fm = "\<lambda>e. e", OF box refl refl ns(2) ids1(1) all1 pubs ho])
    then show ?thesis
    proof (elim disjE exE conjE)
      fix e ns' assume "unicast_all F D ho r1 ns1 = (Inl e, ns')" "?seal r1 ns1 = (Inl e, ns')"
      then show ?thesis
        using b Inr ns(1) keys(1) by (simp add: run_dkg_ceremony_encrypted_def run_dkg_ceremony_def abind_def aget_def alift_def Let_def)
    next
      fix q q' ns2
      assume u: "unicast_all F D ho r1 ns1 = (Inr q, ns2)" and s: "?seal r1 ns1 = (Inr q', ns2)"
        and R: "sealed_as D X cid Inr ?pubs keys ?vs (length ns1) q q'"
      have "open_finish_all F D X ho cid ?pubs keys q' ns2 = finish_all F D ho q ns2"
        by (rule open_finish_all_eq[OF R ns(2)]) (use seal_all_ids[OF u] ids1 in simp)
      then show ?thesis
        using b Inr u s ns(1) keys(1)
        by (simp add: run_dkg_ceremony_encrypted_def run_dkg_ceremony_def abind_def aget_def alift_def Let_def)
    qed
  qed
qed

section \<open>Ceremonies of new nodes\<close>

lemma new_nodes_ceremony:
  fixes ns :: "('s1, 'p1, 's2) FrostDkgNode list" and D :: "('s1, 'p1, 's2, 'p2, 'kp, 'pk) dkg"
  assumes "dkg_ok F D" "ids_ok F" "orders_ok ho" "length ids < 2 ^ 16"
    and vs: "distinct vs" "set vs = set ids" and new: "map (\<lambda>v. dkg_node_new F e v ids t) vs = map Inr ns"
    and "ids \<noteq> []"
  obtains kp pk where "run_dkg_ceremony F D ho g ns = (Inr (map (honest_aux F ids kp) vs, honest_key F ids pk),
      map (\<lambda>v. dkg_node_at F ids t v DkgCompleted) vs)"
    "\<forall>v \<in> set ids. fr_min_signers F (kp (idf F ids v)) = unat t" "numbered F ids"
    "ns = map (\<lambda>v. dkg_node_at F ids t v Initial) vs"
proof -
  have each: "dkg_node_new F e (vs ! k) ids t = Inr (ns ! k)" if "k < length vs" for k
    using arg_cong[OF new, of "\<lambda>xs. xs ! k"] arg_cong[OF new, of length] that by simp
  have len: "length ns = length vs" using arg_cong[OF new, of length] by simp
  have nonempty: "0 < length vs" using assms(8) vs(2) by (cases vs) auto
  have "distinct ids" using each[OF nonempty] by (auto simp: dkg_node_new_eq_Inr dkg_node_wf_def)
  then have num: "numbered F ids" using assms(2,4) by (simp add: numbered_def)
  note at = new_node_at[OF num each]
  have ns: "ns = map (\<lambda>v. dkg_node_at F ids t v Initial) vs" using at len by (intro nth_equalityI) auto
  have t: "2 \<le> unat t" "unat t \<le> length ids" using at[OF nonempty] by auto
  let ?I = "idf F ids ` set ids"
  have card: "card ?I = length ids"
    using card_image[OF idf_inj[OF num]] \<open>distinct ids\<close> by (simp add: distinct_card)
  define gi where "gi i = g (the (position (the_inv_into (set ids) (idf F ids) i) vs))" for i
  have gi: "gi (idf F ids (vs ! k)) = g k" if "k < length vs" for k
    using that vs position_nth[OF vs(1) that] nth_mem[OF that] by (simp add: gi_def the_inv_into_f_f[OF idf_inj[OF num]])
  have "finite ?I" "card ?I < 2 ^ 16" "2 \<le> unat t" "unat t \<le> card ?I" using t assms(4) card by simp_all
  then obtain s1 p1 s2 out kp pk where hr: "honest_run F D ?I t gi s1 p1 s2 out kp pk"
    using assms(1) unfolding dkg_ok_def by blast
  show thesis
  proof (rule that[OF _ _ num ns])
    show "run_dkg_ceremony F D ho g ns = (Inr (map (honest_aux F ids kp) vs, honest_key F ids pk),
      map (\<lambda>v. dkg_node_at F ids t v DkgCompleted) vs)"
      unfolding ns by (rule honest_ceremony[OF hr num vs _ assms(3) gi]) (use nonempty in auto)
    show "\<forall>v \<in> set ids. fr_min_signers F (kp (idf F ids v)) = unat t" using hr by (auto simp: honest_run_def)
  qed
qed

definition ho_ex :: hash_orders where
  "ho_ex = \<lparr> ho_broadcasts = \<lambda>_ ks. ks, ho_outbound = \<lambda>_ ks. rev ks, ho_inbound = \<lambda>_ ks. ks \<rparr>"

lemma orders_ex: "orders_ok ho_ex"
  by (simp add: orders_ok_def ho_ex_def)

lemma new_nodes_ex:
  "map (\<lambda>v. dkg_node_new frost_ex [] v [VerifierId 1, VerifierId 2] 2) [VerifierId 2, VerifierId 1] =
     map Inr [dkg_node_ex 2, dkg_node_ex 1]"
  by (simp add: dkg_node_ex_new)

lemma own_keys_announced_eq_Inr:
  "own_keys_announced m es = Inr () \<longleftrightarrow> (\<forall>(n, k) \<in> set es. m (dn_verifier_id n) = Some (ek_public k))"
  by (induction m es rule: own_keys_announced.induct) (auto split: option.splits)

section \<open>Properties\<close>

text \<open>C11. An honest ceremony succeeds.  When all participants of a list of at most 65535 construct their nodes
  from the same list and threshold, the ceremony returns one signing node for each of them, in order, all
  with the identifier that the one group key records for them and with key shares of the agreed threshold,
  and every node ends completed.  No routing step panics, whatever the iteration orders.\<close>

theorem dkg_ceremony_correct:
  fixes ns :: "('s1, 'p1, 's2) FrostDkgNode list" and D :: "('s1, 'p1, 's2, 'p2, 'kp, 'pk) dkg"
    and F :: "('kp, 'n, 'c, 's, 'sp, 'pk) frost"
  assumes "dkg_ok F D" "ids_ok F" "orders_ok ho" "length ids < 2 ^ 16" "ids \<noteq> []"
    and "distinct vs" "set vs = set ids" "map (\<lambda>v. dkg_node_new F e v ids t) vs = map Inr ns"
  shows "\<exists>(aux :: ('kp, 'n) FrostAuxiliaryNode list) gk ns'. run_dkg_ceremony F D ho g ns = (Inr (aux, gk), ns') \<and>
    map fa_verifier_id aux = vs \<and>
    (\<forall>a \<in> set aux. verifier_to_identifier gk (fa_verifier_id a) = Some (fp_identifier (fa_participant a)) \<and>
       fr_min_signers F (fp_key_package (fa_participant a)) = unat t) \<and>
    map fst (gk_verifier_to_id gk) = ids \<and> distinct (map snd (gk_verifier_to_id gk)) \<and>
    map dn_verifier_id ns' = vs \<and> (\<forall>n \<in> set ns'. dkg_is_complete n)"
proof -
  obtain kp pk where run: "run_dkg_ceremony F D ho g ns = (Inr (map (honest_aux F ids kp) vs :: ('kp, 'n) FrostAuxiliaryNode list,
      honest_key F ids pk), map (\<lambda>v. dkg_node_at F ids t v DkgCompleted) vs)"
    and t: "\<forall>v \<in> set ids. fr_min_signers F (kp (idf F ids v)) = unat t" and num: "numbered F ids"
    by (rule new_nodes_ceremony[OF assms(1-4,6-8,5)])
  have id: "fa_verifier_id (honest_aux F ids kp v :: ('kp, 'n) FrostAuxiliaryNode) = v" for v
    by (simp add: honest_aux_def fa_verifier_id_def frost_aux_new_def)
  have look: "verifier_to_identifier (honest_key F ids pk) v = Some (idf F ids v)" if "v \<in> set ids" for v
    using that by (simp add: verifier_to_identifier_def honest_key_def map_of_map_restrict)
  have "map fst (gk_verifier_to_id (honest_key F ids pk)) = ids" "distinct (map snd (gk_verifier_to_id (honest_key F ids pk)))"
    using num idf_inj[OF num] by (simp_all add: honest_key_def comp_def distinct_map numbered_def)
  then show ?thesis
    unfolding run using id look t assms(7)
    by (auto simp: comp_def honest_aux_def frost_aux_new_def fa_verifier_id_def dkg_is_complete_def dkg_node_at_def)
qed

theorem dkg_ceremony_correct_witness:
  "\<exists>aux gk ns'.
     run_dkg_ceremony frost_ex dkg_ex ho_ex (\<lambda>_ _. 0) [dkg_node_ex 2, dkg_node_ex 1] = (Inr (aux, gk), ns') \<and>
     map fa_verifier_id aux = [VerifierId 2, VerifierId 1]"
proof -
  have "length [VerifierId 1, VerifierId 2] < 2 ^ 16" "[VerifierId 1, VerifierId 2] \<noteq> []"
    "distinct [VerifierId 2, VerifierId 1]" "set [VerifierId 2, VerifierId 1] = set [VerifierId 1, VerifierId 2]" by auto
  from dkg_ceremony_correct[OF dkg_ex_ok ids_ex_ok orders_ex this new_nodes_ex, of "\<lambda>_ _. 0"]
  show ?thesis by (elim exE conjE, intro exI conjI)
qed

text \<open>C12. The encrypted ceremony is the plain one: with key pairs for all participants it has the same
  result and leaves the nodes in the same state, on success and on every failure of a node, for every
  choice of nonces.  Encryption, routing and decryption neither lose, mix up nor alter a package.\<close>

theorem encrypted_ceremony_equivalent:
  assumes "box_ok X" "box_total X" "round2_json_ok D" "orders_ok ho"
    and "ns \<noteq> []" "distinct (map dn_verifier_id ns)"
    and "\<forall>n \<in> set ns. set (dn_all_participant_ids n) \<subseteq> dn_verifier_id ` set ns"
    and "length keys = length ns" "\<forall>k \<in> set keys. ek_valid X k"
  shows "run_dkg_ceremony_encrypted F D X ho g nc cid keys ns = run_dkg_ceremony F D ho g ns"
  by (rule encrypted_eq_plain[OF assms(1-3,5-9,4)])

theorem encrypted_ceremony_equivalent_witness:
  "run_dkg_ceremony_encrypted frost_ex dkg_ex box_ex ho_ex (\<lambda>_ _. 0) (\<lambda>_ _. 0) (DkgCeremonyId 3)
      [ek_generate box_ex 1, ek_generate box_ex 2] [dkg_node_ex 1, dkg_node_ex 2] =
   run_dkg_ceremony frost_ex dkg_ex ho_ex (\<lambda>_ _. 0) [dkg_node_ex 1, dkg_node_ex 2]"
  by (rule encrypted_ceremony_equivalent[OF box_ex_ok box_ex_total round2_json_ex orders_ex])
    (auto simp: dkg_node_ex_def)

text \<open>C10. A ceremony under a registry is authentic: when it succeeds, the epoch is that of the registry, every
  participant is active in it and has announced, with a signature under its registered key for this very
  ceremony, the public key of the pair its node uses; and the result is that of the plain ceremony.\<close>

theorem registry_ceremony_authentic:
  fixes ns :: "('s1, 'p1, 's2) FrostDkgNode list" and D :: "('s1, 'p1, 's2, 'p2, 'kp, 'pk) dkg"
  assumes "registry_inv reg" "box_ok X" "box_total X" "round2_json_ok D" "orders_ok ho"
    and "distinct (map dn_verifier_id ns)" "\<forall>n \<in> set ns. set (dn_all_participant_ids n) \<subseteq> dn_verifier_id ` set ns"
    and "\<forall>k \<in> set keys. ek_valid X k"
    and run: "run_dkg_ceremony_with_registry H ed F D X ho g nc cid keys anns reg expected ns = (Inr r, ns')"
  shows "expected = reg_epoch reg \<and> length keys = length ns \<and>
    (\<forall>k < length ns. \<exists>p. reg_get reg (dn_verifier_id (ns ! k)) = Some p \<and> rp_status p = PActive \<and>
       (\<exists>ann \<in> set anns. signed_by H ed (rp_signing_key p) ann (dn_verifier_id (ns ! k)) cid (ek_public (keys ! k)))) \<and>
    run_dkg_ceremony F D ho g ns = (Inr r, ns')"
proof -
  let ?vs = "map dn_verifier_id ns"
  obtain u m where adm: "check_ceremony_admission reg expected ?vs = Inr u" and len: "length keys = length ns" and ne: "ns \<noteq> []"
    and m: "collect_verified_enc_keys H ed (to_dkg_registry reg) anns cid ?vs = Inr m"
    and own: "own_keys_announced m (zip ns keys) = Inr ()"
    and enc: "run_dkg_ceremony_encrypted F D X ho g nc cid keys ns = (Inr r, ns')"
    using run
    by (auto simp: run_dkg_ceremony_with_registry_def run_dkg_ceremony_with_authenticated_keys_def abind_eq_Inr
        map_err_eq_Inr eq_commute[of "Inr _" "map_err _ _"] eq_commute[of "Inr _" "own_keys_announced _ _"] split: if_splits)
  have "\<exists>p. reg_get reg (dn_verifier_id (ns ! k)) = Some p \<and> rp_status p = PActive \<and>
      (\<exists>ann \<in> set anns. signed_by H ed (rp_signing_key p) ann (dn_verifier_id (ns ! k)) cid (ek_public (keys ! k)))"
    if kl: "k < length ns" for k
  proof -
    let ?v = "dn_verifier_id (ns ! k)"
    obtain p where p: "reg_get reg ?v = Some p" "rp_status p = PActive"
      using adm nth_mem[OF kl] by (fastforce simp: check_admission_eq_Inr is_admitted_def)
    have "(ns ! k, keys ! k) \<in> set (zip ns keys)" using nth_mem[of k "zip ns keys"] kl len by simp
    then have "m ?v = Some (ek_public (keys ! k))" using own by (auto simp: own_keys_announced_eq_Inr)
    moreover have "m = map_of (map announced anns)" "\<forall>ann \<in> set anns. accepted H ed (to_dkg_registry reg) cid ann"
      using m by (auto simp: collect_verified_eq_Inr)
    ultimately obtain ann where "ann \<in> set anns" "announced ann = (?v, ek_public (keys ! k))"
      "accepted H ed (to_dkg_registry reg) cid ann" using map_of_SomeD[of "map announced anns"] by fastforce
    moreover have "to_dkg_registry reg ?v = Some (rp_signing_key p)"
      using p by (simp add: to_dkg_registry_map_of[OF assms(1)] active_keys_map_of[OF assms(1)])
    ultimately show ?thesis using p by (auto simp: accepted_def)
  qed
  then show ?thesis
    using adm len enc encrypted_eq_plain[OF assms(2-4) ne assms(6,7) len assms(8,5), of F g nc cid]
    by (simp add: check_admission_eq_Inr)
qed

theorem registry_ceremony_authentic_witness:
  "\<exists>aux gk ns' p.
     run_dkg_ceremony_with_registry (\<lambda>_. 7) ed_ex frost_ex dkg_ex box_ex ho_ex (\<lambda>_ _. 0) (\<lambda>_ _. 0) (DkgCeremonyId 3)
       [ek_generate box_ex 1, ek_generate box_ex 2]
       [create_dkg_key_announcement (\<lambda>_. 7) ed_ex (ek_generate box_ex 1) (DkgCeremonyId 3) (ann_kp_ex 1),
        create_dkg_key_announcement (\<lambda>_. 7) ed_ex (ek_generate box_ex 2) (DkgCeremonyId 3) (ann_kp_ex 2)]
       reg_ex (RegistryEpoch 1) [dkg_node_ex 1, dkg_node_ex 2] = (Inr (aux, gk), ns') \<and>
     reg_get reg_ex (VerifierId 2) = Some p \<and> rp_status p = PActive"
proof -
  let ?keys = "[ek_generate box_ex 1, ek_generate box_ex 2]" and ?ns = "[dkg_node_ex 1, dkg_node_ex 2]"
  let ?anns = "[create_dkg_key_announcement (\<lambda>_. 7) ed_ex (ek_generate box_ex 1) (DkgCeremonyId 3) (ann_kp_ex 1),
    create_dkg_key_announcement (\<lambda>_. 7) ed_ex (ek_generate box_ex 2) (DkgCeremonyId 3) (ann_kp_ex 2)]"
  have reg: "registry_inv reg_ex" by (simp add: registry_inv_def reg_ex_def rp_active_def)
  have ids: "map dn_verifier_id ?ns = [VerifierId 1, VerifierId 2]" by (simp add: dkg_node_ex_def)
  have dist: "distinct (map dn_verifier_id ?ns)" "\<forall>k \<in> set ?keys. ek_valid box_ex k" "?ns \<noteq> []" "length ?keys = length ?ns"
    and all: "\<forall>n \<in> set ?ns. set (dn_all_participant_ids n) \<subseteq> dn_verifier_id ` set ?ns"
    by (auto simp: dkg_node_ex_def)
  have new: "map (\<lambda>v. dkg_node_new frost_ex [] v [VerifierId 1, VerifierId 2] 2) [VerifierId 1, VerifierId 2] = map Inr ?ns"
    by (simp add: dkg_node_ex_new)
  obtain aux gk ns'
    where plain: "run_dkg_ceremony frost_ex dkg_ex ho_ex (\<lambda>_ _. 0) ?ns = (Inr (aux, gk), ns')"
    by (rule new_nodes_ceremony[OF dkg_ex_ok ids_ex_ok orders_ex _ _ _ new]) auto
  have adm: "check_ceremony_admission reg_ex (RegistryEpoch 1) [VerifierId 1, VerifierId 2] = Inr ()"
    by (simp add: check_admission_eq_Inr is_admitted_def reg_ex_def reg_get_def rp_active_def)
  have "to_dkg_registry reg_ex = dpr_from_key_pairs ed_ex [ann_kp_ex 1, ann_kp_ex 2]"
    by (simp add: to_dkg_registry_def active_entries_def reg_ex_def rp_active_def rp_is_active_def status_is_active_def dpr_from_key_pairs_def dpr_new_def
        ann_kp_ex_def kp_verifying_key_def)
  then have col: "collect_verified_enc_keys (\<lambda>_. 7) ed_ex (to_dkg_registry reg_ex) ?anns (DkgCeremonyId 3) [VerifierId 1, VerifierId 2] =
      Inr [VerifierId 1 \<mapsto> DkgEncryptionPublicKey 1, VerifierId 2 \<mapsto> DkgEncryptionPublicKey 2]"
    using collect_ex by simp
  have own: "own_keys_announced [VerifierId 1 \<mapsto> DkgEncryptionPublicKey 1, VerifierId 2 \<mapsto> DkgEncryptionPublicKey 2] (zip ?ns ?keys) = Inr ()"
    by (simp add: own_keys_announced_eq_Inr dkg_node_ex_def ek_generate_def box_ex_def)
  have run: "run_dkg_ceremony_with_registry (\<lambda>_. 7) ed_ex frost_ex dkg_ex box_ex ho_ex (\<lambda>_ _. 0) (\<lambda>_ _. 0) (DkgCeremonyId 3)
      ?keys ?anns reg_ex (RegistryEpoch 1) ?ns = (Inr (aux, gk), ns')"
    unfolding run_dkg_ceremony_with_registry_def run_dkg_ceremony_with_authenticated_keys_def abind_def aget_def alift_def id_apply
      ids adm col map_err_simps sum.case prod.case own
    using encrypted_eq_plain[OF box_ex_ok box_ex_total round2_json_ex dist(3,1) all dist(4,2) orders_ex, of frost_ex] plain
    by (simp del: One_nat_def)
  from registry_ceremony_authentic[OF reg box_ex_ok box_ex_total round2_json_ex orders_ex dist(1) all dist(2) run]
  have "\<exists>p. reg_get reg_ex (dn_verifier_id (?ns ! 1)) = Some p \<and> rp_status p = PActive" by auto
  moreover have "dn_verifier_id (?ns ! 1) = VerifierId 2" by (simp add: dkg_node_ex_def)
  ultimately show ?thesis using run by auto
qed

end
