(* ===== verification/Onchain.thy ===== *)
theory Onchain
  imports Frost
begin

text \<open>
  On-chain attestations, \<open>attestation/src/onchain.rs\<close>: the fixed-size record that a contract stores, its
  verification, its ABI encoding, and its extraction from a FROST approval.

  The \<open>ed25519-dalek\<close> crate is the record \<open>dalek\<close>: parsing of a verifying key, which may fail, and
  verification of a 64-byte signature.  The hypothesis \<open>dalek_ok\<close> is RFC 9591 for the suite
  FROST(Ed25519, SHA-512): an aggregate signature is an Ed25519 signature.  The lemmas show that the encoding is
  undone by decoding, exactly which byte strings are encodings, and exactly what verification establishes.
\<close>

section \<open>The format\<close>

record 'vk dalek =
  dl_from_bytes :: "bytes32 \<Rightarrow> (string, 'vk) result"
  dl_verify :: "'vk \<Rightarrow> byte list \<Rightarrow> bytes64 \<Rightarrow> (string, unit) result"

record OnChainAttestation =
  oc_statement_digest :: bytes32
  oc_dvrf_value :: bytes32
  oc_envelope_digest :: bytes32
  oc_group_verifying_key :: bytes32
  oc_aggregate_signature :: bytes64
  oc_threshold :: byte
  oc_verifier_count :: byte
  oc_statement_dvrf_binding :: bytes32

datatype OnChainError =
    OcSignatureVerificationFailed string
  | DigestMismatch
  | ThresholdNotMet byte byte

definition compute_statement_dvrf_binding :: "sha \<Rightarrow> bytes32 \<Rightarrow> bytes32 \<Rightarrow> bytes32" where
  "compute_statement_dvrf_binding H statement_digest dvrf_value =
     H (str_bytes ''tls-attestation/stmt-dvrf-binding/v1'' @ arr32 statement_digest @ arr32 dvrf_value)"

definition onchain_verify :: "sha \<Rightarrow> 'vk dalek \<Rightarrow> OnChainAttestation \<Rightarrow> (OnChainError, unit) result" where
  "onchain_verify H L a =
     rbind (map_err OcSignatureVerificationFailed (dl_from_bytes L (oc_group_verifying_key a))) (\<lambda>vk.
     rbind (map_err OcSignatureVerificationFailed
              (dl_verify L vk (arr32 (oc_envelope_digest a)) (oc_aggregate_signature a))) (\<lambda>_.
     if oc_threshold a = 0 then Inl (ThresholdNotMet 1 (oc_threshold a))
     else if oc_threshold a > oc_verifier_count a then Inl (ThresholdNotMet (oc_threshold a) (oc_verifier_count a))
     else if oc_statement_dvrf_binding a \<noteq> compute_statement_dvrf_binding H (oc_statement_digest a) (oc_dvrf_value a)
     then Inl DigestMismatch
     else Inr ()))"

section \<open>The ABI encoding\<close>

definition abi_encode :: "OnChainAttestation \<Rightarrow> byte list" where
  "abi_encode a =
     arr32 (oc_statement_digest a) @ arr32 (oc_dvrf_value a) @ arr32 (oc_envelope_digest a) @
     arr32 (oc_group_verifying_key a) @ take 32 (be_bytes 64 (oc_aggregate_signature a)) @
     drop 32 (be_bytes 64 (oc_aggregate_signature a)) @ replicate 31 0 @ [oc_threshold a] @
     replicate 31 0 @ [oc_verifier_count a] @ arr32 (oc_statement_dvrf_binding a)"

text \<open>\<open>&bytes[i..j]\<close>, for ranges inside the slice.\<close>

definition subslice :: "nat \<Rightarrow> nat \<Rightarrow> 'a list \<Rightarrow> 'a list" where
  "subslice i j bs = take (j - i) (drop i bs)"

definition abi_decode :: "byte list \<Rightarrow> (OnChainError, OnChainAttestation) result" where
  "abi_decode bytes =
     (if length bytes \<noteq> 288 then Inl (OcSignatureVerificationFailed (''expected 288 bytes, got '' @ dec_str (length bytes)))
      else Inr \<lparr> oc_statement_digest = be_word (subslice 0 32 bytes), oc_dvrf_value = be_word (subslice 32 64 bytes),
        oc_envelope_digest = be_word (subslice 64 96 bytes), oc_group_verifying_key = be_word (subslice 96 128 bytes),
        oc_aggregate_signature = be_word (subslice 128 160 bytes @ subslice 160 192 bytes),
        oc_threshold = bytes ! 223, oc_verifier_count = bytes ! 255,
        oc_statement_dvrf_binding = be_word (subslice 256 288 bytes) \<rparr>)"

section \<open>Extraction\<close>

definition extract_on_chain_attestation :: "sha \<Rightarrow> bytes32 \<Rightarrow> bytes32 \<Rightarrow> bytes32 \<Rightarrow> FrostThresholdApproval \<Rightarrow> byte \<Rightarrow> byte \<Rightarrow>
    OnChainAttestation" where
  "extract_on_chain_attestation H statement_digest dvrf_value envelope_digest ap thr count =
     \<lparr> oc_statement_digest = statement_digest, oc_dvrf_value = dvrf_value, oc_envelope_digest = envelope_digest,
       oc_group_verifying_key = fta_group_verifying_key_bytes ap,
       oc_aggregate_signature = fta_aggregate_signature_bytes ap,
       oc_threshold = thr, oc_verifier_count = count,
       oc_statement_dvrf_binding = compute_statement_dvrf_binding H statement_digest dvrf_value \<rparr>"

definition derive_onchain_statement_digest :: "sha \<Rightarrow> string \<Rightarrow> byte list \<Rightarrow> bytes32" where
  "derive_onchain_statement_digest H tag content =
     H (str_bytes ''tls-attestation/onchain-statement/v1'' @ [0] @ be64 (of_nat (length (str_bytes tag))) @ str_bytes tag @
        be64 (of_nat (length content)) @ content)"

section \<open>Decoding undoes encoding\<close>

lemma subslice_append [simp]:
  "length xs \<le> i \<Longrightarrow> subslice i j (xs @ ys) = subslice (i - length xs) (j - length xs) ys"
  "length xs = j \<Longrightarrow> subslice 0 j (xs @ ys) = xs"
  by (simp_all add: subslice_def)

lemma length_subslice [simp]: "j \<le> length bs \<Longrightarrow> length (subslice i j bs) = j - i"
  by (simp add: subslice_def)

lemma subslice_split: "i \<le> j \<Longrightarrow> j \<le> k \<Longrightarrow> subslice i j bs @ subslice j k bs = subslice i k bs"
  using take_add[of "j - i" "k - j" "drop i bs"] by (simp add: subslice_def)

lemma subslice_single: "i < length bs \<Longrightarrow> subslice i (Suc i) bs = [bs ! i]"
  by (simp add: subslice_def take_Suc_conv_app_nth)

lemma abi_decode_encode: "abi_decode (abi_encode a) = Inr a"
  by (simp add: abi_decode_def abi_encode_def be_word_be_bytes nth_append subslice_def)

text \<open>A decoded string is the encoding of its attestation exactly when its padding is zero.\<close>

lemma abi_encode_decoded:
  assumes "abi_decode bs = Inr a"
  shows "abi_encode a = subslice 0 192 bs @ replicate 31 0 @ subslice 223 224 bs @ replicate 31 0 @ subslice 255 288 bs"
proof -
  have len: "length bs = 288" and a: "a = \<lparr> oc_statement_digest = be_word (subslice 0 32 bs), oc_dvrf_value = be_word (subslice 32 64 bs),
        oc_envelope_digest = be_word (subslice 64 96 bs), oc_group_verifying_key = be_word (subslice 96 128 bs),
        oc_aggregate_signature = be_word (subslice 128 160 bs @ subslice 160 192 bs),
        oc_threshold = bs ! 223, oc_verifier_count = bs ! 255,
        oc_statement_dvrf_binding = be_word (subslice 256 288 bs) \<rparr>"
    using assms by (auto simp: abi_decode_def split: if_splits)
  have "abi_encode a = subslice 0 32 bs @ subslice 32 64 bs @ subslice 64 96 bs @ subslice 96 128 bs @ subslice 128 160 bs @ subslice 160 192 bs @
      replicate 31 0 @ [bs ! 223] @ replicate 31 0 @ [bs ! 255] @ subslice 256 288 bs"
    by (simp add: a abi_encode_def be_bytes_be_word len)
  also have "\<dots> = subslice 0 192 bs @ replicate 31 0 @ subslice 223 224 bs @ replicate 31 0 @ subslice 255 288 bs"
    using subslice_split[of 0 32 64 bs] subslice_split[of 0 64 96 bs] subslice_split[of 0 96 128 bs] subslice_split[of 0 128 160 bs]
      subslice_split[of 0 160 192 bs] subslice_single[of 223 bs] subslice_single[of 255 bs] subslice_split[of 255 256 288 bs]
    by (simp add: len flip: append_assoc)
  finally show ?thesis .
qed

lemma abi_split:
  assumes "length bs = 288"
  shows "bs = subslice 0 192 bs @ subslice 192 223 bs @ subslice 223 224 bs @ subslice 224 255 bs @ subslice 255 288 bs"
  using subslice_split[of 0 192 223 bs] subslice_split[of 0 223 224 bs] subslice_split[of 0 224 255 bs] subslice_split[of 0 255 288 bs] assms
  by (simp add: subslice_def flip: append_assoc)

lemma abi_canonical:
  "(\<exists>a. abi_encode a = bs) \<longleftrightarrow>
     length bs = 288 \<and> subslice 192 223 bs = replicate 31 0 \<and> subslice 224 255 bs = replicate 31 0"
proof
  assume "\<exists>a. abi_encode a = bs"
  then show "length bs = 288 \<and> subslice 192 223 bs = replicate 31 0 \<and> subslice 224 255 bs = replicate 31 0"
    by (auto simp: abi_encode_def subslice_def)
next
  assume r: "length bs = 288 \<and> subslice 192 223 bs = replicate 31 0 \<and> subslice 224 255 bs = replicate 31 0"
  then obtain a where "abi_decode bs = Inr a" by (simp add: abi_decode_def)
  from abi_encode_decoded[OF this] show "\<exists>a. abi_encode a = bs" using abi_split[of bs] r by auto
qed

section \<open>What verification establishes\<close>

definition oc_signed :: "'vk dalek \<Rightarrow> OnChainAttestation \<Rightarrow> bool" where
  "oc_signed L a \<longleftrightarrow> (\<exists>vk. dl_from_bytes L (oc_group_verifying_key a) = Inr vk \<and>
     dl_verify L vk (arr32 (oc_envelope_digest a)) (oc_aggregate_signature a) = Inr ())"

lemma onchain_verify_eq_Inr:
  "onchain_verify H L a = Inr () \<longleftrightarrow> oc_signed L a \<and> 0 < oc_threshold a \<and> oc_threshold a \<le> oc_verifier_count a \<and>
     oc_statement_dvrf_binding a = compute_statement_dvrf_binding H (oc_statement_digest a) (oc_dvrf_value a)"
  by (auto simp: onchain_verify_def oc_signed_def result_simps word_neq_0_conv not_less split: if_splits)

text \<open>The statement digest and the binding determine what they hash.\<close>

definition stmt_pre :: "string \<times> byte list \<Rightarrow> byte list" where
  "stmt_pre = (\<lambda>(tag, content). str_bytes ''tls-attestation/onchain-statement/v1'' @ [0] @ lp64 (str_bytes tag) @ lp64 content)"

interpretation stmtb: binding stmt_pre "\<lambda>(tag, content). length tag < 2 ^ 64 \<and> length content < 2 ^ 64"
  by standard (auto simp: stmt_pre_def enc_inject)

definition sdb_pre :: "bytes32 \<times> bytes32 \<Rightarrow> byte list" where
  "sdb_pre = (\<lambda>(s, d). str_bytes ''tls-attestation/stmt-dvrf-binding/v1'' @ arr32 s @ arr32 d)"

interpretation sdb: binding sdb_pre "\<lambda>_. True"
  by standard (auto simp: sdb_pre_def enc_inject)

definition dalek_ok :: "('kp, 'n, 'c, 's, 'sp, 'pk) frost \<Rightarrow> 'vk dalek \<Rightarrow> bool" where
  "dalek_ok F L \<longleftrightarrow> (\<forall>k vk s sg m. fr_vk_deserialize F k = Inr vk \<and> fr_sig_deserialize F s = Inr sg \<and> fr_verify F vk m sg = Inr () \<longrightarrow>
     (\<exists>vk'. dl_from_bytes L k = Inr vk' \<and> dl_verify L vk' m s = Inr ()))"

definition dalek_ex :: "bytes32 dalek" where
  "dalek_ex = \<lparr> dl_from_bytes = Inr, dl_verify = fr_verify frost_ex \<rparr>"

lemma dalek_ex_ok: "dalek_ok frost_ex dalek_ex"
  by (auto simp: dalek_ok_def dalek_ex_def frost_ex_def)

text \<open>An approval verifies on chain with the digest that it signs.\<close>

lemma oc_signed_extracted:
  assumes "dalek_ok F L" "verify_signature F ap = Inr ()"
  shows "oc_signed L (extract_on_chain_attestation H s d (digest_bytes (fta_signed_digest ap)) ap t n)"
  using assms
  by (auto simp: oc_signed_def dalek_ok_def verify_signature_eq_Inr extract_on_chain_attestation_def digest_enc_def)

lemma onchain_verify_extracted:
  assumes "dalek_ok F L" "verify_signature F ap = Inr ()" "0 < t" "t \<le> n"
  shows "onchain_verify H L (extract_on_chain_attestation H s d (digest_bytes (fta_signed_digest ap)) ap t n) = Inr ()"
  using oc_signed_extracted[OF assms(1,2)] assms(3,4)
  by (simp add: onchain_verify_eq_Inr) (simp add: extract_on_chain_attestation_def)

section \<open>Properties\<close>

text \<open>The ABI encoding is undone by decoding; it is exactly 288 bytes long.  Decoding is wider than encoding: a
  byte string of the right length is the encoding of some attestation exactly when both padding fields are
  zero, and decoding accepts it in either case.\<close>

theorem onchain_abi_roundtrip:
  "abi_decode (abi_encode a) = Inr a \<and> length (abi_encode a) = 288 \<and>
   ((\<exists>b. abi_decode bs = Inr b) \<longleftrightarrow> length bs = 288) \<and>
   ((\<exists>b. abi_encode b = bs) \<longleftrightarrow>
      length bs = 288 \<and> subslice 192 223 bs = replicate 31 0 \<and> subslice 224 255 bs = replicate 31 0)"
  using abi_decode_encode[of a] abi_canonical[of bs] by (simp add: abi_decode_def) (simp add: abi_encode_def)

text \<open>C29. On-chain verification covers the envelope digest only.  An extracted approval verifies when the digest
  passed is the one that was signed.  But the signed message fixes neither the statement, nor the
  randomness, nor the thresholds: whoever holds a verifying attestation can replace all of them, recompute the
  unkeyed binding, and the result verifies under the same signature.\<close>

theorem onchain_verify_covers_digest_only:
  assumes "dalek_ok F L" "verify_signature F ap = Inr ()"
    and "0 < t" "t \<le> n" "0 < t'" "t' \<le> n'"
  shows "onchain_verify H L (extract_on_chain_attestation H s d (digest_bytes (fta_signed_digest ap)) ap t n) = Inr () \<and>
    onchain_verify H L ((extract_on_chain_attestation H s d (digest_bytes (fta_signed_digest ap)) ap t n)
      \<lparr> oc_statement_digest := s', oc_dvrf_value := d', oc_threshold := t', oc_verifier_count := n',
        oc_statement_dvrf_binding := compute_statement_dvrf_binding H s' d' \<rparr>) = Inr ()"
  using oc_signed_extracted[OF assms(1,2), of H s d t n] assms(3-6)
  by (simp add: onchain_verify_eq_Inr) (simp add: oc_signed_def extract_on_chain_attestation_def)

theorem onchain_verify_covers_digest_only_witness:
  "onchain_verify (\<lambda>_. 7) dalek_ex ((extract_on_chain_attestation (\<lambda>_. 7) 1 2 3 (fta_ex (DigestBytes 3)) 2 3)
      \<lparr> oc_statement_digest := 99, oc_dvrf_value := 98, oc_threshold := 1, oc_verifier_count := 255,
        oc_statement_dvrf_binding := compute_statement_dvrf_binding (\<lambda>_. 7) 99 98 \<rparr>) = Inr ()"
proof -
  have v: "verify_signature frost_ex (fta_ex (DigestBytes 3)) = Inr ()"
    by (simp add: verify_signature_def fta_ex_def)
  have "fta_signed_digest (fta_ex (DigestBytes 3)) = DigestBytes 3" by (simp add: fta_ex_def)
  then show ?thesis
    using conjunct2[OF onchain_verify_covers_digest_only[OF dalek_ex_ok v, of 2 3 1 255 "\<lambda>_. 7" 1 2 99 98]] by simp
qed

end
