(* ===== verification/Deco.thy ===== *)
theory Deco
  imports Session Tls12_Hmac
begin

text \<open>
  The DECO instance of exportable distributed TLS sessions, \<open>attestation/src/deco_dx_dctls.rs\<close>: the three
  phases that establish the MAC key, commit to query and response, and generate the proof, and the
  verification of the proof by an auxiliary verifier.

  The generator \<open>StdRng\<close> is the parameter \<open>std_rng\<close>, from a seed to its first 32 bytes; the \<open>hmac\<close> crate
  is \<open>hm\<close>; the executor of the collaborative proof is the record \<open>CoSnarkExecutor\<close>, as in the source.  The
  lemmas show that a session always produces proofs that verify, that an accepted proof fixes what it is about,
  and which parts of a proof verification does not look at.
\<close>

section \<open>Session parameters and proofs\<close>

record DecoSps = sps_k_mac_prover_share :: bytes32

record DecoSpp = spp_k_mac_verifier_share :: bytes32

record DecoHspProof =
  hp_session_id :: SessionId
  hp_rand :: DigestBytes
  hp_groth16_bytes :: "byte list"
  hp_k_mac_commitment_bytes :: "byte list"
  hp_rand_binding_bytes :: "byte list"
  hp_k_mac :: bytes32
  hp_session_binding :: DigestBytes

record DecoSpv =
  spv_k_mac :: bytes32
  spv_k_mac_commitment :: DigestBytes
  spv_pi_hsp :: DecoHspProof

definition compute_session_binding :: "sha \<Rightarrow> SessionId \<Rightarrow> DigestBytes \<Rightarrow> DigestBytes \<Rightarrow> DigestBytes \<Rightarrow> DigestBytes" where
  "compute_session_binding H session rand k_mac_commitment server_cert_hash =
     ch_finalize H (update_digest server_cert_hash (update_digest k_mac_commitment (update_digest rand
       (update_fixed (arr16 (sid_bytes session)) (ch_new ''tls-attestation/deco-dx-dctls/hsp-binding/v1'')))))"

section \<open>The query phase\<close>

record DecoQueryRecord =
  qr_session_id :: SessionId
  qr_query_commitment :: DigestBytes
  qr_response_commitment :: DigestBytes
  qr_transcript_commitment :: DigestBytes
  qr_server_mac_tag :: bytes32

definition commit_field :: "sha \<Rightarrow> SessionId \<Rightarrow> bytes32 \<Rightarrow> byte list \<Rightarrow> byte list \<Rightarrow> DigestBytes" where
  "commit_field H session k_mac field data =
     ch_finalize H (update_bytes data (update_fixed (arr32 k_mac) (update_fixed (arr16 (sid_bytes session))
       (update_bytes field (ch_new ''tls-attestation/deco-qp'')))))"

definition compute_mac :: "hmac_fun \<Rightarrow> bytes32 \<Rightarrow> byte list \<Rightarrow> bytes32" where
  "compute_mac hm k_mac data = hm (arr32 k_mac) data"

definition qr_commit :: "sha \<Rightarrow> hmac_fun \<Rightarrow> SessionId \<Rightarrow> bytes32 \<Rightarrow> byte list \<Rightarrow> byte list \<Rightarrow> DecoQueryRecord" where
  "qr_commit H hm session k_mac query response = (
     let query_commitment = commit_field H session k_mac (str_bytes ''query'') query;
         response_commitment = commit_field H session k_mac (str_bytes ''response'') response;
         transcript_commitment = ch_finalize H (update_digest response_commitment (update_digest query_commitment
           (ch_new ''tls-attestation/deco-qp/transcript/v1'')))
     in \<lparr> qr_session_id = session, qr_query_commitment = query_commitment, qr_response_commitment = response_commitment,
          qr_transcript_commitment = transcript_commitment, qr_server_mac_tag = compute_mac hm k_mac response \<rparr>)"

definition verify_mac :: "hmac_fun \<Rightarrow> DecoQueryRecord \<Rightarrow> bytes32 \<Rightarrow> byte list \<Rightarrow> bool" where
  "verify_mac hm r k_mac response \<longleftrightarrow> compute_mac hm k_mac response = qr_server_mac_tag r"

section \<open>Proof generation and verification\<close>

record DecoDxDctlsProof =
  dx_pi_hsp :: DecoHspProof
  dx_query_record :: DecoQueryRecord
  dx_statement :: "byte list"
  dx_proof_digest :: DigestBytes
  dx_cross_binding :: DigestBytes

definition dx_generate :: "sha \<Rightarrow> DecoHspProof \<Rightarrow> DecoQueryRecord \<Rightarrow> byte list \<Rightarrow> DecoDxDctlsProof" where
  "dx_generate H pi_hsp r statement =
     \<lparr> dx_pi_hsp = pi_hsp, dx_query_record = r, dx_statement = statement,
       dx_proof_digest = ch_finalize H (update_bytes statement (update_digest (qr_transcript_commitment r)
         (update_fixed (arr16 (sid_bytes (qr_session_id r))) (ch_new ''tls-attestation/deco-pgp/proof/v1'')))),
       dx_cross_binding = ch_finalize H (update_digest (qr_transcript_commitment r)
         (update_digest (hp_session_binding pi_hsp) (ch_new ''tls-attestation/deco-pgp/cross-binding/v1''))) \<rparr>"

datatype DecoDctlsError =
  RandMismatch | HspSessionBindingMismatch | CrossBindingMismatch | ProofDigestMismatch | CoSnarkVerifyFailed | SessionIdMismatch

definition verify_deco_dx_dctls :: "sha \<Rightarrow> DecoDxDctlsProof \<Rightarrow> DigestBytes \<Rightarrow> DigestBytes \<Rightarrow> (DecoDctlsError, unit) result" where
  "verify_deco_dx_dctls H p expected_rand expected_server_cert_hash = (
     if hp_rand (dx_pi_hsp p) \<noteq> expected_rand then Inl RandMismatch
     else let k_mac_commitment = DigestBytes (H (str_bytes ''tls-attestation/co-snark/k-mac/v1'' @ [0] @ arr32 (hp_k_mac (dx_pi_hsp p))));
              expected_session_binding = compute_session_binding H (hp_session_id (dx_pi_hsp p)) expected_rand k_mac_commitment
                expected_server_cert_hash in
     if hp_session_binding (dx_pi_hsp p) \<noteq> expected_session_binding then Inl HspSessionBindingMismatch
     else let expected_cross_binding = ch_finalize H (update_digest (qr_transcript_commitment (dx_query_record p))
            (update_digest (hp_session_binding (dx_pi_hsp p)) (ch_new ''tls-attestation/deco-pgp/cross-binding/v1''))) in
     if dx_cross_binding p \<noteq> expected_cross_binding then Inl CrossBindingMismatch
     else if hp_session_id (dx_pi_hsp p) \<noteq> qr_session_id (dx_query_record p) then Inl SessionIdMismatch
     else let expected_proof_digest = ch_finalize H (update_bytes (dx_statement p)
            (update_digest (qr_transcript_commitment (dx_query_record p))
            (update_fixed (arr16 (sid_bytes (qr_session_id (dx_query_record p)))) (ch_new ''tls-attestation/deco-pgp/proof/v1'')))) in
     if dx_proof_digest p \<noteq> expected_proof_digest then Inl ProofDigestMismatch
     else Inr ())"

section \<open>Sessions\<close>

record CoSnarkRawOutput =
  raw_groth16_bytes :: "byte list"
  raw_k_mac_commitment_bytes :: "byte list"
  raw_rand_binding_bytes :: "byte list"
  raw_k_mac :: bytes32

record CoSnarkExecutor =
  cse_execute :: "bytes32 \<Rightarrow> bytes32 \<Rightarrow> bytes32 \<Rightarrow> (string, CoSnarkRawOutput) result"

text \<open>The default implementation of \<open>execute_split\<close> in the trait.\<close>

definition execute_split :: "CoSnarkExecutor \<Rightarrow> bytes32 \<Rightarrow> bytes32 \<Rightarrow> bytes32 \<Rightarrow> (string, CoSnarkRawOutput) result" where
  "execute_split E p_share v_share rand_binding = cse_execute E p_share v_share rand_binding"

text \<open>\<open>p\<close> is the 32 bytes drawn from the generator.\<close>

definition split_k_mac :: "bytes32 \<Rightarrow> bytes32 \<Rightarrow> bytes32 \<times> bytes32" where
  "split_k_mac k_mac p = (p, k_mac XOR p)"

record DecoAttestationSession =
  das_session_id :: SessionId
  das_sps :: DecoSps
  das_spp :: DecoSpp
  das_spv :: DecoSpv

definition deco_hsp :: "sha \<Rightarrow> (bytes32 \<Rightarrow> bytes32) \<Rightarrow> SessionId \<Rightarrow> DigestBytes \<Rightarrow> DigestBytes \<Rightarrow> CoSnarkExecutor \<Rightarrow>
    (AttestationError, DecoAttestationSession) result" where
  "deco_hsp H std_rng session rand server_cert_hash E = (
     let k_mac_seed = ch_finalize H (update_fixed (arr16 (sid_bytes session)) (update_digest rand
           (ch_new ''tls-attestation/deco-hsp/k-mac-seed/v1'')));
         seed = ch_finalize H (update_fixed (arr16 (sid_bytes session)) (update_digest rand
           (ch_new ''tls-attestation/deco-hsp/split-seed/v1'')));
         (p_share, v_share) = split_k_mac (digest_bytes k_mac_seed) (std_rng (digest_bytes seed))
     in rbind (map_err AttCrypto (cse_execute E p_share v_share (digest_bytes rand))) (\<lambda>raw.
        let k_mac_commitment = DigestBytes (H (str_bytes ''tls-attestation/co-snark/k-mac/v1'' @ [0] @ arr32 (raw_k_mac raw)));
            pi_hsp = \<lparr> hp_session_id = session, hp_rand = rand, hp_groth16_bytes = raw_groth16_bytes raw,
              hp_k_mac_commitment_bytes = raw_k_mac_commitment_bytes raw, hp_rand_binding_bytes = raw_rand_binding_bytes raw,
              hp_k_mac = raw_k_mac raw,
              hp_session_binding = compute_session_binding H session rand k_mac_commitment server_cert_hash \<rparr>
        in Inr \<lparr> das_session_id = session, das_sps = \<lparr> sps_k_mac_prover_share = p_share \<rparr>, das_spp = \<lparr> spp_k_mac_verifier_share = v_share \<rparr>,
             das_spv = \<lparr> spv_k_mac = raw_k_mac raw, spv_k_mac_commitment = k_mac_commitment, spv_pi_hsp = pi_hsp \<rparr> \<rparr>))"

definition deco_qp :: "sha \<Rightarrow> hmac_fun \<Rightarrow> DecoAttestationSession \<Rightarrow> byte list \<Rightarrow> byte list \<Rightarrow> DecoQueryRecord" where
  "deco_qp H hm s query response = qr_commit H hm (das_session_id s) (spv_k_mac (das_spv s)) query response"

definition deco_pgp :: "sha \<Rightarrow> DecoAttestationSession \<Rightarrow> DecoQueryRecord \<Rightarrow> byte list \<Rightarrow> DecoDxDctlsProof" where
  "deco_pgp H s r statement = dx_generate H (spv_pi_hsp (das_spv s)) r statement"

section \<open>What is hashed\<close>

text \<open>The preimages of the commitment to the key, of the session binding, of the cross-binding, of the proof
  digest, and of the commitments to a transcript.\<close>

definition k_mac_pre :: "bytes32 \<Rightarrow> byte list" where
  "k_mac_pre k = str_bytes ''tls-attestation/co-snark/k-mac/v1'' @ [0] @ arr32 k"

definition hsp_pre :: "SessionId \<times> DigestBytes \<times> DigestBytes \<times> DigestBytes \<Rightarrow> byte list" where
  "hsp_pre = (\<lambda>(s, r, k, c). lp32 (str_bytes ''tls-attestation/deco-dx-dctls/hsp-binding/v1'') @ arr16 (sid_bytes s) @
     digest_enc r @ digest_enc k @ digest_enc c)"

definition cross_pre :: "DigestBytes \<times> DigestBytes \<Rightarrow> byte list" where
  "cross_pre = (\<lambda>(b, t). lp32 (str_bytes ''tls-attestation/deco-pgp/cross-binding/v1'') @ digest_enc b @ digest_enc t)"

definition proof_pre :: "SessionId \<times> DigestBytes \<times> byte list \<Rightarrow> byte list" where
  "proof_pre = (\<lambda>(s, t, st). lp32 (str_bytes ''tls-attestation/deco-pgp/proof/v1'') @ arr16 (sid_bytes s) @ digest_enc t @ lp64 st)"

definition field_pre :: "byte list \<times> SessionId \<times> bytes32 \<times> byte list \<Rightarrow> byte list" where
  "field_pre = (\<lambda>(f, s, k, d). lp32 (str_bytes ''tls-attestation/deco-qp'') @ lp64 f @ arr16 (sid_bytes s) @ arr32 k @ lp64 d)"

definition transcript_pre :: "DigestBytes \<times> DigestBytes \<Rightarrow> byte list" where
  "transcript_pre = (\<lambda>(q, r). lp32 (str_bytes ''tls-attestation/deco-qp/transcript/v1'') @ digest_enc q @ digest_enc r)"

interpretation kmb: binding k_mac_pre "\<lambda>_. True"
  by standard (simp add: k_mac_pre_def)

interpretation hspb: binding hsp_pre "\<lambda>_. True"
  by standard (auto simp: hsp_pre_def enc_inject intro: SessionId.expand)

interpretation crossb: binding cross_pre "\<lambda>_. True"
  by standard (auto simp: cross_pre_def enc_inject)

interpretation proofb: binding proof_pre "\<lambda>(s, t, st). length st < 2 ^ 64"
  by standard (auto simp: proof_pre_def enc_inject intro: SessionId.expand)

interpretation fieldb: binding field_pre "\<lambda>(f, s, k, d). length f < 2 ^ 64 \<and> length d < 2 ^ 64"
  by standard (auto simp: field_pre_def enc_inject intro: SessionId.expand)

interpretation transb: binding transcript_pre "\<lambda>_. True"
  by standard (auto simp: transcript_pre_def enc_inject)

definition k_mac_commit :: "sha \<Rightarrow> bytes32 \<Rightarrow> DigestBytes" where
  "k_mac_commit H k = DigestBytes (H (k_mac_pre k))"

lemma compute_session_binding_pre: "compute_session_binding H s r k c = DigestBytes (H (hsp_pre (s, r, k, c)))"
  by (simp add: compute_session_binding_def ch_finalize_def hsp_pre_def)

lemma commit_field_pre: "commit_field H s k f d = DigestBytes (H (field_pre (f, s, k, d)))"
  by (simp add: commit_field_def ch_finalize_def field_pre_def)

text \<open>The transcript commitment fixes session, key, query and response.\<close>

lemma transcript_binds:
  assumes "qr_transcript_commitment (qr_commit H hm s k q r) = qr_transcript_commitment (qr_commit H hm s' k' q' r')"
    and "length q < 2 ^ 64" "length r < 2 ^ 64" "length q' < 2 ^ 64" "length r' < 2 ^ 64"
  defines "query \<equiv> str_bytes ''query''" and "response \<equiv> str_bytes ''response''"
  shows "s = s' \<and> k = k' \<and> q = q' \<and> r = r' \<or>
    collision H (transcript_pre (commit_field H s k query q, commit_field H s k response r))
      (transcript_pre (commit_field H s' k' query q', commit_field H s' k' response r')) \<or>
    collision H (field_pre (query, s, k, q)) (field_pre (query, s', k', q')) \<or>
    collision H (field_pre (response, s, k, r)) (field_pre (response, s', k', r'))"
proof -
  have "H (transcript_pre (commit_field H s k query q, commit_field H s k response r)) =
      H (transcript_pre (commit_field H s' k' query q', commit_field H s' k' response r'))"
    using assms(1) by (simp add: qr_commit_def Let_def ch_finalize_def transcript_pre_def query_def response_def)
  from transb.digest_binds[OF TrueI TrueI this] show ?thesis
  proof
    assume "(commit_field H s k query q, commit_field H s k response r) =
      (commit_field H s' k' query q', commit_field H s' k' response r')"
    then have eq: "H (field_pre (query, s, k, q)) = H (field_pre (query, s', k', q'))"
      "H (field_pre (response, s, k, r)) = H (field_pre (response, s', k', r'))" by (simp_all add: commit_field_pre)
    from fieldb.digest_binds[OF _ _ eq(1)] fieldb.digest_binds[OF _ _ eq(2)] assms(2-5) show ?thesis
      by (auto simp: query_def response_def)
  qed blast
qed

text \<open>What an accepted proof consists of.\<close>

lemma verify_deco_eq_Inr:
  "verify_deco_dx_dctls H p rand cert = Inr () \<longleftrightarrow>
     hp_rand (dx_pi_hsp p) = rand \<and> qr_session_id (dx_query_record p) = hp_session_id (dx_pi_hsp p) \<and>
     hp_session_binding (dx_pi_hsp p) =
       DigestBytes (H (hsp_pre (hp_session_id (dx_pi_hsp p), rand, k_mac_commit H (hp_k_mac (dx_pi_hsp p)), cert))) \<and>
     dx_cross_binding p = DigestBytes (H (cross_pre (hp_session_binding (dx_pi_hsp p), qr_transcript_commitment (dx_query_record p)))) \<and>
     dx_proof_digest p = DigestBytes (H (proof_pre (hp_session_id (dx_pi_hsp p), qr_transcript_commitment (dx_query_record p), dx_statement p)))"
  by (auto simp: verify_deco_dx_dctls_def Let_def compute_session_binding_pre k_mac_commit_def k_mac_pre_def cross_pre_def
      proof_pre_def ch_finalize_def)

lemma deco_hsp_eq_Inr:
  assumes "deco_hsp H std_rng session rand cert E = Inr s"
  obtains p v raw where "cse_execute E p v (digest_bytes rand) = Inr raw"
    "p XOR v = H (lp32 (str_bytes ''tls-attestation/deco-hsp/k-mac-seed/v1'') @ digest_enc rand @ arr16 (sid_bytes session))"
    "sps_k_mac_prover_share (das_sps s) = p" "spp_k_mac_verifier_share (das_spp s) = v" "das_session_id s = session"
    "spv_k_mac (das_spv s) = raw_k_mac raw" "hp_session_id (spv_pi_hsp (das_spv s)) = session"
    "hp_rand (spv_pi_hsp (das_spv s)) = rand" "hp_k_mac (spv_pi_hsp (das_spv s)) = raw_k_mac raw"
    "hp_session_binding (spv_pi_hsp (das_spv s)) = DigestBytes (H (hsp_pre (session, rand, k_mac_commit H (raw_k_mac raw), cert)))"
  using assms
  by (auto simp: deco_hsp_def Let_def split_k_mac_def result_simps ch_finalize_def compute_session_binding_pre
      k_mac_commit_def k_mac_pre_def xor.left_commute)

lemma deco_session_accepted:
  assumes "deco_hsp H std_rng session rand cert E = Inr s"
  shows "verify_deco_dx_dctls H (deco_pgp H s (deco_qp H hm s query response) statement) rand cert = Inr ()"
  using assms
  by (rule deco_hsp_eq_Inr)
    (simp add: verify_deco_eq_Inr deco_pgp_def dx_generate_def deco_qp_def qr_commit_def Let_def ch_finalize_def
      cross_pre_def proof_pre_def)

section \<open>Properties\<close>

text \<open>A session produces proofs that verify.  When the handshake phase returns, the key shares it holds combine
  to a value that randomness and session determine, and for every query, response and statement the proof
  generated from the committed record is accepted under the randomness and the certificate of the session, with a
  server tag that is valid for the response.\<close>

theorem deco_session_verifies:
  assumes "deco_hsp H std_rng session rand cert E = Inr s"
  shows "verify_deco_dx_dctls H (deco_pgp H s (deco_qp H hm s query response) statement) rand cert = Inr () \<and>
    verify_mac hm (deco_qp H hm s query response) (spv_k_mac (das_spv s)) response \<and>
    sps_k_mac_prover_share (das_sps s) XOR spp_k_mac_verifier_share (das_spp s) =
      H (lp32 (str_bytes ''tls-attestation/deco-hsp/k-mac-seed/v1'') @ digest_enc rand @ arr16 (sid_bytes session))"
  using assms deco_session_accepted[OF assms]
  by (elim deco_hsp_eq_Inr) (simp add: deco_qp_def qr_commit_def Let_def verify_mac_def)

definition executor_ex :: CoSnarkExecutor where
  "executor_ex = \<lparr> cse_execute = (\<lambda>p v r. Inr \<lparr> raw_groth16_bytes = [], raw_k_mac_commitment_bytes = [],
     raw_rand_binding_bytes = arr32 r, raw_k_mac = p XOR v \<rparr>) \<rparr>"

lemma deco_hsp_ex: "\<exists>s. deco_hsp H std_rng session rand cert executor_ex = Inr s"
  by (simp add: deco_hsp_def executor_ex_def split_k_mac_def Let_def)

theorem deco_session_verifies_witness:
  "\<exists>s. deco_hsp (\<lambda>_. 7) id (SessionId 1) (DigestBytes 2) (DigestBytes 3) executor_ex = Inr s \<and>
     verify_deco_dx_dctls (\<lambda>_. 7) (deco_pgp (\<lambda>_. 7) s (deco_qp (\<lambda>_. 7) (\<lambda>_ _. 9) s [1] [2]) [3]) (DigestBytes 2) (DigestBytes 3) = Inr ()"
proof -
  obtain s where s: "deco_hsp (\<lambda>_. 7) id (SessionId 1) (DigestBytes 2) (DigestBytes 3) executor_ex = Inr s"
    using deco_hsp_ex by blast
  from deco_session_verifies[OF s, of "\<lambda>_ _. 9" "[1]" "[2]" "[3]"] s show ?thesis by blast
qed

text \<open>The four strings that an accepted proof hashes, in the order in which verification computes them.\<close>

definition deco_pres :: "sha \<Rightarrow> DecoDxDctlsProof \<Rightarrow> DigestBytes \<Rightarrow> DigestBytes \<Rightarrow> byte list list" where
  "deco_pres H p rand cert = (let hp = dx_pi_hsp p; t = qr_transcript_commitment (dx_query_record p) in
     [k_mac_pre (hp_k_mac hp), hsp_pre (hp_session_id hp, rand, k_mac_commit H (hp_k_mac hp), cert),
      cross_pre (hp_session_binding hp, t), proof_pre (hp_session_id hp, t, dx_statement p)])"

text \<open>C27. An accepted proof fixes its session.  Two accepted proofs with the same proof digest and the same
  cross-binding are about the same session, randomness, certificate, key, transcript and statement, unless the two
  strings that verification hashes at one of its four places, one from each proof, are a collision of the hash.\<close>

theorem deco_proof_binds:
  assumes "verify_deco_dx_dctls H p rand cert = Inr ()" "verify_deco_dx_dctls H p' rand' cert' = Inr ()"
    and "dx_proof_digest p = dx_proof_digest p'" "dx_cross_binding p = dx_cross_binding p'"
    and "length (dx_statement p) < 2 ^ 64" "length (dx_statement p') < 2 ^ 64"
  shows "hp_session_id (dx_pi_hsp p) = hp_session_id (dx_pi_hsp p') \<and> rand = rand' \<and> cert = cert' \<and>
      hp_k_mac (dx_pi_hsp p) = hp_k_mac (dx_pi_hsp p') \<and> dx_statement p = dx_statement p' \<and>
      qr_transcript_commitment (dx_query_record p) = qr_transcript_commitment (dx_query_record p') \<or>
    collides H (deco_pres H p rand cert) (deco_pres H p' rand' cert')"
proof -
  note v = assms(1,2)[unfolded verify_deco_eq_Inr]
  let ?hp = "dx_pi_hsp p" and ?hp' = "dx_pi_hsp p'" and ?tc = "qr_transcript_commitment (dx_query_record p)"
    and ?tc' = "qr_transcript_commitment (dx_query_record p')"
  let ?x = "(hp_session_id ?hp, rand, k_mac_commit H (hp_k_mac ?hp), cert)"
    and ?x' = "(hp_session_id ?hp', rand', k_mac_commit H (hp_k_mac ?hp'), cert')"
    and ?y = "(hp_session_id ?hp, ?tc, dx_statement p)" and ?y' = "(hp_session_id ?hp', ?tc', dx_statement p')"
    and ?z = "(hp_session_binding ?hp, ?tc)" and ?z' = "(hp_session_binding ?hp', ?tc')"
  have "H (proof_pre ?y) = H (proof_pre ?y')" using assms(3) v by simp
  from proofb.digest_binds[OF _ _ this] assms(5,6) have pd: "?y = ?y' \<or> collision H (proof_pre ?y) (proof_pre ?y')" by simp
  have "H (cross_pre ?z) = H (cross_pre ?z')" using assms(4) v by simp
  from crossb.digest_binds[OF TrueI TrueI this] have cb: "?z = ?z' \<or> collision H (cross_pre ?z) (cross_pre ?z')" .
  have hb: "?x = ?x' \<or> collision H (hsp_pre ?x) (hsp_pre ?x')" if "?z = ?z'"
  proof -
    have "H (hsp_pre ?x) = H (hsp_pre ?x')" using that v by simp
    from hspb.digest_binds[OF TrueI TrueI this] show ?thesis .
  qed
  have kb: "hp_k_mac ?hp = hp_k_mac ?hp' \<or> collision H (k_mac_pre (hp_k_mac ?hp)) (k_mac_pre (hp_k_mac ?hp'))" if "?x = ?x'"
  proof -
    have "H (k_mac_pre (hp_k_mac ?hp)) = H (k_mac_pre (hp_k_mac ?hp'))" using that by (simp add: k_mac_commit_def)
    from kmb.digest_binds[OF TrueI TrueI this] show ?thesis .
  qed
  have "collides H (deco_pres H p rand cert) (deco_pres H p' rand' cert') \<longleftrightarrow>
      collision H (k_mac_pre (hp_k_mac ?hp)) (k_mac_pre (hp_k_mac ?hp')) \<or> collision H (hsp_pre ?x) (hsp_pre ?x') \<or>
      collision H (cross_pre ?z) (cross_pre ?z') \<or> collision H (proof_pre ?y) (proof_pre ?y')"
    by (simp add: deco_pres_def Let_def)
  then show ?thesis using pd cb hb kb by blast
qed

theorem deco_proof_binds_witness:
  "\<exists>p p'. verify_deco_dx_dctls (\<lambda>_. 7) p (DigestBytes 2) (DigestBytes 3) = Inr () \<and>
     verify_deco_dx_dctls (\<lambda>_. 7) p' (DigestBytes 2) (DigestBytes 3) = Inr () \<and>
     dx_proof_digest p = dx_proof_digest p' \<and> dx_statement p = [3] \<and> dx_statement p' = [4] \<and>
     collides (\<lambda>_. 7 :: bytes32) (deco_pres (\<lambda>_. 7) p (DigestBytes 2) (DigestBytes 3))
       (deco_pres (\<lambda>_. 7) p' (DigestBytes 2) (DigestBytes 3))"
proof -
  obtain s where s: "deco_hsp (\<lambda>_. 7) id (SessionId 1) (DigestBytes 2) (DigestBytes 3) executor_ex = Inr s"
    using deco_hsp_ex by blast
  define p where "p st = deco_pgp (\<lambda>_. 7) s (deco_qp (\<lambda>_. 7) (\<lambda>_ _. 9) s [1] [2]) st" for st
  have v: "verify_deco_dx_dctls (\<lambda>_. 7) (p st) (DigestBytes 2) (DigestBytes 3) = Inr ()" for st
    unfolding p_def by (rule deco_session_accepted[OF s])
  have st: "dx_statement (p st) = st" for st by (simp add: p_def deco_pgp_def dx_generate_def)
  have eq: "dx_proof_digest (p [3]) = dx_proof_digest (p [4])" "dx_cross_binding (p [3]) = dx_cross_binding (p [4])"
    by (simp_all add: p_def deco_pgp_def dx_generate_def ch_finalize_def)
  from deco_proof_binds[OF v[of "[3]"] v[of "[4]"] eq] v eq st show ?thesis
    by (intro exI[of _ "p [3]"] exI[of _ "p [4]"]) simp
qed

text \<open>C28. Verification involves no secret and does not read the response.  For every session, randomness,
  certificate and key, for every statement, every server tag, every commitment and every string of bytes
  in place of the Groth16 proof, there is an accepted proof with exactly these: nothing relates the statement to a
  response, the tag to the key, or the key to the randomness.\<close>

theorem deco_verify_without_secret:
  "\<exists>p. verify_deco_dx_dctls H p rand cert = Inr () \<and> hp_session_id (dx_pi_hsp p) = session \<and>
     hp_k_mac (dx_pi_hsp p) = k \<and> hp_groth16_bytes (dx_pi_hsp p) = groth16 \<and> dx_statement p = statement \<and>
     qr_query_commitment (dx_query_record p) = q \<and> qr_response_commitment (dx_query_record p) = r \<and>
     qr_transcript_commitment (dx_query_record p) = t \<and> qr_server_mac_tag (dx_query_record p) = tag"
proof -
  let ?hp = "\<lparr> hp_session_id = session, hp_rand = rand, hp_groth16_bytes = groth16, hp_k_mac_commitment_bytes = [],
      hp_rand_binding_bytes = [], hp_k_mac = k,
      hp_session_binding = DigestBytes (H (hsp_pre (session, rand, k_mac_commit H k, cert))) \<rparr>"
  let ?qr = "\<lparr> qr_session_id = session, qr_query_commitment = q, qr_response_commitment = r, qr_transcript_commitment = t,
      qr_server_mac_tag = tag \<rparr>"
  show ?thesis
    by (rule exI[of _ "dx_generate H ?hp ?qr statement"])
      (simp add: verify_deco_eq_Inr dx_generate_def ch_finalize_def cross_pre_def proof_pre_def)
qed

end
