(* ===== verification/Co_Snark_Split.thy ===== *)
theory Co_Snark_Split
  imports Co_Snark Dkg_Encrypt
begin

text \<open>
  The split execution of the handshake proof (\<open>zk/src/co_snark_split.rs\<close>): each party masks its share of the MAC key
  with a Diffie-Hellman secret before it sends the share to the coordinator, and the masks cancel when the
  coordinator combines the shares.

  X25519 is the part \<open>bx_public\<close>, \<open>bx_diffie_hellman\<close> of the parameter \<open>box\<close>; \<open>dh_ok\<close> says that both ends derive the same
  secret.  The secret bytes of a party are an argument.  The lemmas show that the split execution discloses the
  same key with the same public inputs as the central one and that its proof verifies.
\<close>

section \<open>The component, in source order\<close>

record MaskedShare =
  dh_public_key :: bytes32
  masked_bytes :: bytes32
  auth_tag :: bytes32

record CoSnarkParty =
  dh_secret :: bytes32
  mac_share :: bytes32

definition party_new :: "bytes32 \<Rightarrow> bytes32 \<Rightarrow> CoSnarkParty" where
  "party_new secret share = \<lparr> dh_secret = secret, mac_share = share \<rparr>"

definition party_public_key :: "box \<Rightarrow> CoSnarkParty \<Rightarrow> bytes32" where
  "party_public_key X p = bx_public X (dh_secret p)"

definition derive_mask :: "sha \<Rightarrow> bytes32 \<Rightarrow> bytes32" where
  "derive_mask H shared_secret = H (str_bytes ''co-snark/dh-mask/v1'' @ [0] @ arr32 shared_secret)"

definition compute_auth_tag :: "sha \<Rightarrow> bytes32 \<Rightarrow> bytes32 \<Rightarrow> bytes32" where
  "compute_auth_tag H shared_secret masked =
     H (str_bytes ''co-snark/mask-auth/v1'' @ [0] @ arr32 shared_secret @ arr32 masked)"

definition compute_masked_share :: "sha \<Rightarrow> box \<Rightarrow> CoSnarkParty \<Rightarrow> bytes32 \<Rightarrow> MaskedShare" where
  "compute_masked_share H X p other_public_key = (
     let own_public_key = bx_public X (dh_secret p);
         shared = bx_diffie_hellman X (dh_secret p) other_public_key;
         masked = mac_share p XOR derive_mask H shared
     in \<lparr> dh_public_key = own_public_key, masked_bytes = masked, auth_tag = compute_auth_tag H shared masked \<rparr>)"

definition co_snark_combine :: "('b, 'u8, 'u32, 'f, 'fr) r1cs \<Rightarrow> ('fr, 'pk, 'vk, 'pvk, 'pf, 'rng) groth \<Rightarrow>
    ('pk, 'pvk) CoSnarkCrs \<Rightarrow> MaskedShare \<Rightarrow> MaskedShare \<Rightarrow> bytes32 \<Rightarrow> bytes32 \<Rightarrow> bytes32 \<Rightarrow> 'rng \<Rightarrow>
    (CoSnarkError, HspZkProof) result" where
  "co_snark_combine G K crs p_share v_share p_dh_pk v_dh_pk rand_binding rng = (
     if dh_public_key p_share \<noteq> p_dh_pk
     then Inl (CoProve ''prover share dh_public_key does not match announced p_dh_pk'')
     else if dh_public_key v_share \<noteq> v_dh_pk
     then Inl (CoProve ''verifier share dh_public_key does not match announced v_dh_pk'')
     else let k_mac = masked_bytes p_share XOR masked_bytes v_share
       in prove_circuit K crs (TlsPrfCircuit_new G k_mac 0 rand_binding) k_mac None rng)"

definition co_snark_execute_split :: "sha \<Rightarrow> box \<Rightarrow> ('b, 'u8, 'u32, 'f, 'fr) r1cs \<Rightarrow>
    ('fr, 'pk, 'vk, 'pvk, 'pf, 'rng) groth \<Rightarrow> ('pk, 'pvk) CoSnarkCrs \<Rightarrow> bytes32 \<Rightarrow> bytes32 \<Rightarrow> bytes32 \<Rightarrow> bytes32 \<Rightarrow>
    bytes32 \<Rightarrow> 'rng \<Rightarrow> (CoSnarkError, HspZkProof) result" where
  "co_snark_execute_split H X G K crs sk_p sk_v p_mac_share v_mac_share rand_binding rng = (
     let party_p = party_new sk_p p_mac_share; party_v = party_new sk_v v_mac_share;
         pk_p = party_public_key X party_p; pk_v = party_public_key X party_v;
         masked_p = compute_masked_share H X party_p pk_v; masked_v = compute_masked_share H X party_v pk_p
     in co_snark_combine G K crs masked_p masked_v pk_p pk_v rand_binding rng)"

record ('pk, 'pvk) SplitCoSnarkBackend =
  split_crs :: "('pk, 'pvk) CoSnarkCrs"

definition split_setup :: "('b, 'u8, 'u32, 'f, 'fr) r1cs \<Rightarrow> ('fr, 'pk, 'vk, 'pvk, 'pf, 'rng) groth \<Rightarrow> 'rng \<Rightarrow>
    (CoSnarkError, ('pk, 'pvk) SplitCoSnarkBackend) result" where
  "split_setup G K rng = rbind (crs_setup G K rng) (\<lambda>crs. Inr \<lparr> split_crs = crs \<rparr>)"

definition split_execute :: "sha \<Rightarrow> box \<Rightarrow> ('b, 'u8, 'u32, 'f, 'fr) r1cs \<Rightarrow>
    ('fr, 'pk, 'vk, 'pvk, 'pf, 'rng) groth \<Rightarrow> ('pk, 'pvk) SplitCoSnarkBackend \<Rightarrow> bytes32 \<Rightarrow> bytes32 \<Rightarrow> bytes32 \<Rightarrow> bytes32 \<Rightarrow>
    bytes32 \<Rightarrow> 'rng \<Rightarrow> (CoSnarkError, HspZkProof) result" where
  "split_execute H X G K be sk_p sk_v p_mac_share v_mac_share rand_binding rng =
     co_snark_execute_split H X G K (split_crs be) sk_p sk_v p_mac_share v_mac_share rand_binding rng"

definition split_verifying_key_bytes :: "('fr, 'pk, 'vk, 'pvk, 'pf, 'rng) groth \<Rightarrow> ('pk, 'pvk) SplitCoSnarkBackend \<Rightarrow>
    byte list" where
  "split_verifying_key_bytes K be = crs_verifying_key_bytes K (split_crs be)"

section \<open>The masks cancel\<close>

definition dh_ok :: "box \<Rightarrow> bool" where
  "dh_ok X \<longleftrightarrow> (\<forall>a b. bx_diffie_hellman X a (bx_public X b) = bx_diffie_hellman X b (bx_public X a))"

lemma box_dh_ok: "box_ok X \<Longrightarrow> dh_ok X"
  by (simp add: box_ok_def dh_ok_def)

lemma masks_cancel:
  assumes "dh_ok X"
  shows "masked_bytes (compute_masked_share H X (party_new a p) (bx_public X b)) XOR
    masked_bytes (compute_masked_share H X (party_new b v) (bx_public X a)) = p XOR v"
proof -
  let ?m = "derive_mask H (bx_diffie_hellman X a (bx_public X b))"
  have "(p XOR ?m) XOR (v XOR ?m) = p XOR v" by (simp add: xor.assoc xor.left_commute xor.commute[of v])
  moreover have "bx_diffie_hellman X b (bx_public X a) = bx_diffie_hellman X a (bx_public X b)"
    using assms by (simp add: dh_ok_def)
  ultimately show ?thesis by (simp add: compute_masked_share_def party_new_def Let_def)
qed

lemma execute_split_eq:
  assumes "dh_ok X"
  shows "co_snark_execute_split H X G K crs sk_p sk_v p v rand_binding rng =
    prove_circuit K crs (TlsPrfCircuit_new G (p XOR v) 0 rand_binding) (p XOR v) None rng"
  using masks_cancel[OF assms, of H sk_p p sk_v v]
  by (simp add: co_snark_execute_split_def co_snark_combine_def Let_def party_public_key_def)
    (simp add: party_new_def compute_masked_share_def Let_def)

text \<open>A mode 1 circuit over any split of a key is proved; the outcome depends on the key only, up to the bytes of the
  Groth16 proof.\<close>

lemma prove_mode1:
  assumes "r1cs_ok G" "sha_ok H" "codec_ok K" "groth_complete G K" and crs: "crs_setup G K rng = Inr crs"
  obtains pf where "prove_circuit K crs (TlsPrfCircuit_new G p v rand_binding) (p XOR v) None rng' = Inr pf"
    "co_snark_verify G K (crs_pvk crs) pf None = Inr ()" "zk_k_mac pf = p XOR v" "pms_hash_bytes pf = []"
    "fr_serialize K (k_mac_commitment G (p XOR v) (bytes32_to_fr G rand_binding)) = Inr (k_mac_commitment_bytes pf)"
    "fr_serialize K (bytes32_to_fr G rand_binding) = Inr (rand_binding_bytes pf)"
proof -
  let ?c = "TlsPrfCircuit_new G p v rand_binding"
  have "circuit_satisfied G ?c"
    by (subst circuit_satisfied_iff[OF assms(1,2) hmac_ref_ok])
      (simp_all add: pms_fits_def prf_relation_def TlsPrfCircuit_new_def Let_def)
  moreover have "same_shape ?c (TlsPrfCircuit_dummy G)"
    by (simp add: same_shape_def circuit_shape_def TlsPrfCircuit_dummy_def TlsPrfCircuit_new_def Let_def)
  moreover have c: "pms_hash_fe ?c = None" "k_mac_commitment G (p XOR v) (rand_binding_fe ?c) = k_mac_commitment_fe ?c"
    "rand_binding_fe ?c = bytes32_to_fr G rand_binding"
    by (simp_all add: TlsPrfCircuit_new_def Let_def xor_shares_def)
  ultimately obtain pf where pr: "prove_circuit K crs ?c (p XOR v) None rng' = Inr pf"
    "zk_k_mac pf = p XOR v" "co_snark_verify G K (crs_pvk crs) pf None = Inr ()"
    using prove_circuit_verifies[OF assms(3,4) crs[unfolded crs_setup_def], of ?c None "p XOR v" rng'] by auto
  show thesis
    by (rule that[OF pr(1,3,2)])
      (use pr(1) c in \<open>auto simp: prove_circuit_def rbind_eq_Inr map_err_eq_Inr\<close>)
qed

section \<open>Properties\<close>

text \<open>C14. The split execution is the central one.  When both parties follow the protocol, the split execution and the
  central execution on the same shares both return proofs that verify, with the same disclosed key, the
  combination of the shares, and the same public inputs; only the bytes of the Groth16 proof may differ.\<close>

theorem split_matches_central:
  assumes "r1cs_ok G" "sha_ok H" "codec_ok K" "groth_complete G K" "dh_ok X"
    and crs: "crs_setup G K rng = Inr crs"
  shows "\<exists>pf pf'. co_snark_execute_split H X G K crs sk_p sk_v p v rand_binding rng' = Inr pf \<and>
    co_snark_execute G K crs (ProverMacKeyShare p) (VerifierMacKeyShare v) rand_binding rng'' = Inr pf' \<and>
    co_snark_verify G K (crs_pvk crs) pf None = Inr () \<and> co_snark_verify G K (crs_pvk crs) pf' None = Inr () \<and>
    zk_k_mac pf = p XOR v \<and> pf' = pf\<lparr> groth16_bytes := groth16_bytes pf' \<rparr>"
proof -
  obtain pf where s: "prove_circuit K crs (TlsPrfCircuit_new G (p XOR v) 0 rand_binding) (p XOR v) None rng' = Inr pf"
    "co_snark_verify G K (crs_pvk crs) pf None = Inr ()" "zk_k_mac pf = p XOR v" "pms_hash_bytes pf = []"
    "fr_serialize K (k_mac_commitment G (p XOR v) (bytes32_to_fr G rand_binding)) = Inr (k_mac_commitment_bytes pf)"
    "fr_serialize K (bytes32_to_fr G rand_binding) = Inr (rand_binding_bytes pf)"
    using prove_mode1[OF assms(1-4) crs, of "p XOR v" 0 rand_binding rng'] by (metis xor.right_neutral)
  obtain pf' where c: "prove_circuit K crs (TlsPrfCircuit_new G p v rand_binding) (p XOR v) None rng'' = Inr pf'"
    "co_snark_verify G K (crs_pvk crs) pf' None = Inr ()" "zk_k_mac pf' = p XOR v" "pms_hash_bytes pf' = []"
    "fr_serialize K (k_mac_commitment G (p XOR v) (bytes32_to_fr G rand_binding)) = Inr (k_mac_commitment_bytes pf')"
    "fr_serialize K (bytes32_to_fr G rand_binding) = Inr (rand_binding_bytes pf')"
    by (rule prove_mode1[OF assms(1-4) crs])
  have "co_snark_execute G K crs (ProverMacKeyShare p) (VerifierMacKeyShare v) rand_binding rng'' = Inr pf'"
    using c(1) by (simp add: co_snark_execute_def Let_def) (simp add: TlsPrfCircuit_new_def Let_def)
  then show ?thesis using s c
    by (intro exI[of _ pf] exI[of _ pf']) (cases pf; cases pf'; simp add: execute_split_eq[OF assms(5)])
qed

theorem split_matches_central_witness:
  "\<exists>pf. co_snark_execute_split sha_ex box_ex r1cs_ex groth_ex crs_ex1 5 6 9 12 3 () = Inr pf \<and>
     zk_k_mac pf = 9 XOR 12 \<and> co_snark_verify r1cs_ex groth_ex (crs_pvk crs_ex1) pf None = Inr ()"
proof -
  have "crs_setup r1cs_ex groth_ex () = Inr crs_ex1" by (simp add: crs_setup_def groth_ex_setup crs_ex1_def)
  from split_matches_central[OF r1cs_ex_ok sha_ex_ok groth_ex_codec groth_ex_complete box_dh_ok[OF box_ex_ok] this,
      of 5 6 9 12 3 "()" "()"]
  show ?thesis by blast
qed

end
