(* ===== verification/Session_Binding.thy ===== *)
theory Session_Binding
  imports Co_Snark
begin

text \<open>
  The session-binding proof of \<open>zk/src/tls_session_binding.rs\<close>: a circuit that ties the MAC key to its commitment and
  to the record MACs of the query and of the response, with its setup, proving and verification.

  Groth16 is generic in the circuit.  The record \<open>sb_groth\<close> holds its setup and prover for this circuit; the
  verification and the codecs are those of the record \<open>groth\<close>.  \<open>sb_complete\<close> and \<open>sb_ksound\<close> are completeness and
  soundness for this circuit, whose constraint system has one shape.  The lemmas characterise the satisfying
  assignments by the native HMAC and show what an accepted proof says of the key.
\<close>

section \<open>The proof system for this circuit\<close>

datatype SessionBindingError = SbSetup string | SbProve string | SbVerify | SbSerialize string

record TlsRecordHeader =
  seq_num :: u64
  content_type :: u8
  tls_version :: u16
  data_len :: u16

definition header_to_bytes :: "TlsRecordHeader \<Rightarrow> byte list" where
  "header_to_bytes h = be64 (seq_num h) @ [content_type h] @ be16 (tls_version h) @ be16 (data_len h)"

record 'fr TlsSessionBindingCircuit =
  tsb_k_mac_commitment_fe :: 'fr
  tsb_rand_binding_fe :: 'fr
  mac_commitment_q_fe :: 'fr
  mac_commitment_r_fe :: 'fr
  tsb_k_mac :: bytes32
  header_q :: TlsRecordHeader
  header_r :: TlsRecordHeader
  query_data_hash :: bytes32
  response_data_hash :: bytes32
  mac_q :: bytes32
  mac_r :: bytes32

record ('fr, 'pk, 'vk, 'pf, 'rng) sb_groth =
  sb_circuit_specific_setup :: "'fr TlsSessionBindingCircuit \<Rightarrow> 'rng \<Rightarrow> (string, 'pk \<times> 'vk) result"
  sb_g_prove :: "'pk \<Rightarrow> 'fr TlsSessionBindingCircuit \<Rightarrow> 'rng \<Rightarrow> (string, 'pf) result"

section \<open>The component, in source order\<close>

definition tsb_new :: "('b, 'u8, 'u32, 'f, 'fr) r1cs \<Rightarrow> bytes32 \<Rightarrow> bytes32 \<Rightarrow> TlsRecordHeader \<Rightarrow> TlsRecordHeader \<Rightarrow>
    bytes32 \<Rightarrow> bytes32 \<Rightarrow> bytes32 \<Rightarrow> bytes32 \<Rightarrow> 'fr TlsSessionBindingCircuit" where
  "tsb_new G k_mac rand_binding hq hr qh rh mq mr = (
     let rand_fe = bytes32_to_fr G rand_binding in
     \<lparr> tsb_k_mac_commitment_fe = k_mac_commitment G k_mac rand_fe, tsb_rand_binding_fe = rand_fe,
       mac_commitment_q_fe = fr_add G (bytes32_to_fr G mq) rand_fe,
       mac_commitment_r_fe = fr_add G (bytes32_to_fr G mr) rand_fe,
       tsb_k_mac = k_mac, header_q = hq, header_r = hr, query_data_hash = qh, response_data_hash = rh,
       mac_q = mq, mac_r = mr \<rparr>)"

text \<open>A synthesis error of the dummy MAC is replaced by zeros; a panic is \<open>None\<close>.\<close>

definition tsb_dummy :: "sha \<Rightarrow> ('b, 'u8, 'u32, 'f, 'fr) r1cs \<Rightarrow> 'fr TlsSessionBindingCircuit option" where
  "tsb_dummy H G = (
     let dummy_header = \<lparr> seq_num = 0, content_type = 23, tls_version = 0x0303, data_len = 32 \<rparr>;
         ones = be_word (replicate 32 1);
         dummy_mac = (case hmac_sha256_gadget H G (replicate 32 1) (header_to_bytes dummy_header @ replicate 32 0) of
             Inr mac \<Rightarrow> Some (be_word mac)
           | Inl (Synthesis _) \<Rightarrow> Some 0
           | Inl _ \<Rightarrow> None)
     in map_option (\<lambda>mac. tsb_new G ones 0 dummy_header dummy_header 0 0 mac mac) dummy_mac)"

definition hmac_input :: "TlsRecordHeader \<Rightarrow> bytes32 \<Rightarrow> byte list" where
  "hmac_input header data_hash = header_to_bytes header @ arr32 data_hash"

definition tsb_generate_constraints :: "('b, 'u8, 'u32, 'f, 'fr) r1cs \<Rightarrow> 'fr TlsSessionBindingCircuit \<Rightarrow>
    'f constraints synth" where
  "tsb_generate_constraints G c =
     rbind (f_new_input G (tsb_k_mac_commitment_fe c)) (\<lambda>expected_k_mac_commit.
     rbind (f_new_input G (tsb_rand_binding_fe c)) (\<lambda>rand_binding.
     rbind (f_new_input G (mac_commitment_q_fe c)) (\<lambda>expected_mac_commit_q.
     rbind (f_new_input G (mac_commitment_r_fe c)) (\<lambda>expected_mac_commit_r.
     rbind (collect_ok (u8_new_witness G) (arr32 (tsb_k_mac c))) (\<lambda>k_mac_vars.
     rbind (pack_bytes_to_fpvar G k_mac_vars) (\<lambda>packed_k_mac.
     rbind (collect_ok (u8_new_witness G) (header_to_bytes (header_q c))) (\<lambda>hdr_q_vars.
     rbind (collect_ok (u8_new_witness G) (header_to_bytes (header_r c))) (\<lambda>hdr_r_vars.
     rbind (collect_ok (u8_new_witness G) (arr32 (query_data_hash c))) (\<lambda>qdh_vars.
     rbind (collect_ok (u8_new_witness G) (arr32 (response_data_hash c))) (\<lambda>rdh_vars.
     rbind (hmac_sha256_gadget_constrained G k_mac_vars (hdr_q_vars @ qdh_vars)) (\<lambda>computed_mac_q.
     rbind (pack_bytes_to_fpvar G computed_mac_q) (\<lambda>packed_mac_q.
     rbind (hmac_sha256_gadget_constrained G k_mac_vars (hdr_r_vars @ rdh_vars)) (\<lambda>computed_mac_r.
     rbind (pack_bytes_to_fpvar G computed_mac_r) (\<lambda>packed_mac_r.
       Inr [(f_add G packed_k_mac rand_binding, expected_k_mac_commit),
            (f_add G packed_mac_q rand_binding, expected_mac_commit_q),
            (f_add G packed_mac_r rand_binding, expected_mac_commit_r)]))))))))))))))"

record ('pk, 'pvk) SessionBindingCrs =
  sb_pk :: 'pk
  sb_pvk :: 'pvk

definition sb_setup :: "sha \<Rightarrow> ('b, 'u8, 'u32, 'f, 'fr) r1cs \<Rightarrow> ('fr, 'pk, 'vk, 'pvk, 'pf, 'rng) groth \<Rightarrow>
    ('fr, 'pk, 'vk, 'pf, 'rng) sb_groth \<Rightarrow> 'rng \<Rightarrow>
    (SessionBindingError, ('pk, 'pvk) SessionBindingCrs) result option" where
  "sb_setup H G K S rng = map_option (\<lambda>circuit.
     rbind (map_err SbSetup (sb_circuit_specific_setup S circuit rng)) (\<lambda>(pk, vk).
     rbind (map_err SbSetup (process_vk K vk)) (\<lambda>pvk.
       Inr \<lparr> sb_pk = pk, sb_pvk = pvk \<rparr>))) (tsb_dummy H G)"

definition sb_verifying_key_bytes :: "('fr, 'pk, 'vk, 'pvk, 'pf, 'rng) groth \<Rightarrow> ('pk, 'pvk) SessionBindingCrs \<Rightarrow>
    byte list" where
  "sb_verifying_key_bytes K crs = pvk_serialize K (sb_pvk crs)"

record SessionBindingProof =
  sbp_groth16_bytes :: "byte list"
  sbp_k_mac_commitment_bytes :: "byte list"
  sbp_rand_binding_bytes :: "byte list"
  mac_commitment_q_bytes :: "byte list"
  mac_commitment_r_bytes :: "byte list"

definition session_binding_prove :: "('b, 'u8, 'u32, 'f, 'fr) r1cs \<Rightarrow> ('fr, 'pk, 'vk, 'pvk, 'pf, 'rng) groth \<Rightarrow>
    ('fr, 'pk, 'vk, 'pf, 'rng) sb_groth \<Rightarrow> ('pk, 'pvk) SessionBindingCrs \<Rightarrow> bytes32 \<Rightarrow> bytes32 \<Rightarrow>
    TlsRecordHeader \<Rightarrow> TlsRecordHeader \<Rightarrow> bytes32 \<Rightarrow> bytes32 \<Rightarrow> bytes32 \<Rightarrow> bytes32 \<Rightarrow> 'rng \<Rightarrow>
    (SessionBindingError, SessionBindingProof) result" where
  "session_binding_prove G K S crs k_mac rand_binding hq hr qh rh mq mr rng = (
     let circuit = tsb_new G k_mac rand_binding hq hr qh rh mq mr in
     rbind (map_err SbProve (sb_g_prove S (sb_pk crs) circuit rng)) (\<lambda>proof.
     rbind (map_err SbSerialize (pf_serialize K proof)) (\<lambda>groth16.
     rbind (map_err SbSerialize (fr_serialize K (tsb_k_mac_commitment_fe circuit))) (\<lambda>k_mac_commitment.
     rbind (map_err SbSerialize (fr_serialize K (tsb_rand_binding_fe circuit))) (\<lambda>rand_bytes.
     rbind (map_err SbSerialize (fr_serialize K (mac_commitment_q_fe circuit))) (\<lambda>mac_q_bytes.
     rbind (map_err SbSerialize (fr_serialize K (mac_commitment_r_fe circuit))) (\<lambda>mac_r_bytes.
       Inr \<lparr> sbp_groth16_bytes = groth16, sbp_k_mac_commitment_bytes = k_mac_commitment,
             sbp_rand_binding_bytes = rand_bytes, mac_commitment_q_bytes = mac_q_bytes,
             mac_commitment_r_bytes = mac_r_bytes \<rparr>)))))))"

definition session_binding_verify :: "('fr, 'pk, 'vk, 'pvk, 'pf, 'rng) groth \<Rightarrow> 'pvk \<Rightarrow> SessionBindingProof \<Rightarrow>
    byte list \<Rightarrow> (SessionBindingError, unit) result" where
  "session_binding_verify K pvk proof expected_k_mac_commitment_bytes =
     rbind (map_err (\<lambda>e. SbSerialize (''proof deserialize: '' @ e))
       (pf_deserialize K (sbp_groth16_bytes proof))) (\<lambda>groth16_proof.
     rbind (map_err (\<lambda>e. SbSerialize (''k_mac_commitment deserialize: '' @ e))
       (fr_deserialize K (sbp_k_mac_commitment_bytes proof))) (\<lambda>k_mac_commit_fe.
     rbind (map_err (\<lambda>e. SbSerialize (''rand_binding deserialize: '' @ e))
       (fr_deserialize K (sbp_rand_binding_bytes proof))) (\<lambda>rand_fe.
     rbind (map_err (\<lambda>e. SbSerialize (''mac_q deserialize: '' @ e))
       (fr_deserialize K (mac_commitment_q_bytes proof))) (\<lambda>mac_q_fe.
     rbind (map_err (\<lambda>e. SbSerialize (''mac_r deserialize: '' @ e))
       (fr_deserialize K (mac_commitment_r_bytes proof))) (\<lambda>mac_r_fe.
     rbind (map_err SbProve (verify_with_processed_vk K pvk [k_mac_commit_fe, rand_fe, mac_q_fe, mac_r_fe]
       groth16_proof)) (\<lambda>valid.
     if \<not> valid then Inl SbVerify
     else if expected_k_mac_commitment_bytes \<noteq> [] then
       rbind (map_err (\<lambda>e. SbSerialize (''expected_k_mac_commitment deserialize: '' @ e))
         (fr_deserialize K expected_k_mac_commitment_bytes)) (\<lambda>expected_fe.
         if k_mac_commit_fe \<noteq> expected_fe then Inl SbVerify else Inr ())
     else Inr ()))))))"

section \<open>What the circuit proves\<close>

definition tsb_relation :: "hmac_fun \<Rightarrow> ('b, 'u8, 'u32, 'f, 'fr) r1cs \<Rightarrow> 'fr TlsSessionBindingCircuit \<Rightarrow> bool" where
  "tsb_relation hm G c \<longleftrightarrow>
     k_mac_commitment G (tsb_k_mac c) (tsb_rand_binding_fe c) = tsb_k_mac_commitment_fe c \<and>
     fr_add G (bytes32_to_fr G (hm (arr32 (tsb_k_mac c)) (hmac_input (header_q c) (query_data_hash c))))
       (tsb_rand_binding_fe c) = mac_commitment_q_fe c \<and>
     fr_add G (bytes32_to_fr G (hm (arr32 (tsb_k_mac c)) (hmac_input (header_r c) (response_data_hash c))))
       (tsb_rand_binding_fe c) = mac_commitment_r_fe c"

lemma tsb_generate_constraints_value:
  assumes ok: "r1cs_ok G" and H: "sha_ok H" and hm: "hmac_ok H hm"
  shows "gets (enforces G) (tsb_generate_constraints G c) (tsb_relation hm G c)"
  unfolding tsb_generate_constraints_def
proof (rule gets_rbind[OF field_laws(2)[OF ok]], rule gets_rbind[OF field_laws(2)[OF ok]],
    rule gets_rbind[OF field_laws(2)[OF ok]], rule gets_rbind[OF field_laws(2)[OF ok]],
    rule gets_rbind[OF witnesses_value[OF ok]], rule gets_rbind[OF pack_bytes_value[OF ok]], assumption,
    rule gets_rbind[OF witnesses_value[OF ok]], rule gets_rbind[OF witnesses_value[OF ok]],
    rule gets_rbind[OF witnesses_value[OF ok]], rule gets_rbind[OF witnesses_value[OF ok]])
  fix ek rb eq er kv x hq hr qv rv
  assume e: "AF G ek (tsb_k_mac_commitment_fe c)" "AF G eq (mac_commitment_q_fe c)" "AF G er (mac_commitment_r_fe c)"
    and rb: "AF G rb (tsb_rand_binding_fe c)" and kv: "list_all2 (A8 G) kv (arr32 (tsb_k_mac c))"
    and x: "AF G x (bytes32_to_fr G (tsb_k_mac c))"
    and q: "list_all2 (A8 G) hq (header_to_bytes (header_q c))" "list_all2 (A8 G) qv (arr32 (query_data_hash c))"
    and r: "list_all2 (A8 G) hr (header_to_bytes (header_r c))" "list_all2 (A8 G) rv (arr32 (response_data_hash c))"
  have hmac: "gets (list_all2 (A8 G)) (hmac_sha256_gadget_constrained G kv (hv @ dv))
      (arr32 (hm (arr32 (tsb_k_mac c)) (hmac_input h d)))"
    if "list_all2 (A8 G) hv (header_to_bytes h)" "list_all2 (A8 G) dv (arr32 d)" for hv h dv d
    using hmac_constrained_value[OF ok H kv _ list_all2_appendI[OF that]] hm
    by (simp add: hmac_ok_def hmac_input_def)
  show "gets (enforces G)
    (rbind (hmac_sha256_gadget_constrained G kv (hq @ qv)) (\<lambda>mq. rbind (pack_bytes_to_fpvar G mq) (\<lambda>y.
     rbind (hmac_sha256_gadget_constrained G kv (hr @ rv)) (\<lambda>mr. rbind (pack_bytes_to_fpvar G mr) (\<lambda>z.
       Inr [(f_add G x rb, ek), (f_add G y rb, eq), (f_add G z rb, er)]))))) (tsb_relation hm G c)"
    by (rule gets_rbind[OF hmac[OF q]], rule gets_rbind[OF pack_bytes_value[OF ok]], assumption,
        rule gets_rbind[OF hmac[OF r]], rule gets_rbind[OF pack_bytes_value[OF ok]], assumption)
      (simp add: enforces_def tsb_relation_def k_mac_commitment_def AF_eq_iff[OF field_laws(4)[OF ok x rb] e(1)]
        AF_eq_iff[OF field_laws(4)[OF ok _ rb] e(2)] AF_eq_iff[OF field_laws(4)[OF ok _ rb] e(3)])
qed

section \<open>What is relied on\<close>

definition tsb_satisfied :: "('b, 'u8, 'u32, 'f, 'fr) r1cs \<Rightarrow> 'fr TlsSessionBindingCircuit \<Rightarrow> bool" where
  "tsb_satisfied G c \<longleftrightarrow> (\<exists>cs. tsb_generate_constraints G c = Inr cs \<and> satisfied G cs)"

definition tsb_public_inputs :: "'fr TlsSessionBindingCircuit \<Rightarrow> 'fr list" where
  "tsb_public_inputs c =
     [tsb_k_mac_commitment_fe c, tsb_rand_binding_fe c, mac_commitment_q_fe c, mac_commitment_r_fe c]"

definition sb_complete :: "sha \<Rightarrow> ('b, 'u8, 'u32, 'f, 'fr) r1cs \<Rightarrow> ('fr, 'pk, 'vk, 'pvk, 'pf, 'rng) groth \<Rightarrow>
    ('fr, 'pk, 'vk, 'pf, 'rng) sb_groth \<Rightarrow> bool" where
  "sb_complete H G K S \<longleftrightarrow> (\<forall>rng crs c rng'. sb_setup H G K S rng = Some (Inr crs) \<longrightarrow> tsb_satisfied G c \<longrightarrow>
     (\<exists>pf. sb_g_prove S (sb_pk crs) c rng' = Inr pf \<and>
        verify_with_processed_vk K (sb_pvk crs) (tsb_public_inputs c) pf = Inr True))"

definition sb_ksound :: "sha \<Rightarrow> ('b, 'u8, 'u32, 'f, 'fr) r1cs \<Rightarrow> ('fr, 'pk, 'vk, 'pvk, 'pf, 'rng) groth \<Rightarrow>
    ('fr, 'pk, 'vk, 'pf, 'rng) sb_groth \<Rightarrow> bool" where
  "sb_ksound H G K S \<longleftrightarrow> (\<forall>rng crs inputs pf. sb_setup H G K S rng = Some (Inr crs) \<longrightarrow>
     verify_with_processed_vk K (sb_pvk crs) inputs pf = Inr True \<longrightarrow>
     (\<exists>c. tsb_public_inputs c = inputs \<and> tsb_satisfied G c))"

lemma tsb_satisfied_iff:
  assumes "r1cs_ok G" "sha_ok H" "hmac_ok H hm"
  shows "tsb_satisfied G c \<longleftrightarrow> tsb_relation hm G c"
  using tsb_generate_constraints_value[OF assms, of c] by (auto simp: tsb_satisfied_def gets_def enforces_def)

section \<open>Proving and verifying\<close>

lemma session_binding_verify_eq_Inr:
  "session_binding_verify K pvk proof expected = Inr () \<longleftrightarrow>
     (\<exists>pf k r q s. pf_deserialize K (sbp_groth16_bytes proof) = Inr pf \<and>
        fr_deserialize K (sbp_k_mac_commitment_bytes proof) = Inr k \<and>
        fr_deserialize K (sbp_rand_binding_bytes proof) = Inr r \<and>
        fr_deserialize K (mac_commitment_q_bytes proof) = Inr q \<and>
        fr_deserialize K (mac_commitment_r_bytes proof) = Inr s \<and>
        verify_with_processed_vk K pvk [k, r, q, s] pf = Inr True \<and>
        (expected = [] \<or> fr_deserialize K expected = Inr k))"
  by (cases "expected = []") (auto simp: session_binding_verify_def rbind_eq_Inr map_err_eq_Inr split: if_splits)

text \<open>The genuine record MACs of any key are proved, and the proof verifies against the commitment of the key under
  the randomness it was made with.\<close>

lemma session_binding_prove_verifies:
  assumes ok: "r1cs_ok G" "sha_ok H" "hmac_ok H hm" and K: "codec_ok K" "sb_complete H G K S"
    and crs: "sb_setup H G K S rng = Some (Inr crs)"
    and expected: "fr_deserialize K expected = Inr (k_mac_commitment G k (bytes32_to_fr G rand_binding))"
  shows "\<exists>proof. session_binding_prove G K S crs k rand_binding hq hr qh rh (hm (arr32 k) (hmac_input hq qh))
      (hm (arr32 k) (hmac_input hr rh)) rng' = Inr proof \<and>
    session_binding_verify K (sb_pvk crs) proof expected = Inr ()"
proof -
  let ?c = "tsb_new G k rand_binding hq hr qh rh (hm (arr32 k) (hmac_input hq qh)) (hm (arr32 k) (hmac_input hr rh))"
  have "tsb_satisfied G ?c"
    by (simp add: tsb_satisfied_iff[OF ok] tsb_relation_def tsb_new_def Let_def)
  then obtain pf where pf: "sb_g_prove S (sb_pk crs) ?c rng' = Inr pf"
    "verify_with_processed_vk K (sb_pvk crs) (tsb_public_inputs ?c) pf = Inr True"
    using K(2) crs unfolding sb_complete_def by blast
  obtain b where b: "pf_serialize K pf = Inr b" "pf_deserialize K b = Inr pf" by (rule codecD[OF K(1)])
  obtain kb where kb: "fr_serialize K (tsb_k_mac_commitment_fe ?c) = Inr kb"
    "fr_deserialize K kb = Inr (tsb_k_mac_commitment_fe ?c)" by (rule fr_codecD[OF K(1)])
  obtain rb where rb: "fr_serialize K (tsb_rand_binding_fe ?c) = Inr rb"
    "fr_deserialize K rb = Inr (tsb_rand_binding_fe ?c)" by (rule fr_codecD[OF K(1)])
  obtain qb where qb: "fr_serialize K (mac_commitment_q_fe ?c) = Inr qb"
    "fr_deserialize K qb = Inr (mac_commitment_q_fe ?c)" by (rule fr_codecD[OF K(1)])
  obtain sb where sb: "fr_serialize K (mac_commitment_r_fe ?c) = Inr sb"
    "fr_deserialize K sb = Inr (mac_commitment_r_fe ?c)" by (rule fr_codecD[OF K(1)])
  have "fr_deserialize K expected = Inr (tsb_k_mac_commitment_fe ?c)"
    using expected by (simp add: tsb_new_def Let_def)
  then show ?thesis
    using pf b(2) kb(2) rb(2) qb(2) sb(2)
    by (simp add: session_binding_prove_def Let_def b(1) kb(1) rb(1) qb(1) sb(1) session_binding_verify_eq_Inr
        tsb_public_inputs_def)
qed

text \<open>Packing reaches every field element: the modulus is below two to the power 254.\<close>

lemma bytes32_to_fr_surj:
  assumes "r1cs_ok G"
  obtains w where "bytes32_to_fr G w = u"
proof -
  define n where "n = fr_into_bigint G u"
  have n: "n < FR_MODULUS" by (simp add: n_def fr_laws(1)[OF assms])
  define w :: bytes32 where "w = be_word (rev (arr32 (of_nat n)))"
  have unat: "unat (of_nat n :: bytes32) = n"
    using n by (simp add: unsigned_of_nat take_bit_nat_eq_self FR_MODULUS_def)
  have "horner_sum unat 256 (arr32 w) = take_bit 256 n"
    using horner_rev_be_bytes[of 32 "of_nat n :: bytes32"] by (simp add: w_def be_bytes_be_word unat)
  then have "take_bit 254 (horner_sum unat 256 (arr32 w)) = n"
    using n by (simp add: take_bit_nat_eq_self FR_MODULUS_def)
  then have "fr_into_bigint G (bytes32_to_fr G w) = fr_into_bigint G u"
    using n by (simp add: bytes32_to_fr_take_bit[OF assms] n_def)
  then show thesis using that fr_laws(2)[OF assms] by blast
qed

lemma fr_difference:
  assumes "r1cs_ok G"
  obtains w where "fr_add G u (bytes32_to_fr G w) = v"
proof -
  let ?i = "fr_into_bigint G"
  define n where "n = (?i v + (FR_MODULUS - ?i u)) mod FR_MODULUS"
  have "?i u < FR_MODULUS" "?i v < FR_MODULUS" by (rule fr_laws(1)[OF assms])+
  then have sum: "(?i u + n) mod FR_MODULUS = ?i v"
    by (simp add: n_def mod_add_right_eq)
  have "n < FR_MODULUS" by (simp add: n_def FR_MODULUS_def)
  obtain d where d: "?i d = n"
  proof -
    have "?i (fr_from_le_bytes_mod_order G (rev (arr32 (of_nat n)))) = n"
      using horner_rev_be_bytes[of 32 "of_nat n :: bytes32"] \<open>n < FR_MODULUS\<close>
      by (simp add: fr_laws(7)[OF assms] unsigned_of_nat take_bit_nat_eq_self FR_MODULUS_def)
    then show thesis by (rule that)
  qed
  obtain w where "bytes32_to_fr G w = d" by (rule bytes32_to_fr_surj[OF assms])
  moreover have "fr_add G u d = v"
    by (rule fr_laws(2)[OF assms]) (simp add: fr_laws(5)[OF assms] d sum)
  ultimately show thesis using that by blast
qed

section \<open>An instance\<close>

definition groth_sb_ex :: "(fr_rep, shape, shape, shape, unit, unit) groth" where
  "groth_sb_ex = groth_ex\<lparr> verify_with_processed_vk := (\<lambda>_ inputs _.
     Inr (\<exists>c. tsb_public_inputs c = inputs \<and> tsb_satisfied r1cs_ex c)) \<rparr>"

definition sb_groth_ex :: "(fr_rep, shape, shape, unit, unit) sb_groth" where
  "sb_groth_ex = \<lparr> sb_circuit_specific_setup = (\<lambda>_ _. Inr ((None, True, True, True), (None, True, True, True))),
     sb_g_prove = (\<lambda>_ _ _. Inr ()) \<rparr>"

definition sb_crs_ex :: "(shape, shape) SessionBindingCrs" where
  "sb_crs_ex = \<lparr> sb_pk = (None, True, True, True), sb_pvk = (None, True, True, True) \<rparr>"

lemma groth_sb_ex_codec: "codec_ok groth_sb_ex"
  using groth_ex_codec by (simp add: codec_ok_def groth_sb_ex_def)

lemma sb_crs_ex_setup: "sb_setup sha_ex r1cs_ex groth_sb_ex sb_groth_ex () = Some (Inr sb_crs_ex)"
  by (simp add: sb_setup_def tsb_dummy_def Let_def hmac_gadget_value[OF r1cs_ex_ok sha_ex_ok])
    (simp add: groth_sb_ex_def groth_ex_def sb_groth_ex_def sb_crs_ex_def)

lemma groth_sb_ex_complete: "sb_complete sha_ex r1cs_ex groth_sb_ex sb_groth_ex"
  by (auto simp: sb_complete_def groth_sb_ex_def sb_groth_ex_def)

lemma groth_sb_ex_sound: "sb_ksound sha_ex r1cs_ex groth_sb_ex sb_groth_ex"
  by (auto simp: sb_ksound_def groth_sb_ex_def)

section \<open>Properties\<close>

text \<open>C15. A session-binding proof that is accepted against an expected commitment was made with a key that opens this
  commitment under the randomness the proof carries, and its two other public inputs are the commitments, under
  the same randomness, of the record MACs that this key gives two records.\<close>

theorem session_binding_sound:
  assumes "r1cs_ok G" "sha_ok H" "hmac_ok H hm" "sb_ksound H G K S"
    and crs: "sb_setup H G K S rng = Some (Inr crs)"
    and accepted: "session_binding_verify K (sb_pvk crs) proof expected = Inr ()" and "expected \<noteq> []"
  shows "\<exists>r k hq qh hr rh. fr_deserialize K (sbp_rand_binding_bytes proof) = Inr r \<and>
    fr_deserialize K expected = Inr (k_mac_commitment G k r) \<and>
    fr_deserialize K (mac_commitment_q_bytes proof) =
      Inr (fr_add G (bytes32_to_fr G (hm (arr32 k) (hmac_input hq qh))) r) \<and>
    fr_deserialize K (mac_commitment_r_bytes proof) =
      Inr (fr_add G (bytes32_to_fr G (hm (arr32 k) (hmac_input hr rh))) r)"
proof -
  from accepted \<open>expected \<noteq> []\<close> obtain pf e r q s where
    d: "fr_deserialize K (sbp_rand_binding_bytes proof) = Inr r" "fr_deserialize K expected = Inr e"
      "fr_deserialize K (mac_commitment_q_bytes proof) = Inr q"
      "fr_deserialize K (mac_commitment_r_bytes proof) = Inr s"
    and ver: "verify_with_processed_vk K (sb_pvk crs) [e, r, q, s] pf = Inr True"
    unfolding session_binding_verify_eq_Inr by blast
  obtain c where c: "tsb_public_inputs c = [e, r, q, s]" "tsb_satisfied G c"
    using assms(4) crs ver unfolding sb_ksound_def by blast
  then show ?thesis
    unfolding tsb_satisfied_iff[OF assms(1-3)] d
    by (intro exI[of _ r] exI[of _ "tsb_k_mac c"] exI[of _ "header_q c"] exI[of _ "query_data_hash c"]
        exI[of _ "header_r c"] exI[of _ "response_data_hash c"])
      (simp add: tsb_relation_def tsb_public_inputs_def)
qed

text \<open>C16. The commitment does not fix the key.  The randomness is read from the proof and never compared with that
  of the handshake proof, so for every key, every pair of records and every expected commitment some randomness
  makes the prover return a proof that is accepted against this commitment.\<close>

theorem session_binding_any_key:
  assumes "r1cs_ok G" "sha_ok H" "hmac_ok H hm" "codec_ok K" "sb_complete H G K S"
    and "sb_setup H G K S rng = Some (Inr crs)" and "fr_deserialize K expected = Inr e"
  shows "\<exists>rand_binding proof. session_binding_prove G K S crs k rand_binding hq hr qh rh
      (hm (arr32 k) (hmac_input hq qh)) (hm (arr32 k) (hmac_input hr rh)) rng' = Inr proof \<and>
    session_binding_verify K (sb_pvk crs) proof expected = Inr ()"
proof -
  obtain w where "fr_add G (bytes32_to_fr G k) (bytes32_to_fr G w) = e" by (rule fr_difference[OF assms(1)])
  then have "fr_deserialize K expected = Inr (k_mac_commitment G k (bytes32_to_fr G w))"
    using assms(7) by (simp add: k_mac_commitment_def)
  from session_binding_prove_verifies[OF assms(1-6) this] show ?thesis by blast
qed

definition hdr_ex :: TlsRecordHeader where
  "hdr_ex = \<lparr> seq_num = 1, content_type = 23, tls_version = 0x0303, data_len = 5 \<rparr>"

lemma groth_sb_ex_fr: "fr_deserialize groth_sb_ex (arr32 (of_nat (fr_nat x))) = Inr x"
  using groth_ex_fr(1)[of x] by (simp add: groth_sb_ex_def)

theorem session_binding_any_key_witness:
  "\<exists>rand_binding proof. session_binding_prove r1cs_ex groth_sb_ex sb_groth_ex sb_crs_ex 77 rand_binding hdr_ex hdr_ex 8 9
      (hmac_ref sha_ex (arr32 77) (hmac_input hdr_ex 8)) (hmac_ref sha_ex (arr32 77) (hmac_input hdr_ex 9)) () = Inr proof \<and>
    session_binding_verify groth_sb_ex (sb_pvk sb_crs_ex) proof
      (arr32 (of_nat (fr_nat (k_mac_commitment r1cs_ex 5 (bytes32_to_fr r1cs_ex 3))))) = Inr ()"
  by (rule session_binding_any_key[OF r1cs_ex_ok sha_ex_ok hmac_ref_ok groth_sb_ex_codec groth_sb_ex_complete
        sb_crs_ex_setup groth_sb_ex_fr])

definition sbp_ex :: SessionBindingProof where
  "sbp_ex = (let c = tsb_new r1cs_ex 5 3 hdr_ex hdr_ex 8 9 (hmac_ref sha_ex (arr32 5) (hmac_input hdr_ex 8))
       (hmac_ref sha_ex (arr32 5) (hmac_input hdr_ex 9)); ser = (\<lambda>x. arr32 (of_nat (fr_nat x)))
     in \<lparr> sbp_groth16_bytes = [], sbp_k_mac_commitment_bytes = ser (tsb_k_mac_commitment_fe c),
          sbp_rand_binding_bytes = ser (tsb_rand_binding_fe c), mac_commitment_q_bytes = ser (mac_commitment_q_fe c),
          mac_commitment_r_bytes = ser (mac_commitment_r_fe c) \<rparr>)"

lemma sbp_ex_verifies:
  "session_binding_verify groth_sb_ex (sb_pvk sb_crs_ex) sbp_ex (sbp_k_mac_commitment_bytes sbp_ex) = Inr ()"
proof -
  let ?c = "tsb_new r1cs_ex 5 3 hdr_ex hdr_ex 8 9 (hmac_ref sha_ex (arr32 5) (hmac_input hdr_ex 8))
      (hmac_ref sha_ex (arr32 5) (hmac_input hdr_ex 9))"
  have "tsb_satisfied r1cs_ex ?c"
    by (simp add: tsb_satisfied_iff[OF r1cs_ex_ok sha_ex_ok hmac_ref_ok] tsb_relation_def tsb_new_def Let_def)
  then have "verify_with_processed_vk groth_sb_ex (sb_pvk sb_crs_ex) (tsb_public_inputs ?c) () = Inr True"
    by (auto simp: groth_sb_ex_def)
  moreover have "pf_deserialize groth_sb_ex [] = Inr ()" by (simp add: groth_sb_ex_def groth_ex_def)
  ultimately show ?thesis
    unfolding session_binding_verify_eq_Inr sbp_ex_def Let_def by (simp add: groth_sb_ex_fr tsb_public_inputs_def)
qed

theorem session_binding_sound_witness:
  "session_binding_verify groth_sb_ex (sb_pvk sb_crs_ex) sbp_ex (sbp_k_mac_commitment_bytes sbp_ex) = Inr () \<and>
   (\<exists>r k hq qh hr rh. fr_deserialize groth_sb_ex (sbp_rand_binding_bytes sbp_ex) = Inr r \<and>
    fr_deserialize groth_sb_ex (sbp_k_mac_commitment_bytes sbp_ex) = Inr (k_mac_commitment r1cs_ex k r) \<and>
    fr_deserialize groth_sb_ex (mac_commitment_q_bytes sbp_ex) =
      Inr (fr_add r1cs_ex (bytes32_to_fr r1cs_ex (hmac_ref sha_ex (arr32 k) (hmac_input hq qh))) r) \<and>
    fr_deserialize groth_sb_ex (mac_commitment_r_bytes sbp_ex) =
      Inr (fr_add r1cs_ex (bytes32_to_fr r1cs_ex (hmac_ref sha_ex (arr32 k) (hmac_input hr rh))) r))"
proof -
  have "sbp_k_mac_commitment_bytes sbp_ex \<noteq> []" by (simp add: sbp_ex_def Let_def groth_ex_fr(2))
  from session_binding_sound[OF r1cs_ex_ok sha_ex_ok hmac_ref_ok groth_sb_ex_sound sb_crs_ex_setup sbp_ex_verifies this]
  show ?thesis using sbp_ex_verifies by blast
qed

end
