(* ===== verification/Spec2Isabelle.thy ===== *)
theory Spec2Isabelle
  imports Sqlite_Store Randomness Registry Envelope Coordinator Tcp_Transport In_Memory_Transport Handshake_Binding Dkg_Ceremony
    Onchain Deco Co_Snark_Split Session_Binding
begin

text \<open>
  \<^bold>\<open>Verification of a collusion-resistant TLS attestation system.\<close>

  The program (crates under \<open>src/crates\<close>) attests statements about TLS sessions.  A \<^emph>\<open>coordinator\<close> runs an
  attestation session: it fixes a session context, obtains session randomness, lets an attestation engine commit to
  query and response, and asks a quorum of \<^emph>\<open>auxiliary verifiers\<close> for a threshold signature over the digest of
  the resulting envelope.  Signatures come from Ed25519 keys (the prototype path) or from FROST key shares
  (the distributed path), which a \<^emph>\<open>key generation ceremony\<close> produces among the verifiers.  A \<^emph>\<open>registry\<close> says
  who may take part.  A \<^emph>\<open>co-SNARK proof\<close> shows that the MAC key of the session was derived as TLS 1.2 prescribes, and
  a finished attestation can be brought into an on-chain format.

  \<^bold>\<open>Conventions.\<close>  An array of \<open>n\<close> bytes is a word of \<open>8 n\<close> bits in big-endian order, other byte strings are lists of
  8-bit words; \<open>u16\<close>, \<open>u32\<close> and \<open>u64\<close> are words of their width, so additions wrap as in release builds; \<open>usize\<close>
  is \<open>nat\<close>.  A \<open>Result\<close> is a sum with the error on the left; a panic is an error constructor of its own or the
  outer \<open>None\<close>.  A method with \<open>&mut self\<close> returns its result and the new state; an error keeps the state reached.
  A definition whose name ends in \<open>_hasher\<close> is the sequence of updates that the function of the same structure feeds
  to the canonical hasher.  Where many calls thread a state, \<open>Actions\<close> has the combinators and a weakest-precondition calculus for
  them.  A \<open>HashMap\<close> is a map or an association list; where the iteration order can be observed it is a
  parameter, and the theorems hold for every order.

  \<^bold>\<open>Code outside the repository\<close> is a parameter, and what the program relies on is a named hypothesis.  SHA-256
  is the function \<open>H\<close>; nothing is assumed of it where only binding matters, and the conclusion is then
  "the fields agree, or here is a collision"; where the circuit is concerned, \<open>sha_ok\<close> says that it is SHA-256 of
  \<open>sha256_ref\<close> (the round constants are written in upper-case hexadecimal).  The record \<open>ed25519\<close> is
  ed25519-dalek (\<open>ed_ok\<close>: a signature verifies); \<open>frost\<close> is frost-ed25519 (\<open>frost_ok\<close>: an aggregate
  verifies for the message of its package and needs enough signers; \<open>dealer_ok\<close>, \<open>ids_ok\<close>); \<open>dkg\<close> its key
  generation (\<open>dkg_ok\<close>: honest runs agree); \<open>box\<close> is X25519, HKDF and XChaCha20-Poly1305 (\<open>box_ok\<close>); \<open>r1cs\<close> is the
  arkworks constraint system (\<open>r1cs_ok\<close>: the operations on variables have the values they should) and \<open>groth\<close> its Groth16
  (\<open>groth_sound\<close>: an accepted statement has a satisfying assignment of all witnesses; \<open>groth_complete\<close>; \<open>sb_groth\<close>,
  \<open>sb_ksound\<close> and \<open>sb_complete\<close> for the session-binding circuit);
  \<open>serde\<close> is a JSON codec; \<open>dalek\<close> and \<open>dalek_ok\<close> are key parsing and verification on chain.  Clocks, random bytes
  and nonces are arguments.  Each hypothesis has a concrete instance (names ending in \<open>_ex\<close>), which the witnesses use.

  \<^bold>\<open>Theories, by layer.\<close>
  \<^item> \<open>Prelude\<close>: byte encodings, length prefixes, results, collisions, and the locale \<open>binding\<close> (an injective
    preimage makes a digest binding), which every hashed structure of the program interprets.
  \<^item> \<open>Core_Types\<close> (\<open>core/src\<close>): digests, the canonical hasher, identifiers, quorums.  \<open>Transcript\<close>
    (\<open>crypto/src/transcript.rs\<close>).  \<open>Session\<close> (\<open>attestation/src/session.rs\<close>): contexts and the session state machine.
  \<^item> \<open>Session_Store\<close>, \<open>Sqlite_Store\<close> (\<open>storage/src\<close>): the contract of a store as locale \<open>session_store\<close>, the
    in-memory and the SQL implementation, and that they cannot be told apart.
  \<^item> \<open>Threshold\<close>, \<open>Randomness\<close>, \<open>Registry\<close>, \<open>Frost\<close>, \<open>Dvrf\<close> (\<open>crypto/src/threshold.rs\<close>, \<open>randomness.rs\<close>,
    \<open>participant_registry.rs\<close>, \<open>frost_adapter.rs\<close>, \<open>dvrf.rs\<close>): signatures, session randomness, participants, threshold
    signing and the distributed random function.
  \<^item> \<open>Dkg\<close>, \<open>Dkg_Encrypt\<close>, \<open>Dkg_Announce\<close> (\<open>crypto/src/dkg.rs\<close>, \<open>dkg_encrypt.rs\<close>, \<open>dkg_announce.rs\<close>) and \<open>Dkg_Node\<close>,
    \<open>Dkg_Ceremony\<close> (\<open>node/src/dkg_node.rs\<close>): the parts of key generation, sealed round-2 packages, signed
    announcements of encryption keys, the state machine of a participant and the five ceremonies.  \<open>Dkg_Node\<close> has the
    definitions and the step relation \<open>dkg_run\<close> of one node; \<open>Dkg_Ceremony\<close> proves the ceremonies correct.
  \<^item> \<open>Evidence\<close>, \<open>Envelope\<close>, \<open>Dctls\<close>, \<open>Aux_Verify\<close>, \<open>Deco\<close>, \<open>Onchain\<close> (\<open>attestation/src/engine.rs\<close>, \<open>statement.rs\<close>,
    \<open>envelope.rs\<close>, \<open>dctls.rs\<close>, \<open>verify.rs\<close>, \<open>deco_dx_dctls.rs\<close>, \<open>onchain.rs\<close>): packages and envelopes, session
    proofs and their verification, the checks of an auxiliary verifier, DECO sessions, and the on-chain format.
  \<^item> \<open>Sha256_Gadget\<close>, \<open>Tls12_Hmac\<close>, \<open>Hmac_Gadget\<close>, \<open>Tls_Prf_Circuit\<close>, \<open>Co_Snark\<close> (\<open>zk/src\<close>): the gadgets compute
    SHA-256, HMAC and the TLS pseudo-random function, and the circuit is characterised for every assignment of its byte
    witnesses, which are numbered in the order of their allocation (\<open>new_witness_bytes\<close>), so that a variable and a second
    allocation of the same bytes are different witnesses; proofs about the circuit are sound and complete.
    \<open>Co_Snark_Split\<close> (\<open>co_snark_split.rs\<close>): the execution over masked shares agrees with the central one.  \<open>Session_Binding\<close> (\<open>tls_session_binding.rs\<close>): the circuit for the record MACs,
    with what an accepted proof says of the key.
  \<^item> \<open>Messages\<close>, \<open>Codec\<close>, \<open>Signed_Envelope\<close>, \<open>In_Memory_Transport\<close> (\<open>network/src\<close>) and \<open>Tcp_Transport\<close>
    (\<open>node/src/transport.rs\<close>): wire messages, framing, signed frames, and the three socket transports.
  \<^item> \<open>Actions\<close>, \<open>Node_Iface\<close>, \<open>Frost_Aux\<close>, \<open>Coordinator\<close>, \<open>Handshake_Binding\<close> (\<open>node/src\<close>): the auxiliary node with
    its nonce caches, the transport interface, the coordinator's attestation paths, and the handshake binding.

  \<^bold>\<open>Interfaces\<close> are locales, interpreted on the definitions of the model: \<open>binding\<close>, \<open>session_store\<close>,
  \<open>stored_sessions\<close> (what the coordinator proves over any store), \<open>randomness_engine\<close>, \<open>attestation_engine\<close>,
  \<open>dctls_engine\<close>, \<open>nonce_rounds\<close> (a cache in which an entry is consumed at most once; both caches of a node).

  \<^bold>\<open>What is shown.\<close>  Distributed signing returns an envelope only with a valid group signature over its digest, whatever
  the peers do; with a registry, only active participants sign; nonces are used once and shares are bound to
  round 1; sessions go through their phases in order, stores protect against replay; key generation succeeds
  for honest participants, encryption does not change its outcome, and the registry-gated ceremony uses authentic keys
  only; digests bind their fields; accepted handshake proofs come from a pre-master secret with the expected hash.  A group of theorems states behaviour that
  falls short of the comments in the source: repeated signatures fill a quorum, a handshake binding can be
  turned into an approval, replies are accepted from any registered sender, the verifying key of the random function
  is taken from the proof, the two derivations inside the circuit may use different randoms, the time of
  establishment is missing from the handshake binding, session proofs can be transplanted, on-chain verification and DECO verification
  leave parts of their input unbound, the session-binding proof exists for every key, key rotation breaks self-authentication, identifiers wrap beyond 65535
  participants, and two first rounds of the handshake binding race.

  \<^bold>\<open>Termination and bounds.\<close>  No fuel is used: every loop is a terminating function, structurally or by a measure
  (the output length still missing in \<open>tls_prf_loop\<close>, the zero bytes still missing in \<open>pad_zeros\<close>, the bytes left
  in the stream for \<open>read_frames\<close>).  Lengths are hashed as 64-bit words, so binding theorems ask for
  lengths below \<open>2 ^ 64\<close>.

  \<^bold>\<open>Not modelled.\<close>  Sockets, threads, accept loops, time-outs and certificate handling of the transports and TLS
  engines (\<open>tls_engine.rs\<close>, \<open>tls12_session.rs\<close>, \<open>mtls.rs\<close>) are input and output of other packages.  The
  secp256k1 counterparts (\<open>dkg_secp256k1.rs\<close>, \<open>dvrf_secp256k1.rs\<close>, \<open>frost_secp256k1_adapter.rs\<close>,
  \<open>onchain_secp256k1.rs\<close>, and \<open>rc_phase.rs\<close> over them) and the TLS 1.3 session type (\<open>distefano_dx_dctls.rs\<close>)
  repeat the structure of modelled components over other curves and key schedules.  The older MiMC circuits and their
  backends (\<open>zk/src/backend.rs\<close>, \<open>circuit.rs\<close>, \<open>mimc.rs\<close>, \<open>attestation/src/zk_backend.rs\<close>)
  are not on the path of the modelled proofs.  \<open>co_snark_distributed.rs\<close> and the crate
  \<open>co-snark-prover\<close> manage an external prover over a submodule that the repository does not contain.  Binaries,
  benchmarks, test fixtures and the Solidity contracts are left out.
\<close>

section \<open>From the coordinator to the chain\<close>

text \<open>C13. A distributed attestation can be brought on chain.  Whatever the transports do, when the coordinator returns
  an envelope, the attestation extracted with the approval digest of that envelope verifies on chain under the
  group key, before and after a round trip through the ABI encoding, for every statement digest and
  randomness and all thresholds between one and the number of verifiers.\<close>

theorem attestation_reaches_chain:
  assumes "frost_ok F" "dalek_ok F L" "mem_inv m" "mem_get (in_session_id i) m = Inl NotFound" "cn_store C = mem_store"
    and run: "attest_frost_distributed_over_transport H F C i req response ts gk (m, w) = (Inr env, st)"
    and "0 < t" "t \<le> n"
    and a: "a = extract_on_chain_attestation H s d (digest_bytes (approval_signed_digest H (fae_envelope_digest env)))
      (fae_frost_approval env) t n"
  shows "onchain_verify H L a = Inr () \<and> oc_group_verifying_key a = verifying_key_bytes F gk \<and>
    rbind (map_err Inl (abi_decode (abi_encode a))) (\<lambda>b. map_err Inr (onchain_verify H L b)) = Inr ()"
proof -
  obtain m' w' where st: "st = (m', w')" by fastforce
  obtain p ap where p: "prepared H C i req response p" and env: "env = frost_envelope p ap"
    and ap: "verify_signature F ap = Inr ()" "fta_signed_digest ap = ps_signed_digest p"
      "fta_group_verifying_key_bytes ap = verifying_key_bytes F gk"
    using wpD[OF mem_sessions.wp_prepare_distributed[OF assms(3) mem_get_fresh[OF assms(3,4)] assms(5,1)]
        run[unfolded attest_frost_distributed_over_transport_def]]
    by auto
  have "approval_signed_digest H (fae_envelope_digest env) = fta_signed_digest (fae_frost_approval env)"
    "fae_frost_approval env = ap" using p ap(2) by (simp_all add: env frost_envelope_def prepared_def)
  then have "onchain_verify H L a = Inr ()" "oc_group_verifying_key a = verifying_key_bytes F gk"
    using onchain_verify_extracted[OF assms(2) ap(1) assms(7,8)] ap(3) by (simp_all add: a extract_on_chain_attestation_def)
  then show ?thesis by (simp add: abi_decode_encode)
qed

theorem attestation_reaches_chain_witness:
  "\<exists>env st. attest_frost_distributed_over_transport (\<lambda>_. 7) frost_ex coord_ex in_ex ar_ex [1, 2]
      (direct (\<lambda>_. 7) frost_ex r1cs_ex groth_ex (\<lambda>_. Inl []) (\<lambda>_. Inl []) [(1, ni_ex), (2, ni_ex)]) gk_ex (mem_new, heap_ex) =
        (Inr env, st) \<and>
     onchain_verify (\<lambda>_. 7) dalek_ex (extract_on_chain_attestation (\<lambda>_. 7) 1 2
       (digest_bytes (approval_signed_digest (\<lambda>_. 7) (fae_envelope_digest env))) (fae_frost_approval env) 2 3) = Inr ()"
proof -
  let ?ts = "direct (\<lambda>_. 7) frost_ex r1cs_ex groth_ex (\<lambda>_. Inl []) (\<lambda>_. Inl []) [(1, ni_ex), (2, ni_ex)]"
  obtain r st where run: "attest_frost_distributed_over_transport (\<lambda>_. 7) frost_ex coord_ex in_ex ar_ex [1, 2]
      ?ts gk_ex (mem_new, heap_ex) = (r, st)"
    by (metis surj_pair)
  have C: "cn_store coord_ex = mem_store" by (simp add: coord_ex_def)
  have "\<not> (\<exists>p. prepared (\<lambda>_. 7) coord_ex in_ex ar_ex [1, 2] p \<and>
      \<not> signing_succeeds frost_ex coord_ex ?ts gk_ex registry_GENESIS p heap_ex)"
    using signing_ex by blast
  then obtain env where env: "r = Inr env"
    using wpD[OF mem_sessions.wp_prepare_distributed[OF mem_inv_new mem_get_fresh[OF mem_inv_new mem_get_new] C frost_ex_ok]
        run[unfolded attest_frost_distributed_over_transport_def]] engines_ex[of "[1, 2]"]
    by (cases r) auto
  from attestation_reaches_chain[OF frost_ex_ok dalek_ex_ok mem_inv_new mem_get_new C run[unfolded env] _ _ refl, of 2 3 1 2]
  show ?thesis using run env by auto
qed

end
